(* ===== verification/Sane_Prelude.thy ===== *)
theory Sane_Prelude
  imports Main "HOL-Library.Word"
begin

text \<open>
  Shared ground of the development: the machine types of the C code, the pieces of the
  C library that several components call (\<open>strlen\<close>, \<open>strcmp\<close>, \<open>strchr\<close>,
  \<open>strncasecmp\<close>, \<open>isspace\<close>, \<open>strtol\<close>), memory blocks as byte lists, and the lemma collections
  the component theories extend.  A block of memory is the list of its bytes; reading or
  writing outside of it is a value of its own (\<open>None\<close>), never an arbitrary result.
\<close>

section \<open>Machine types\<close>

type_synonym byte = "8 word"
type_synonym sane_word = "32 word"
type_synonym size_t = "64 word"

text \<open>A \<open>char *\<close>: \<open>None\<close> is the null pointer, \<open>Some b\<close> the block pointed to.\<close>

type_synonym c_string = "byte list option"

named_theorems block_simps \<open>rewriting of memory blocks: lookup, update, slices\<close>
named_theorems cstr_simps \<open>C strings inside memory blocks\<close>

text \<open>\<open>enum\<close> and macro constants are words; a C enum variable may hold any word.\<close>

definition c_div :: "int \<Rightarrow> int \<Rightarrow> int" where
  \<comment> \<open>C's \<open>/\<close> on \<open>int\<close>: truncation towards zero\<close>
  "c_div a b = sgn a * sgn b * (\<bar>a\<bar> div \<bar>b\<bar>)"

lemma c_div_pos [simp]: "0 \<le> a \<Longrightarrow> 0 < b \<Longrightarrow> c_div a b = a div b"
  by (cases "a = 0") (auto simp: c_div_def)

section \<open>Bytes and characters\<close>

abbreviation (input) NUL :: byte where "NUL \<equiv> 0"

definition is_space :: "byte \<Rightarrow> bool" where
  \<comment> \<open>\<open>isspace\<close> in the C locale: blank, and the codes 9 to 13\<close>
  "is_space b \<longleftrightarrow> b = 32 \<or> (9 \<le> b \<and> b \<le> 13)"

definition is_digit :: "byte \<Rightarrow> bool" where
  "is_digit b \<longleftrightarrow> 48 \<le> b \<and> b \<le> 57"

definition to_lower :: "byte \<Rightarrow> byte" where
  \<comment> \<open>\<open>tolower\<close> in the C locale\<close>
  "to_lower b = (if 65 \<le> b \<and> b \<le> 90 then b + 32 else b)"

definition digit_val :: "byte \<Rightarrow> int" where
  "digit_val b = int (unat b) - 48"

lemma is_space_NUL [simp]: "\<not> is_space NUL"
  by (simp add: is_space_def)

lemma is_digit_NUL [simp]: "\<not> is_digit NUL"
  by (simp add: is_digit_def)

lemma to_lower_NUL [simp]: "to_lower b = NUL \<longleftrightarrow> b = NUL"
proof
  assume "to_lower b = NUL"
  then show "b = NUL"
  proof (cases "65 \<le> b \<and> b \<le> 90")
    case True
    with \<open>to_lower b = NUL\<close> have "b = - 32"
      by (simp add: to_lower_def eq_neg_iff_add_eq_0)
    with True show ?thesis
      by (simp add: word_le_nat_alt)
  qed (simp add: to_lower_def)
qed (simp add: to_lower_def)

definition ascii :: "string \<Rightarrow> byte list" where
  \<comment> \<open>a string literal of the source, as bytes without the terminator\<close>
  "ascii s = map (\<lambda>c. word_of_nat (of_char c)) s"

section \<open>Memory blocks\<close>

definition blk_get :: "'a list \<Rightarrow> nat \<Rightarrow> 'a option" where
  "blk_get b i = (if i < length b then Some (b ! i) else None)"

definition blk_set :: "'a list \<Rightarrow> nat \<Rightarrow> 'a \<Rightarrow> 'a list option" where
  "blk_set b i x = (if i < length b then Some (b[i := x]) else None)"

definition blit :: "'a list \<Rightarrow> nat \<Rightarrow> 'a list \<Rightarrow> 'a list" where
  \<comment> \<open>\<open>memcpy (dst + i, src, n)\<close> for a source of \<open>n\<close> elements; bounds are the caller's\<close>
  "blit dst i src = take i dst @ src @ drop (i + length src) dst"

definition slice :: "nat \<Rightarrow> nat \<Rightarrow> 'a list \<Rightarrow> 'a list" where
  \<comment> \<open>the elements from \<open>i\<close> up to, not including, \<open>j\<close>\<close>
  "slice i j xs = take (j - i) (drop i xs)"

lemma length_blit [simp]: "i + length src \<le> length dst \<Longrightarrow> length (blit dst i src) = length dst"
  by (simp add: blit_def)

lemma length_slice [simp]: "j \<le> length xs \<Longrightarrow> length (slice i j xs) = j - i"
  by (simp add: slice_def)

lemma slice_self [simp]: "slice i i xs = []"
  by (simp add: slice_def)

lemma slice_blit_same [block_simps]:
  "i + length src \<le> length dst \<Longrightarrow> slice i (i + length src) (blit dst i src) = src"
  by (simp add: slice_def blit_def)

lemma take_blit [block_simps]:
  "i + length src \<le> length dst \<Longrightarrow> take (i + length src) (blit dst i src) = take i dst @ src"
  by (simp add: blit_def)

lemma slice_append_split:
  "i \<le> j \<Longrightarrow> j \<le> k \<Longrightarrow> slice i k xs = slice i j xs @ slice j k xs"
proof -
  assume ij: "i \<le> j" and jk: "j \<le> k"
  have "take (j - i + (k - j)) (drop i xs)
      = take (j - i) (drop i xs) @ take (k - j) (drop (j - i) (drop i xs))"
    by (rule take_add)
  with ij jk show ?thesis
    by (simp add: slice_def)
qed

lemma slice_Suc [block_simps]:
  "i < j \<Longrightarrow> j \<le> length xs \<Longrightarrow> slice i j xs = xs ! i # slice (Suc i) j xs"
  by (simp add: slice_def Cons_nth_drop_Suc [symmetric] take_Cons')

section \<open>C strings in blocks\<close>

definition c_str :: "byte list \<Rightarrow> byte list option" where
  \<comment> \<open>the characters before the first NUL of the block; \<open>None\<close> when a scan for the NUL
      would leave the block\<close>
  "c_str b = (if NUL \<in> set b then Some (takeWhile (\<lambda>x. x \<noteq> NUL) b) else None)"

definition c_strlen :: "byte list \<Rightarrow> nat option" where
  "c_strlen b = map_option length (c_str b)"

definition mk_cstr :: "byte list \<Rightarrow> byte list" where
  \<comment> \<open>the block of \<open>strdup\<close>: the characters and their terminator\<close>
  "mk_cstr s = s @ [NUL]"

definition nul_free :: "byte list \<Rightarrow> bool" where
  "nul_free s \<longleftrightarrow> NUL \<notin> set s"

lemma c_str_mk_cstr [simp, cstr_simps]: "nul_free s \<Longrightarrow> c_str (mk_cstr s) = Some s"
proof -
  assume "nul_free s"
  then have "takeWhile (\<lambda>x. x \<noteq> NUL) (s @ [NUL]) = s"
    unfolding nul_free_def by (induction s) auto
  then show ?thesis
    by (simp add: c_str_def mk_cstr_def)
qed

lemma nul_free_c_str: "c_str b = Some s \<Longrightarrow> nul_free s"
  by (auto simp: c_str_def nul_free_def dest: set_takeWhileD split: if_splits)

lemma c_str_length: "c_str b = Some s \<Longrightarrow> length s < length b"
proof -
  assume s: "c_str b = Some s"
  then have "NUL \<in> set b" and eq: "s = takeWhile (\<lambda>x. x \<noteq> NUL) b"
    by (auto simp: c_str_def split: if_splits)
  then obtain x where "x \<in> set b" "\<not> x \<noteq> NUL"
    by blast
  then have "takeWhile (\<lambda>x. x \<noteq> NUL) b \<noteq> b"
    by (metis (mono_tags, lifting) set_takeWhileD)
  then show ?thesis
    unfolding eq by (metis length_takeWhile_le le_neq_implies_less takeWhile_eq_take take_all_iff)
qed

lemma c_str_prefix:
  assumes "c_str b = Some s"
  shows "take (length s) b = s" and "b ! length s = NUL"
proof -
  have eq: "s = takeWhile (\<lambda>x. x \<noteq> NUL) b"
    using assms by (auto simp: c_str_def split: if_splits)
  then show "take (length s) b = s"
    by (metis takeWhile_eq_take)
  have "length s < length b"
    by (rule c_str_length [OF assms])
  then show "b ! length s = NUL"
    unfolding eq using nth_length_takeWhile [of "\<lambda>x. x \<noteq> NUL" b] by simp
qed

definition strncasecmp_eq :: "byte list \<Rightarrow> byte list \<Rightarrow> nat \<Rightarrow> bool" where
  \<comment> \<open>\<open>strncasecmp (a, b, n) == 0\<close> for the strings \<open>a\<close> and \<open>b\<close>\<close>
  "strncasecmp_eq a b n \<longleftrightarrow> map to_lower (take n (mk_cstr a)) = map to_lower (take n (mk_cstr b))"

definition strcasecmp_eq :: "byte list \<Rightarrow> byte list \<Rightarrow> bool" where
  "strcasecmp_eq a b \<longleftrightarrow> map to_lower a = map to_lower b"

definition strchr_idx :: "byte list \<Rightarrow> byte \<Rightarrow> nat option" where
  \<comment> \<open>\<open>strchr\<close> as the index of the first occurrence in the string\<close>
  "strchr_idx s c = (if c \<in> set s then Some (length (takeWhile (\<lambda>x. x \<noteq> c) s)) else None)"

lemma strchr_idx_Some:
  "strchr_idx s c = Some i \<Longrightarrow> i < length s \<and> s ! i = c \<and> c \<notin> set (take i s)"
proof -
  assume i: "strchr_idx s c = Some i"
  then have mem: "c \<in> set s" and eq: "i = length (takeWhile (\<lambda>x. x \<noteq> c) s)"
    by (auto simp: strchr_idx_def split: if_splits)
  from mem have lt: "length (takeWhile (\<lambda>x. x \<noteq> c) s) < length s"
    by (induction s) auto
  have "s ! length (takeWhile (\<lambda>x. x \<noteq> c) s) = c"
    using nth_length_takeWhile [OF lt] by simp
  moreover have "c \<notin> set (take (length (takeWhile (\<lambda>x. x \<noteq> c) s)) s)"
    by (metis (mono_tags) set_takeWhileD takeWhile_eq_take)
  ultimately show ?thesis
    using lt eq by simp
qed

lemma strchr_idx_append:
  assumes "c \<notin> set s"
  shows "strchr_idx (s @ c # r) c = Some (length s)"
proof -
  have "takeWhile (\<lambda>x. x \<noteq> c) (s @ c # r) = s" using assms by (subst takeWhile_append2) auto
  then show ?thesis by (simp add: strchr_idx_def)
qed

fun strstr_after :: "byte list \<Rightarrow> byte list \<Rightarrow> byte list option" where
  \<comment> \<open>what follows the first occurrence of a string\<close>
  "strstr_after s pat =
     (if take (length pat) s = pat then Some (drop (length pat) s)
      else case s of [] \<Rightarrow> None | c # cs \<Rightarrow> strstr_after cs pat)"

declare strstr_after.simps [simp del]

section \<open>Numbers\<close>

definition clamp_long :: "int \<Rightarrow> int" where
  "clamp_long v = max (- (2 ^ 63)) (min (2 ^ 63 - 1) v)"

definition c_strtol10 :: "byte list \<Rightarrow> int \<times> bool" where
  \<comment> \<open>\<open>strtol (s, &end, 10)\<close>: the value, and whether \<open>end != s\<close>\<close>
  "c_strtol10 s =
     (let t = dropWhile is_space s;
          neg = (t \<noteq> [] \<and> hd t = 45);
          u = (if t \<noteq> [] \<and> (hd t = 45 \<or> hd t = 43) then tl t else t);
          ds = takeWhile is_digit u;
          v = foldl (\<lambda>a d. 10 * a + digit_val d) 0 ds
      in if ds = [] then (0, False) else (clamp_long (if neg then - v else v), True))"

definition to_c_int :: "int \<Rightarrow> int" where
  \<comment> \<open>the assignment of a \<open>long\<close> to an \<open>int\<close>\<close>
  "to_c_int v = sint (word_of_int v :: 32 word)"

section \<open>Signed words\<close>

lemma sint_word_of_int_32:
  "- (2 ^ 31) \<le> k \<Longrightarrow> k < 2 ^ 31 \<Longrightarrow> sint (word_of_int k :: 32 word) = k"
  by (simp add: sint_sbintrunc' signed_take_bit_int_eq_self)

lemma word_of_int_sint [simp]: "word_of_int (sint x) = (x :: 32 word)"
  by simp

lemma uint_sint_nonneg: "0 \<le> sint (x :: 32 word) \<Longrightarrow> uint x = sint x"
  using sint_lt [of x] by (simp add: uint_sint take_bit_int_eq_self)
lemma sint_range_32: "- (2 ^ 31) \<le> sint (x :: 32 word)" "sint (x :: 32 word) < 2 ^ 31"
  using sint_ge [of x] sint_lt [of x] by simp_all

section \<open>Lists\<close>

lemma set_tl_conv: "x \<in> set (tl ws) \<longleftrightarrow> (\<exists>j. 1 \<le> j \<and> j < length ws \<and> ws ! j = x)"
proof (cases ws)
  case (Cons a l)
  have "(\<exists>i < length l. l ! i = x) \<longleftrightarrow> (\<exists>j. 1 \<le> j \<and> j < Suc (length l) \<and> (a # l) ! j = x)"
  proof
    assume "\<exists>i < length l. l ! i = x"
    then obtain i where "i < length l" "l ! i = x" by blast
    then show "\<exists>j. 1 \<le> j \<and> j < Suc (length l) \<and> (a # l) ! j = x"
      by (intro exI [of _ "Suc i"]) simp
  next
    assume "\<exists>j. 1 \<le> j \<and> j < Suc (length l) \<and> (a # l) ! j = x"
    then obtain j where "1 \<le> j" "j < Suc (length l)" "(a # l) ! j = x" by blast
    then show "\<exists>i < length l. l ! i = x"
      by (cases j) auto
  qed
  with Cons show ?thesis by (simp add: in_set_conv_nth)
qed simp

end
