(* ===== verification/Sane_Types.thy ===== *)
theory Sane_Types
  imports Sane_Prelude
begin

text \<open>
  The data of the SANE interface, \<^verbatim>\<open>include/sane/sane.h\<close>: status codes, value types,
  ranges, option descriptors, devices, parameters and actions.  An enum of the header is
  transmitted and stored as an \<open>int\<close>, so a field of an enum type is a 32-bit word here and
  the enumerators are constants.  A pointer is an option, the union of constraint pointers
  a datatype with one constructor per member.
\<close>

unbundle bit_operations_syntax

section \<open>Enumerators\<close>

abbreviation (input) SANE_FALSE :: sane_word where "SANE_FALSE \<equiv> 0"
abbreviation (input) SANE_TRUE :: sane_word where "SANE_TRUE \<equiv> 1"

abbreviation (input) SANE_STATUS_GOOD :: sane_word where "SANE_STATUS_GOOD \<equiv> 0"
abbreviation (input) SANE_STATUS_UNSUPPORTED :: sane_word where "SANE_STATUS_UNSUPPORTED \<equiv> 1"
abbreviation (input) SANE_STATUS_CANCELLED :: sane_word where "SANE_STATUS_CANCELLED \<equiv> 2"
abbreviation (input) SANE_STATUS_DEVICE_BUSY :: sane_word where "SANE_STATUS_DEVICE_BUSY \<equiv> 3"
abbreviation (input) SANE_STATUS_INVAL :: sane_word where "SANE_STATUS_INVAL \<equiv> 4"
abbreviation (input) SANE_STATUS_EOF :: sane_word where "SANE_STATUS_EOF \<equiv> 5"
abbreviation (input) SANE_STATUS_JAMMED :: sane_word where "SANE_STATUS_JAMMED \<equiv> 6"
abbreviation (input) SANE_STATUS_NO_DOCS :: sane_word where "SANE_STATUS_NO_DOCS \<equiv> 7"
abbreviation (input) SANE_STATUS_COVER_OPEN :: sane_word where "SANE_STATUS_COVER_OPEN \<equiv> 8"
abbreviation (input) SANE_STATUS_IO_ERROR :: sane_word where "SANE_STATUS_IO_ERROR \<equiv> 9"
abbreviation (input) SANE_STATUS_NO_MEM :: sane_word where "SANE_STATUS_NO_MEM \<equiv> 10"
abbreviation (input) SANE_STATUS_ACCESS_DENIED :: sane_word where "SANE_STATUS_ACCESS_DENIED \<equiv> 11"

abbreviation (input) SANE_TYPE_BOOL :: sane_word where "SANE_TYPE_BOOL \<equiv> 0"
abbreviation (input) SANE_TYPE_INT :: sane_word where "SANE_TYPE_INT \<equiv> 1"
abbreviation (input) SANE_TYPE_FIXED :: sane_word where "SANE_TYPE_FIXED \<equiv> 2"
abbreviation (input) SANE_TYPE_STRING :: sane_word where "SANE_TYPE_STRING \<equiv> 3"
abbreviation (input) SANE_TYPE_BUTTON :: sane_word where "SANE_TYPE_BUTTON \<equiv> 4"
abbreviation (input) SANE_TYPE_GROUP :: sane_word where "SANE_TYPE_GROUP \<equiv> 5"

abbreviation (input) SANE_CONSTRAINT_NONE :: sane_word where "SANE_CONSTRAINT_NONE \<equiv> 0"
abbreviation (input) SANE_CONSTRAINT_RANGE :: sane_word where "SANE_CONSTRAINT_RANGE \<equiv> 1"
abbreviation (input) SANE_CONSTRAINT_WORD_LIST :: sane_word where "SANE_CONSTRAINT_WORD_LIST \<equiv> 2"
abbreviation (input) SANE_CONSTRAINT_STRING_LIST :: sane_word where "SANE_CONSTRAINT_STRING_LIST \<equiv> 3"

abbreviation (input) SANE_ACTION_GET_VALUE :: sane_word where "SANE_ACTION_GET_VALUE \<equiv> 0"
abbreviation (input) SANE_ACTION_SET_VALUE :: sane_word where "SANE_ACTION_SET_VALUE \<equiv> 1"
abbreviation (input) SANE_ACTION_SET_AUTO :: sane_word where "SANE_ACTION_SET_AUTO \<equiv> 2"

abbreviation (input) SANE_INFO_INEXACT :: sane_word where "SANE_INFO_INEXACT \<equiv> 1"
abbreviation (input) SANE_INFO_RELOAD_OPTIONS :: sane_word where "SANE_INFO_RELOAD_OPTIONS \<equiv> 2"
abbreviation (input) SANE_INFO_RELOAD_PARAMS :: sane_word where "SANE_INFO_RELOAD_PARAMS \<equiv> 4"

definition sane_version_code :: "sane_word \<Rightarrow> sane_word \<Rightarrow> sane_word \<Rightarrow> sane_word" where
  "sane_version_code major minor build =
     push_bit 24 (major AND 0xff) OR push_bit 16 (minor AND 0xff) OR (build AND 0xffff)"

definition sane_version_major :: "sane_word \<Rightarrow> sane_word" where
  \<comment> \<open>the shift of a possibly negative \<open>int\<close> is arithmetic; the mask makes it immaterial\<close>
  "sane_version_major code = drop_bit 24 code AND 0xff"

definition sane_version_minor :: "sane_word \<Rightarrow> sane_word" where
  "sane_version_minor code = drop_bit 16 code AND 0xff"

definition sane_version_build :: "sane_word \<Rightarrow> sane_word" where
  "sane_version_build code = code AND 0xffff"

section \<open>Structures\<close>

record sane_device =
  dev_name :: c_string
  dev_vendor :: c_string
  dev_model :: c_string
  dev_type :: c_string

record sane_range =
  rng_min :: sane_word
  rng_max :: sane_word
  rng_quant :: sane_word

datatype sane_constraint =
    Constr_Unset
  | Constr_Range "sane_range option"
  | Constr_Words "sane_word list option"
  | Constr_Strings "c_string list option"

record sane_option_descriptor =
  opt_name :: c_string
  opt_title :: c_string
  opt_desc :: c_string
  opt_type :: sane_word
  opt_unit :: sane_word
  opt_size :: sane_word
  opt_cap :: sane_word
  opt_constraint_type :: sane_word
  opt_constraint :: sane_constraint

record sane_parameters =
  par_format :: sane_word
  par_last_frame :: sane_word
  par_bytes_per_line :: sane_word
  par_pixels_per_line :: sane_word
  par_lines :: sane_word
  par_depth :: sane_word

text \<open>Reading a member of the union: another member's pointer counts as null.\<close>

fun constraint_range :: "sane_constraint \<Rightarrow> sane_range option" where
  "constraint_range (Constr_Range r) = r"
| "constraint_range _ = None"

fun constraint_words :: "sane_constraint \<Rightarrow> sane_word list option" where
  "constraint_words (Constr_Words ws) = ws"
| "constraint_words _ = None"

fun constraint_strings :: "sane_constraint \<Rightarrow> c_string list option" where
  "constraint_strings (Constr_Strings ss) = ss"
| "constraint_strings _ = None"

text \<open>The contents of zeroed memory (\<open>memset (p, 0, sizeof (*p))\<close>) per structure.\<close>

definition zero_device :: sane_device where
  "zero_device = \<lparr>dev_name = None, dev_vendor = None, dev_model = None, dev_type = None\<rparr>"

definition zero_range :: sane_range where
  "zero_range = \<lparr>rng_min = 0, rng_max = 0, rng_quant = 0\<rparr>"

definition zero_descriptor :: sane_option_descriptor where
  "zero_descriptor = \<lparr>opt_name = None, opt_title = None, opt_desc = None, opt_type = 0,
     opt_unit = 0, opt_size = 0, opt_cap = 0, opt_constraint_type = 0,
     opt_constraint = Constr_Unset\<rparr>"

definition zero_parameters :: sane_parameters where
  "zero_parameters = \<lparr>par_format = 0, par_last_frame = 0, par_bytes_per_line = 0,
     par_pixels_per_line = 0, par_lines = 0, par_depth = 0\<rparr>"

section \<open>The version code\<close>

lemma mask_8_32: "(0xff :: sane_word) = mask 8"
  by (simp add: mask_eq_exp_minus_1)

lemma mask_16_32: "(0xffff :: sane_word) = mask 16"
  by (simp add: mask_eq_exp_minus_1)

lemmas version_defs = sane_version_code_def sane_version_major_def sane_version_minor_def
  sane_version_build_def mask_8_32 mask_16_32

lemma sane_version_major_code:
  "sane_version_major (sane_version_code major minor build) = major AND 0xff"
  unfolding version_defs by (rule bit_word_eqI) (auto simp: bit_simps)

lemma sane_version_minor_code:
  "sane_version_minor (sane_version_code major minor build) = minor AND 0xff"
  unfolding version_defs by (rule bit_word_eqI) (auto simp: bit_simps)

lemma sane_version_build_code:
  "sane_version_build (sane_version_code major minor build) = build AND 0xffff"
  unfolding version_defs by (rule bit_word_eqI) (auto simp: bit_simps)

end
