(* ===== verification/Wire.thy ===== *)
theory Wire
  imports Sane_Types
begin

text \<open>
  The wire of \<^verbatim>\<open>include/sane/sanei_wire.h\<close> and the buffer management of
  \<^verbatim>\<open>sanei/sanei_wire.c\<close> (\<open>sanei_w_space\<close>, \<open>flush\<close>, \<open>sanei_w_set_dir\<close>,
  \<open>sanei_w_init\<close>, \<open>sanei_w_exit\<close>).

  A wire value holds the fields of \<open>struct Wire\<close>; the buffer is its memory block
  (\<open>w_mem\<close>, empty for a null \<open>start\<close>) and \<open>curr\<close> and \<open>end\<close> are offsets into it.  The four
  codec pointers are always set together, so they are one selector.  The operating system
  behind \<open>io.read\<close>, \<open>io.write\<close> and \<open>malloc\<close> is an explicit part of the state: a script of
  what each coming \<open>read\<close> and \<open>write\<close> does, and of which \<open>malloc\<close> fails; \<open>w_sent\<close> collects
  the bytes written.  \<open>w_fault\<close> becomes true when the code reads or writes outside of a
  memory block or through a null pointer, and stays true.  \<open>w_junk\<close> is what an uninitialised
  local word of the C code holds.
\<close>

section \<open>The state\<close>

datatype wire_direction = WIRE_ENCODE | WIRE_DECODE | WIRE_FREE

datatype codec_sel = Codec_None | Codec_Bin | Codec_Ascii

text \<open>
  A read event is data that has arrived (the empty list is the end of the stream) or an
  error with its \<open>errno\<close>; after the last event the stream has ended.  A write event accepts
  at most the given number of bytes or fails; after the last event everything is accepted.
\<close>

datatype read_ev = RData "byte list" | RError int

datatype write_ev = WAccept nat | WError int

record wire =
  w_version :: int
  w_direction :: wire_direction
  w_status :: int
  w_allocated :: sane_word
  w_codec :: codec_sel
  w_size :: nat
  w_mem :: "byte list"
  w_curr :: nat
  w_end :: nat
  w_rd :: "read_ev list"
  w_wr :: "write_ev list"
  w_sent :: "byte list"
  w_malloc :: "bool list"
  w_junk :: sane_word
  w_fault :: bool

abbreviation (input) EINVAL :: int where "EINVAL \<equiv> 22"
abbreviation (input) ENOMEM :: int where "ENOMEM \<equiv> 12"
abbreviation (input) MAX_MEM :: nat where "MAX_MEM \<equiv> 1048576"

definition wfault :: "wire \<Rightarrow> wire" where
  "wfault w = w\<lparr>w_fault := True\<rparr>"

section \<open>System calls\<close>

fun io_read :: "nat \<Rightarrow> read_ev list \<Rightarrow> (int + byte list) \<times> read_ev list" where
  \<comment> \<open>\<open>read (fd, buf, n)\<close>: at most \<open>n\<close> bytes of the data that has arrived\<close>
  "io_read n [] = (Inr [], [])"
| "io_read n (RError e # evs) = (Inl e, evs)"
| "io_read n (RData bs # evs) =
     (if length bs \<le> n then (Inr bs, evs) else (Inr (take n bs), RData (drop n bs) # evs))"

fun io_send :: "write_ev list \<Rightarrow> byte list \<Rightarrow> nat \<Rightarrow> int option \<times> nat \<times> write_ev list" where
  \<comment> \<open>the loop \<open>while (nbytes > 0) write (...)\<close>: the error, if one ended it, the number of
      bytes written (\<open>n\<close> before this call) and the remaining events\<close>
  "io_send evs [] n = (None, n, evs)"
| "io_send [] (b # bs) n = (None, n + length (b # bs), [])"
| "io_send (WError e # evs) (b # bs) n = (Some e, n, evs)"
| "io_send (WAccept k # evs) (b # bs) n =
     io_send evs (drop k (b # bs)) (n + min k (length (b # bs)))"

function io_recv :: "nat \<Rightarrow> nat \<Rightarrow> read_ev list \<Rightarrow> byte list \<Rightarrow> int option \<times> read_ev list \<times> byte list" where
  \<comment> \<open>the loop \<open>do read (...) while (left_over < howmuch)\<close>; \<open>got\<close> is the valid part of the buffer\<close>
  "io_recv sz howmuch evs got =
     (case io_read (sz - length got) evs of
        (Inl e, evs') \<Rightarrow> (Some e, evs', got)
      | (Inr bs, evs') \<Rightarrow>
          if bs = [] then (Some EINVAL, evs', got)
          else if length (got @ bs) < howmuch then io_recv sz howmuch evs' (got @ bs)
          else (None, evs', got @ bs))"
  by pat_completeness auto
termination
  by (relation "measure (\<lambda>(sz, howmuch, evs, got). howmuch - length got)")
    (auto simp flip: length_greater_0_conv)

declare io_recv.simps [simp del]

definition wmalloc :: "wire \<Rightarrow> wire \<times> bool" where
  \<comment> \<open>\<open>malloc\<close>, and whether it returned memory\<close>
  "wmalloc w = (case w_malloc w of [] \<Rightarrow> (w, True) | b # bs \<Rightarrow> (w\<lparr>w_malloc := bs\<rparr>, b))"

section \<open>sanei_w_space\<close>

definition space_encode :: "wire \<Rightarrow> wire" where
  "space_encode w =
     (let nbytes = w_curr w;
          data = take nbytes (w_mem w);
          w1 = (if length (w_mem w) < nbytes then wfault w else w)
      in case io_send (w_wr w) data 0 of
           (Some e, n, evs) \<Rightarrow>
             w1\<lparr>w_curr := n, w_wr := evs, w_sent := w_sent w @ take n data, w_status := e\<rparr>
         | (None, n, evs) \<Rightarrow>
             w1\<lparr>w_curr := 0, w_end := w_size w, w_wr := evs, w_sent := w_sent w @ data\<rparr>)"

definition space_decode :: "wire \<Rightarrow> nat \<Rightarrow> wire" where
  "space_decode w howmuch =
     (if w_end w < w_curr w then w
      else let got0 = slice (w_curr w) (w_end w) (w_mem w);
               (err, evs, got) = io_recv (w_size w) howmuch (w_rd w) got0;
               w1 = (if length (w_mem w) < length got then wfault w else w)
           in w1\<lparr>w_mem := blit (w_mem w) 0 got, w_curr := 0, w_end := length got, w_rd := evs,
                 w_status := (case err of Some e \<Rightarrow> e | None \<Rightarrow> w_status w)\<rparr>)"

definition sanei_w_space :: "wire \<Rightarrow> nat \<Rightarrow> wire" where
  "sanei_w_space w howmuch =
     (if w_status w \<noteq> 0 then w
      else if w_end w < w_curr w + howmuch then
        (case w_direction w of
           WIRE_ENCODE \<Rightarrow> space_encode w
         | WIRE_DECODE \<Rightarrow> space_decode w howmuch
         | WIRE_FREE \<Rightarrow> w)
      else w)"

section \<open>Bytes of the buffer\<close>

definition wput :: "byte \<Rightarrow> wire \<Rightarrow> wire" where
  \<comment> \<open>\<open>*w->buffer.curr++ = b\<close>\<close>
  "wput b w =
     (case blk_set (w_mem w) (w_curr w) b of
        Some m \<Rightarrow> w\<lparr>w_mem := m, w_curr := Suc (w_curr w)\<rparr>
      | None \<Rightarrow> (wfault w)\<lparr>w_curr := Suc (w_curr w)\<rparr>)"

definition wputs :: "byte list \<Rightarrow> wire \<Rightarrow> wire" where
  "wputs bs w = fold wput bs w"

definition wpeek :: "wire \<Rightarrow> wire \<times> byte" where
  \<comment> \<open>\<open>*w->buffer.curr\<close>\<close>
  "wpeek w = (case blk_get (w_mem w) (w_curr w) of Some b \<Rightarrow> (w, b) | None \<Rightarrow> (wfault w, 0))"

definition wskip :: "wire \<Rightarrow> wire" where
  "wskip w = w\<lparr>w_curr := Suc (w_curr w)\<rparr>"

definition wget :: "wire \<Rightarrow> wire \<times> byte" where
  \<comment> \<open>\<open>*w->buffer.curr++\<close>\<close>
  "wget w = (case wpeek w of (w1, b) \<Rightarrow> (wskip w1, b))"

section \<open>Direction, initialisation, exit\<close>

definition flush :: "wire \<Rightarrow> wire" where
  "flush w =
     (if w_direction w = WIRE_ENCODE then sanei_w_space w (w_size w + 1)
      else if w_direction w = WIRE_DECODE then w\<lparr>w_curr := 0, w_end := 0\<rparr>
      else w)"

definition sanei_w_set_dir :: "wire \<Rightarrow> wire_direction \<Rightarrow> wire" where
  "sanei_w_set_dir w dir = flush ((flush w)\<lparr>w_direction := dir\<rparr>)"

definition sanei_w_init :: "wire \<Rightarrow> codec_sel \<Rightarrow> wire" where
  \<comment> \<open>\<open>codec_init_func\<close> null leaves the codec pointers as they were\<close>
  "sanei_w_init w0 codec_init =
     (let (w1, ok) = wmalloc (w0\<lparr>w_status := 0, w_direction := WIRE_ENCODE, w_size := 8192\<rparr>);
          w2 = (if ok then w1\<lparr>w_mem := replicate 8192 (ucast (w_junk w1))\<rparr>
                else w1\<lparr>w_mem := [], w_status := ENOMEM\<rparr>);
          w3 = w2\<lparr>w_curr := 0, w_end := w_size w2\<rparr>;
          w4 = (if codec_init \<noteq> Codec_None then w3\<lparr>w_codec := codec_init\<rparr> else w3)
      in w4\<lparr>w_allocated := 0\<rparr>)"

definition sanei_w_exit :: "wire \<Rightarrow> wire" where
  "sanei_w_exit w = w\<lparr>w_mem := [], w_size := 0\<rparr>"

end
