(* ===== verification/Codec.thy ===== *)
theory Codec
  imports Wire
begin

text \<open>
  The scalar codecs: \<open>bin_w_byte\<close> and \<open>bin_w_word\<close> of \<^verbatim>\<open>sanei/sanei_codec_bin.c\<close>;
  \<open>skip_ws\<close>, \<open>get_digit\<close>, \<open>get_byte\<close>, \<open>ascii_w_byte\<close>, \<open>ascii_w_char\<close> and
  \<open>ascii_w_word\<close> of \<^verbatim>\<open>sanei/sanei_codec_ascii.c\<close>; and the dispatch through the wire's codec
  pointers (\<open>sanei_w_byte\<close>, \<open>sanei_w_char\<close>, \<open>sanei_w_word\<close>).  A codec function takes the wire
  and the value its pointer argument points at, and returns both as they are afterwards.
\<close>

unbundle bit_operations_syntax

section \<open>The binary codec\<close>

definition bin_w_byte :: "wire \<Rightarrow> byte \<Rightarrow> wire \<times> byte" where
  "bin_w_byte w0 b =
     (let w = sanei_w_space w0 1
      in if w_status w \<noteq> 0 then (w, b)
         else case w_direction w of
           WIRE_ENCODE \<Rightarrow> (wput b w, b)
         | WIRE_DECODE \<Rightarrow> wget w
         | WIRE_FREE \<Rightarrow> (w, b))"

definition be32 :: "sane_word \<Rightarrow> byte list" where
  "be32 v = [ucast (drop_bit 24 v AND 0xff), ucast (drop_bit 16 v AND 0xff),
             ucast (drop_bit 8 v AND 0xff), ucast (drop_bit 0 v AND 0xff)]"

definition of_be32 :: "byte \<Rightarrow> byte \<Rightarrow> byte \<Rightarrow> byte \<Rightarrow> sane_word" where
  "of_be32 a b c d =
     push_bit 24 (ucast a AND 0xff) OR push_bit 16 (ucast b AND 0xff)
       OR push_bit 8 (ucast c AND 0xff) OR push_bit 0 (ucast d AND 0xff)"

definition bin_w_word :: "wire \<Rightarrow> sane_word \<Rightarrow> wire \<times> sane_word" where
  "bin_w_word w0 v =
     (let w = sanei_w_space w0 4
      in if w_status w \<noteq> 0 then (w, v)
         else case w_direction w of
           WIRE_ENCODE \<Rightarrow> (wputs (be32 v) w, v)
         | WIRE_DECODE \<Rightarrow>
             (let (w1, a) = wget w; (w2, b) = wget w1; (w3, c) = wget w2; (w4, d) = wget w3
              in (w4, of_be32 a b c d))
         | WIRE_FREE \<Rightarrow> (w, v))"

section \<open>The ASCII codec\<close>

definition pending :: "wire \<Rightarrow> nat" where
  \<comment> \<open>the bytes a decoding wire can still deliver: those in the buffer and those to come\<close>
  "pending w = (w_end w - w_curr w) +
     sum_list (map (\<lambda>ev. case ev of RData bs \<Rightarrow> length bs | RError _ \<Rightarrow> 0) (w_rd w))"

fun skip_ws_fuel :: "nat \<Rightarrow> wire \<Rightarrow> wire" where
  "skip_ws_fuel 0 w = wfault w"
| "skip_ws_fuel (Suc n) w0 =
     (let w = sanei_w_space w0 1
      in if w_status w \<noteq> 0 then w
         else case wpeek w of (w1, b) \<Rightarrow>
           if \<not> is_space b then w1 else skip_ws_fuel n (wskip w1))"

definition skip_ws :: "wire \<Rightarrow> wire" where
  \<comment> \<open>each turn of the loop that goes on consumes one pending byte\<close>
  "skip_ws w = skip_ws_fuel (Suc (pending w)) w"

definition hexdigit :: "byte \<Rightarrow> byte" where
  \<comment> \<open>\<open>hexdigit[n]\<close> of the string \<open>0123456789abcdef\<close>\<close>
  "hexdigit n = (if n < 10 then 48 + n else 87 + n)"

definition get_digit :: "wire \<Rightarrow> wire \<times> sane_word" where
  \<comment> \<open>the arithmetic is that of \<open>unsigned\<close>; a \<open>char\<close> is signed\<close>
  "get_digit w0 =
     (let w = sanei_w_space w0 1;
          (w1, b) = wget w;
          digit = scast (to_lower b) - 48;
          digit = (if digit > 9 then digit - 39 else digit)
      in if digit > 15 then (w1\<lparr>w_status := EINVAL\<rparr>, 0) else (w1, digit))"

definition get_byte :: "wire \<Rightarrow> wire \<times> byte" where
  "get_byte w = (let (w1, hi) = get_digit w; (w2, lo) = get_digit w1
                 in (w2, ucast (push_bit 4 hi OR lo)))"

definition ascii_w_byte :: "wire \<Rightarrow> byte \<Rightarrow> wire \<times> byte" where
  "ascii_w_byte w b =
     (case w_direction w of
        WIRE_ENCODE \<Rightarrow>
          (wput 10 (wput (hexdigit (b AND 15)) (wput (hexdigit (drop_bit 4 b AND 15))
             (sanei_w_space w 3))), b)
      | WIRE_DECODE \<Rightarrow> get_byte (skip_ws w)
      | WIRE_FREE \<Rightarrow> (w, b))"

abbreviation (input) QUOTE :: byte where "QUOTE \<equiv> 39"
abbreviation (input) DQUOTE :: byte where "DQUOTE \<equiv> 34"
abbreviation (input) BACKSLASH :: byte where "BACKSLASH \<equiv> 92"
abbreviation (input) NEWLINE :: byte where "NEWLINE \<equiv> 10"

definition ascii_w_char :: "wire \<Rightarrow> byte \<Rightarrow> wire \<times> byte" where
  "ascii_w_char w c =
     (case w_direction w of
        WIRE_ENCODE \<Rightarrow>
          (let w1 = wput QUOTE (sanei_w_space w 5);
               w2 = (if c = QUOTE \<or> c = BACKSLASH then wput BACKSLASH w1 else w1)
           in (wput NEWLINE (wput QUOTE (wput c w2)), c))
      | WIRE_DECODE \<Rightarrow>
          (let (w1, q) = wget (sanei_w_space w 4)
           in if q \<noteq> QUOTE then (w1\<lparr>w_status := EINVAL\<rparr>, c)
              else let (w2, c1) = wget w1;
                       (w3, c2) = (if c1 = BACKSLASH then wget (sanei_w_space w2 2) else (w2, c1));
                       (w4, q') = wget w3
                   in if q' \<noteq> QUOTE then (w4\<lparr>w_status := EINVAL\<rparr>, c2) else (w4, c2))
      | WIRE_FREE \<Rightarrow> (w, c))"

definition c_mod :: "int \<Rightarrow> int \<Rightarrow> int" where
  "c_mod a b = a - b * c_div a b"

lemma c_div_10_less: "c_div v 10 \<noteq> 0 \<Longrightarrow> nat \<bar>c_div v 10\<bar> < nat \<bar>v\<bar>"
proof -
  assume "c_div v 10 \<noteq> 0"
  then have "v \<noteq> 0" by (auto simp: c_div_def)
  moreover have "\<bar>c_div v 10\<bar> = \<bar>v\<bar> div 10"
    by (cases "v = 0") (auto simp: c_div_def abs_mult pos_imp_zdiv_nonneg_iff)
  ultimately show ?thesis by simp
qed

function digit_chars :: "int \<Rightarrow> byte list" where
  \<comment> \<open>\<open>do { buf[i--] = '0' + (val % 10); val /= 10; } while (val);\<close>, most significant first\<close>
  "digit_chars v =
     (let d = word_of_int (48 + c_mod v 10); q = c_div v 10
      in if q = 0 then [d] else digit_chars q @ [d])"
  by pat_completeness auto
termination
  by (relation "measure (\<lambda>v. nat \<bar>v\<bar>)") (rule wf_measure, metis c_div_10_less in_measure)

declare digit_chars.simps [simp del]

definition word_chars :: "sane_word \<Rightarrow> byte list" where
  \<comment> \<open>the characters of \<open>buf\<close>; \<open>-val\<close> wraps for the least \<open>int\<close>\<close>
  "word_chars v =
     (if sint v < 0 then 45 # digit_chars (sint (- v)) else digit_chars (sint v))"

fun word_digits_fuel :: "nat \<Rightarrow> wire \<Rightarrow> sane_word \<Rightarrow> wire \<times> sane_word option" where
  \<comment> \<open>the digit loop; \<open>None\<close> when it returned early because of a bad status\<close>
  "word_digits_fuel 0 w val = (wfault w, None)"
| "word_digits_fuel (Suc n) w0 val =
     (let w = sanei_w_space w0 1
      in if w_status w \<noteq> 0 then (w, None)
         else case wpeek w of (w1, b) \<Rightarrow>
           if \<not> is_digit b then (w1, Some val)
           else word_digits_fuel n (wskip w1) (10 * val + (ucast b - 48)))"

definition ascii_w_word :: "wire \<Rightarrow> sane_word \<Rightarrow> wire \<times> sane_word" where
  "ascii_w_word w v =
     (case w_direction w of
        WIRE_ENCODE \<Rightarrow>
          (let cs = word_chars v
           in (wput NEWLINE (wputs cs (sanei_w_space w (length cs + 1))), v))
      | WIRE_DECODE \<Rightarrow>
          (let (w1, b) = wpeek (sanei_w_space (skip_ws w) 1);
               neg = (b = 45);
               w2 = (if neg then wskip w1 else w1)
           in case word_digits_fuel (Suc (pending w2)) w2 0 of
                (w3, None) \<Rightarrow> (w3, v)
              | (w3, Some val) \<Rightarrow> (w3, if neg then - val else val))
      | WIRE_FREE \<Rightarrow> (w, v))"

section \<open>Dispatch through the wire's codec\<close>

definition sanei_w_byte :: "wire \<Rightarrow> byte \<Rightarrow> wire \<times> byte" where
  "sanei_w_byte w v =
     (case w_codec w of Codec_Bin \<Rightarrow> bin_w_byte w v | Codec_Ascii \<Rightarrow> ascii_w_byte w v
      | Codec_None \<Rightarrow> (wfault w, v))"

definition sanei_w_char :: "wire \<Rightarrow> byte \<Rightarrow> wire \<times> byte" where
  \<comment> \<open>the binary codec installs \<open>bin_w_byte\<close> for characters\<close>
  "sanei_w_char w v =
     (case w_codec w of Codec_Bin \<Rightarrow> bin_w_byte w v | Codec_Ascii \<Rightarrow> ascii_w_char w v
      | Codec_None \<Rightarrow> (wfault w, v))"

definition sanei_w_word :: "wire \<Rightarrow> sane_word \<Rightarrow> wire \<times> sane_word" where
  "sanei_w_word w v =
     (case w_codec w of Codec_Bin \<Rightarrow> bin_w_word w v | Codec_Ascii \<Rightarrow> ascii_w_word w v
      | Codec_None \<Rightarrow> (wfault w, v))"

definition sanei_w_void :: "wire \<Rightarrow> unit \<Rightarrow> wire \<times> unit" where
  "sanei_w_void w v = (w, v)"

end
