(* ===== verification/Wire_Array.thy ===== *)
theory Wire_Array
  imports Codec
begin

text \<open>
  The composite combinators of \<^verbatim>\<open>sanei/sanei_wire.c\<close>, \<open>sanei_w_array\<close> and
  \<open>sanei_w_ptr\<close>, and the string codecs built on them.  Both combinators are generic in the
  element: they take its codec function, its size in bytes and its zeroed memory.  A pointer
  argument is an option, an array the list of its elements; walking past its end sets
  \<open>w_fault\<close>.  A freed pointer keeps its value, as in C.
\<close>

unbundle bit_operations_syntax

section \<open>sanei_w_array\<close>

fun array_loop ::
  "(wire \<Rightarrow> 'a \<Rightarrow> wire \<times> 'a) \<Rightarrow> bool \<Rightarrow> nat \<Rightarrow> wire \<Rightarrow> 'a list \<Rightarrow> wire \<times> 'a list"
where
  \<comment> \<open>\<open>n\<close> elements; with \<open>stop\<close> a bad status ends the loop\<close>
  "array_loop f stop 0 w xs = (w, xs)"
| "array_loop f stop (Suc n) w [] = (wfault w, [])"
| "array_loop f stop (Suc n) w (x # xs) =
     (case f w x of (w1, x1) \<Rightarrow>
        if stop \<and> w_status w1 \<noteq> 0 then (w1, x1 # xs)
        else (case array_loop f stop n w1 xs of (w2, xs2) \<Rightarrow> (w2, x1 # xs2)))"

definition loop_count :: "sane_word \<Rightarrow> nat" where
  \<comment> \<open>the turns of \<open>for (i = 0; i < len; ++i)\<close> for a signed \<open>len\<close>\<close>
  "loop_count len = nat (sint len)"

definition array_loop_ptr ::
  "(wire \<Rightarrow> 'a \<Rightarrow> wire \<times> 'a) \<Rightarrow> bool \<Rightarrow> sane_word \<Rightarrow> wire \<Rightarrow> 'a list option \<Rightarrow> wire \<times> 'a list option"
where
  "array_loop_ptr f stop len w v =
     (case v of
        None \<Rightarrow> (if loop_count len = 0 then (w, None) else (wfault w, None))
      | Some xs \<Rightarrow> (case array_loop f stop (loop_count len) w xs of (w1, xs1) \<Rightarrow> (w1, Some xs1)))"

definition array_limit :: "wire \<Rightarrow> sane_word \<Rightarrow> size_t \<Rightarrow> bool" where
  \<comment> \<open>the three tests against \<open>MAX_MEM\<close>, in the unsigned arithmetic of the C expressions\<close>
  "array_limit w len esize \<longleftrightarrow>
     (1048576 :: sane_word) < len \<or>
     1048576 < (ucast len :: size_t) * esize \<or>
     1048576 < (scast (w_allocated w) :: size_t) + scast len * esize"

definition sanei_w_array ::
  "'a \<Rightarrow> size_t \<Rightarrow> (wire \<Rightarrow> 'a \<Rightarrow> wire \<times> 'a) \<Rightarrow> wire \<Rightarrow> sane_word \<Rightarrow> 'a list option
     \<Rightarrow> wire \<times> sane_word \<times> 'a list option"
where
  \<comment> \<open>arguments: the zeroed element, its size, its codec; then \<open>w\<close>, \<open>*len_ptr\<close> and \<open>*v\<close>\<close>
  "sanei_w_array zero esize w_element w len v =
     (if w_direction w = WIRE_FREE then
        (if len \<noteq> 0 \<and> v \<noteq> None then
           (case array_loop_ptr w_element False len w v of (w1, v1) \<Rightarrow>
              (w1\<lparr>w_allocated := w_allocated w1 - ucast (scast len * esize)\<rparr>, len, v1))
         else (w, len, v))
      else
        (case sanei_w_word w (if w_direction w = WIRE_ENCODE then len else w_junk w) of
           (w1, n) \<Rightarrow>
             if w_status w1 \<noteq> 0 then (w1, len, v)
             else if w_direction w1 = WIRE_DECODE then
               (if n \<noteq> 0 then
                  (if array_limit w1 n esize then (w1\<lparr>w_status := ENOMEM\<rparr>, n, v)
                   else case wmalloc w1 of (w2, ok) \<Rightarrow>
                     if \<not> ok then (w2\<lparr>w_status := ENOMEM\<rparr>, n, None)
                     else case array_loop_ptr w_element True n
                            (w2\<lparr>w_allocated := w_allocated w2 + ucast (scast n * esize)\<rparr>)
                            (Some (replicate (unat n) zero)) of
                       (w3, v3) \<Rightarrow> (w3, n, v3))
                else (w1, n, None))
             else (case array_loop_ptr w_element True n w1 v of (w2, v2) \<Rightarrow> (w2, len, v2))))"

section \<open>sanei_w_ptr\<close>

definition sanei_w_ptr ::
  "'a \<Rightarrow> size_t \<Rightarrow> (wire \<Rightarrow> 'a \<Rightarrow> wire \<times> 'a) \<Rightarrow> wire \<Rightarrow> 'a option \<Rightarrow> wire \<times> 'a option"
where
  "sanei_w_ptr zero vsize w_value w v =
     (if w_direction w = WIRE_FREE then
        (case v of
           Some x \<Rightarrow>
             if vsize \<noteq> 0 then
               (case w_value w x of (w1, x1) \<Rightarrow>
                  (w1\<lparr>w_allocated := w_allocated w1 - ucast vsize\<rparr>, Some x1))
             else (w, v)
         | None \<Rightarrow> (w, v))
      else
        (case sanei_w_word w (if w_direction w = WIRE_ENCODE
                              then (if v = None then SANE_TRUE else SANE_FALSE) else w_junk w) of
           (w1, is_null) \<Rightarrow>
             if w_status w1 \<noteq> 0 then (w1, v)
             else if is_null = 0 then
               (if w_direction w1 = WIRE_DECODE then
                  (if 1048576 < vsize then (w1\<lparr>w_status := ENOMEM\<rparr>, v)
                   else case wmalloc w1 of (w2, ok) \<Rightarrow>
                     if \<not> ok then (w2\<lparr>w_status := ENOMEM\<rparr>, None)
                     else case w_value (w2\<lparr>w_allocated := w_allocated w2 + ucast vsize\<rparr>) zero of
                       (w3, x) \<Rightarrow> (w3, Some x))
                else (case v of
                        Some x \<Rightarrow> (case w_value w1 x of (w2, x1) \<Rightarrow> (w2, Some x1))
                      | None \<Rightarrow> (wfault w1, None)))
             else if w_direction w1 = WIRE_DECODE then (w1, None)
             else (w1, v)))"

section \<open>Strings\<close>

definition cstr_len :: "wire \<Rightarrow> c_string \<Rightarrow> wire \<times> sane_word" where
  \<comment> \<open>\<open>len = 0; if (*s) len = strlen (*s) + 1;\<close>\<close>
  "cstr_len w s =
     (case s of
        None \<Rightarrow> (w, 0)
      | Some b \<Rightarrow> (case c_strlen b of Some n \<Rightarrow> (w, word_of_nat (n + 1)) | None \<Rightarrow> (wfault w, 0)))"

definition bin_w_string :: "wire \<Rightarrow> c_string \<Rightarrow> wire \<times> c_string" where
  "bin_w_string w s =
     (let (w1, len) = (if w_direction w \<noteq> WIRE_DECODE then cstr_len w s else (w, w_junk w));
          (w2, len2, s2) = sanei_w_array 0 1 sanei_w_byte w1 len s
      in if w_direction w2 = WIRE_DECODE then
           (if len2 = 0 then (w2, None)
            else if w_status w2 = 0 then
              (case s2 of
                 None \<Rightarrow> (wfault w2, None)
               | Some b \<Rightarrow>
                   (case blk_set b (nat (sint len2 - 1)) NUL of
                      None \<Rightarrow> (wfault w2, s2)
                    | Some b' \<Rightarrow> (w2, Some b')))
            else (w2, s2))
         else (w2, s2))"

fun ascii_put_chars :: "wire \<Rightarrow> byte list \<Rightarrow> wire" where
  \<comment> \<open>the loop over the characters of a string being encoded\<close>
  "ascii_put_chars w [] = w"
| "ascii_put_chars w (ch # cs) =
     (let w1 = sanei_w_space w 2;
          w2 = (if ch = DQUOTE \<or> ch = BACKSLASH then wput BACKSLASH w1 else w1)
      in ascii_put_chars (wput ch w2) cs)"

fun ascii_get_chars :: "nat \<Rightarrow> wire \<Rightarrow> nat \<Rightarrow> byte list \<Rightarrow> wire \<times> byte list option" where
  \<comment> \<open>the \<open>do ... while (!done)\<close> loop of a string being decoded; \<open>str\<close> holds \<open>len\<close>
      characters in \<open>alloced\<close> bytes; the result is \<open>None\<close> on an early return\<close>
  "ascii_get_chars 0 w alloced str = (wfault w, None)"
| "ascii_get_chars (Suc n) w0 alloced str =
     (let w = sanei_w_space w0 1
      in if w_status w \<noteq> 0 then (w, None)
         else let (w1, ch) = wget w;
                  quote = (ch = DQUOTE);
                  (w2, ch2) = (if ch = BACKSLASH then wget (sanei_w_space w1 1) else (w1, ch));
                  (w3, ok) = (if alloced \<le> length str then wmalloc w2 else (w2, True));
                  alloced3 = (if alloced \<le> length str then alloced + 1024 else alloced)
              in if \<not> ok then (w3\<lparr>w_status := ENOMEM\<rparr>, None)
                 else if quote then (w3, Some (str @ [ch2]))
                 else ascii_get_chars n w3 alloced3 (str @ [ch2]))"

definition ascii_w_string :: "wire \<Rightarrow> c_string \<Rightarrow> wire \<times> c_string" where
  "ascii_w_string w s =
     (case w_direction w of
        WIRE_ENCODE \<Rightarrow>
          (let w1 = (case s of
                 Some b \<Rightarrow>
                   (let w' = wput DQUOTE (sanei_w_space w 1)
                    in case c_str b of
                         Some cs \<Rightarrow> wput DQUOTE (ascii_put_chars w' cs)
                       | None \<Rightarrow> wfault (ascii_put_chars w' b))
               | None \<Rightarrow> wputs (ascii ''(nil)'') (sanei_w_space w 5))
           in (wput NEWLINE (sanei_w_space w1 1), s))
      | WIRE_DECODE \<Rightarrow>
          (let (w1, ch) = wget (sanei_w_space (skip_ws w) 1)
           in if ch = DQUOTE then
                (case ascii_get_chars (Suc (pending w1)) w1 0 [] of
                   (w2, None) \<Rightarrow> (w2, s)
                 | (w2, Some str) \<Rightarrow>
                     (case wmalloc w2 of (w3, ok) \<Rightarrow>
                        if \<not> ok then (w3\<lparr>w_status := ENOMEM\<rparr>, None)
                        else (w3, Some (str[length str - 1 := NUL]))))
              else if ch = 40 then
                (let (w2, c1) = wget (sanei_w_space w1 4);
                     bad = (\<lambda>w'. (w'\<lparr>w_status := EINVAL\<rparr>, s))
                 in if c1 \<noteq> 110 then bad w2
                    else let (w3, c2) = wget w2
                         in if c2 \<noteq> 105 then bad w3
                            else let (w4, c3) = wget w3
                                 in if c3 \<noteq> 108 then bad w4
                                    else let (w5, c4) = wget w4
                                         in if c4 \<noteq> 41 then bad w5 else (w5, None))
              else (w1\<lparr>w_status := EINVAL\<rparr>, s))
      | WIRE_FREE \<Rightarrow> (w, s))"

definition sanei_w_string :: "wire \<Rightarrow> c_string \<Rightarrow> wire \<times> c_string" where
  "sanei_w_string w v =
     (case w_codec w of Codec_Bin \<Rightarrow> bin_w_string w v | Codec_Ascii \<Rightarrow> ascii_w_string w v
      | Codec_None \<Rightarrow> (wfault w, v))"

end
