(* ===== verification/Wire_Struct.thy ===== *)
theory Wire_Struct
  imports Wire_Array
begin

text \<open>
  The codecs of the SANE structures in \<^verbatim>\<open>sanei/sanei_wire.c\<close>, and the three ways a
  message is moved: \<open>sanei_w_call\<close>, \<open>sanei_w_reply\<close> and \<open>sanei_w_free\<close>.  Sizes of
  structures are those of the LP64 data model.
\<close>

unbundle bit_operations_syntax

section \<open>Enumerations and booleans\<close>

text \<open>
  \<open>sanei_w_status\<close>, \<open>sanei_w_bool\<close>, \<open>sanei_w_constraint_type\<close>, \<open>sanei_w_value_type\<close>,
  \<open>sanei_w_unit\<close>, \<open>sanei_w_action\<close> and \<open>sanei_w_frame\<close> share one body: a local word that is
  copied back only when decoding.
\<close>

definition w_word_copy :: "wire \<Rightarrow> sane_word \<Rightarrow> wire \<times> sane_word" where
  "w_word_copy w v =
     (case sanei_w_word w v of (w1, word) \<Rightarrow>
        (w1, if w_direction w1 = WIRE_DECODE then word else v))"

definition sanei_w_status :: "wire \<Rightarrow> sane_word \<Rightarrow> wire \<times> sane_word" where
  "sanei_w_status = w_word_copy"

definition sanei_w_bool :: "wire \<Rightarrow> sane_word \<Rightarrow> wire \<times> sane_word" where
  "sanei_w_bool = w_word_copy"

definition sanei_w_constraint_type :: "wire \<Rightarrow> sane_word \<Rightarrow> wire \<times> sane_word" where
  "sanei_w_constraint_type = w_word_copy"

definition sanei_w_value_type :: "wire \<Rightarrow> sane_word \<Rightarrow> wire \<times> sane_word" where
  "sanei_w_value_type = w_word_copy"

definition sanei_w_unit :: "wire \<Rightarrow> sane_word \<Rightarrow> wire \<times> sane_word" where
  "sanei_w_unit = w_word_copy"

definition sanei_w_action :: "wire \<Rightarrow> sane_word \<Rightarrow> wire \<times> sane_word" where
  "sanei_w_action = w_word_copy"

definition sanei_w_frame :: "wire \<Rightarrow> sane_word \<Rightarrow> wire \<times> sane_word" where
  "sanei_w_frame = w_word_copy"

section \<open>Structures\<close>

definition sanei_w_range :: "wire \<Rightarrow> sane_range \<Rightarrow> wire \<times> sane_range" where
  "sanei_w_range w v =
     (case sanei_w_word w (rng_min v) of (w1, a) \<Rightarrow>
      case sanei_w_word w1 (rng_max v) of (w2, b) \<Rightarrow>
      case sanei_w_word w2 (rng_quant v) of (w3, c) \<Rightarrow>
        (w3, \<lparr>rng_min = a, rng_max = b, rng_quant = c\<rparr>))"

definition sanei_w_device :: "wire \<Rightarrow> sane_device \<Rightarrow> wire \<times> sane_device" where
  "sanei_w_device w v =
     (case sanei_w_string w (dev_name v) of (w1, a) \<Rightarrow>
      case sanei_w_string w1 (dev_vendor v) of (w2, b) \<Rightarrow>
      case sanei_w_string w2 (dev_model v) of (w3, c) \<Rightarrow>
      case sanei_w_string w3 (dev_type v) of (w4, d) \<Rightarrow>
        (w4, \<lparr>dev_name = a, dev_vendor = b, dev_model = c, dev_type = d\<rparr>))"

definition sanei_w_device_ptr :: "wire \<Rightarrow> sane_device option \<Rightarrow> wire \<times> sane_device option" where
  "sanei_w_device_ptr = sanei_w_ptr zero_device 32 sanei_w_device"

definition word_list_len :: "wire \<Rightarrow> sane_word list option \<Rightarrow> wire \<times> sane_word" where
  \<comment> \<open>\<open>word_list[0] + 1\<close>\<close>
  "word_list_len w ws =
     (case Option.bind ws (\<lambda>l. blk_get l 0) of Some n \<Rightarrow> (w, n + 1) | None \<Rightarrow> (wfault w, 0))"

definition string_list_len :: "wire \<Rightarrow> c_string list option \<Rightarrow> wire \<times> sane_word" where
  \<comment> \<open>\<open>for (len = 0; string_list[len]; ++len); ++len;\<close>\<close>
  "string_list_len w ss =
     (case ss of
        Some l \<Rightarrow> (if None \<in> set l
                   then (w, word_of_nat (length (takeWhile (\<lambda>s. s \<noteq> None) l) + 1))
                   else (wfault w, 0))
      | None \<Rightarrow> (wfault w, 0))"

definition w_constraint :: "wire \<Rightarrow> sane_word \<Rightarrow> sane_constraint \<Rightarrow> wire \<times> sane_constraint" where
  \<comment> \<open>the \<open>switch (v->constraint_type)\<close> of \<open>sanei_w_option_descriptor\<close>\<close>
  "w_constraint w ct c =
     (if ct = SANE_CONSTRAINT_RANGE then
        (case sanei_w_ptr zero_range 12 sanei_w_range w (constraint_range c) of
           (w1, r) \<Rightarrow> (w1, Constr_Range r))
      else if ct = SANE_CONSTRAINT_WORD_LIST then
        (let (w1, len) = (if w_direction w \<noteq> WIRE_DECODE then word_list_len w (constraint_words c)
                          else (w, w_junk w))
         in case sanei_w_array 0 4 sanei_w_word w1 len (constraint_words c) of
              (w2, _, ws) \<Rightarrow> (w2, Constr_Words ws))
      else if ct = SANE_CONSTRAINT_STRING_LIST then
        (let (w1, len) = (if w_direction w \<noteq> WIRE_DECODE then string_list_len w (constraint_strings c)
                          else (w, w_junk w))
         in case sanei_w_array None 8 sanei_w_string w1 len (constraint_strings c) of
              (w2, _, ss) \<Rightarrow> (w2, Constr_Strings ss))
      else (w, c))"

definition sanei_w_option_descriptor ::
  "wire \<Rightarrow> sane_option_descriptor \<Rightarrow> wire \<times> sane_option_descriptor"
where
  "sanei_w_option_descriptor w v =
     (case sanei_w_string w (opt_name v) of (w1, name) \<Rightarrow>
      case sanei_w_string w1 (opt_title v) of (w2, title) \<Rightarrow>
      case sanei_w_string w2 (opt_desc v) of (w3, desc) \<Rightarrow>
      case sanei_w_value_type w3 (opt_type v) of (w4, ty) \<Rightarrow>
      case sanei_w_unit w4 (opt_unit v) of (w5, un) \<Rightarrow>
      case sanei_w_word w5 (opt_size v) of (w6, sz) \<Rightarrow>
      case sanei_w_word w6 (opt_cap v) of (w7, cap) \<Rightarrow>
      case sanei_w_constraint_type w7 (opt_constraint_type v) of (w8, ct) \<Rightarrow>
      case w_constraint w8 ct (opt_constraint v) of (w9, c) \<Rightarrow>
        (w9, \<lparr>opt_name = name, opt_title = title, opt_desc = desc, opt_type = ty, opt_unit = un,
              opt_size = sz, opt_cap = cap, opt_constraint_type = ct, opt_constraint = c\<rparr>))"

definition sanei_w_option_descriptor_ptr ::
  "wire \<Rightarrow> sane_option_descriptor option \<Rightarrow> wire \<times> sane_option_descriptor option"
where
  "sanei_w_option_descriptor_ptr = sanei_w_ptr zero_descriptor 56 sanei_w_option_descriptor"

definition sanei_w_parameters :: "wire \<Rightarrow> sane_parameters \<Rightarrow> wire \<times> sane_parameters" where
  "sanei_w_parameters w v =
     (case sanei_w_frame w (par_format v) of (w1, a) \<Rightarrow>
      case sanei_w_bool w1 (par_last_frame v) of (w2, b) \<Rightarrow>
      case sanei_w_word w2 (par_bytes_per_line v) of (w3, c) \<Rightarrow>
      case sanei_w_word w3 (par_pixels_per_line v) of (w4, d) \<Rightarrow>
      case sanei_w_word w4 (par_lines v) of (w5, e) \<Rightarrow>
      case sanei_w_word w5 (par_depth v) of (w6, f) \<Rightarrow>
        (w6, \<lparr>par_format = a, par_last_frame = b, par_bytes_per_line = c,
              par_pixels_per_line = d, par_lines = e, par_depth = f\<rparr>))"

section \<open>Messages\<close>

definition sanei_w_call ::
  "wire \<Rightarrow> sane_word \<Rightarrow> (wire \<Rightarrow> 'a \<Rightarrow> wire \<times> 'a) \<Rightarrow> 'a \<Rightarrow> (wire \<Rightarrow> 'b \<Rightarrow> wire \<times> 'b) \<Rightarrow> 'b
     \<Rightarrow> wire \<times> 'a \<times> 'b"
where
  "sanei_w_call w procnum w_arg arg w_reply reply =
     (let w1 = sanei_w_set_dir (w\<lparr>w_status := 0\<rparr>) WIRE_ENCODE;
          (w2, _) = sanei_w_word w1 procnum;
          (w3, arg3) = w_arg w2 arg
      in if w_status w3 = 0 then
           (case w_reply (sanei_w_set_dir w3 WIRE_DECODE) reply of
              (w4, reply4) \<Rightarrow> (w4, arg3, reply4))
         else (w3, arg3, reply))"

definition sanei_w_reply :: "wire \<Rightarrow> (wire \<Rightarrow> 'a \<Rightarrow> wire \<times> 'a) \<Rightarrow> 'a \<Rightarrow> wire \<times> 'a" where
  "sanei_w_reply w w_reply reply =
     (let w1 = sanei_w_set_dir (w\<lparr>w_status := 0\<rparr>) WIRE_ENCODE;
          (w2, reply2) = w_reply w1 reply
      in (flush w2, reply2))"

definition sanei_w_free :: "wire \<Rightarrow> (wire \<Rightarrow> 'a \<Rightarrow> wire \<times> 'a) \<Rightarrow> 'a \<Rightarrow> wire \<times> 'a" where
  "sanei_w_free w w_reply reply =
     (let saved_dir = w_direction w;
          (w1, reply1) = w_reply (w\<lparr>w_direction := WIRE_FREE\<rparr>) reply
      in (w1\<lparr>w_direction := saved_dir\<rparr>, reply1))"

end
