(* ===== verification/Net_Msg.thy ===== *)
theory Net_Msg
  imports Wire_Struct
begin

text \<open>
  The messages of the SANE network protocol: the structures of
  \<^verbatim>\<open>include/sane/sanei_net.h\<close> and their codecs in \<^verbatim>\<open>sanei/sanei_net.c\<close>.  The \<open>void *\<close> value
  of a control-option message is typed by its \<open>value_type\<close>.
\<close>

unbundle bit_operations_syntax

section \<open>Structures\<close>

abbreviation (input) SANE_NET_INIT :: sane_word where "SANE_NET_INIT \<equiv> 0"
abbreviation (input) SANE_NET_GET_DEVICES :: sane_word where "SANE_NET_GET_DEVICES \<equiv> 1"
abbreviation (input) SANE_NET_OPEN :: sane_word where "SANE_NET_OPEN \<equiv> 2"
abbreviation (input) SANE_NET_CLOSE :: sane_word where "SANE_NET_CLOSE \<equiv> 3"
abbreviation (input) SANE_NET_GET_OPTION_DESCRIPTORS :: sane_word where "SANE_NET_GET_OPTION_DESCRIPTORS \<equiv> 4"
abbreviation (input) SANE_NET_CONTROL_OPTION :: sane_word where "SANE_NET_CONTROL_OPTION \<equiv> 5"
abbreviation (input) SANE_NET_GET_PARAMETERS :: sane_word where "SANE_NET_GET_PARAMETERS \<equiv> 6"
abbreviation (input) SANE_NET_START :: sane_word where "SANE_NET_START \<equiv> 7"
abbreviation (input) SANE_NET_CANCEL :: sane_word where "SANE_NET_CANCEL \<equiv> 8"
abbreviation (input) SANE_NET_AUTHORIZE :: sane_word where "SANE_NET_AUTHORIZE \<equiv> 9"
abbreviation (input) SANE_NET_EXIT :: sane_word where "SANE_NET_EXIT \<equiv> 10"

abbreviation (input) SANEI_NET_PROTOCOL_VERSION :: int where "SANEI_NET_PROTOCOL_VERSION \<equiv> 3"

record init_req =
  irq_version_code :: sane_word
  irq_username :: c_string

record init_reply =
  irp_status :: sane_word
  irp_version_code :: sane_word

record get_devices_reply =
  gdr_status :: sane_word
  gdr_device_list :: "sane_device option list option"

record open_reply =
  orp_status :: sane_word
  orp_handle :: sane_word
  orp_resource :: c_string

record option_descriptor_array =
  oda_num_options :: sane_word
  oda_desc :: "sane_option_descriptor option list option"

datatype ctl_value =
    Ctl_Null
  | Ctl_Words "sane_word list"
  | Ctl_Chars "byte list"
  | Ctl_Void "unit list"

record control_option_req =
  coq_handle :: sane_word
  coq_option :: sane_word
  coq_action :: sane_word
  coq_value_type :: sane_word
  coq_value_size :: sane_word
  coq_value :: ctl_value

record control_option_reply =
  cor_status :: sane_word
  cor_info :: sane_word
  cor_value_type :: sane_word
  cor_value_size :: sane_word
  cor_value :: ctl_value
  cor_resource :: c_string

record get_parameters_reply =
  gpr_status :: sane_word
  gpr_params :: sane_parameters

record start_reply =
  srp_status :: sane_word
  srp_port :: sane_word
  srp_byte_order :: sane_word
  srp_resource :: c_string

record authorization_req =
  arq_resource :: c_string
  arq_username :: c_string
  arq_password :: c_string

section \<open>Codecs\<close>

definition sanei_w_init_req :: "wire \<Rightarrow> init_req \<Rightarrow> wire \<times> init_req" where
  "sanei_w_init_req w req =
     (case sanei_w_word w (irq_version_code req) of (w1, a) \<Rightarrow>
      case sanei_w_string w1 (irq_username req) of (w2, b) \<Rightarrow>
        (w2, \<lparr>irq_version_code = a, irq_username = b\<rparr>))"

definition sanei_w_init_reply :: "wire \<Rightarrow> init_reply \<Rightarrow> wire \<times> init_reply" where
  "sanei_w_init_reply w r =
     (case sanei_w_status w (irp_status r) of (w1, a) \<Rightarrow>
      case sanei_w_word w1 (irp_version_code r) of (w2, b) \<Rightarrow>
        (w2, \<lparr>irp_status = a, irp_version_code = b\<rparr>))"

definition device_list_len :: "wire \<Rightarrow> sane_device option list option \<Rightarrow> wire \<times> sane_word" where
  \<comment> \<open>the number of devices and the terminating null, or 0 for a null list\<close>
  "device_list_len w ds =
     (case ds of
        None \<Rightarrow> (w, 0)
      | Some l \<Rightarrow> (if None \<in> set l
                   then (w, word_of_nat (length (takeWhile (\<lambda>d. d \<noteq> None) l) + 1))
                   else (wfault w, 0)))"

definition sanei_w_get_devices_reply :: "wire \<Rightarrow> get_devices_reply \<Rightarrow> wire \<times> get_devices_reply" where
  "sanei_w_get_devices_reply w r =
     (let (w1, len) = (if w_direction w \<noteq> WIRE_DECODE then device_list_len w (gdr_device_list r)
                       else (w, w_junk w))
      in case sanei_w_status w1 (gdr_status r) of (w2, st) \<Rightarrow>
         case sanei_w_array None 8 sanei_w_device_ptr w2 len (gdr_device_list r) of (w3, _, ds) \<Rightarrow>
           (w3, \<lparr>gdr_status = st, gdr_device_list = ds\<rparr>))"

definition sanei_w_open_reply :: "wire \<Rightarrow> open_reply \<Rightarrow> wire \<times> open_reply" where
  "sanei_w_open_reply w r =
     (case sanei_w_status w (orp_status r) of (w1, a) \<Rightarrow>
      case sanei_w_word w1 (orp_handle r) of (w2, b) \<Rightarrow>
      case sanei_w_string w2 (orp_resource r) of (w3, c) \<Rightarrow>
        (w3, \<lparr>orp_status = a, orp_handle = b, orp_resource = c\<rparr>))"

fun ctl_words :: "ctl_value \<Rightarrow> sane_word list option" where
  \<comment> \<open>a block without bytes, as one that has been freed, is one of any type\<close>
  "ctl_words (Ctl_Words ws) = Some ws"
| "ctl_words (Ctl_Chars []) = Some []"
| "ctl_words _ = None"

fun ctl_chars :: "ctl_value \<Rightarrow> byte list option" where
  "ctl_chars (Ctl_Chars b) = Some b"
| "ctl_chars (Ctl_Words []) = Some []"
| "ctl_chars _ = None"

fun ctl_void :: "ctl_value \<Rightarrow> unit list option" where
  "ctl_void (Ctl_Void u) = Some u"
| "ctl_void _ = None"

definition of_words :: "sane_word list option \<Rightarrow> ctl_value" where
  "of_words v = (case v of Some ws \<Rightarrow> Ctl_Words ws | None \<Rightarrow> Ctl_Null)"

definition of_chars :: "byte list option \<Rightarrow> ctl_value" where
  "of_chars v = (case v of Some b \<Rightarrow> Ctl_Chars b | None \<Rightarrow> Ctl_Null)"

definition of_void :: "unit list option \<Rightarrow> ctl_value" where
  "of_void v = (case v of Some u \<Rightarrow> Ctl_Void u | None \<Rightarrow> Ctl_Null)"

definition w_option_value :: "wire \<Rightarrow> sane_word \<Rightarrow> sane_word \<Rightarrow> ctl_value \<Rightarrow> wire \<times> ctl_value" where
  \<comment> \<open>\<open>size / element_size\<close> is a division of \<open>int\<close>s; the length is not passed back\<close>
  "w_option_value w ty sz v =
     (if ty = SANE_TYPE_BOOL \<or> ty = SANE_TYPE_INT \<or> ty = SANE_TYPE_FIXED then
        (case sanei_w_array 0 4 sanei_w_word w (word_of_int (c_div (sint sz) 4)) (ctl_words v) of
           (w1, _, ws) \<Rightarrow> (w1, of_words ws))
      else if ty = SANE_TYPE_STRING then
        (case sanei_w_array 0 1 sanei_w_char w sz (ctl_chars v) of
           (w1, _, b) \<Rightarrow> (w1, of_chars b))
      else if ty = SANE_TYPE_BUTTON \<or> ty = SANE_TYPE_GROUP then
        (case sanei_w_array () 0 sanei_w_void w 0 (ctl_void v) of
           (w1, _, u) \<Rightarrow> (w1, of_void u))
      else (w\<lparr>w_status := EINVAL\<rparr>, v))"

definition sanei_w_option_descriptor_array ::
  "wire \<Rightarrow> option_descriptor_array \<Rightarrow> wire \<times> option_descriptor_array"
where
  "sanei_w_option_descriptor_array w a =
     (case sanei_w_array None 8 sanei_w_option_descriptor_ptr w (oda_num_options a) (oda_desc a) of
        (w1, n, ds) \<Rightarrow> (w1, \<lparr>oda_num_options = n, oda_desc = ds\<rparr>))"

definition sanei_w_control_option_req ::
  "wire \<Rightarrow> control_option_req \<Rightarrow> wire \<times> control_option_req"
where
  "sanei_w_control_option_req w req =
     (case sanei_w_word w (coq_handle req) of (w1, h) \<Rightarrow>
      case sanei_w_word w1 (coq_option req) of (w2, opt) \<Rightarrow>
      case sanei_w_word w2 (coq_action req) of (w3, act) \<Rightarrow>
        let req3 = req\<lparr>coq_handle := h, coq_option := opt, coq_action := act\<rparr>
        in if w_version w3 < 3 \<or> act \<noteq> SANE_ACTION_SET_AUTO then
             (case sanei_w_word w3 (coq_value_type req3) of (w4, ty) \<Rightarrow>
              case sanei_w_word w4 (coq_value_size req3) of (w5, sz) \<Rightarrow>
              case w_option_value w5 ty sz (coq_value req3) of (w6, v) \<Rightarrow>
                (w6, req3\<lparr>coq_value_type := ty, coq_value_size := sz, coq_value := v\<rparr>))
           else (w3, req3))"

definition sanei_w_control_option_reply ::
  "wire \<Rightarrow> control_option_reply \<Rightarrow> wire \<times> control_option_reply"
where
  "sanei_w_control_option_reply w r =
     (case sanei_w_status w (cor_status r) of (w1, st) \<Rightarrow>
      case sanei_w_word w1 (cor_info r) of (w2, info) \<Rightarrow>
      case sanei_w_word w2 (cor_value_type r) of (w3, ty) \<Rightarrow>
      case sanei_w_word w3 (cor_value_size r) of (w4, sz) \<Rightarrow>
      case w_option_value w4 ty sz (cor_value r) of (w5, v) \<Rightarrow>
      case sanei_w_string w5 (cor_resource r) of (w6, res) \<Rightarrow>
        (w6, \<lparr>cor_status = st, cor_info = info, cor_value_type = ty, cor_value_size = sz,
              cor_value = v, cor_resource = res\<rparr>))"

definition sanei_w_get_parameters_reply ::
  "wire \<Rightarrow> get_parameters_reply \<Rightarrow> wire \<times> get_parameters_reply"
where
  "sanei_w_get_parameters_reply w r =
     (case sanei_w_status w (gpr_status r) of (w1, st) \<Rightarrow>
      case sanei_w_parameters w1 (gpr_params r) of (w2, p) \<Rightarrow>
        (w2, \<lparr>gpr_status = st, gpr_params = p\<rparr>))"

definition sanei_w_start_reply :: "wire \<Rightarrow> start_reply \<Rightarrow> wire \<times> start_reply" where
  "sanei_w_start_reply w r =
     (case sanei_w_status w (srp_status r) of (w1, a) \<Rightarrow>
      case sanei_w_word w1 (srp_port r) of (w2, b) \<Rightarrow>
      case sanei_w_word w2 (srp_byte_order r) of (w3, c) \<Rightarrow>
      case sanei_w_string w3 (srp_resource r) of (w4, d) \<Rightarrow>
        (w4, \<lparr>srp_status = a, srp_port = b, srp_byte_order = c, srp_resource = d\<rparr>))"

definition sanei_w_authorization_req ::
  "wire \<Rightarrow> authorization_req \<Rightarrow> wire \<times> authorization_req"
where
  "sanei_w_authorization_req w r =
     (case sanei_w_string w (arq_resource r) of (w1, a) \<Rightarrow>
      case sanei_w_string w1 (arq_username r) of (w2, b) \<Rightarrow>
      case sanei_w_string w2 (arq_password r) of (w3, c) \<Rightarrow>
        (w3, \<lparr>arq_resource = a, arq_username = b, arq_password = c\<rparr>))"

end
