(* ===== verification/Config.thy ===== *)
theory Config
  imports Sane_Types
begin

text \<open>
  The configuration files of \<^verbatim>\<open>sanei/sanei_config.c\<close>: the search path
  (\<open>sanei_config_get_paths\<close>), opening a file on it (\<open>sanei_config_open\<close>), the tokens of a line
  (\<open>sanei_config_skip_whitespace\<close>, \<open>sanei_config_get_string\<close>) and reading a line
  (\<open>sanei_config_read\<close>).  The environment variable, the allocator and the file system are
  arguments.  A file is the list of its bytes, a string argument the list of its characters
  without the terminator, and the line buffer of \<open>sanei_config_read\<close> a memory block.
\<close>

section \<open>The search path\<close>

definition sanei_config_get_paths :: "byte list \<Rightarrow> byte list option \<Rightarrow> byte list option \<Rightarrow> byte list" where
  \<comment> \<open>arguments: \<open>DEFAULT_DIRS\<close>, the static \<open>dir_list\<close> of an earlier call, the value of
      \<open>SANE_CONFIG_DIR\<close>; the result is the new \<open>dir_list\<close>\<close>
  "sanei_config_get_paths default_dirs dir_list env =
     (case dir_list of
        Some d \<Rightarrow> d
      | None \<Rightarrow>
          (case env of
             Some d \<Rightarrow> (if 0 < length d \<and> d ! (length d - 1) = 58 then d @ default_dirs else d)
           | None \<Rightarrow> default_dirs))"

fun strsep_all :: "byte list \<Rightarrow> byte list list" where
  \<comment> \<open>the pieces the repeated \<open>strsep (&next, ":")\<close> returns, empty ones included\<close>
  "strsep_all [] = [[]]"
| "strsep_all (c # cs) =
     (if c = 58 then [] # strsep_all cs
      else case strsep_all cs of [] \<Rightarrow> [[c]] | p # ps \<Rightarrow> (c # p) # ps)"

abbreviation (input) PATH_MAX :: nat where "PATH_MAX \<equiv> 4096"

definition config_path :: "byte list \<Rightarrow> byte list \<Rightarrow> byte list" where
  \<comment> \<open>\<open>snprintf (result, sizeof (result), "%s%c%s", dir, PATH_SEP, filename)\<close>\<close>
  "config_path dir filename = take (PATH_MAX - 1) (dir @ [47] @ filename)"

type_synonym file_system = "byte list \<Rightarrow> byte list option"

fun open_first :: "file_system \<Rightarrow> byte list \<Rightarrow> byte list list \<Rightarrow> byte list option" where
  "open_first fs filename [] = None"
| "open_first fs filename (dir # dirs) =
     (case fs (config_path dir filename) of
        Some file \<Rightarrow> Some file
      | None \<Rightarrow> open_first fs filename dirs)"

definition sanei_config_open :: "file_system \<Rightarrow> byte list \<Rightarrow> byte list \<Rightarrow> byte list option" where
  \<comment> \<open>arguments: the files that can be opened, the search path, the name\<close>
  "sanei_config_open fs paths filename = open_first fs filename (strsep_all paths)"

section \<open>Tokens\<close>

fun sanei_config_skip_whitespace :: "byte list \<Rightarrow> byte list" where
  "sanei_config_skip_whitespace [] = []"
| "sanei_config_skip_whitespace (c # cs) = (if is_space c then sanei_config_skip_whitespace cs else c # cs)"

definition sanei_config_get_string :: "byte list \<Rightarrow> byte list \<times> byte list option" where
  \<comment> \<open>the rest of the line, and the token (\<open>None\<close> when the closing quote is missing)\<close>
  "sanei_config_get_string s =
     (let str = sanei_config_skip_whitespace s
      in case str of
           [] \<Rightarrow> ([], Some [])
         | c # cs \<Rightarrow>
             if c = 34 then
               (let word = takeWhile (\<lambda>b. b \<noteq> 34) cs; rest = dropWhile (\<lambda>b. b \<noteq> 34) cs
                in case rest of q # after \<Rightarrow> (after, Some word) | [] \<Rightarrow> ([], None))
             else (dropWhile (\<lambda>b. \<not> is_space b) str, Some (takeWhile (\<lambda>b. \<not> is_space b) str)))"

section \<open>Reading a line\<close>

fun read_line :: "nat \<Rightarrow> byte list \<Rightarrow> byte list \<times> byte list" where
  \<comment> \<open>at most \<open>n\<close> bytes, up to and including a newline; then what remains\<close>
  "read_line 0 stream = ([], stream)"
| "read_line (Suc n) [] = ([], [])"
| "read_line (Suc n) (c # cs) =
     (if c = 10 then ([c], cs) else case read_line n cs of (l, rest) \<Rightarrow> (c # l, rest))"

definition c_fgets :: "byte list \<Rightarrow> nat \<Rightarrow> byte list \<Rightarrow> (byte list \<times> byte list) option" where
  \<comment> \<open>\<open>fgets (buf, n, stream)\<close> into a block; \<open>None\<close> at the end of the file\<close>
  "c_fgets buf n stream =
     (case read_line (n - 1) stream of
        (l, rest) \<Rightarrow> if l = [] then None else Some (blit buf 0 (l @ [NUL]), rest))"

fun strip_tail :: "byte list \<Rightarrow> nat \<Rightarrow> byte list" where
  \<comment> \<open>\<open>while ((0 < len) && isspace (str[--len])) str[len] = 0;\<close>\<close>
  "strip_tail str 0 = str"
| "strip_tail str (Suc len) = (if is_space (str ! len) then strip_tail (str[len := NUL]) len else str)"

fun leading_blanks :: "byte list \<Rightarrow> nat" where
  "leading_blanks [] = 0"
| "leading_blanks (c # cs) = (if is_space c then Suc (leading_blanks cs) else 0)"

function shift_left :: "byte list \<Rightarrow> nat \<Rightarrow> nat \<Rightarrow> byte list option" where
  \<comment> \<open>\<open>do { *str++ = *start++; } while (*str);\<close> with \<open>str\<close> at offset \<open>d\<close> and \<open>start\<close> at \<open>s\<close>;
      \<open>None\<close> when the loop leaves the block\<close>
  "shift_left b d s =
     (if s < length b \<and> Suc d < length b then
        let b' = b[d := b ! s]
        in if b' ! Suc d = NUL then Some b' else shift_left b' (Suc d) (Suc s)
      else None)"
  by pat_completeness auto
termination by (relation "measure (\<lambda>(b, d, s). length b - s)") auto

declare shift_left.simps [simp del]

datatype config_line =
    Cfg_Eof
  | Cfg_Line "byte list" "byte list"
  | Cfg_Fault

definition sanei_config_read :: "byte list \<Rightarrow> nat \<Rightarrow> byte list \<Rightarrow> config_line" where
  \<comment> \<open>arguments: the block, its size \<open>n\<close>, the stream; a line is the block and the rest of the
      stream\<close>
  "sanei_config_read str n stream =
     (case c_fgets str n stream of
        None \<Rightarrow> Cfg_Eof
      | Some (b, rest) \<Rightarrow>
          (case c_strlen b of
             None \<Rightarrow> Cfg_Fault
           | Some len \<Rightarrow>
               (let b1 = strip_tail b len; start = leading_blanks b1
                in if start = 0 then Cfg_Line b1 rest
                   else case shift_left b1 0 start of
                          Some b2 \<Rightarrow> Cfg_Line b2 rest
                        | None \<Rightarrow> Cfg_Fault)))"

end
