(* ===== verification/Net_Client.thy ===== *)
theory Net_Client
  imports Net_Msg Config "HOL-Library.Monad_Syntax"
begin

text \<open>
  The client of the network protocol, \<^verbatim>\<open>backend/net.c\<close>: its state, and the operations behind the SANE
  API, \<open>add_device\<close>, \<open>connect_dev\<close>, \<open>fetch_options\<close>, \<open>do_cancel\<close>, \<open>do_authorization\<close>, in the variant
  with \<open>NET_USES_AF_INDEP\<close> and \<open>ENABLE_IPV6\<close>, without Avahi.

  The state holds the globals of the file.  The list that starts at \<open>first_device\<close> only grows at its
  head; it is kept in the order of creation, and a \<open>Net_Device *\<close> is an index into it.  The list that
  starts at \<open>first_handle\<close> pairs each scanner with its address.  Reading another address sets
  \<open>nc_fault\<close>, and so does an access outside of a block or through a null pointer.  What the
  system does is a script in the state (\<open>nc_conns\<close>, \<open>nc_malloc\<close>) or an argument (\<open>client_env\<close>).
\<close>

unbundle bit_operations_syntax

section \<open>The environment\<close>

datatype net_addr =
    Net4 "32 word" "16 word"
  | Net6 "byte list" "16 word"
  | Net_Other

text \<open>An \<open>addrinfo\<close>: the address and the port, or a family the client does not know.\<close>

record net_link =
  ln_fd :: nat
  ln_rd :: "read_ev list"
  ln_wr :: "write_ev list"
  ln_malloc :: "bool list"
  ln_junk :: sane_word

datatype conn_ev = Sock_Fail | Conn_Fail | Conn net_link

text \<open>
  What a pair of \<open>socket\<close> and \<open>connect\<close> does: the socket is not available, the connection is refused, or
  it is made, with its descriptor and what the peer will send and accept.
\<close>

record auth_answer =
  aa_user :: "byte list"
  aa_pass :: "byte list"
  aa_cancel :: "nat list"

text \<open>
  What the frontend's authorization callback does: the contents of the two buffers of 128 bytes
  afterwards, and the handles it calls \<open>sane_cancel\<close> for.
\<close>

record client_env =
  ce_files :: file_system
  ce_paths :: "byte list"
  ce_hosts :: "byte list option"
  ce_timeout :: "byte list option"
  ce_resolve :: "byte list \<Rightarrow> bool \<Rightarrow> net_addr list option"
  ce_passwd :: "(byte list \<times> nat) option"
  ce_auth :: "(byte list \<Rightarrow> auth_answer) option"
  ce_peername :: bool
  ce_big_endian :: bool
  ce_version :: "sane_word \<times> sane_word"
  ce_init_junk :: init_reply
  ce_open_junk :: open_reply
  ce_devices_junk :: get_devices_reply
  ce_control_junk :: control_option_reply
  ce_params_junk :: get_parameters_reply
  ce_start_junk :: start_reply

text \<open>
  \<open>ce_hosts\<close>, \<open>ce_timeout\<close>: the variables \<open>SANE_NET_HOSTS\<close> and \<open>SANE_NET_TIMEOUT\<close>; \<open>ce_resolve\<close>:
  \<open>getaddrinfo\<close> with the service \<open>sane-port\<close> or without one; \<open>ce_passwd\<close>: the buffer
  \<open>getpwuid_r\<close> has filled, and where in it the name is; \<open>ce_version\<close>: \<open>V_MAJOR\<close> and \<open>V_MINOR\<close>; the
  last group: what the uninitialised reply structures on the stack hold.
\<close>

section \<open>The state\<close>

record net_device =
  nd_name :: "byte list"
  nd_addr :: "net_addr list"
  nd_addr_used :: "net_addr option"
  nd_ctl :: int
  nd_wire :: wire
  nd_auth_active :: bool

record net_scanner =
  ns_options_valid :: bool
  ns_opt :: option_descriptor_array
  ns_local :: option_descriptor_array
  ns_handle :: sane_word
  ns_data :: int
  ns_offset :: int
  ns_reclen :: "byte list"
  ns_remaining :: size_t
  ns_hw :: nat
  ns_stream :: "read_ev list"

text \<open>\<open>ns_stream\<close> is what the data connection will deliver.\<close>

record net_client =
  nc_devs :: "net_device list"
  nc_handles :: "(nat \<times> net_scanner) list"
  nc_next :: nat
  nc_devlist :: "sane_device option list option"
  nc_server_big :: bool
  nc_depth :: sane_word
  nc_timeout :: int
  nc_hang :: int
  nc_left :: int
  nc_malloc :: "bool list"
  nc_conns :: "conn_ev list"
  nc_dialed :: "net_addr list"
  nc_fault :: bool

text \<open>\<open>nc_next\<close>: the address of the next scanner; \<open>nc_dialed\<close>: the addresses connections were made to.\<close>

definition nc_fail :: "net_client \<Rightarrow> net_client" where
  "nc_fail c = c\<lparr>nc_fault := True\<rparr>"

definition nc_check :: "bool \<Rightarrow> net_client \<Rightarrow> net_client" where
  "nc_check ok c = (if ok then c else nc_fail c)"

definition nc_alloc :: "net_client \<Rightarrow> net_client \<times> bool" where
  "nc_alloc c = (case nc_malloc c of [] \<Rightarrow> (c, True) | b # bs \<Rightarrow> (c\<lparr>nc_malloc := bs\<rparr>, b))"

definition zero_wire :: wire where
  "zero_wire = \<lparr>w_version = 0, w_direction = WIRE_ENCODE, w_status = 0, w_allocated = 0, w_codec = Codec_None,
     w_size = 0, w_mem = [], w_curr = 0, w_end = 0, w_rd = [], w_wr = [], w_sent = [], w_malloc = [], w_junk = 0,
     w_fault = False\<rparr>"

definition new_net_device :: "byte list \<Rightarrow> net_addr list \<Rightarrow> net_device" where
  \<comment> \<open>zeroed memory with a name, addresses and no descriptor\<close>
  "new_net_device name addrs = \<lparr>nd_name = name, nd_addr = addrs, nd_addr_used = None, nd_ctl = - 1,
     nd_wire = zero_wire, nd_auth_active = False\<rparr>"

definition get_dev :: "net_client \<Rightarrow> nat \<Rightarrow> net_device" where
  "get_dev c i = (if i < length (nc_devs c) then nc_devs c ! i else new_net_device [] [])"

definition set_dev :: "nat \<Rightarrow> (net_device \<Rightarrow> net_device) \<Rightarrow> net_client \<Rightarrow> net_client" where
  "set_dev i f c = (if i < length (nc_devs c) then c\<lparr>nc_devs := (nc_devs c)[i := f (nc_devs c ! i)]\<rparr> else nc_fail c)"

definition on_dev :: "nat \<Rightarrow> (wire \<Rightarrow> wire \<times> 'a) \<Rightarrow> net_client \<Rightarrow> net_client \<times> 'a" where
  \<comment> \<open>an operation on the wire of a device\<close>
  "on_dev i f c =
     (case f (nd_wire (get_dev c i)) of
        (w, x) \<Rightarrow> (nc_check (\<not> w_fault w) (set_dev i (\<lambda>d. d\<lparr>nd_wire := w\<rparr>) c), x))"

definition dev_status :: "nat \<Rightarrow> net_client \<Rightarrow> int" where
  "dev_status i c = w_status (nd_wire (get_dev c i))"

definition get_scanner :: "net_client \<Rightarrow> nat \<Rightarrow> net_scanner option" where
  "get_scanner c h = map_of (nc_handles c) h"

definition put_scanner :: "nat \<Rightarrow> net_scanner \<Rightarrow> net_client \<Rightarrow> net_client" where
  "put_scanner h s c = c\<lparr>nc_handles := map (\<lambda>(k, t). (k, if k = h then s else t)) (nc_handles c)\<rparr>"

section \<open>Devices\<close>

definition find_dev :: "net_client \<Rightarrow> byte list \<Rightarrow> nat option" where
  \<comment> \<open>from \<open>first_device\<close>, the newest, on\<close>
  "find_dev c name = find (\<lambda>i. nd_name (nc_devs c ! i) = name) (rev [0..<length (nc_devs c)])"

fun set_port :: "16 word \<Rightarrow> net_addr \<Rightarrow> net_addr" where
  "set_port p (Net4 a q) = Net4 a p"
| "set_port p (Net6 a q) = Net6 a p"
| "set_port p Net_Other = Net_Other"

definition resolve_host :: "client_env \<Rightarrow> byte list \<Rightarrow> net_addr list option" where
  \<comment> \<open>with the service's port, or else port 6566\<close>
  "resolve_host env name =
     (case ce_resolve env name True of
        Some addrs \<Rightarrow> Some addrs
      | None \<Rightarrow> map_option (map (set_port 6566)) (ce_resolve env name False))"

definition add_device :: "client_env \<Rightarrow> byte list \<Rightarrow> net_client \<Rightarrow> net_client \<times> sane_word \<times> nat option" where
  \<comment> \<open>the last result is \<open>*ndp\<close>\<close>
  "add_device env name c =
     (case find_dev c name of
        Some i \<Rightarrow> (c, SANE_STATUS_GOOD, Some i)
      | None \<Rightarrow>
          (case resolve_host env name of
             None \<Rightarrow> (c, SANE_STATUS_IO_ERROR, None)
           | Some addrs \<Rightarrow>
               let (c1, ok) = nc_alloc c
               in if \<not> ok then (c1, SANE_STATUS_NO_MEM, None)
                  else let (c2, ok2) = nc_alloc c1
                       in if \<not> ok2 then (c2, SANE_STATUS_NO_MEM, None)
                          else (c2\<lparr>nc_devs := nc_devs c2 @ [new_net_device name addrs]\<rparr>, SANE_STATUS_GOOD,
                                Some (length (nc_devs c2)))))"

definition get_current_username :: "client_env \<Rightarrow> net_client \<Rightarrow> net_client \<times> c_string" where
  \<comment> \<open>the name is moved to the front of its buffer without the terminator\<close>
  "get_current_username env c =
     (case nc_alloc c of
        (c1, ok) \<Rightarrow>
          if \<not> ok then (c1, None)
          else case ce_passwd env of
                 None \<Rightarrow> (c1, None)
               | Some (buf, pw_name) \<Rightarrow>
                   (case c_str (drop pw_name buf) of
                      None \<Rightarrow> (nc_fail c1, Some buf)
                    | Some name \<Rightarrow> (c1, Some (blit buf 0 name))))"

section \<open>Connecting\<close>

fun connect_addrs :: "net_addr list \<Rightarrow> conn_ev list \<Rightarrow> (net_addr \<times> net_link) option \<times> conn_ev list" where
  \<comment> \<open>try the addresses in turn; a socket that could not be connected is not closed\<close>
  "connect_addrs [] evs = (None, evs)"
| "connect_addrs (Net_Other # as) evs = connect_addrs as evs"
| "connect_addrs (a # as) [] = connect_addrs as []"
| "connect_addrs (a # as) (Sock_Fail # evs) = connect_addrs as evs"
| "connect_addrs (a # as) (Conn_Fail # evs) = connect_addrs as evs"
| "connect_addrs (a # as) (Conn l # evs) = (Some (a, l), evs)"

definition link_wire :: "net_link \<Rightarrow> wire \<Rightarrow> wire" where
  \<comment> \<open>\<open>sanei_w_init\<close>, on a new connection\<close>
  "link_wire l w = sanei_w_init (w\<lparr>w_rd := ln_rd l, w_wr := ln_wr l, w_sent := [], w_malloc := ln_malloc l,
     w_junk := ln_junk l\<rparr>) Codec_Bin"

definition check_init_reply :: "client_env \<Rightarrow> init_reply \<Rightarrow> sane_word" where
  \<comment> \<open>the status \<open>connect_dev\<close> ends with\<close>
  "check_init_reply env reply =
     (if irp_status reply \<noteq> SANE_STATUS_GOOD then irp_status reply
      else if sane_version_major (irp_version_code reply) \<noteq> fst (ce_version env) then SANE_STATUS_IO_ERROR
      else if sane_version_build (irp_version_code reply) \<noteq> 3 \<and> sane_version_build (irp_version_code reply) \<noteq> 2
      then SANE_STATUS_IO_ERROR
      else SANE_STATUS_GOOD)"

definition connect_dev :: "client_env \<Rightarrow> nat \<Rightarrow> net_client \<Rightarrow> net_client \<times> sane_word" where
  "connect_dev env i c =
     (case connect_addrs (nd_addr (get_dev c i)) (nc_conns c) of
        (None, evs) \<Rightarrow> (c\<lparr>nc_conns := evs\<rparr>, SANE_STATUS_IO_ERROR)
      | (Some (a, l), evs) \<Rightarrow>
          let c1 = set_dev i (\<lambda>d. d\<lparr>nd_addr_used := Some a, nd_ctl := int (ln_fd l), nd_wire := link_wire l (nd_wire d)\<rparr>)
                     (c\<lparr>nc_conns := evs, nc_dialed := nc_dialed c @ [a]\<rparr>);
              (c2, user) = get_current_username env c1;
              req = \<lparr>irq_version_code = sane_version_code (fst (ce_version env)) (snd (ce_version env)) 3,
                     irq_username = user\<rparr>;
              (c3, _, reply) = on_dev i (\<lambda>w. sanei_w_call w SANE_NET_INIT sanei_w_init_req req
                                  sanei_w_init_reply (ce_init_junk env)) c2
          in if dev_status i c3 \<noteq> 0 then (set_dev i (\<lambda>d. d\<lparr>nd_ctl := - 1\<rparr>) c3, SANE_STATUS_IO_ERROR)
             else let (c4, reply) = on_dev i (\<lambda>w. sanei_w_free w sanei_w_init_reply reply) c3;
                      status = check_init_reply env reply
                  in if status \<noteq> SANE_STATUS_GOOD then (set_dev i (\<lambda>d. d\<lparr>nd_ctl := - 1\<rparr>) c4, status)
                     else (set_dev i (\<lambda>d. d\<lparr>nd_wire := (nd_wire d)\<lparr>w_version :=
                              uint (sane_version_build (irp_version_code reply))\<rparr>\<rparr>) c4, SANE_STATUS_GOOD))"

section \<open>Option descriptors\<close>

fun nc_allocs :: "nat \<Rightarrow> net_client \<Rightarrow> net_client \<times> bool" where
  \<comment> \<open>\<open>n\<close> allocations, until one fails\<close>
  "nc_allocs 0 c = (c, True)"
| "nc_allocs (Suc n) c = (case nc_alloc c of (c1, ok) \<Rightarrow> if ok then nc_allocs n c1 else (c1, False))"

definition alloc_local :: "net_scanner \<Rightarrow> net_client \<Rightarrow> net_client \<times> net_scanner \<times> sane_word" where
  \<comment> \<open>room for the local copies, whose contents the caller overwrites\<close>
  "alloc_local s c =
     (if oda_num_options (ns_local s) = 0 then
        (let num = oda_num_options (ns_opt s);
             (c1, ok) = nc_alloc c;
             (c2, ok2) = (if ok then nc_allocs (loop_count num) c1 else (c1, False));
             desc = (if ok then Some (replicate (loop_count num) (Some zero_descriptor)) else None)
         in if \<not> ok2 then (c2, s\<lparr>ns_local := (ns_local s)\<lparr>oda_desc := desc\<rparr>\<rparr>, SANE_STATUS_NO_MEM)
            else (c2, s\<lparr>ns_local := \<lparr>oda_num_options = num, oda_desc = desc\<rparr>\<rparr>, SANE_STATUS_GOOD))
      else if oda_num_options (ns_local s) \<noteq> oda_num_options (ns_opt s) then (c, s, SANE_STATUS_INVAL)
      else (c, s, SANE_STATUS_GOOD))"

definition copy_descriptors :: "net_scanner \<Rightarrow> sane_option_descriptor option list option option" where
  \<comment> \<open>the loop of \<open>memcpy\<close>s into \<open>local_opt.desc\<close>; \<open>None\<close> for an access out of bounds\<close>
  "copy_descriptors s =
     (let n = loop_count (oda_num_options (ns_opt s))
      in if n = 0 then Some (oda_desc (ns_local s))
         else case (oda_desc (ns_opt s), oda_desc (ns_local s)) of
                (Some ds, Some ls) \<Rightarrow>
                  if n \<le> length ds \<and> n \<le> length ls \<and> None \<notin> set (take n ds) then Some (Some (take n ds @ drop n ls))
                  else None
              | _ \<Rightarrow> None)"

definition free_options :: "net_scanner \<Rightarrow> net_client \<Rightarrow> net_client \<times> net_scanner" where
  \<comment> \<open>release the cached descriptors; the wire stays set to \<open>WIRE_FREE\<close>\<close>
  "free_options s c =
     (if oda_num_options (ns_opt s) \<noteq> 0 then
        (case on_dev (ns_hw s) (\<lambda>w. sanei_w_option_descriptor_array ((sanei_w_set_dir w WIRE_FREE)\<lparr>w_status := 0\<rparr>) (ns_opt s)) c of
           (c1, opt) \<Rightarrow> (c1, s\<lparr>ns_opt := opt\<rparr>))
      else (c, s))"

definition fetch_options :: "net_scanner \<Rightarrow> net_client \<Rightarrow> net_client \<times> net_scanner \<times> sane_word" where
  "fetch_options s0 c0 =
     (case free_options s0 c0 of
        (c, s) \<Rightarrow>
          if oda_num_options (ns_opt s0) \<noteq> 0 \<and> dev_status (ns_hw s) c \<noteq> 0 then (c, s, SANE_STATUS_IO_ERROR)
          else
            let (c1, _, opt) = on_dev (ns_hw s) (\<lambda>w. sanei_w_call w SANE_NET_GET_OPTION_DESCRIPTORS sanei_w_word
                                  (ns_handle s) sanei_w_option_descriptor_array (ns_opt s)) c;
                s1 = s\<lparr>ns_opt := opt\<rparr>
            in if dev_status (ns_hw s) c1 \<noteq> 0 then (c1, s1, SANE_STATUS_IO_ERROR)
               else case alloc_local s1 c1 of
                 (c2, s2, status) \<Rightarrow>
                   if status \<noteq> SANE_STATUS_GOOD then (c2, s2, status)
                   else (case copy_descriptors s2 of
                           None \<Rightarrow> (nc_fail c2, s2, SANE_STATUS_GOOD)
                         | Some desc \<Rightarrow>
                             (c2, s2\<lparr>ns_local := (ns_local s2)\<lparr>oda_desc := desc\<rparr>, ns_options_valid := True\<rparr>,
                              SANE_STATUS_GOOD)))"

section \<open>Cancelling\<close>

definition do_cancel :: "nat \<Rightarrow> net_client \<Rightarrow> net_client" where
  "do_cancel h c =
     (case get_scanner c h of
        None \<Rightarrow> nc_fail c
      | Some s \<Rightarrow>
          let c1 = set_dev (ns_hw s) (\<lambda>d. d\<lparr>nd_auth_active := False\<rparr>) c
          in if 0 \<le> ns_data s then put_scanner h (s\<lparr>ns_data := - 1\<rparr>) c1 else c1)"

definition sane_cancel :: "nat \<Rightarrow> net_client \<Rightarrow> net_client" where
  "sane_cancel h c =
     (case get_scanner c h of
        None \<Rightarrow> nc_fail c
      | Some s \<Rightarrow>
          do_cancel h (fst (on_dev (ns_hw s) (\<lambda>w. sanei_w_call w SANE_NET_CANCEL sanei_w_word (ns_handle s)
            sanei_w_word (w_junk w)) c)))"

section \<open>Authorization\<close>

abbreviation (input) NET_NAME_LEN :: nat where "NET_NAME_LEN \<equiv> 128"

definition net_resource_name :: "byte list \<Rightarrow> byte list \<Rightarrow> byte list" where
  \<comment> \<open>\<open>sprintf (net_resource, "net:%s:%s", dev->name, resource)\<close>\<close>
  "net_resource_name host resource = ascii ''net:'' @ host @ ascii '':'' @ resource"

definition ask_frontend :: "client_env \<Rightarrow> byte list \<Rightarrow> net_client \<Rightarrow> net_client \<times> byte list \<times> byte list" where
  \<comment> \<open>\<open>auth_callback\<close>, if there is one, on two zeroed buffers\<close>
  "ask_frontend env resource c =
     (case ce_auth env of
        None \<Rightarrow> (c, replicate NET_NAME_LEN 0, replicate NET_NAME_LEN 0)
      | Some f \<Rightarrow> (fold sane_cancel (aa_cancel (f resource)) c, aa_user (f resource), aa_pass (f resource)))"

definition do_authorization :: "client_env \<Rightarrow> nat \<Rightarrow> c_string \<Rightarrow> net_client \<Rightarrow> net_client" where
  \<comment> \<open>without memory for the full name the callback gets the bare resource\<close>
  "do_authorization env i res c0 =
     (let c = set_dev i (\<lambda>d. d\<lparr>nd_auth_active := True\<rparr>) c0
      in case Option.bind res c_str of
           None \<Rightarrow> nc_fail c
         | Some resource \<Rightarrow>
             let (c1, ok) = nc_alloc c;
                 (c2, user, pass) = ask_frontend env
                   (if ok then net_resource_name (nd_name (get_dev c i)) resource else resource) c1
             in if nd_auth_active (get_dev c2 i) then
                  fst (on_dev i (\<lambda>w. sanei_w_call w SANE_NET_AUTHORIZE sanei_w_authorization_req
                    \<lparr>arq_resource = res, arq_username = Some user, arq_password = Some pass\<rparr>
                    sanei_w_word (w_junk w)) c2)
                else c2)"

end
