(* ===== verification/Net_Ops.thy ===== *)
theory Net_Ops
  imports Net_Client
begin

text \<open>
  The operations of the network client for devices and handles, \<^verbatim>\<open>backend/net.c\<close>: \<open>sane_init\<close>,
  \<open>sane_exit\<close>, \<open>sane_get_devices\<close>, \<open>sane_open\<close>, \<open>sane_close\<close>.  A function that may never return has an
  option result, \<open>None\<close> when it does not return.
\<close>

unbundle bit_operations_syntax

section \<open>sane_init\<close>

definition c_atoi :: "byte list \<Rightarrow> int" where
  "c_atoi s = to_c_int (fst (c_strtol10 s))"

definition init_line :: "client_env \<Rightarrow> byte list \<Rightarrow> net_client \<Rightarrow> net_client" where
  \<comment> \<open>a line of \<^verbatim>\<open>net.conf\<close>: a comment, an option, or a host\<close>
  "init_line env line c =
     (if line = [] \<or> hd line = 35 then c
      else if strstr_after line (ascii ''connect_timeout'') \<noteq> None then
        (case strchr_idx line 61 of
           None \<Rightarrow> c
         | Some i \<Rightarrow>
             let optval = sanei_config_skip_whitespace (drop (Suc i) line)
             in if optval \<noteq> [] then c\<lparr>nc_timeout := c_atoi optval\<rparr> else c)
      else fst (add_device env line c))"

fun init_loop :: "nat \<Rightarrow> client_env \<Rightarrow> byte list \<Rightarrow> byte list \<Rightarrow> net_client \<Rightarrow> net_client" where
  \<comment> \<open>\<open>while (sanei_config_read (device_name, sizeof (device_name), fp))\<close>; a turn consumes at least a byte\<close>
  "init_loop 0 env buf stream c = nc_fail c"
| "init_loop (Suc n) env buf stream c =
     (case sanei_config_read buf PATH_MAX stream of
        Cfg_Eof \<Rightarrow> c
      | Cfg_Fault \<Rightarrow> nc_fail c
      | Cfg_Line b rest \<Rightarrow>
          (case c_str b of
             None \<Rightarrow> nc_fail c
           | Some line \<Rightarrow> init_loop n env b rest (init_line env line c)))"

definition c_strsep :: "byte list \<Rightarrow> byte \<Rightarrow> byte list \<times> byte list option" where
  \<comment> \<open>\<open>strsep (&next, delim)\<close> for a \<open>next\<close> that is not null: the token, and what \<open>next\<close> becomes\<close>
  "c_strsep next delim =
     (takeWhile (\<lambda>b. b \<noteq> delim) next,
      if delim \<in> set next then Some (tl (dropWhile (\<lambda>b. b \<noteq> delim) next)) else None)"

definition next_host :: "byte list \<Rightarrow> (byte list \<times> byte list option) option" where
  \<comment> \<open>one turn of the loop over \<open>SANE_NET_HOSTS\<close>: the host, with its brackets removed, and the rest.
      Without a colon behind the opening bracket, or without a closing bracket, \<open>next\<close> is null when
      \<open>next[0]\<close> is read\<close>
  "next_host next =
     (case c_strsep next 58 of
        (token, rest) \<Rightarrow>
          if token \<noteq> [] \<and> hd token = 91 then
            (case rest of
               None \<Rightarrow> None
             | Some r \<Rightarrow>
                 (case c_strsep r 93 of
                    (addr, None) \<Rightarrow> None
                  | (addr, Some r2) \<Rightarrow>
                      Some (tl token @ 58 # addr, Some (if r2 \<noteq> [] \<and> hd r2 = 58 then tl r2 else r2))))
          else Some (token, rest))"

lemma c_strsep_shorter:
  assumes "c_strsep next d = (t, Some r)"
  shows "length r < length next"
proof -
  have d: "d \<in> set next" "r = tl (dropWhile (\<lambda>b. b \<noteq> d) next)"
    using assms by (auto simp: c_strsep_def split: if_splits)
  then have "next \<noteq> []" by auto
  moreover have "length (dropWhile (\<lambda>b. b \<noteq> d) next) \<le> length next" by (rule length_dropWhile_le)
  ultimately show ?thesis using d(2) by (cases "dropWhile (\<lambda>b. b \<noteq> d) next") auto
qed

lemma next_host_shorter:
  assumes "next_host next = Some (host, Some r)"
  shows "length r < length next"
proof -
  obtain token rest where t: "c_strsep next 58 = (token, rest)" by (metis surj_pair)
  show ?thesis
  proof (cases "token \<noteq> [] \<and> hd token = 91")
    case False
    with assms t show ?thesis using c_strsep_shorter by (auto simp: next_host_def)
  next
    case True
    with assms t obtain r1 where r1: "rest = Some r1" by (auto simp: next_host_def split: option.splits)
    obtain a r2 where r2: "c_strsep r1 93 = (a, r2)" by (metis surj_pair)
    with assms t True r1 obtain r3 where r3: "r2 = Some r3" "r = (if r3 \<noteq> [] \<and> hd r3 = 58 then tl r3 else r3)"
      by (auto simp: next_host_def split: option.splits if_splits)
    have "length r \<le> length r3" using r3(2) by simp
    also have "\<dots> < length r1" using c_strsep_shorter r2 r3(1) by blast
    also have "\<dots> < length next" using c_strsep_shorter t r1 by blast
    finally show ?thesis .
  qed
qed

function hosts_loop :: "client_env \<Rightarrow> byte list option \<Rightarrow> net_client \<Rightarrow> net_client" where
  \<comment> \<open>\<open>while ((host = strsep (&next, ":")))\<close>; an empty host is skipped\<close>
  "hosts_loop env None c = c"
| "hosts_loop env (Some next) c =
     (case next_host next of
        None \<Rightarrow> nc_fail c
      | Some (host, rest) \<Rightarrow>
          hosts_loop env rest (if host = [] then c else fst (add_device env host c)))"
  by pat_completeness auto
termination
  by (relation "measure (\<lambda>(env, next, c). case next of None \<Rightarrow> 0 | Some s \<Rightarrow> Suc (length s))")
    (auto dest: next_host_shorter split: option.splits)

definition sane_init :: "client_env \<Rightarrow> net_client \<Rightarrow> net_client" where
  \<comment> \<open>the status is always \<open>SANE_STATUS_GOOD\<close>\<close>
  "sane_init env c0 =
     (let c = c0\<lparr>nc_devlist := None, nc_devs := [], nc_handles := []\<rparr>;
          c1 = (case sanei_config_open (ce_files env) (ce_paths env) (ascii ''net.conf'') of
                  None \<Rightarrow> c
                | Some stream \<Rightarrow> init_loop (Suc (length stream)) env (replicate PATH_MAX 0) stream c);
          c2 = (case ce_hosts env of
                  None \<Rightarrow> c1
                | Some hosts \<Rightarrow>
                    (case nc_alloc c1 of (c', ok) \<Rightarrow> if ok then hosts_loop env (Some hosts) c' else c'))
      in case ce_timeout env of None \<Rightarrow> c2 | Some t \<Rightarrow> c2\<lparr>nc_timeout := c_atoi t\<rparr>)"

section \<open>The device list\<close>

record dev_table =
  dt_list :: "sane_device option list option"
  dt_size :: nat

text \<open>
  The static variables of \<open>sane_get_devices\<close>: the entries written to \<open>devlist\<close>, and the number it
  has room for.
\<close>

definition free_devlist :: "net_client \<Rightarrow> net_client" where
  \<comment> \<open>the walk up to the terminating null pointer\<close>
  "free_devlist c =
     (case nc_devlist c of
        None \<Rightarrow> c
      | Some l \<Rightarrow> nc_check (None \<in> set l) (c\<lparr>nc_devlist := None\<rparr>))"

definition assert_space :: "nat \<Rightarrow> dev_table \<Rightarrow> net_client \<Rightarrow> net_client \<times> dev_table \<times> bool" where
  \<comment> \<open>\<open>ASSERT_SPACE (n)\<close>, and whether there was memory\<close>
  "assert_space n t c =
     (let len = (case dt_list t of None \<Rightarrow> 0 | Some l \<Rightarrow> length l)
      in if dt_size t < len + n then
           (case nc_alloc c of
              (c1, ok) \<Rightarrow>
                if ok then (c1, \<lparr>dt_list = Some (case dt_list t of None \<Rightarrow> [] | Some l \<Rightarrow> l), dt_size = dt_size t + (n + 15)\<rparr>, True)
                else (c1, \<lparr>dt_list = None, dt_size = dt_size t + (n + 15)\<rparr>, False))
         else (c, t, True))"

definition push_entry :: "sane_device option \<Rightarrow> dev_table \<Rightarrow> dev_table option" where
  \<comment> \<open>\<open>devlist[devlist_len++] = rdev\<close>\<close>
  "push_entry d t =
     (case dt_list t of
        None \<Rightarrow> None
      | Some l \<Rightarrow> if length l < dt_size t then Some (t\<lparr>dt_list := Some (l @ [d])\<rparr>) else None)"

definition full_name :: "byte list \<Rightarrow> byte list \<Rightarrow> byte list" where
  "full_name host name = (if 58 \<in> set host then 91 # host @ [93] else host) @ 58 # name"

definition rename_device :: "byte list \<Rightarrow> sane_device \<Rightarrow> sane_device option" where
  \<comment> \<open>the copy of a device under its full name; \<open>None\<close> when a string cannot be read\<close>
  "rename_device host d =
     (case (Option.bind (dev_name d) c_str, Option.bind (dev_vendor d) c_str, Option.bind (dev_model d) c_str,
            Option.bind (dev_type d) c_str) of
        (Some n, Some v, Some m, Some ty) \<Rightarrow>
          Some \<lparr>dev_name = Some (mk_cstr (full_name host n)), dev_vendor = Some (mk_cstr v),
                dev_model = Some (mk_cstr m), dev_type = Some (mk_cstr ty)\<rparr>
      | _ \<Rightarrow> None)"

fun add_entries :: "byte list \<Rightarrow> sane_device option list \<Rightarrow> dev_table \<Rightarrow> net_client \<Rightarrow> net_client \<times> dev_table \<times> bool" where
  \<comment> \<open>the loop over the devices of one host, up to its null pointer; the last result is false when
      memory runs out\<close>
  "add_entries host [] t c = (nc_fail c, t, True)"
| "add_entries host (None # ds) t c = (c, t, True)"
| "add_entries host (Some d # ds) t c =
     (case nc_alloc c of
        (c1, ok) \<Rightarrow>
          if \<not> ok then (c1, t, False)
          else case nc_alloc c1 of (c2, ok1) \<Rightarrow> case nc_alloc c2 of (c3, ok2) \<Rightarrow> case nc_alloc c3 of (c4, ok3) \<Rightarrow>
            case rename_device host d of
              None \<Rightarrow> (nc_fail c4, t, True)
            | Some rdev \<Rightarrow>
                if \<not> (ok1 \<and> ok2 \<and> ok3) then (c4, t, False)
                else case push_entry (Some rdev) t of
                  None \<Rightarrow> (nc_fail c4, t, True)
                | Some t1 \<Rightarrow> add_entries host ds t1 c4)"

definition free_devices :: "nat \<Rightarrow> get_devices_reply \<Rightarrow> net_client \<Rightarrow> net_client" where
  "free_devices i reply c = fst (on_dev i (\<lambda>w. sanei_w_free w sanei_w_get_devices_reply reply) c)"

definition host_devices :: "client_env \<Rightarrow> nat \<Rightarrow> dev_table \<Rightarrow> net_client \<Rightarrow> net_client \<times> dev_table \<times> bool" where
  \<comment> \<open>one turn of the loop over \<open>first_device\<close>; the reply is used whether or not it arrived\<close>
  "host_devices env i t c0 =
     (let (c, status) = (if nd_ctl (get_dev c0 i) < 0 then connect_dev env i c0 else (c0, SANE_STATUS_GOOD))
      in if status \<noteq> SANE_STATUS_GOOD then (c, t, True)
         else
           let (c1, _, reply) = on_dev i (\<lambda>w. sanei_w_call w SANE_NET_GET_DEVICES sanei_w_void ()
                                   sanei_w_get_devices_reply (ce_devices_junk env)) c
           in if gdr_status reply \<noteq> SANE_STATUS_GOOD then (free_devices i reply c1, t, True)
              else case gdr_device_list reply of
                     None \<Rightarrow> (nc_fail c1, t, True)
                   | Some ds \<Rightarrow>
                       (case assert_space (length (takeWhile (\<lambda>d. d \<noteq> None) ds)) t c1 of
                          (c2, t2, ok) \<Rightarrow>
                            if \<not> ok then (c2, t2, False)
                            else case add_entries (nd_name (get_dev c2 i)) ds t2 c2 of
                              (c3, t3, ok3) \<Rightarrow> (free_devices i reply c3, t3, ok3)))"

fun hosts_devices :: "client_env \<Rightarrow> nat list \<Rightarrow> dev_table \<Rightarrow> net_client \<Rightarrow> net_client \<times> dev_table \<times> bool" where
  "hosts_devices env [] t c = (c, t, True)"
| "hosts_devices env (i # is) t c =
     (case host_devices env i t c of (c1, t1, ok) \<Rightarrow> if ok then hosts_devices env is t1 c1 else (c1, t1, False))"

definition sane_get_devices :: "client_env \<Rightarrow> bool \<Rightarrow> net_client \<Rightarrow> net_client \<times> sane_word \<times> sane_device option list option" where
  \<comment> \<open>the last result is \<open>*device_list\<close>, when it is set\<close>
  "sane_get_devices env local_only c0 =
     (if local_only then (c0, SANE_STATUS_GOOD, Some [None])
      else
        let c = free_devlist c0
        in case hosts_devices env (rev [0..<length (nc_devs c)]) \<lparr>dt_list = None, dt_size = 0\<rparr> c of
             (c1, t1, ok) \<Rightarrow>
               if \<not> ok then (c1\<lparr>nc_devlist := dt_list t1\<rparr>, SANE_STATUS_NO_MEM, None)
               else case assert_space 1 t1 c1 of
                 (c2, t2, ok2) \<Rightarrow>
                   if \<not> ok2 then (c2\<lparr>nc_devlist := dt_list t2\<rparr>, SANE_STATUS_NO_MEM, None)
                   else case push_entry None t2 of
                     None \<Rightarrow> (nc_fail (c2\<lparr>nc_devlist := dt_list t2\<rparr>), SANE_STATUS_GOOD, None)
                   | Some t3 \<Rightarrow> (c2\<lparr>nc_devlist := dt_list t3\<rparr>, SANE_STATUS_GOOD, dt_list t3))"

section \<open>sane_open\<close>

definition split_name :: "byte list \<Rightarrow> (byte list \<times> byte list) option" where
  \<comment> \<open>\<open>full_name\<close> into the host and the device; an IPv6 address stands in brackets, and \<open>None\<close> is
      for a missing bracket.  The character before the colon is dropped, whatever it is\<close>
  "split_name name =
     (if name \<noteq> [] \<and> hd name = 91 then
        (case strchr_idx name 93 of
           None \<Rightarrow> None
         | Some j \<Rightarrow>
             (case strchr_idx (drop j name) 58 of
                Some k \<Rightarrow> Some (take (j + k - 2) (drop 1 name), drop (Suc (j + k)) name)
              | None \<Rightarrow> Some (take (length name - 2) (drop 1 name), [])))
      else
        (case strchr_idx name 58 of
           Some k \<Rightarrow> Some (take k name, drop (Suc k) name)
         | None \<Rightarrow> Some (name, [])))"

definition open_auth :: "client_env \<Rightarrow> nat \<Rightarrow> open_reply \<Rightarrow> net_client \<Rightarrow> net_client \<times> open_reply" where
  \<comment> \<open>the branch for \<open>need_auth\<close>: answer, and wait for the next reply\<close>
  "open_auth env i reply c =
     (let c1 = do_authorization env i (orp_resource reply) c;
          (c2, reply1) = on_dev i (\<lambda>w. sanei_w_free w sanei_w_open_reply reply) c1
      in on_dev i (\<lambda>w. sanei_w_open_reply (if w_direction w \<noteq> WIRE_DECODE then sanei_w_set_dir w WIRE_DECODE else w) reply1) c2)"

partial_function (option) open_loop ::
  "client_env \<Rightarrow> nat \<Rightarrow> open_reply \<Rightarrow> net_client \<Rightarrow> (net_client \<times> (sane_word + sane_word)) option"
where
  \<comment> \<open>\<open>Inl\<close> the status the function returns, or \<open>Inr\<close> the remote handle.  The test for a cancelled
      authorization at the end of the body is never reached with \<open>need_auth\<close> set\<close>
  "open_loop env i reply c =
     (if dev_status i c \<noteq> 0 then Some (c, Inl SANE_STATUS_IO_ERROR)
      else if orp_resource reply \<noteq> None then (case open_auth env i reply c of (c1, reply1) \<Rightarrow> open_loop env i reply1 c1)
      else case on_dev i (\<lambda>w. sanei_w_free w sanei_w_open_reply reply) c of
        (c1, reply1) \<Rightarrow>
          Some (c1, if orp_status reply \<noteq> SANE_STATUS_GOOD then Inl (orp_status reply1) else Inr (orp_handle reply)))"

declare open_loop.simps [code]

definition new_scanner :: "nat \<Rightarrow> sane_word \<Rightarrow> net_scanner" where
  \<comment> \<open>zeroed memory with the fields \<open>sane_open\<close> sets\<close>
  "new_scanner i handle = \<lparr>ns_options_valid = False, ns_opt = \<lparr>oda_num_options = 0, oda_desc = None\<rparr>,
     ns_local = \<lparr>oda_num_options = 0, oda_desc = None\<rparr>, ns_handle = handle, ns_data = - 1, ns_offset = 0,
     ns_reclen = replicate 4 0, ns_remaining = 0, ns_hw = i, ns_stream = []\<rparr>"

definition open_scanner :: "nat \<Rightarrow> sane_word \<Rightarrow> net_client \<Rightarrow> net_client \<times> sane_word \<times> nat option" where
  \<comment> \<open>after the remote open: the scanner and its options\<close>
  "open_scanner i handle c =
     (case nc_alloc c of
        (c1, ok) \<Rightarrow>
          if \<not> ok then (c1, SANE_STATUS_NO_MEM, None)
          else case fetch_options (new_scanner i handle) c1 of
            (c2, s, status) \<Rightarrow>
              if status \<noteq> SANE_STATUS_GOOD then
                (fst (on_dev i (\<lambda>w. sanei_w_call w SANE_NET_CLOSE sanei_w_word handle sanei_w_word (w_junk w)) c2), status, None)
              else (c2\<lparr>nc_handles := (nc_next c2, s) # nc_handles c2, nc_next := Suc (nc_next c2)\<rparr>, SANE_STATUS_GOOD,
                    Some (nc_next c2)))"

definition open_connected :: "client_env \<Rightarrow> nat \<Rightarrow> byte list \<Rightarrow> net_client \<Rightarrow> (net_client \<times> sane_word \<times> nat option) option" where
  "open_connected env i device c =
     (let (c1, _, reply) = on_dev i (\<lambda>w. sanei_w_call w SANE_NET_OPEN sanei_w_string (Some (mk_cstr device))
                              sanei_w_open_reply (ce_open_junk env)) c
      in do {
           (c2, r) \<leftarrow> open_loop env i reply c1;
           Some (case r of Inl status \<Rightarrow> (c2, status, None) | Inr handle \<Rightarrow> open_scanner i handle c2)
         })"

definition find_host :: "client_env \<Rightarrow> byte list \<Rightarrow> net_client \<Rightarrow> net_client \<times> sane_word \<times> nat option" where
  \<comment> \<open>the device of a host name, registered if need be\<close>
  "find_host env host c =
     (case find_dev c host of
        Some i \<Rightarrow> (c, SANE_STATUS_GOOD, Some i)
      | None \<Rightarrow> add_device env host c)"

definition sane_open :: "client_env \<Rightarrow> byte list \<Rightarrow> net_client \<Rightarrow> (net_client \<times> sane_word \<times> nat option) option" where
  "sane_open env name c =
     (case split_name name of
        None \<Rightarrow> Some (c, SANE_STATUS_INVAL, None)
      | Some (host, device) \<Rightarrow>
          if host = [] then Some (c, SANE_STATUS_INVAL, None)
          else case find_host env host c of
            (c1, status, None) \<Rightarrow> Some (c1, status, None)
          | (c1, status, Some i) \<Rightarrow>
              let (c2, status2) = (if nd_ctl (get_dev c1 i) < 0 then connect_dev env i c1 else (c1, SANE_STATUS_GOOD))
              in if status2 \<noteq> SANE_STATUS_GOOD then Some (c2, status2, None)
                 else open_connected env i device c2)"

section \<open>sane_close and sane_exit\<close>

definition free_local :: "net_scanner \<Rightarrow> bool" where
  \<comment> \<open>whether the walk over \<open>local_opt.desc\<close> keeps inside\<close>
  "free_local s \<longleftrightarrow>
     (let n = loop_count (oda_num_options (ns_local s))
      in n = 0 \<or> (case oda_desc (ns_local s) of None \<Rightarrow> False | Some ls \<Rightarrow> n \<le> length ls))"

definition sane_close :: "nat \<Rightarrow> net_client \<Rightarrow> net_client" where
  "sane_close h c =
     (case get_scanner c h of
        None \<Rightarrow> c
      | Some s \<Rightarrow>
          let c1 = c\<lparr>nc_handles := filter (\<lambda>(k, t). k \<noteq> h) (nc_handles c)\<rparr>;
              (c2, s2) = free_options s c1;
              c3 = nc_check (free_local s2) c2
          in fst (on_dev (ns_hw s) (\<lambda>w. sanei_w_call w SANE_NET_CLOSE sanei_w_word (ns_handle s) sanei_w_word (w_junk w)) c3))"

definition exit_device :: "nat \<Rightarrow> net_client \<Rightarrow> net_client" where
  "exit_device i c =
     (if 0 \<le> nd_ctl (get_dev c i) then
        fst (on_dev i (\<lambda>w. case sanei_w_call w SANE_NET_EXIT sanei_w_void () sanei_w_void () of (w1, _) \<Rightarrow> (sanei_w_exit w1, ())) c)
      else c)"

definition sane_exit :: "net_client \<Rightarrow> net_client" where
  \<comment> \<open>the memory of the devices is released at the end; their state is kept to show what was sent\<close>
  "sane_exit c =
     (let c1 = fold sane_close (map fst (nc_handles c)) c;
          c2 = c1\<lparr>nc_handles := []\<rparr>
      in free_devlist (fold exit_device (rev [0..<length (nc_devs c2)]) c2))"

end
