(* ===== verification/Net_Calls.thy ===== *)
theory Net_Calls
  imports Net_Ops
begin

text \<open>
  The calls of the network client for one scanner, \<^verbatim>\<open>backend/net.c\<close>: \<open>sane_get_option_descriptor\<close>,
  \<open>sane_control_option\<close>, \<open>sane_get_parameters\<close>, \<open>sane_start\<close>, \<open>sane_set_io_mode\<close>,
  \<open>sane_get_select_fd\<close>.  Only \<open>sane_open\<close> and \<open>fetch_options\<close> look at the wire's status; elsewhere the
  reply is used as it is, so after a failed call it holds what was on the stack (\<open>ce_control_junk\<close>
  and so on).  The authorization loops free a reply and decode the next one into it.  A pointer freed so
  and not replaced is a block without bytes (\<open>freed_string\<close>, \<open>freed_value\<close>); using it, or
  freeing it again, sets \<open>nc_fault\<close>, and a loop that comes to a freed resource name ends there, since
  nothing is known of the program any more.
\<close>

unbundle bit_operations_syntax

section \<open>Values as memory\<close>

definition word_bytes :: "sane_word \<Rightarrow> byte list" where
  \<comment> \<open>little-endian\<close>
  "word_bytes v = rev (be32 v)"

fun bytes_words :: "byte list \<Rightarrow> sane_word list" where
  "bytes_words (a # b # c # d # bs) = of_be32 d c b a # bytes_words bs"
| "bytes_words _ = []"

fun value_bytes :: "ctl_value \<Rightarrow> byte list" where
  "value_bytes (Ctl_Words ws) = concat (map word_bytes ws)"
| "value_bytes (Ctl_Chars b) = b"
| "value_bytes _ = []"

fun store_bytes :: "ctl_value \<Rightarrow> byte list \<Rightarrow> ctl_value option" where
  \<comment> \<open>\<open>memcpy (value, bs, n)\<close>; \<open>None\<close> when the bytes do not fit\<close>
  "store_bytes (Ctl_Words ws) bs =
     (if length bs \<le> 4 * length ws then Some (Ctl_Words (bytes_words (blit (value_bytes (Ctl_Words ws)) 0 bs))) else None)"
| "store_bytes (Ctl_Chars b) bs = (if length bs \<le> length b then Some (Ctl_Chars (blit b 0 bs)) else None)"
| "store_bytes v bs = (if bs = [] then Some v else None)"

section \<open>Options\<close>

definition sane_get_option_descriptor :: "nat \<Rightarrow> sane_word \<Rightarrow> net_client \<Rightarrow> net_client \<times> sane_option_descriptor option" where
  "sane_get_option_descriptor h option c0 =
     (case get_scanner c0 h of
        None \<Rightarrow> (nc_fail c0, None)
      | Some s0 \<Rightarrow>
          let (c1, s, status) = (if ns_options_valid s0 then (c0, s0, SANE_STATUS_GOOD) else fetch_options s0 c0);
              c = put_scanner h s c1
          in if status \<noteq> SANE_STATUS_GOOD then (c, None)
             else if sint (oda_num_options (ns_opt s)) \<le> sint option \<or> sint option < 0 then (c, None)
             else case Option.bind (oda_desc (ns_local s)) (\<lambda>ls. blk_get ls (nat (sint option))) of
                    None \<Rightarrow> (nc_fail c, None)
                  | Some d \<Rightarrow> (c, d))"

definition option_size :: "sane_option_descriptor \<Rightarrow> sane_word \<Rightarrow> ctl_value \<Rightarrow> size_t option" where
  \<comment> \<open>the \<open>switch\<close> that sets \<open>value_size\<close>; \<open>None\<close> when \<open>strlen\<close> leaves the value\<close>
  "option_size d action v =
     (if opt_type d = SANE_TYPE_BUTTON \<or> opt_type d = SANE_TYPE_GROUP then Some 0
      else if opt_type d = SANE_TYPE_STRING \<and> action = SANE_ACTION_SET_VALUE then
        (case v of
           Ctl_Null \<Rightarrow> None
         | _ \<Rightarrow>
             (case c_strlen (value_bytes v) of
                None \<Rightarrow> None
              | Some n \<Rightarrow>
                  Some (if sint (word_of_nat n :: sane_word) + 1 < sint (opt_size d) then word_of_nat (n + 1)
                        else scast (opt_size d))))
      else Some (scast (opt_size d)))"

definition clear_value :: "sane_word \<Rightarrow> size_t \<Rightarrow> ctl_value \<Rightarrow> ctl_value option" where
  \<comment> \<open>\<open>memset (value, 0, value_size)\<close> unless a value is set\<close>
  "clear_value action sz v =
     (if v \<noteq> Ctl_Null \<and> action \<noteq> SANE_ACTION_SET_VALUE then
        (if length (value_bytes v) < unat sz then None else store_bytes v (replicate (unat sz) 0))
      else Some v)"

definition take_reply :: "size_t \<Rightarrow> ctl_value \<Rightarrow> control_option_reply \<Rightarrow> ctl_value option" where
  \<comment> \<open>copy the value of a good reply; \<open>None\<close> when the copy leaves one of the two values\<close>
  "take_reply sz v reply =
     (if 0 < sz \<and> ucast sz = cor_value_size reply then
        (let n = unat (scast (cor_value_size reply) :: size_t)
         in if n \<le> length (value_bytes (cor_value reply))
            then store_bytes v (take n (value_bytes (cor_value reply))) else None)
      else Some v)"

definition freed_string :: "c_string \<Rightarrow> c_string" where
  "freed_string s = map_option (\<lambda>_. []) s"

definition releases_value :: "control_option_reply \<Rightarrow> bool" where
  \<comment> \<open>whether \<open>sanei_w_free\<close> frees the value: it is not null and its length is not 0\<close>
  "releases_value r =
     (case cor_value r of
        Ctl_Words _ \<Rightarrow> cor_value_type r \<in> {SANE_TYPE_BOOL, SANE_TYPE_INT, SANE_TYPE_FIXED} \<and> c_div (sint (cor_value_size r)) 4 \<noteq> 0
      | Ctl_Chars _ \<Rightarrow> cor_value_type r = SANE_TYPE_STRING \<and> cor_value_size r \<noteq> 0
      | _ \<Rightarrow> False)"

definition freed_value :: "control_option_reply \<Rightarrow> ctl_value" where
  "freed_value r =
     (if releases_value r then (case cor_value r of Ctl_Words _ \<Rightarrow> Ctl_Words [] | _ \<Rightarrow> Ctl_Chars []) else cor_value r)"

definition freed_again :: "control_option_reply \<Rightarrow> bool" where
  "freed_again r \<longleftrightarrow> releases_value r \<and> cor_value r \<in> {Ctl_Words [], Ctl_Chars []}"

definition control_auth :: "client_env \<Rightarrow> nat \<Rightarrow> control_option_reply \<Rightarrow> net_client \<Rightarrow> net_client \<times> control_option_reply" where
  "control_auth env i reply c =
     (let c1 = do_authorization env i (cor_resource reply) c;
          (c2, reply1) = on_dev i (\<lambda>w. sanei_w_free w sanei_w_control_option_reply reply) c1
      in on_dev i (\<lambda>w. sanei_w_control_option_reply (sanei_w_set_dir w WIRE_DECODE)
            (reply1\<lparr>cor_value := freed_value reply, cor_resource := freed_string (cor_resource reply)\<rparr>))
           (nc_check (\<not> freed_again reply) c2))"

record ctl_result =
  cr_status :: sane_word
  cr_value :: ctl_value
  cr_info :: "sane_word option"
  cr_local_info :: sane_word

text \<open>
  What a call leaves behind: the status, the memory \<open>value\<close> points at, and what has been stored through
  \<open>info\<close>; then the local copy of the information word.
\<close>

partial_function (option) control_loop ::
  "client_env \<Rightarrow> nat \<Rightarrow> nat \<Rightarrow> size_t \<Rightarrow> bool \<Rightarrow> ctl_value \<Rightarrow> control_option_reply \<Rightarrow> net_client \<Rightarrow>
     (net_client \<times> ctl_result) option"
where
  "control_loop env h i sz want_info v reply c =
     (if cor_resource reply = Some [] then
        Some (nc_fail c, \<lparr>cr_status = SANE_STATUS_INVAL, cr_value = v, cr_info = None, cr_local_info = 0\<rparr>)
      else if cor_resource reply \<noteq> None then
        (case control_auth env i reply c of (c1, reply1) \<Rightarrow> control_loop env h i sz want_info v reply1 c1)
      else
        let good = (cor_status reply = SANE_STATUS_GOOD);
            c1 = (if good \<and> cor_info reply AND SANE_INFO_RELOAD_OPTIONS \<noteq> 0 then
                    (case get_scanner c h of None \<Rightarrow> nc_fail c | Some s \<Rightarrow> put_scanner h (s\<lparr>ns_options_valid := False\<rparr>) c)
                  else c);
            copied = (if good then take_reply sz v reply else Some v);
            c2 = nc_check (copied \<noteq> None \<and> \<not> freed_again reply) c1;
            (c3, _) = on_dev i (\<lambda>w. sanei_w_free w sanei_w_control_option_reply reply) c2
        in Some (c3, \<lparr>cr_status = cor_status reply, cr_value = (case copied of Some x \<Rightarrow> x | None \<Rightarrow> v),
             cr_info = (if good \<and> want_info then Some (cor_info reply) else None),
             cr_local_info = (if good then cor_info reply else 0)\<rparr>))"

declare control_loop.simps [code]

definition reload_options :: "nat \<Rightarrow> bool \<Rightarrow> net_client \<times> ctl_result \<Rightarrow> net_client \<times> sane_word \<times> ctl_value \<times> sane_word option" where
  \<comment> \<open>reload the options when the frontend does not ask for the information\<close>
  "reload_options h want_info r =
     (case r of
        (c, x) \<Rightarrow>
          if cr_status x = SANE_STATUS_GOOD \<and> \<not> want_info \<and> cr_local_info x AND SANE_INFO_RELOAD_OPTIONS \<noteq> 0 then
            (case get_scanner c h of
               None \<Rightarrow> (nc_fail c, cr_status x, cr_value x, cr_info x)
             | Some s \<Rightarrow>
                 (case fetch_options s c of
                    (c1, s1, status) \<Rightarrow> (put_scanner h s1 c1, status, cr_value x, cr_info x)))
          else (c, cr_status x, cr_value x, cr_info x))"

definition control_request :: "net_scanner \<Rightarrow> sane_option_descriptor \<Rightarrow> sane_word \<Rightarrow> sane_word \<Rightarrow> size_t \<Rightarrow> ctl_value \<Rightarrow>
    control_option_req" where
  "control_request s d option action sz v =
     \<lparr>coq_handle = ns_handle s, coq_option = option, coq_action = action, coq_value_type = opt_type d,
      coq_value_size = ucast sz, coq_value = v\<rparr>"

definition sane_control_option ::
  "client_env \<Rightarrow> nat \<Rightarrow> sane_word \<Rightarrow> sane_word \<Rightarrow> ctl_value \<Rightarrow> bool \<Rightarrow> net_client
     \<Rightarrow> (net_client \<times> sane_word \<times> ctl_value \<times> sane_word option) option"
where
  "sane_control_option env h option action value0 want_info c =
     (case get_scanner c h of
        None \<Rightarrow> Some (nc_fail c, SANE_STATUS_INVAL, value0, None)
      | Some s \<Rightarrow>
          if \<not> ns_options_valid s then Some (c, SANE_STATUS_INVAL, value0, None)
          else if sint (oda_num_options (ns_opt s)) \<le> sint option \<or> sint option < 0
          then Some (c, SANE_STATUS_INVAL, value0, None)
          else case Option.bind (oda_desc (ns_opt s)) (\<lambda>ds. blk_get ds (nat (sint option))) of
            Some (Some d) \<Rightarrow>
              (case Option.bind (option_size d action value0) (\<lambda>sz. map_option (Pair sz) (clear_value action sz value0)) of
                 None \<Rightarrow> Some (nc_fail c, SANE_STATUS_INVAL, value0, None)
               | Some (sz0, v) \<Rightarrow>
                   let sz = (if action = SANE_ACTION_SET_AUTO then 0 else sz0);
                       (c1, req, reply) = on_dev (ns_hw s) (\<lambda>w. sanei_w_call w SANE_NET_CONTROL_OPTION
                          sanei_w_control_option_req (control_request s d option action sz v)
                          sanei_w_control_option_reply (ce_control_junk env)) c
                   in do {
                        r \<leftarrow> control_loop env h (ns_hw s) sz want_info v reply c1;
                        Some (reload_options h want_info r)
                      })
          | _ \<Rightarrow> Some (nc_fail c, SANE_STATUS_INVAL, value0, None))"

section \<open>Parameters\<close>

definition sane_get_parameters :: "client_env \<Rightarrow> nat \<Rightarrow> bool \<Rightarrow> net_client \<Rightarrow> net_client \<times> sane_word \<times> sane_parameters option" where
  \<comment> \<open>arguments: the handle, and whether there is room for the parameters; the last result is what is
      stored there\<close>
  "sane_get_parameters env h room c =
     (if \<not> room then (c, SANE_STATUS_INVAL, None)
      else case get_scanner c h of
        None \<Rightarrow> (nc_fail c, SANE_STATUS_INVAL, None)
      | Some s \<Rightarrow>
          (case on_dev (ns_hw s) (\<lambda>w. sanei_w_call w SANE_NET_GET_PARAMETERS sanei_w_word (ns_handle s)
                  sanei_w_get_parameters_reply (ce_params_junk env)) c of
             (c1, _, reply) \<Rightarrow>
               (fst (on_dev (ns_hw s) (\<lambda>w. sanei_w_free w sanei_w_get_parameters_reply reply)
                  (c1\<lparr>nc_depth := par_depth (gpr_params reply)\<rparr>)), gpr_status reply, Some (gpr_params reply))))"

section \<open>Starting a scan\<close>

definition start_auth :: "client_env \<Rightarrow> nat \<Rightarrow> start_reply \<Rightarrow> net_client \<Rightarrow> net_client \<times> start_reply" where
  "start_auth env i reply c =
     (let c1 = do_authorization env i (srp_resource reply) c;
          (c2, reply1) = on_dev i (\<lambda>w. sanei_w_free w sanei_w_start_reply reply) c1
      in on_dev i (\<lambda>w. sanei_w_start_reply (sanei_w_set_dir w WIRE_DECODE)
            (reply1\<lparr>srp_resource := freed_string (srp_resource reply)\<rparr>)) c2)"

partial_function (option) start_loop ::
  "client_env \<Rightarrow> nat \<Rightarrow> start_reply \<Rightarrow> net_client \<Rightarrow> (net_client \<times> (sane_word + 16 word)) option"
where
  \<comment> \<open>\<open>Inl\<close> the status the function returns, or \<open>Inr\<close> the port of the data connection.  A resource that
      the turn before has freed is used after its life and freed again: no status is known then\<close>
  "start_loop env i reply c0 =
     (let c = c0\<lparr>nc_server_big := (srp_byte_order reply \<noteq> 0x1234)\<rparr>
      in if srp_resource reply = Some [] then Some (nc_fail c, Inl SANE_STATUS_INVAL)
         else if srp_resource reply \<noteq> None then (case start_auth env i reply c of (c1, reply1) \<Rightarrow> start_loop env i reply1 c1)
         else case on_dev i (\<lambda>w. sanei_w_free w sanei_w_start_reply reply) c of
           (c1, _) \<Rightarrow>
             Some (c1, if srp_status reply \<noteq> SANE_STATUS_GOOD then Inl (srp_status reply) else Inr (ucast (srp_port reply))))"

declare start_loop.simps [code]

definition open_data :: "nat \<Rightarrow> conn_ev \<Rightarrow> net_addr \<Rightarrow> 16 word \<Rightarrow> net_client \<Rightarrow> net_client \<times> sane_word" where
  \<comment> \<open>connect to the port on the server's address, and start with an empty record\<close>
  "open_data h ev addr port c =
     (case (ev, get_scanner c h) of
        (_, None) \<Rightarrow> (nc_fail c, SANE_STATUS_IO_ERROR)
      | (Conn l, Some s) \<Rightarrow>
          (put_scanner h (s\<lparr>ns_data := int (ln_fd l), ns_offset := 0, ns_remaining := 0, ns_stream := ln_rd l\<rparr>)
             (c\<lparr>nc_dialed := nc_dialed c @ [set_port port addr]\<rparr>), SANE_STATUS_GOOD)
      | (_, Some s) \<Rightarrow> (c, SANE_STATUS_IO_ERROR))"

definition sane_start :: "client_env \<Rightarrow> nat \<Rightarrow> net_client \<Rightarrow> (net_client \<times> sane_word) option" where
  "sane_start env h c0 =
     (let c = c0\<lparr>nc_hang := - 1, nc_left := - 1\<rparr>
      in case get_scanner c h of
           None \<Rightarrow> Some (nc_fail c, SANE_STATUS_INVAL)
         | Some s \<Rightarrow>
             if 0 \<le> ns_data s then Some (c, SANE_STATUS_INVAL)
             else case nd_addr_used (get_dev c (ns_hw s)) of
               None \<Rightarrow> Some (nc_fail c, SANE_STATUS_INVAL)
             | Some addr \<Rightarrow>
                 if addr = Net_Other then Some (c, SANE_STATUS_INVAL)
                 else if \<not> ce_peername env then Some (c, SANE_STATUS_IO_ERROR)
                 else
                   let (ev, evs) = (case nc_conns c of [] \<Rightarrow> (Sock_Fail, []) | e # es \<Rightarrow> (e, es));
                       c1 = c\<lparr>nc_conns := evs\<rparr>
                   in if ev = Sock_Fail then Some (c1, SANE_STATUS_IO_ERROR)
                      else
                        let (c2, _, reply) = on_dev (ns_hw s) (\<lambda>w. sanei_w_call w SANE_NET_START sanei_w_word (ns_handle s)
                                                sanei_w_start_reply (ce_start_junk env)) c1
                        in do {
                             (c3, r) \<leftarrow> start_loop env (ns_hw s) reply c2;
                             Some (case r of Inl status \<Rightarrow> (c3, status) | Inr port \<Rightarrow> open_data h ev addr port c3)
                           })"

section \<open>The data connection\<close>

definition sane_set_io_mode :: "nat \<Rightarrow> bool \<Rightarrow> net_client \<Rightarrow> net_client \<times> sane_word" where
  \<comment> \<open>the second argument: whether \<open>fcntl\<close> succeeds\<close>
  "sane_set_io_mode h ok c =
     (case get_scanner c h of
        None \<Rightarrow> (nc_fail c, SANE_STATUS_INVAL)
      | Some s \<Rightarrow> (c, if ns_data s < 0 then SANE_STATUS_INVAL else if \<not> ok then SANE_STATUS_IO_ERROR else SANE_STATUS_GOOD))"

definition sane_get_select_fd :: "nat \<Rightarrow> net_client \<Rightarrow> net_client \<times> sane_word \<times> int option" where
  "sane_get_select_fd h c =
     (case get_scanner c h of
        None \<Rightarrow> (nc_fail c, SANE_STATUS_INVAL, None)
      | Some s \<Rightarrow> if ns_data s < 0 then (c, SANE_STATUS_INVAL, None) else (c, SANE_STATUS_GOOD, Some (ns_data s)))"

end
