(* ===== verification/Net_Read.thy ===== *)
theory Net_Read
  imports Net_Calls
begin

text \<open>
  Reading the image in the network client, \<^verbatim>\<open>backend/net.c\<close>: \<open>sane_read\<close>, which takes the records of
  the data connection apart and swaps the bytes of 16-bit samples when client and server differ in
  their byte order.  The result of a call is its status and the bytes it leaves in the first
  \<open>*length\<close> places of the frontend's buffer, whose size is an argument.
\<close>

unbundle bit_operations_syntax

section \<open>Swapping bytes\<close>

fun swap_pairs :: "'a list \<Rightarrow> 'a list" where
  \<comment> \<open>\<open>for (cnt = start_cnt; cnt < end_cnt - 1; cnt += 2)\<close>\<close>
  "swap_pairs (a # b # xs) = b # a # swap_pairs xs"
| "swap_pairs xs = xs"

record swap_result =
  sr_data :: "byte list"
  sr_length :: nat
  sr_hang :: int
  sr_left :: int

definition swap_read :: "int \<Rightarrow> int \<Rightarrow> byte list \<Rightarrow> swap_result" where
  \<comment> \<open>\<open>hang_over\<close>, \<open>left_over\<close> and the bytes read; the result has the buffer after the call, of which
      the first \<open>sr_length\<close> bytes are returned\<close>
  "swap_read hang left data =
     (let nread = length data
      in if nread = 1 \<and> - 1 < hang then \<lparr>sr_data = data, sr_length = 1, sr_hang = - 1, sr_left = hang\<rparr>
         else if 1 < nread \<and> - 1 < hang then
           (let temp = data ! (nread - 1);
                shifted = word_of_int hang # take (nread - 1) data
            in if nread mod 2 = 0 then
                 (let data1 = shifted[nread - 1 := temp]
                  in \<lparr>sr_data = swap_pairs (take (nread - 2) data1) @ drop (nread - 2) data1, sr_length = nread,
                      sr_hang = - 1, sr_left = uint (shifted ! (nread - 1))\<rparr>)
               else \<lparr>sr_data = swap_pairs (take (nread - 1) shifted) @ drop (nread - 1) shifted, sr_length = nread,
                     sr_hang = uint temp, sr_left = - 1\<rparr>)
         else if nread = 1 then \<lparr>sr_data = data, sr_length = 0, sr_hang = uint (data ! 0), sr_left = left\<rparr>
         else if nread mod 2 = 0 then \<lparr>sr_data = swap_pairs data, sr_length = nread, sr_hang = hang, sr_left = left\<rparr>
         else \<lparr>sr_data = swap_pairs (take (nread - 1) data) @ drop (nread - 1) data, sr_length = nread - 1,
               sr_hang = uint (data ! (nread - 1)), sr_left = left\<rparr>)"

section \<open>sane_read\<close>

abbreviation (input) EAGAIN :: int where "EAGAIN \<equiv> 11"
abbreviation (input) EFAULT :: int where "EFAULT \<equiv> 14"

definition swapping :: "client_env \<Rightarrow> net_client \<Rightarrow> bool" where
  "swapping env c \<longleftrightarrow> nc_depth c = 16 \<and> nc_server_big c \<noteq> ce_big_endian env"

definition reclen_word :: "byte list \<Rightarrow> sane_word" where
  "reclen_word b = of_be32 (b ! 0) (b ! 1) (b ! 2) (b ! 3)"

datatype reclen_result = Rec_Wait | Rec_Error | Rec_Status sane_word | Rec_Data

definition blocking :: "read_ev list \<Rightarrow> read_ev list" where
  \<comment> \<open>\<open>fcntl (s->data, F_SETFL, 0)\<close>: from now on \<open>read\<close> waits for data\<close>
  "blocking evs = dropWhile (\<lambda>e. e = RError EAGAIN) evs"

definition read_reclen :: "net_scanner \<Rightarrow> net_scanner \<times> reclen_result \<times> bool" where
  \<comment> \<open>the branch for \<open>bytes_remaining == 0\<close>: the length of the next record, or its final status; the
      last result is false when the length buffer is left\<close>
  "read_reclen s =
     (case io_read (nat ((4 - ns_offset s) mod 2 ^ 64)) (ns_stream s) of
        (Inl e, evs) \<Rightarrow> (s\<lparr>ns_stream := evs\<rparr>, if e = EAGAIN then Rec_Wait else Rec_Error, True)
      | (Inr bs, evs) \<Rightarrow>
          let ok = (0 \<le> ns_offset s \<and> nat (ns_offset s) + length bs \<le> length (ns_reclen s));
              off = ns_offset s + int (length bs);
              s1 = s\<lparr>ns_stream := evs, ns_reclen := blit (ns_reclen s) (nat (ns_offset s)) bs, ns_offset := off\<rparr>
          in if off < 4 then (s1, Rec_Wait, ok)
             else
               let len = reclen_word (ns_reclen s1); s2 = s1\<lparr>ns_offset := 0, ns_remaining := ucast len\<rparr>
               in if len = 0xffffffff then
                    (case io_read 1 (blocking (ns_stream s2)) of
                       (Inr [b], evs2) \<Rightarrow> (s2\<lparr>ns_stream := evs2\<rparr>, Rec_Status (scast b), ok)
                     | (_, evs2) \<Rightarrow> (s2\<lparr>ns_stream := evs2\<rparr>, Rec_Status SANE_STATUS_IO_ERROR, ok))
                  else (s2, Rec_Data, ok))"

record read_result =
  rr_status :: sane_word
  rr_data :: "byte list"

definition read_data :: "client_env \<Rightarrow> nat \<Rightarrow> int \<Rightarrow> nat \<Rightarrow> net_scanner \<Rightarrow> net_client \<Rightarrow> net_client \<times> read_result" where
  \<comment> \<open>read from the current record into a buffer of \<open>room\<close> bytes.  The comparison of \<open>max_length\<close> with
      the rest of the record is one of \<open>int\<close>s.  A negative length becomes a count above \<open>SSIZE_MAX\<close>, which
      \<open>read\<close> refuses, as Linux does: no buffer of that size can be in the address space\<close>
  "read_data env h max_length room s c =
     (let remaining = sint (ucast (ns_remaining s) :: sane_word);
          len = (if remaining < max_length then remaining else max_length)
      in case (if len < 0 then (Inl EFAULT, ns_stream s) else io_read (nat len) (ns_stream s)) of
           (Inl e, evs) \<Rightarrow>
             let c1 = put_scanner h (s\<lparr>ns_stream := evs\<rparr>) c
             in if e = EAGAIN then (c1, \<lparr>rr_status = SANE_STATUS_GOOD, rr_data = []\<rparr>)
                else (do_cancel h c1, \<lparr>rr_status = SANE_STATUS_IO_ERROR, rr_data = []\<rparr>)
         | (Inr bs, evs) \<Rightarrow>
             let c1 = nc_check (length bs \<le> room)
                        (put_scanner h (s\<lparr>ns_stream := evs, ns_remaining := ns_remaining s - word_of_nat (length bs)\<rparr>) c)
             in if swapping env c then
                  let r = swap_read (nc_hang c) (nc_left c) bs
                  in (c1\<lparr>nc_hang := sr_hang r, nc_left := sr_left r\<rparr>,
                      \<lparr>rr_status = SANE_STATUS_GOOD, rr_data = take (sr_length r) (sr_data r)\<rparr>)
                else (c1, \<lparr>rr_status = SANE_STATUS_GOOD, rr_data = bs\<rparr>))"

definition sane_read :: "client_env \<Rightarrow> nat \<Rightarrow> int \<Rightarrow> nat \<Rightarrow> net_client \<Rightarrow> net_client \<times> read_result" where
  \<comment> \<open>the handle, \<open>max_length\<close> and the size of the buffer; \<open>length\<close> is not null\<close>
  "sane_read env h max_length room c =
     (if swapping env c \<and> - 1 < nc_left c then
        (nc_check (0 < room) (c\<lparr>nc_left := - 1\<rparr>), \<lparr>rr_status = SANE_STATUS_GOOD, rr_data = [word_of_int (nc_left c)]\<rparr>)
      else case get_scanner c h of
        None \<Rightarrow> (nc_fail c, \<lparr>rr_status = SANE_STATUS_INVAL, rr_data = []\<rparr>)
      | Some s \<Rightarrow>
          if ns_data s < 0 then (c, \<lparr>rr_status = SANE_STATUS_CANCELLED, rr_data = []\<rparr>)
          else if ns_remaining s = 0 then
            (case read_reclen s of
               (s1, r, ok) \<Rightarrow>
                 let c1 = nc_check ok (put_scanner h s1 c)
                 in case r of
                      Rec_Wait \<Rightarrow> (c1, \<lparr>rr_status = SANE_STATUS_GOOD, rr_data = []\<rparr>)
                    | Rec_Error \<Rightarrow> (do_cancel h c1, \<lparr>rr_status = SANE_STATUS_IO_ERROR, rr_data = []\<rparr>)
                    | Rec_Status st \<Rightarrow> (do_cancel h c1, \<lparr>rr_status = st, rr_data = []\<rparr>)
                    | Rec_Data \<Rightarrow> read_data env h max_length room s1 c1)
          else read_data env h max_length room s c)"

end
