(* ===== verification/Config_Props.thy ===== *)
theory Config_Props
  imports Config
begin

text \<open>
  Reading configuration lines: what the three loops of \<open>sanei_config_read\<close> do to the line buffer,
  and the property that a line comes out trimmed.
\<close>

lemma read_line_length: "read_line n stream = (l, rest) \<Longrightarrow> length l \<le> n \<and> stream = l @ rest"
  by (induction n stream arbitrary: l rule: read_line.induct) (auto split: if_splits prod.splits)

lemma read_line_nonempty: "0 < n \<Longrightarrow> stream \<noteq> [] \<Longrightarrow> fst (read_line n stream) \<noteq> []"
  by (cases "(n, stream)" rule: read_line.cases) (auto split: prod.splits)

lemma strip_tail_spec:
  "len \<le> length b \<Longrightarrow> strip_tail b len =
     (let m = length (dropWhile is_space (rev (take len b)))
      in take m b @ replicate (len - m) NUL @ drop len b)"
proof (induction b len rule: strip_tail.induct)
  case (2 b len)
  have t: "take (Suc len) b = take len b @ [b ! len]"
    using 2 by (simp add: take_Suc_conv_app_nth)
  show ?case
  proof (cases "is_space (b ! len)")
    case True
    define m where "m = length (dropWhile is_space (rev (take len b)))"
    have m: "m \<le> len"
      unfolding m_def using length_dropWhile_le [of is_space "rev (take len b)"] by simp
    have "strip_tail (b[len := NUL]) len = take m b @ replicate (len - m) NUL @ drop len (b[len := NUL])"
      using 2 True m by (simp add: m_def Let_def)
    moreover have "drop len (b[len := NUL]) = NUL # drop (Suc len) b"
      using 2 by (simp add: drop_update_swap Cons_nth_drop_Suc [symmetric])
    ultimately show ?thesis
      using 2 True m by (simp add: t Let_def m_def [symmetric] Suc_diff_le replicate_app_Cons_same)
  next
    case False
    have "b = take len b @ b ! len # drop (Suc len) b"
      using 2 by (intro id_take_nth_drop) simp
    with False show ?thesis using 2 by (simp add: t Let_def)
  qed
qed simp

lemma leading_blanks_conv: "leading_blanks b = length (takeWhile is_space b)"
  by (induction b) auto

lemma shift_left_spec:
  "d < L \<Longrightarrow> 0 < k \<Longrightarrow> k + L \<le> length b \<Longrightarrow> \<forall>j. d < j \<and> j < L \<longrightarrow> b ! j \<noteq> NUL \<Longrightarrow> b ! L = NUL \<Longrightarrow>
    \<exists>b'. shift_left b d (d + k) = Some b' \<and> length b' = length b \<and>
      (\<forall>j < d. b' ! j = b ! j) \<and> (\<forall>j. d \<le> j \<and> j < L \<longrightarrow> b' ! j = b ! (j + k))"
proof (induction "L - d" arbitrary: b d)
  case 0
  then show ?case by simp
next
  case (Suc n)
  have n: "n = L - Suc d" using Suc.hyps(2) by simp
  define b1 where "b1 = b[d := b ! (d + k)]"
  have one: "shift_left b d (d + k) = (if b1 ! Suc d = NUL then Some b1 else shift_left b1 (Suc d) (Suc d + k))"
    using Suc.prems by (subst shift_left.simps) (simp add: b1_def)
  show ?case
  proof (cases "Suc d = L")
    case True
    with Suc.prems one show ?thesis
      by (intro exI [of _ b1]) (auto simp: b1_def less_Suc_eq_le nth_list_update)
  next
    case False
    then have "b1 ! Suc d \<noteq> NUL"
      using Suc.prems by (simp add: b1_def)
    moreover obtain b' where "shift_left b1 (Suc d) (Suc d + k) = Some b'" "length b' = length b1"
      "\<forall>j < Suc d. b' ! j = b1 ! j" "\<forall>j. Suc d \<le> j \<and> j < L \<longrightarrow> b' ! j = b1 ! (j + k)"
      using Suc.hyps(1) [of "Suc d" b1] n Suc.prems False
      by (fastforce simp: b1_def nth_list_update)
    ultimately show ?thesis
      using one Suc.prems
      by (intro exI [of _ b'])
        (auto simp: b1_def nth_list_update le_eq_less_or_eq [of d] Suc_le_eq)
  qed
qed

definition trim :: "byte list \<Rightarrow> byte list" where
  \<comment> \<open>the specification: white space is removed at both ends\<close>
  "trim l = dropWhile is_space (rev (dropWhile is_space (rev l)))"

lemma c_str_prefix_NUL: "NUL \<notin> set s \<Longrightarrow> c_str (s @ NUL # r) = Some s"
  by (simp add: c_str_def) (metis (mono_tags, lifting) append_Nil2 takeWhile.simps(2) takeWhile_append2)

lemma c_str_nth:
  "i < length b \<Longrightarrow> b ! i = NUL \<Longrightarrow> \<forall>j < i. b ! j \<noteq> NUL \<Longrightarrow> c_str b = Some (take i b)"
proof -
  assume i: "i < length b" "b ! i = NUL" "\<forall>j < i. b ! j \<noteq> NUL"
  have b: "b = take i b @ NUL # drop (Suc i) b"
    using i by (metis id_take_nth_drop)
  have "\<And>x. x \<in> set (take i b) \<Longrightarrow> x \<noteq> NUL"
    using i by (auto simp: in_set_conv_nth)
  then have "takeWhile (\<lambda>x. x \<noteq> NUL) (take i b @ NUL # drop (Suc i) b) = take i b"
    by (subst takeWhile_append2) auto
  moreover have "NUL \<in> set b"
    using i by (metis nth_mem)
  ultimately show ?thesis
    using b by (simp add: c_str_def)
qed

lemma takeWhile_shorter: "x \<in> set t \<Longrightarrow> \<not> P x \<Longrightarrow> length (takeWhile P t) < length t"
  by (induction t) auto

lemma config_read_line:
  assumes n: "n \<le> length str" and l: "read_line (n - 1) stream = (l, rest)" "l \<noteq> []" "NUL \<notin> set l"
    and room: "length (takeWhile is_space l) + length l < length str"
  shows "\<exists>b. sanei_config_read str n stream = Cfg_Line b rest \<and> c_str b = Some (trim l) \<and>
    length b = length str \<and> stream = l @ rest"
proof -
  define b where "b = blit str 0 (l @ [NUL])"
  have len: "length l < length str" "stream = l @ rest"
    using room read_line_length [OF l(1)] by auto
  have lb: "length b = length str" and tk: "take (length l) b = l" "b ! length l = NUL"
    "\<And>j. j < length l \<Longrightarrow> b ! j = l ! j"
    using len by (auto simp: b_def blit_def nth_append)
  have "\<forall>j < length l. b ! j \<noteq> NUL"
    using tk(3) l(3) by (metis nth_mem)
  with tk len lb have "c_str b = Some l"
    using c_str_nth [of "length l" b] by simp
  then have sl: "c_strlen b = Some (length l)"
    by (simp add: c_strlen_def)
  define t where "t = rev (dropWhile is_space (rev l))"
  define m where "m = length t"
  have t: "l = t @ rev (takeWhile is_space (rev l))"
    unfolding t_def by (metis rev_append rev_rev_ident takeWhile_dropWhile_id)
  have ml: "m \<le> length l" "take m l = t"
    unfolding m_def by (subst t, simp)+
  define b1 where "b1 = strip_tail b (length l)"
  have "take m b = take m (take (length l) b)"
    using ml(1) by (simp add: min_absorb1)
  then have tm: "take m b = t"
    using tk(1) ml(2) by simp
  have "length (dropWhile is_space (rev (take (length l) b))) = m"
    using tk(1) by (simp add: m_def t_def)
  then have b1: "b1 = t @ replicate (length l - m) NUL @ drop (length l) b"
    using strip_tail_spec [of "length l" b] lb len(1) tm by (simp add: b1_def Let_def)
  have b1l: "length b1 = length str"
    using b1 ml(1) lb len by (simp add: m_def)
  have b1m: "b1 ! m = NUL"
    using b1 tk(2) len lb ml(1) by (cases "m = length l") (auto simp: m_def nth_append)
  have b1t: "b1 ! j = t ! j \<and> b1 ! j \<noteq> NUL" if "j < m" for j
  proof -
    have "b1 ! j = t ! j" using that b1 by (simp add: nth_append m_def)
    moreover have "t ! j \<in> set l" using that t m_def by (metis Un_iff nth_mem set_append)
    ultimately show ?thesis using l(3) by auto
  qed
  have b1v: "b1 ! j = t ! j" "t ! j \<noteq> NUL" if "j < m" for j
    using b1t [OF that] by auto
  have read: "sanei_config_read str n stream =
      (let start = leading_blanks b1 in if start = 0 then Cfg_Line b1 rest
       else case shift_left b1 0 start of Some b2 \<Rightarrow> Cfg_Line b2 rest | None \<Rightarrow> Cfg_Fault)"
    using l sl by (simp add: sanei_config_read_def c_fgets_def b_def b1_def Let_def)
  define k where "k = length (takeWhile is_space t)"
  have trim: "trim l = drop k t"
    by (simp add: trim_def t_def k_def dropWhile_eq_drop)
  have c1: "c_str b1 = Some t"
  proof -
    have "m < length b1" using ml(1) b1l len by simp
    then have "c_str b1 = Some (take m b1)"
      using b1m b1t by (intro c_str_nth) blast+
    then show ?thesis using b1 by (simp add: m_def)
  qed
  show ?thesis
  proof (cases "k = 0 \<or> t = []")
    case True
    have "leading_blanks b1 = 0"
    proof (cases t)
      case Nil
      with b1 l(2) show ?thesis by (cases l) (simp_all add: m_def)
    next
      case (Cons c cs)
      with True b1 show ?thesis by (simp add: k_def split: if_splits)
    qed
    with read c1 True trim b1l len show ?thesis by auto
  next
    case False
    have "\<not> is_space (last t)"
      using False hd_dropWhile [of is_space "rev l"] by (simp add: t_def last_rev)
    have "last t \<in> set t" using False by simp
    have "k < m"
      unfolding k_def m_def using \<open>last t \<in> set t\<close> \<open>\<not> is_space (last t)\<close> by (rule takeWhile_shorter)
    moreover have "takeWhile is_space b1 = takeWhile is_space t"
      unfolding b1 using \<open>last t \<in> set t\<close> \<open>\<not> is_space (last t)\<close> by (rule takeWhile_append1)
    ultimately have km: "k < m" "leading_blanks b1 = k"
      by (simp_all add: k_def leading_blanks_conv)
    have "takeWhile is_space l = takeWhile is_space t"
      using \<open>\<not> is_space (last t)\<close> \<open>last t \<in> set t\<close> by (subst t, intro takeWhile_append1)
    then have "k = length (takeWhile is_space l)"
      by (simp add: k_def)
    then have "k + m \<le> length b1"
      using room b1l ml(1) by simp
    moreover have "0 < k" "0 < m" using False km(1) by simp_all
    moreover have "\<forall>j. 0 < j \<and> j < m \<longrightarrow> b1 ! j \<noteq> NUL"
      using b1t by (intro allI impI) blast
    ultimately have "\<exists>b2. shift_left b1 0 (0 + k) = Some b2 \<and> length b2 = length b1 \<and>
        (\<forall>j < 0. b2 ! j = b1 ! j) \<and> (\<forall>j. 0 \<le> j \<and> j < m \<longrightarrow> b2 ! j = b1 ! (j + k))"
      using b1m by (intro shift_left_spec)
    then obtain b2 where b2: "shift_left b1 0 k = Some b2" "length b2 = length b1"
      "\<forall>j < m. b2 ! j = b1 ! (j + k)"
      by auto
    have "b2 ! (m - k) = NUL" "\<forall>j < m - k. b2 ! j = t ! (j + k) \<and> b2 ! j \<noteq> NUL"
      using b2(3) km(1) \<open>0 < k\<close> b1m b1v by (auto simp: less_diff_conv)
    note b2t = this
    have "m - k < length b2" using b2(2) b1l ml(1) len by simp
    then have "c_str b2 = Some (take (m - k) b2)"
      using b2t by (intro c_str_nth) blast+
    moreover have "take (m - k) b2 = drop k t"
      using b2t(2) \<open>m - k < length b2\<close>
      by (intro nth_equalityI) (simp_all add: m_def add.commute min_def)
    ultimately have "c_str b2 = Some (drop k t)" by simp
    with read b2 km False trim b1l len show ?thesis by auto
  qed
qed

text \<open> reading a configuration line.  \<open>sanei_config_read\<close> returns the next line of the file with
  the white space, and so the newline, removed at both ends; the rest of the file is left for
  the next call, and the access stays inside the buffer when the buffer has room for the line
  and once more for its leading blanks.\<close>

theorem config_read_trims:
  assumes "n \<le> length str" "read_line (n - 1) stream = (l, rest)" "l \<noteq> []" "NUL \<notin> set l"
    and "length (takeWhile is_space l) + length l < length str"
  shows "\<exists>b. sanei_config_read str n stream = Cfg_Line b rest \<and> c_str b = Some (trim l) \<and>
    length b = length str \<and> stream = l @ rest"
  by (rule config_read_line [OF assms])

lemma config_read_trims_witness:
  "\<exists>b. sanei_config_read (replicate 16 1) 16 (ascii ''  a c '' @ [10] @ ascii ''next'') = Cfg_Line b (ascii ''next'') \<and>
     c_str b = Some (ascii ''a c'')"
proof -
  let ?l = "ascii ''  a c '' @ [10]"
  have "trim ?l = ascii ''a c''"
    by (simp add: trim_def ascii_def is_space_def)
  moreover have "read_line (16 - 1) (?l @ ascii ''next'') = (?l, ascii ''next'')"
    by code_simp
  then have "\<exists>b. sanei_config_read (replicate 16 1) 16 (?l @ ascii ''next'') = Cfg_Line b (ascii ''next'') \<and>
      c_str b = Some (trim ?l) \<and> length b = length (replicate 16 (1 :: byte)) \<and> ?l @ ascii ''next'' = ?l @ ascii ''next''"
    by (intro config_read_trims) (simp_all add: ascii_def is_space_def)
  ultimately show ?thesis by auto
qed

section \<open>The lines of a file\<close>

fun config_lines :: "nat \<Rightarrow> byte list \<Rightarrow> byte list \<Rightarrow> byte list list" where
  \<comment> \<open>the lines \<open>sanei_config_read\<close> delivers\<close>
  "config_lines 0 buf stream = []"
| "config_lines (Suc n) buf stream =
     (case sanei_config_read buf 1024 stream of
        Cfg_Line b rest \<Rightarrow> (case c_str b of Some line \<Rightarrow> line # config_lines n b rest | None \<Rightarrow> [])
      | _ \<Rightarrow> [])"

definition file_lines :: "byte list option \<Rightarrow> byte list list" where
  "file_lines file = (case file of None \<Rightarrow> [] | Some stream \<Rightarrow> config_lines (Suc (length stream)) (replicate 1024 0) stream)"

definition file_text :: "byte list list \<Rightarrow> byte list" where
  \<comment> \<open>a text file of the given lines\<close>
  "file_text ls = concat (map (\<lambda>l. l @ [10]) ls)"

definition plain_lines :: "byte list list \<Rightarrow> bool" where
  \<comment> \<open>lines that fit a buffer of 1024 bytes, with their leading blanks\<close>
  "plain_lines ls \<longleftrightarrow> (\<forall>l \<in> set ls. 10 \<notin> set l \<and> NUL \<notin> set l \<and> length l \<le> 510)"

lemma read_line_text: "10 \<notin> set l \<Longrightarrow> length l < n \<Longrightarrow> read_line n (l @ 10 # rest) = (l @ [10], rest)"
proof (induction l arbitrary: n)
  case Nil
  then show ?case by (cases n) auto
next
  case (Cons c l)
  then show ?case by (cases n) auto
qed

lemma is_space_newline: "is_space 10"
  by (simp add: is_space_def)

lemma trim_newline: "trim (l @ [10]) = trim l"
  by (simp add: trim_def is_space_newline)

lemma file_text_Nil [simp]: "file_text [] = []" and file_text_Cons [simp]: "file_text (l # ls) = l @ 10 # file_text ls"
  by (simp_all add: file_text_def)

lemma file_text_length: "length ls \<le> length (file_text ls)"
  by (induction ls) auto

lemma config_read_end: "sanei_config_read buf (Suc (Suc n)) [] = Cfg_Eof"
  by (simp add: sanei_config_read_def c_fgets_def)

lemma config_read_text:
  assumes "10 \<notin> set l" "NUL \<notin> set l" "2 * Suc (length l) < n" "length buf = n"
  obtains b where "sanei_config_read buf n (file_text (l # ls)) = Cfg_Line b (file_text ls)" "c_str b = Some (trim l)" "length b = n"
proof -
  have "length (takeWhile is_space (l @ [10])) \<le> length (l @ [10])"
    by (rule length_takeWhile_le)
  then have r: "length (takeWhile is_space (l @ [10])) + length (l @ [10]) < length buf"
    using assms(3,4) by simp
  have "read_line (n - 1) (file_text (l # ls)) = (l @ [10], file_text ls)"
    using read_line_text [OF assms(1)] assms(3) by simp
  from config_read_line [OF _ this _ _ r] assms(2-4) show thesis
    by (auto simp: trim_newline intro: that)
qed

lemma read_text_end: "sanei_config_read buf 1024 [] = Cfg_Eof"
  using config_read_end [of buf 1022] by simp

lemma read_text_line:
  assumes "plain_lines (l # ls)" "length buf = 1024"
  obtains b where "sanei_config_read buf 1024 (file_text (l # ls)) = Cfg_Line b (file_text ls)" "c_str b = Some (trim l)"
    "length b = 1024" "plain_lines ls"
  using assms config_read_text [of l 1024 buf ls] by (auto simp: plain_lines_def simp del: file_text_Cons)

section \<open>The lines of a configuration file\<close>

definition text_lines :: "byte list list \<Rightarrow> bool" where
  \<comment> \<open>lines that fit the buffer of \<open>PATH_MAX\<close> bytes, with their leading blanks\<close>
  "text_lines ls \<longleftrightarrow> (\<forall>l \<in> set ls. 10 \<notin> set l \<and> NUL \<notin> set l \<and> length l \<le> 2046)"

lemma text_lines_Cons [simp]:
  "text_lines (l # ls) \<longleftrightarrow> 10 \<notin> set l \<and> NUL \<notin> set l \<and> length l \<le> 2046 \<and> text_lines ls"
  by (auto simp: text_lines_def)

lemma read_conf_line:
  assumes "text_lines (l # ls)" "length buf = PATH_MAX"
  obtains b where "sanei_config_read buf PATH_MAX (file_text (l # ls)) = Cfg_Line b (file_text ls)" "c_str b = Some (trim l)"
    "length b = PATH_MAX"
  using assms config_read_text [of l PATH_MAX buf ls] by (auto simp del: file_text_Cons)

lemma read_conf_end: "sanei_config_read buf PATH_MAX [] = Cfg_Eof"
  using config_read_end [of buf "PATH_MAX - 2"] by simp

lemma trim_word:
  assumes "l \<noteq> []" "\<not> is_space (hd l)" "\<not> is_space (last l)"
  shows "trim l = l"
proof -
  have "dropWhile is_space (rev l) = rev l"
    using assms(1,3) by (metis dropWhile_eq_self_iff hd_rev)
  moreover have "dropWhile is_space l = l"
    using assms(1,2) by (simp add: dropWhile_eq_self_iff)
  ultimately show ?thesis by (simp add: trim_def)
qed

lemma trim_no_space: "\<forall>c \<in> set l. \<not> is_space c \<Longrightarrow> trim l = l"
  by (cases "l = []") (simp_all add: trim_word, simp add: trim_def)

lemma trim_set: "set (trim l) \<subseteq> set l"
  by (auto simp: trim_def dest!: set_dropWhileD)

end
