(* ===== verification/Saned_Access.thy ===== *)
theory Saned_Access
  imports Config_Props
begin

text \<open>
  Access control of the daemon, \<^verbatim>\<open>frontend/saned.c\<close>: \<open>check_v4_in_range\<close>, \<open>check_v6_in_range\<close> and
  \<open>check_host\<close>, in the variant with \<open>SANED_USES_AF_INDEP\<close> and \<open>ENABLE_IPV6\<close>.

  The resolver and the socket calls (\<open>getpeername\<close>, \<open>getnameinfo\<close>, \<open>getaddrinfo\<close>,
  \<open>gethostname\<close>) and the files are an argument, the record \<open>net_env\<close>.  An IPv4 address is the
  32-bit word in host byte order (\<open>htonl\<close> permutes the bytes of both operands of every
  comparison alike), an IPv6 address the list of its 16 bytes.  Strings are lists of
  characters without their terminator.
\<close>

unbundle bit_operations_syntax

section \<open>Addresses and the environment\<close>

type_synonym ip4 = "32 word"

datatype sock_addr = Inet4 ip4 | Inet6 "byte list" | Other_Family

record net_env =
  ne_peer :: "sock_addr option"
  ne_nameinfo :: "sock_addr \<Rightarrow> byte list option"
  ne_hostname :: "byte list option"
  ne_resolve :: "byte list \<Rightarrow> bool + sock_addr list"
  ne_numeric4 :: "byte list \<Rightarrow> ip4 option"
  ne_numeric6 :: "byte list \<Rightarrow> byte list option"
  ne_hosts_equiv :: "byte list option"
  ne_saned_conf :: "byte list option"

text \<open>
  \<open>ne_peer\<close>: \<open>getpeername\<close> of the control connection; \<open>ne_nameinfo\<close>: \<open>getnameinfo\<close> with
  \<open>NI_NUMERICHOST\<close>; \<open>ne_resolve\<close>: \<open>getaddrinfo\<close> of any family, \<open>Inl True\<close> for \<open>EAI_NONAME\<close> and
  \<open>Inl False\<close> for another error; \<open>ne_numeric4\<close> and \<open>ne_numeric6\<close>: \<open>getaddrinfo\<close> with
  \<open>AI_NUMERICHOST\<close>; the last two: the contents of \<^verbatim>\<open>/etc/hosts.equiv\<close> and \<^verbatim>\<open>saned.conf\<close>, if they
  can be opened.
\<close>

section \<open>Network masks\<close>

definition cidrtomask :: "int \<Rightarrow> nat" where
  "cidrtomask k = [0x00, 0x80, 0xC0, 0xE0, 0xF0, 0xF8, 0xFC, 0xFE, 0xFF] ! nat k"

function v4_mask_loop :: "int \<Rightarrow> int \<Rightarrow> ip4 \<Rightarrow> int \<times> int \<times> ip4" where
  \<comment> \<open>\<open>for (i = 3; cidr >= 0; i--) { msk |= (0xff << (8 * i)); cidr -= 8; }\<close>\<close>
  "v4_mask_loop i cidr msk =
     (if 0 \<le> cidr then v4_mask_loop (i - 1) (cidr - 8) (msk OR push_bit (nat (8 * i)) 0xff)
      else (i, cidr, msk))"
  by pat_completeness auto
termination by (relation "measure (\<lambda>(i, cidr, msk). nat (cidr + 8))") auto

declare v4_mask_loop.simps [simp del]

definition v4_mask :: "int \<Rightarrow> ip4" where
  \<comment> \<open>the last shift is by a negative amount for a mask of 32 bits, of the table's zero\<close>
  "v4_mask cidr0 =
     (case v4_mask_loop 3 (cidr0 - 8) 0 of
        (i, cidr, msk) \<Rightarrow>
          if cidr < 0
          then msk OR (if i < 0 then 0 else push_bit (nat (8 * i)) (of_nat (cidrtomask (cidr + 8))))
          else msk)"

definition check_v4_in_range :: "net_env \<Rightarrow> ip4 \<Rightarrow> byte list \<Rightarrow> byte list \<Rightarrow> bool" where
  "check_v4_in_range env sin base_ip netmask =
     (let (v, moved) = c_strtol10 netmask; cidr = to_c_int v
      in if cidr < 0 \<or> cidr > 32 \<or> \<not> moved then False
         else case ne_numeric4 env base_ip of
                None \<Rightarrow> False
              | Some base \<Rightarrow> (base AND v4_mask cidr) = (sin AND v4_mask cidr))"

definition mask_store :: "nat list \<times> bool \<Rightarrow> nat \<Rightarrow> nat \<Rightarrow> nat list \<times> bool" where
  \<comment> \<open>\<open>mask[i] = v\<close>; a store past the end leaves the 16 elements alone and is remembered\<close>
  "mask_store m i v = (case blk_set (fst m) i v of Some msk \<Rightarrow> (msk, snd m) | None \<Rightarrow> (fst m, True))"

function v6_mask_loop :: "nat \<Rightarrow> int \<Rightarrow> nat list \<times> bool \<Rightarrow> nat \<times> int \<times> nat list \<times> bool" where
  \<comment> \<open>\<open>for (i = 0; cidr >= 0; i++) { mask[i] = 0xff; cidr -= 8; }\<close>\<close>
  "v6_mask_loop i cidr m =
     (if 0 \<le> cidr then v6_mask_loop (Suc i) (cidr - 8) (mask_store m i 0xff) else (i, cidr, m))"
  by pat_completeness auto
termination by (relation "measure (\<lambda>(i, cidr, m). nat (cidr + 8))") auto

declare v6_mask_loop.simps [simp del]

definition v6_mask :: "int \<Rightarrow> nat list \<times> bool" where
  \<comment> \<open>the mask, and whether a store left its 16 elements\<close>
  "v6_mask cidr0 =
     (case v6_mask_loop 0 (cidr0 - 8) (replicate 16 0, False) of
        (i, cidr, m) \<Rightarrow> if cidr < 0 then mask_store m i (cidrtomask (cidr + 8)) else m)"

definition check_v6_in_range :: "net_env \<Rightarrow> byte list \<Rightarrow> byte list \<Rightarrow> byte list \<Rightarrow> bool \<times> bool" where
  \<comment> \<open>the result, and whether the mask was written out of its bounds on the way\<close>
  "check_v6_in_range env sin6 base_ip netmask =
     (let (v, moved) = c_strtol10 netmask; cidr = to_c_int v
      in if cidr < 0 \<or> cidr > 128 \<or> \<not> moved then (False, False)
         else case v6_mask cidr of
                (msk, overrun) \<Rightarrow>
                  (case ne_numeric6 env base_ip of
                     None \<Rightarrow> (False, overrun)
                   | Some base \<Rightarrow>
                       (list_all (\<lambda>i. (unat (base ! i) AND msk ! i) = (unat (sin6 ! i) AND msk ! i)) [0..<16], overrun)))"

section \<open>check_host\<close>

datatype res_ptr = Res_Null | Res_Junk | Res_Live

text \<open>What the variable \<open>res\<close> holds: null, nothing valid (never assigned, or freed), a list.\<close>

record access_state =
  as_ok :: bool
  as_res :: res_ptr
  as_fault :: bool

record peer_info =
  pi_addr :: sock_addr
  pi_ip :: "byte list"
  pi_map :: bool
  pi_ip4 :: "byte list"

definition IN_LOOPBACK :: "ip4 \<Rightarrow> bool" where
  "IN_LOOPBACK a \<longleftrightarrow> a = 0x7f000001"

definition v6_loopback :: "byte list \<Rightarrow> bool" where
  "v6_loopback b \<longleftrightarrow> b = replicate 15 0 @ [1]"

definition v4_mapped :: "sock_addr \<Rightarrow> bool" where
  \<comment> \<open>\<open>IN6_IS_ADDR_V4MAPPED\<close>; the bytes behind an IPv4 \<open>sockaddr\<close> are zero\<close>
  "v4_mapped a = (case a of Inet6 b \<Rightarrow> take 12 b = replicate 10 0 @ [0xff, 0xff] | _ \<Rightarrow> False)"

definition peer_of :: "net_env \<Rightarrow> sock_addr \<Rightarrow> byte list \<Rightarrow> peer_info \<times> ip4 option" where
  \<comment> \<open>\<open>IPv4map\<close> and \<open>remote_ipv4 = remote_ip + 7\<close>, and the mapped address\<close>
  "peer_of env addr ip =
     (if v4_mapped addr then
        (case ne_numeric4 env (drop 7 ip) of
           None \<Rightarrow> (\<lparr>pi_addr = addr, pi_ip = ip, pi_map = False, pi_ip4 = drop 7 ip\<rparr>, None)
         | Some a \<Rightarrow> (\<lparr>pi_addr = addr, pi_ip = ip, pi_map = True, pi_ip4 = drop 7 ip\<rparr>, Some a))
      else (\<lparr>pi_addr = addr, pi_ip = ip, pi_map = False, pi_ip4 = []\<rparr>, None))"

definition is_loopback :: "sock_addr \<Rightarrow> ip4 option \<Rightarrow> bool" where
  "is_loopback addr mapped \<longleftrightarrow>
     (case mapped of Some a \<Rightarrow> IN_LOOPBACK a | None \<Rightarrow> False) \<or>
     (case addr of Inet4 a \<Rightarrow> IN_LOOPBACK a | Inet6 b \<Rightarrow> v6_loopback b | Other_Family \<Rightarrow> False)"

definition text_addr :: "net_env \<Rightarrow> sock_addr \<Rightarrow> byte list" where
  "text_addr env a = (case ne_nameinfo env a of Some t \<Rightarrow> t | None \<Rightarrow> ascii ''[error]'')"

definition same_addr :: "net_env \<Rightarrow> peer_info \<Rightarrow> sock_addr \<Rightarrow> bool" where
  "same_addr env p a \<longleftrightarrow>
     strcasecmp_eq (text_addr env a) (pi_ip p) \<or> (pi_map p \<and> text_addr env a = pi_ip4 p)"

definition check_subnet :: "net_env \<Rightarrow> peer_info \<Rightarrow> byte list \<Rightarrow> byte list \<Rightarrow> access_state \<Rightarrow> access_state" where
  \<comment> \<open>the branch for a line with a netmask\<close>
  "check_subnet env p base netmask st =
     (if 58 \<in> set base then
        (case pi_addr p of
           Inet6 b \<Rightarrow>
             (case check_v6_in_range env b base netmask of
                (permitted, overrun) \<Rightarrow> st\<lparr>as_ok := as_ok st \<or> permitted, as_fault := as_fault st \<or> overrun\<rparr>)
         | _ \<Rightarrow> st)
      else
        (let (sin, res) =
               (if pi_map p then
                  (case ne_numeric4 env (pi_ip4 p) of Some a \<Rightarrow> (Some a, Res_Live) | None \<Rightarrow> (None, as_res st))
                else ((case pi_addr p of Inet4 a \<Rightarrow> Some a | _ \<Rightarrow> None), as_res st));
             st1 = st\<lparr>as_res := res\<rparr>
         in case sin of
              None \<Rightarrow> st1
            | Some a \<Rightarrow>
                (let st2 = (if check_v4_in_range env a base netmask then st1\<lparr>as_ok := True\<rparr> else st1)
                 in case as_res st2 of
                      Res_Null \<Rightarrow> st2
                    | Res_Live \<Rightarrow> st2\<lparr>as_res := Res_Null\<rparr>
                    | Res_Junk \<Rightarrow> st2\<lparr>as_res := Res_Null, as_fault := True\<rparr>)))"

definition split_netmask :: "byte list \<Rightarrow> byte list \<times> byte list option" where
  "split_netmask line =
     (case strchr_idx line 47 of
        None \<Rightarrow> (line, None)
      | Some i \<Rightarrow> (take i line, Some (drop (Suc i) line)))"

definition unbracket :: "byte list \<Rightarrow> byte list option" where
  \<comment> \<open>an address in brackets; \<open>None\<close> when the closing one is missing\<close>
  "unbracket base =
     (if base \<noteq> [] \<and> hd base = 91 then
        (case strchr_idx (tl base) 93 of None \<Rightarrow> None | Some i \<Rightarrow> Some (take i (tl base)))
      else Some base)"

definition check_line :: "net_env \<Rightarrow> peer_info \<Rightarrow> byte list \<Rightarrow> access_state \<Rightarrow> access_state" where
  "check_line env p line st =
     (if line \<noteq> [] \<and> hd line = 35 then st
      else if 61 \<in> set line then st
      else if line = [] then st
      else case split_netmask line of
        (base0, netmask) \<Rightarrow>
          case unbracket base0 of
            None \<Rightarrow> st
          | Some base \<Rightarrow>
              if base = [43] then st\<lparr>as_ok := True\<rparr>
              else if strcasecmp_eq base (pi_ip p) then st\<lparr>as_ok := True\<rparr>
              else if pi_map p \<and> base = pi_ip4 p then st\<lparr>as_ok := True\<rparr>
              else case netmask of
                Some m \<Rightarrow> check_subnet env p base m st
              | None \<Rightarrow>
                  (case ne_resolve env base of
                     Inl _ \<Rightarrow> st
                   | Inr addrs \<Rightarrow> st\<lparr>as_res := Res_Null, as_ok := list_ex (same_addr env p) addrs\<rparr>))"

fun file_loop :: "nat \<Rightarrow> net_env \<Rightarrow> peer_info \<Rightarrow> byte list \<Rightarrow> byte list \<Rightarrow> access_state \<Rightarrow> access_state" where
  \<comment> \<open>\<open>while (!access_ok && sanei_config_read (...))\<close>; a turn consumes at least a byte\<close>
  "file_loop 0 env p buf stream st = st\<lparr>as_fault := True\<rparr>"
| "file_loop (Suc n) env p buf stream st =
     (if as_ok st then st
      else case sanei_config_read buf 1024 stream of
             Cfg_Eof \<Rightarrow> st
           | Cfg_Fault \<Rightarrow> st\<lparr>as_fault := True\<rparr>
           | Cfg_Line b rest \<Rightarrow>
               (case c_str b of
                  None \<Rightarrow> st\<lparr>as_fault := True\<rparr>
                | Some line \<Rightarrow> file_loop n env p b rest (check_line env p line st)))"

definition check_file :: "net_env \<Rightarrow> peer_info \<Rightarrow> byte list option \<Rightarrow> access_state \<Rightarrow> access_state" where
  "check_file env p file st =
     (case file of
        None \<Rightarrow> st
      | Some stream \<Rightarrow> file_loop (Suc (length stream)) env p (replicate 1024 0) stream st)"

datatype host_verdict = Verdict sane_word bool

text \<open>The status \<open>check_host\<close> returns, and whether it used memory that is not its own on the way (an
  invalid pointer, an element past the end of an array).\<close>

definition check_files :: "net_env \<Rightarrow> peer_info \<Rightarrow> access_state \<Rightarrow> host_verdict" where
  "check_files env p st =
     (let st' = check_file env p (ne_saned_conf env) (check_file env p (ne_hosts_equiv env) st)
      in Verdict (if as_ok st' then SANE_STATUS_GOOD else SANE_STATUS_ACCESS_DENIED) (as_fault st'))"

definition check_local :: "net_env \<Rightarrow> peer_info \<Rightarrow> host_verdict" where
  \<comment> \<open>compare with the addresses of the local host, then go on to the files\<close>
  "check_local env p =
     (case ne_hostname env of
        None \<Rightarrow> Verdict SANE_STATUS_INVAL False
      | Some name \<Rightarrow>
          (case ne_resolve env name of
             Inl noname \<Rightarrow>
               if \<not> noname then Verdict SANE_STATUS_INVAL False
               else check_files env p \<lparr>as_ok = False, as_res = Res_Junk, as_fault = False\<rparr>
           | Inr addrs \<Rightarrow>
               if list_ex (same_addr env p) addrs then Verdict SANE_STATUS_GOOD False
               else check_files env p \<lparr>as_ok = False, as_res = Res_Null, as_fault = False\<rparr>))"

definition check_host :: "net_env \<Rightarrow> host_verdict \<times> byte list" where
  \<comment> \<open>the verdict and \<open>remote_ip\<close>\<close>
  "check_host env =
     (case ne_peer env of
        None \<Rightarrow> (Verdict SANE_STATUS_INVAL False, ascii ''[error]'')
      | Some addr \<Rightarrow>
          (case ne_nameinfo env addr of
             None \<Rightarrow> (Verdict SANE_STATUS_INVAL False, ascii ''[error]'')
           | Some ip \<Rightarrow>
               (case peer_of env addr ip of
                  (p, mapped) \<Rightarrow>
                    if is_loopback addr mapped then (Verdict SANE_STATUS_GOOD False, ip)
                    else (check_local env p, ip))))"

end
