(* ===== verification/Constrain.thy ===== *)
theory Constrain
  imports Sane_Types
begin

text \<open>
  \<^verbatim>\<open>sanei/sanei_constrain_value.c\<close>: checking a value against the constraint of an option
  and adjusting it to the constraint.  A value is the memory the \<open>void *value\<close> points at,
  typed by the option.  Both functions return \<open>None\<close> where the C code would read or
  write outside of that memory, of the constraint's lists or of a string, so every
  theorem below that speaks of \<open>Some\<close> also says that no such access happens.
\<close>

unbundle bit_operations_syntax

section \<open>Values and the number of elements\<close>

datatype opt_value =
    Val_Words "sane_word list"
  | Val_Bytes "byte list"

fun val_words :: "opt_value \<Rightarrow> sane_word list option" where
  "val_words (Val_Words ws) = Some ws"
| "val_words (Val_Bytes _) = None"

fun val_bytes :: "opt_value \<Rightarrow> byte list option" where
  "val_bytes (Val_Bytes b) = Some b"
| "val_bytes (Val_Words _) = None"

definition elem_count :: "sane_word \<Rightarrow> nat" where
  "elem_count sz = (if 0 < sint sz then nat (sint sz) div 4 else 1)"

definition quantize :: "sane_range \<Rightarrow> sane_word \<Rightarrow> sane_word" where
  \<comment> \<open>\<open>v = (unsigned int) (x - min + quant / 2) / quant; v = v * quant + min\<close>\<close>
  "quantize r x =
     ((x - rng_min r + word_of_int (c_div (sint (rng_quant r)) 2)) div rng_quant r)
       * rng_quant r + rng_min r"

section \<open>sanei_check_value\<close>

fun check_range_loop :: "sane_range \<Rightarrow> sane_word list \<Rightarrow> nat \<Rightarrow> sane_word option" where
  "check_range_loop r xs 0 = Some SANE_STATUS_GOOD"
| "check_range_loop r [] (Suc n) = None"
| "check_range_loop r (x # xs) (Suc n) =
     (if sint x < sint (rng_min r) \<or> sint (rng_max r) < sint x then Some SANE_STATUS_INVAL
      else if rng_quant r \<noteq> 0 \<and> quantize r x \<noteq> x then Some SANE_STATUS_INVAL
      else check_range_loop r xs n)"

function check_word_list_loop :: "sane_word \<Rightarrow> sane_word list \<Rightarrow> nat \<Rightarrow> sane_word option" where
  "check_word_list_loop w ws i =
     (if length ws \<le> i then None
      else if w = ws ! i then Some SANE_STATUS_GOOD
      else if sint (ws ! 0) \<le> int i then Some SANE_STATUS_INVAL
      else check_word_list_loop w ws (Suc i))"
  by pat_completeness auto
termination
  by (relation "measure (\<lambda>(w, ws, i). length ws - i)") auto

fun check_string_list_loop :: "byte list \<Rightarrow> c_string list \<Rightarrow> sane_word option" where
  "check_string_list_loop v [] = None"
| "check_string_list_loop v (None # _) = Some SANE_STATUS_INVAL"
| "check_string_list_loop v (Some blk # rest) =
     (case c_str blk of None \<Rightarrow> None
      | Some s \<Rightarrow>
          if take (length v) (mk_cstr s) = v \<and> length v = length s
          then Some SANE_STATUS_GOOD
          else check_string_list_loop v rest)"

fun check_bool_loop :: "sane_word list \<Rightarrow> nat \<Rightarrow> sane_word option" where
  "check_bool_loop xs 0 = Some SANE_STATUS_GOOD"
| "check_bool_loop [] (Suc n) = None"
| "check_bool_loop (x # xs) (Suc n) =
     (if x \<noteq> SANE_TRUE \<and> x \<noteq> SANE_FALSE then Some SANE_STATUS_INVAL
      else check_bool_loop xs n)"

definition sanei_check_value :: "sane_option_descriptor \<Rightarrow> opt_value \<Rightarrow> sane_word option" where
  "sanei_check_value opt value =
     (if opt_constraint_type opt = SANE_CONSTRAINT_RANGE then
        (case (val_words value, constraint_range (opt_constraint opt)) of
           (Some array, Some rng) \<Rightarrow> check_range_loop rng array (elem_count (opt_size opt))
         | _ \<Rightarrow> None)
      else if opt_constraint_type opt = SANE_CONSTRAINT_WORD_LIST then
        (case (val_words value, constraint_words (opt_constraint opt)) of
           (Some (w # _), Some ws) \<Rightarrow> check_word_list_loop w ws 1
         | _ \<Rightarrow> None)
      else if opt_constraint_type opt = SANE_CONSTRAINT_STRING_LIST then
        (case (Option.bind (val_bytes value) c_str, constraint_strings (opt_constraint opt)) of
           (Some v, Some ss) \<Rightarrow> check_string_list_loop v ss
         | _ \<Rightarrow> None)
      else if opt_constraint_type opt = SANE_CONSTRAINT_NONE then
        (if opt_type opt = SANE_TYPE_BOOL then
           (case val_words value of
              Some barray \<Rightarrow> check_bool_loop barray (elem_count (opt_size opt))
            | None \<Rightarrow> None)
         else Some SANE_STATUS_GOOD)
      else Some SANE_STATUS_GOOD)"

section \<open>sanei_constrain_value\<close>

text \<open>\<open>*info |= SANE_INFO_INEXACT\<close> when the caller passed a non-null \<open>info\<close>.\<close>

definition set_inexact :: "sane_word option \<Rightarrow> sane_word option" where
  "set_inexact info = map_option (\<lambda>i. i OR SANE_INFO_INEXACT) info"

definition constrain_elem :: "sane_range \<Rightarrow> sane_word \<Rightarrow> sane_word option \<Rightarrow> sane_word \<times> sane_word option" where
  "constrain_elem r a0 info0 =
     (let (a1, info1) = (if sint a0 < sint (rng_min r) then (rng_min r, set_inexact info0)
                         else (a0, info0));
          (a2, info2) = (if sint (rng_max r) < sint a1 then (rng_max r, set_inexact info1)
                         else (a1, info1))
      in if rng_quant r \<noteq> 0 then
           (let v = quantize r a2;
                v = (if sint (rng_max r) < sint v then rng_max r else v)
            in if v \<noteq> a2 then (v, set_inexact info2) else (a2, info2))
         else (a2, info2))"

fun constrain_range_loop ::
  "sane_range \<Rightarrow> sane_word list \<Rightarrow> nat \<Rightarrow> sane_word option \<Rightarrow> (sane_word list \<times> sane_word option) option"
where
  "constrain_range_loop r xs 0 info = Some (xs, info)"
| "constrain_range_loop r [] (Suc n) info = None"
| "constrain_range_loop r (x # xs) (Suc n) info =
     (case constrain_elem r x info of (y, info') \<Rightarrow>
        (case constrain_range_loop r xs n info' of
           None \<Rightarrow> None
         | Some (ys, info'') \<Rightarrow> Some (y # ys, info'')))"

definition word_abs :: "sane_word \<Rightarrow> sane_word" where
  \<comment> \<open>\<open>abs\<close>, which maps the least \<open>int\<close> to itself on two's complement machines\<close>
  "word_abs x = (if sint x < 0 then - x else x)"

function nearest_word_loop ::
  "sane_word \<Rightarrow> sane_word list \<Rightarrow> nat \<Rightarrow> nat \<Rightarrow> sane_word \<Rightarrow> nat option"
where
  \<comment> \<open>the index \<open>k\<close> of the least distance seen, once \<open>i\<close> has passed the list's length word\<close>
  "nearest_word_loop w ws i k v =
     (if sint (ws ! 0) < int i then Some k
      else if length ws \<le> i then None
      else if sint (word_abs (w - ws ! i)) < sint v
      then nearest_word_loop w ws (Suc i) i (word_abs (w - ws ! i))
      else nearest_word_loop w ws (Suc i) k v)"
  by pat_completeness auto
termination
  by (relation "measure (\<lambda>(w, ws, i, k, v). length ws - i)") auto

definition constrain_word_list ::
  "sane_word \<Rightarrow> sane_word list \<Rightarrow> sane_word option \<Rightarrow> (sane_word \<times> sane_word option) option"
where
  "constrain_word_list w ws info =
     (if length ws \<le> 1 then None
      else case nearest_word_loop w ws 1 1 (word_abs (w - ws ! 1)) of
             None \<Rightarrow> None
           | Some k \<Rightarrow> Some (if w \<noteq> ws ! k then (ws ! k, set_inexact info) else (w, info)))"

datatype string_match =
    Exact_Match nat
  | Prefix_Matches nat "nat option"

fun match_string_loop ::
  "byte list \<Rightarrow> c_string list \<Rightarrow> nat \<Rightarrow> nat \<Rightarrow> nat option \<Rightarrow> string_match option"
where
  \<comment> \<open>entry \<open>i\<close> onwards, with \<open>num_matches\<close> and \<open>match\<close> (\<open>None\<close> for \<open>-1\<close>) so far\<close>
  "match_string_loop v [] i num m = None"
| "match_string_loop v (None # _) i num m = Some (Prefix_Matches num m)"
| "match_string_loop v (Some blk # rest) i num m =
     (case c_str blk of None \<Rightarrow> None
      | Some s \<Rightarrow>
          if strncasecmp_eq v s (length v) \<and> length v \<le> length s then
            if length v = length s then Some (Exact_Match i)
            else match_string_loop v rest (Suc i) (Suc num) (Some i)
          else match_string_loop v rest (Suc i) num m)"

definition c_strcpy :: "byte list \<Rightarrow> byte list \<Rightarrow> byte list option" where
  \<comment> \<open>\<open>strcpy (dst, s)\<close> into a block; \<open>None\<close> when the block is too small\<close>
  "c_strcpy dst s =
     (if length s < length dst then Some (blit dst 0 (mk_cstr s)) else None)"

definition string_at :: "c_string list \<Rightarrow> nat \<Rightarrow> byte list option" where
  "string_at ss i = Option.bind (blk_get ss i) (\<lambda>p. Option.bind p c_str)"

definition constrain_string_list ::
  "byte list \<Rightarrow> c_string list \<Rightarrow> (sane_word \<times> byte list) option"
where
  "constrain_string_list value ss =
     (case c_str value of None \<Rightarrow> None
      | Some v \<Rightarrow>
         (case match_string_loop v ss 0 0 None of
            None \<Rightarrow> None
          | Some (Exact_Match i) \<Rightarrow>
              (case string_at ss i of None \<Rightarrow> None
               | Some s \<Rightarrow>
                   if v \<noteq> s then map_option (\<lambda>b. (SANE_STATUS_GOOD, b)) (c_strcpy value s)
                   else Some (SANE_STATUS_GOOD, value))
          | Some (Prefix_Matches num m) \<Rightarrow>
              if 1 < num then Some (SANE_STATUS_INVAL, value)
              else if num = 1 then
                (case Option.bind m (string_at ss) of None \<Rightarrow> None
                 | Some s \<Rightarrow> map_option (\<lambda>b. (SANE_STATUS_GOOD, b)) (c_strcpy value s))
              else Some (SANE_STATUS_INVAL, value)))"

definition sanei_constrain_value ::
  "sane_option_descriptor \<Rightarrow> opt_value \<Rightarrow> sane_word option
     \<Rightarrow> (sane_word \<times> opt_value \<times> sane_word option) option"
where
  "sanei_constrain_value opt value info =
     (if opt_constraint_type opt = SANE_CONSTRAINT_RANGE then
        (case (val_words value, constraint_range (opt_constraint opt)) of
           (Some array, Some rng) \<Rightarrow>
             map_option (\<lambda>(ys, info'). (SANE_STATUS_GOOD, Val_Words ys, info'))
               (constrain_range_loop rng array (elem_count (opt_size opt)) info)
         | _ \<Rightarrow> None)
      else if opt_constraint_type opt = SANE_CONSTRAINT_WORD_LIST then
        (case (val_words value, constraint_words (opt_constraint opt)) of
           (Some (w # rest), Some ws) \<Rightarrow>
             map_option (\<lambda>(w', info'). (SANE_STATUS_GOOD, Val_Words (w' # rest), info'))
               (constrain_word_list w ws info)
         | _ \<Rightarrow> None)
      else if opt_constraint_type opt = SANE_CONSTRAINT_STRING_LIST then
        (case (val_bytes value, constraint_strings (opt_constraint opt)) of
           (Some b, Some ss) \<Rightarrow>
             map_option (\<lambda>(st, b'). (st, Val_Bytes b', info)) (constrain_string_list b ss)
         | _ \<Rightarrow> None)
      else if opt_constraint_type opt = SANE_CONSTRAINT_NONE then
        (if opt_type opt = SANE_TYPE_BOOL then
           (case val_words value of
              Some (b # rest) \<Rightarrow>
                Some (if b \<noteq> SANE_TRUE \<and> b \<noteq> SANE_FALSE then SANE_STATUS_INVAL
                      else SANE_STATUS_GOOD, value, info)
            | _ \<Rightarrow> None)
         else Some (SANE_STATUS_GOOD, value, info))
      else Some (SANE_STATUS_GOOD, value, info))"

declare check_word_list_loop.simps [simp del] nearest_word_loop.simps [simp del]

end
