(* ===== verification/Saned_State.thy ===== *)
theory Saned_State
  imports Net_Msg Saned_Access Constrain "HOL-Library.Monad_Syntax"
begin

text \<open>
  The state of the daemon \<^verbatim>\<open>frontend/saned.c\<close> and its handle table: \<open>get_free_handle\<close>,
  \<open>close_handle\<close>, \<open>decode_handle\<close>, and the shutdown in \<open>quit\<close>.

  The state holds the globals of the file.  The table \<open>handle\<close> is a memory block (\<open>None\<close> for
  the null pointer) beside its count \<open>num_handles\<close>.  The backend the daemon is linked with is
  the record \<open>backend\<close> of the operations of the SANE API over a state of its own; an operation
  that may call back for authorization is a tree of such calls, \<open>call\<close>.  A function that may
  never return has an option result, \<open>None\<close> when it does not return.  \<open>sd_fault\<close> becomes true
  when the code uses an invalid pointer or index.
\<close>

section \<open>The backend\<close>

type_synonym sane_handle = nat

datatype 'r call =
    Ret 'r
  | Auth c_string "byte list \<times> byte list \<Rightarrow> 'r call"

text \<open>\<open>Auth resource k\<close> calls the authorization callback for a resource and continues with the
  contents of the user name and password buffers.\<close>

record 'b backend =
  b_init :: "'b \<Rightarrow> 'b \<times> sane_word \<times> sane_word"
  b_get_devices :: "'b \<Rightarrow> bool \<Rightarrow> 'b \<times> sane_word \<times> sane_device option list option"
  b_open :: "'b \<Rightarrow> c_string \<Rightarrow> ('b \<times> sane_word \<times> sane_handle) call"
  b_close :: "'b \<Rightarrow> sane_handle \<Rightarrow> 'b"
  b_descriptor :: "'b \<Rightarrow> sane_handle \<Rightarrow> nat \<Rightarrow> sane_option_descriptor option"
  b_control :: "'b \<Rightarrow> sane_handle \<Rightarrow> sane_word \<Rightarrow> sane_word \<Rightarrow> ctl_value \<Rightarrow>
    ('b \<times> sane_word \<times> ctl_value \<times> sane_word) call"
  b_params :: "'b \<Rightarrow> sane_handle \<Rightarrow> 'b \<times> sane_word \<times> sane_parameters"
  b_start :: "'b \<Rightarrow> sane_handle \<Rightarrow> ('b \<times> sane_word) call"
  b_read :: "'b \<Rightarrow> sane_handle \<Rightarrow> nat \<Rightarrow> 'b \<times> sane_word \<times> byte list"
  b_cancel :: "'b \<Rightarrow> sane_handle \<Rightarrow> 'b"
  b_set_io_mode :: "'b \<Rightarrow> sane_handle \<Rightarrow> bool \<Rightarrow> 'b \<times> sane_word"
  b_select_fd :: "'b \<Rightarrow> sane_handle \<Rightarrow> 'b \<times> sane_word \<times> sane_word"
  b_exit :: "'b \<Rightarrow> 'b"
  b_authorize :: "byte list \<Rightarrow> sane_word call"

section \<open>The state\<close>

record handle_slot =
  hs_inuse :: bool
  hs_scanning :: bool
  hs_docancel :: bool
  hs_handle :: sane_handle

definition zero_slot :: handle_slot where
  "zero_slot = \<lparr>hs_inuse = False, hs_scanning = False, hs_docancel = False, hs_handle = 0\<rparr>"

datatype sel_event =
    Sel_Error bool
  | Sel_Ready bool bool bool "nat option"

text \<open>
  What a turn of the scan loop meets: \<open>select\<close> failing (\<open>True\<close> for \<open>EBADF\<close>), or which of the
  backend's, the data and the control descriptors are ready and how many bytes a \<open>write\<close> to
  the data connection takes (\<open>None\<close> when it fails).
\<close>

record scan_net =
  sn_sockname :: bool
  sn_socket :: bool
  sn_bind :: "16 word \<Rightarrow> bool"
  sn_listen :: bool
  sn_port :: "16 word option"
  sn_poll :: bool
  sn_accept :: bool
  sn_peer :: "byte list option option"
  sn_events :: "sel_event list"

text \<open>
  What the system does for one data connection: whether \<open>getsockname\<close>, \<open>socket\<close>, \<open>bind\<close> to a
  port, \<open>listen\<close>, \<open>poll\<close> and \<open>accept\<close> succeed, the port bound, the peer of the accepted
  connection (\<open>None\<close> when \<open>getpeername\<close> fails, \<open>Some None\<close> when \<open>getnameinfo\<close> does), and the
  events of the scan.
\<close>

record 'b saned =
  sd_wire :: wire
  sd_handle :: "handle_slot list option"
  sd_num :: int
  sd_last :: int
  sd_request :: sane_word
  sd_can_auth :: bool
  sd_remote_ip :: "byte list"
  sd_user :: "byte list"
  sd_allow_net :: bool
  sd_little :: bool
  sd_port_lo :: "16 word"
  sd_port_hi :: "16 word"
  sd_buf_size :: nat
  sd_alloc :: "bool list"
  sd_scans :: "scan_net list"
  sd_data :: "(sane_handle \<times> byte list) list"
  sd_be :: 'b
  sd_fault :: bool

definition sd_fail :: "'b saned \<Rightarrow> 'b saned" where
  "sd_fail s = s\<lparr>sd_fault := True\<rparr>"

definition sd_malloc :: "'b saned \<Rightarrow> 'b saned \<times> bool" where
  "sd_malloc s = (case sd_alloc s of [] \<Rightarrow> (s, True) | b # bs \<Rightarrow> (s\<lparr>sd_alloc := bs\<rparr>, b))"

definition get_slot :: "'b saned \<Rightarrow> int \<Rightarrow> handle_slot option" where
  \<comment> \<open>\<open>handle[h]\<close>\<close>
  "get_slot s h = (case sd_handle s of
     Some l \<Rightarrow> if 0 \<le> h then blk_get l (nat h) else None
   | None \<Rightarrow> None)"

definition set_slot :: "'b saned \<Rightarrow> int \<Rightarrow> (handle_slot \<Rightarrow> handle_slot) \<Rightarrow> 'b saned" where
  "set_slot s h f = (case get_slot s h of
     Some x \<Rightarrow> s\<lparr>sd_handle := map_option (\<lambda>l. l[nat h := f x]) (sd_handle s)\<rparr>
   | None \<Rightarrow> sd_fail s)"

definition on_wire :: "(wire \<Rightarrow> wire \<times> 'a) \<Rightarrow> 'b saned \<Rightarrow> 'b saned \<times> 'a" where
  \<comment> \<open>an operation on the connection's wire; a fault of the wire is one of the daemon\<close>
  "on_wire f s = (case f (sd_wire s) of (w, x) \<Rightarrow> (s\<lparr>sd_wire := w, sd_fault := sd_fault s \<or> w_fault w\<rparr>, x))"

section \<open>The handle table\<close>

datatype find_result = Found int | Not_Found | Find_Fault

partial_function (option) find_handle ::
  "handle_slot list option \<Rightarrow> int \<Rightarrow> int \<Rightarrow> int \<Rightarrow> find_result option"
where
  \<comment> \<open>\<open>do { ... ++h; } while (h != last_handle_checked);\<close>\<close>
  "find_handle slots num lst h =
     (let h1 = (if num \<le> h then 0 else h)
      in case (case slots of Some l \<Rightarrow> if 0 \<le> h1 then blk_get l (nat h1) else None | None \<Rightarrow> None) of
           None \<Rightarrow> Some Find_Fault
         | Some x \<Rightarrow>
             if \<not> hs_inuse x then Some (Found h1)
             else if h1 + 1 = lst then Some Not_Found
             else find_handle slots num lst (h1 + 1))"

definition grow_handles :: "'b saned \<Rightarrow> 'b saned \<times> bool" where
  \<comment> \<open>out of handles: allocate 16 more\<close>
  "grow_handles s =
     (case sd_malloc (s\<lparr>sd_last := sd_num s - 1, sd_num := sd_num s + 16\<rparr>) of
        (s1, ok) \<Rightarrow>
          if ok then
            (s1\<lparr>sd_handle := Some ((case sd_handle s1 of Some l \<Rightarrow> l | None \<Rightarrow> []) @ replicate 16 zero_slot)\<rparr>, True)
          else (s1\<lparr>sd_handle := None\<rparr>, False))"

partial_function (option) get_free_handle :: "'b saned \<Rightarrow> ('b saned \<times> sane_word) option" where
  "get_free_handle s =
     do {
       r \<leftarrow> (if 0 < sd_num s then find_handle (sd_handle s) (sd_num s) (sd_last s) (sd_last s + 1)
             else Some Not_Found);
       (case r of
          Found h \<Rightarrow>
            Some (set_slot (s\<lparr>sd_last := h\<rparr>) h (\<lambda>_. zero_slot\<lparr>hs_inuse := True\<rparr>), word_of_int h)
        | Find_Fault \<Rightarrow> Some (sd_fail s, 0)
        | Not_Found \<Rightarrow>
            (case grow_handles s of
               (s1, ok) \<Rightarrow> if ok then get_free_handle s1 else Some (s1, - 1)))
     }"

definition close_handle :: "'b backend \<Rightarrow> 'b saned \<Rightarrow> sane_word \<Rightarrow> 'b saned" where
  "close_handle be s h =
     (if 0 \<le> sint h then
        (case get_slot s (sint h) of
           None \<Rightarrow> sd_fail s
         | Some x \<Rightarrow>
             if hs_inuse x then
               set_slot (s\<lparr>sd_be := b_close be (sd_be s) (hs_handle x)\<rparr>) (sint h) (\<lambda>y. y\<lparr>hs_inuse := False\<rparr>)
             else s)
      else s)"

definition decode_handle :: "'b saned \<Rightarrow> 'b saned \<times> sane_word" where
  "decode_handle s =
     (case on_wire (\<lambda>w. sanei_w_word w (w_junk w)) s of
        (s1, h) \<Rightarrow>
          if w_status (sd_wire s1) \<noteq> 0 \<or> (word_of_int (sd_num s1) :: sane_word) \<le> h then (s1, - 1)
          else case get_slot s1 (uint h) of
                 None \<Rightarrow> (sd_fail s1, - 1)
               | Some x \<Rightarrow> if hs_inuse x then (s1, h) else (s1, - 1))"

fun close_all :: "'b backend \<Rightarrow> nat \<Rightarrow> 'b saned \<Rightarrow> 'b saned" where
  \<comment> \<open>\<open>for (i = 0; i < num_handles; ++i) if (handle[i].inuse) sane_close (...)\<close>, the last \<open>n\<close> turns\<close>
  "close_all be 0 s = s"
| "close_all be (Suc n) s =
     (case get_slot s (sd_num s - int (Suc n)) of
        None \<Rightarrow> sd_fail s
      | Some x \<Rightarrow> close_all be n (if hs_inuse x then s\<lparr>sd_be := b_close be (sd_be s) (hs_handle x)\<rparr> else s))"

definition quit :: "'b backend \<Rightarrow> 'b saned \<Rightarrow> 'b saned" where
  \<comment> \<open>the first call; the process exits at its end\<close>
  "quit be s =
     (let s1 = close_all be (nat (sd_num s)) s;
          s2 = s1\<lparr>sd_be := b_exit be (sd_be s1)\<rparr>;
          s3 = s2\<lparr>sd_wire := sanei_w_exit (sd_wire s2)\<rparr>
      in s3\<lparr>sd_handle := None\<rparr>)"

end
