(* ===== verification/Saned_Scan.thy ===== *)
theory Saned_Scan
  imports Saned_State
begin

text \<open>
  Sending an image, \<^verbatim>\<open>frontend/saned.c\<close>: \<open>store_reclen\<close> and \<open>do_scan\<close>.  The loop of \<open>do_scan\<close>
  moves data from \<open>sane_read\<close> through a ring buffer to the data connection, in records of a
  big-endian length and that many bytes, and processes requests of the control connection in
  between; the function that processes one is an argument.  The script of events lists what
  \<open>select\<close> and \<open>write\<close> do; after the last event \<open>select\<close> fails.
\<close>

section \<open>The ring buffer\<close>

record scan_state =
  sc_buf :: "byte list"
  sc_reader :: int
  sc_writer :: int
  sc_bytes :: int
  sc_status :: sane_word
  sc_dirty :: bool
  sc_befd :: bool
  sc_sent :: "byte list"

fun store_byte :: "nat \<Rightarrow> byte \<Rightarrow> byte list option \<times> int \<Rightarrow> byte list option \<times> int" where
  \<comment> \<open>\<open>buf[i++] = b; if (i >= (int) buf_size) i = 0;\<close>\<close>
  "store_byte sz b (buf, i) =
     (Option.bind buf (\<lambda>l. if 0 \<le> i then blk_set l (nat i) b else None),
      if int sz \<le> i + 1 then 0 else i + 1)"

definition store_reclen :: "byte list \<Rightarrow> nat \<Rightarrow> int \<Rightarrow> sane_word \<Rightarrow> byte list option \<times> int" where
  "store_reclen buf sz i reclen = fold (store_byte sz) (be32 reclen) (Some buf, i)"

definition with_buf :: "byte list option \<Rightarrow> scan_state \<Rightarrow> 'b saned \<Rightarrow> scan_state \<times> 'b saned" where
  \<comment> \<open>the buffer after a store, or a fault\<close>
  "with_buf buf sc s = (case buf of Some b \<Rightarrow> (sc\<lparr>sc_buf := b\<rparr>, s) | None \<Rightarrow> (sc, sd_fail s))"

section \<open>One turn of the loop\<close>

definition scan_write :: "sane_word \<Rightarrow> nat option \<Rightarrow> scan_state \<Rightarrow> 'b saned \<Rightarrow> scan_state \<times> 'b saned \<times> bool" where
  \<comment> \<open>write buffered data to the client; the result is true when the loop is left\<close>
  "scan_write h wr sc s =
     (let sz = int (sd_buf_size s);
          nbytes = (if sc_writer sc + sc_bytes sc > sz then sz - sc_writer sc else sc_bytes sc)
      in case wr of
           None \<Rightarrow> (sc\<lparr>sc_status := SANE_STATUS_CANCELLED\<rparr>, set_slot s (uint h) (\<lambda>x. x\<lparr>hs_docancel := True\<rparr>), True)
         | Some k \<Rightarrow>
             (let n = min (int k) nbytes;
                  chunk = slice (nat (sc_writer sc)) (nat (sc_writer sc + n)) (sc_buf sc);
                  s1 = (if sc_writer sc < 0 \<or> int (length (sc_buf sc)) < sc_writer sc + n then sd_fail s else s);
                  writer = sc_writer sc + n
              in (sc\<lparr>sc_bytes := sc_bytes sc - n, sc_writer := (if writer = sz then 0 else writer),
                     sc_sent := sc_sent sc @ chunk\<rparr>, s1, False)))"

definition scan_read :: "'b backend \<Rightarrow> sane_handle \<Rightarrow> scan_state \<Rightarrow> 'b saned \<Rightarrow> scan_state \<times> 'b saned" where
  \<comment> \<open>get more data from the backend into a new record\<close>
  "scan_read be bh sc s =
     (let sz = int (sd_buf_size s);
          i = sc_reader sc;
          reader = (if i + 4 \<ge> sz then i + 4 - sz else i + 4);
          nbytes = (if reader + (sz - 4) > sz then sz - reader else sz - 4);
          (b', status, data) = b_read be (sd_be s) bh (nat nbytes);
          len = int (length data);
          s1 = s\<lparr>sd_be := b', sd_fault := sd_fault s \<or> reader < 0 \<or> int (length (sc_buf sc)) < reader + len\<rparr>;
          sc1 = sc\<lparr>sc_buf := blit (sc_buf sc) (nat reader) data, sc_status := status,
                   sc_reader := (if sz \<le> reader + len then 0 else reader + len),
                   sc_bytes := sc_bytes sc + len + 4\<rparr>
      in if status \<noteq> SANE_STATUS_GOOD then (sc1\<lparr>sc_reader := i, sc_dirty := True\<rparr>, s1)
         else with_buf (fst (store_reclen (sc_buf sc1) (sd_buf_size s) i (word_of_int len))) sc1 s1)"

definition scan_status :: "scan_state \<Rightarrow> 'b saned \<Rightarrow> scan_state \<times> 'b saned" where
  \<comment> \<open>append the final record: the length \<open>0xffffffff\<close> and the status\<close>
  "scan_status sc s =
     (if sc_dirty sc \<and> 5 \<le> (int (sd_buf_size s) - sc_bytes sc) mod 2 ^ 64 then
        (case store_reclen (sc_buf sc) (sd_buf_size s) (sc_reader sc) 0xffffffff of
           (buf, i) \<Rightarrow>
             with_buf (Option.bind buf (\<lambda>b. if 0 \<le> i then blk_set b (nat i) (ucast (sc_status sc)) else None))
               (sc\<lparr>sc_dirty := False, sc_reader := i, sc_bytes := sc_bytes sc + 5\<rparr>) s)
      else (sc, s))"

definition scan_more :: "scan_state \<Rightarrow> bool" where
  "scan_more sc \<longleftrightarrow> sc_status sc = SANE_STATUS_GOOD \<or> 0 < sc_bytes sc \<or> sc_dirty sc"

definition scan_data ::
  "'b backend \<Rightarrow> sane_word \<Rightarrow> sane_handle \<Rightarrow> bool \<Rightarrow> bool \<Rightarrow> bool \<Rightarrow> nat option \<Rightarrow> scan_state \<Rightarrow> 'b saned
     \<Rightarrow> scan_state \<times> 'b saned \<times> bool"
where
  \<comment> \<open>move data, then flag a status; \<open>poll\<close> when the backend has no descriptor to wait for\<close>
  "scan_data be h bh poll be_rdy data_rdy wr sc s =
     (let (sc1, s1, brk) =
            (if sc_bytes sc \<noteq> 0 then
               (if data_rdy \<and> 0 < sc_bytes sc then scan_write h wr sc s else (sc, s, False))
             else if sc_status sc = SANE_STATUS_GOOD \<and> (poll \<or> be_rdy) then
               (case scan_read be bh sc s of (sc1, s1) \<Rightarrow> (sc1, s1, False))
             else (sc, s, False))
      in if brk then (sc1, s1, True)
         else case scan_status sc1 s1 of (sc2, s2) \<Rightarrow> (sc2, s2, False))"

section \<open>The loop\<close>

fun scan_loop ::
  "('b saned \<Rightarrow> ('b saned \<times> int) option) \<Rightarrow> 'b backend \<Rightarrow> sane_word \<Rightarrow> sane_handle \<Rightarrow> bool \<Rightarrow>
     sel_event list \<Rightarrow> scan_state \<Rightarrow> 'b saned \<Rightarrow> (scan_state \<times> 'b saned) option"
where
  "scan_loop rpc be h bh poll [] sc s = Some (sc\<lparr>sc_status := SANE_STATUS_IO_ERROR\<rparr>, s)"
| "scan_loop rpc be h bh poll (Sel_Error badf # evs) sc s =
     (if sc_befd sc \<and> badf then
        (let sc1 = sc\<lparr>sc_befd := False, sc_dirty := (sc_dirty sc \<or> sc_status sc = SANE_STATUS_GOOD),
                      sc_status := SANE_STATUS_EOF\<rparr>
         in if scan_more sc1 then scan_loop rpc be h bh poll evs sc1 s else Some (sc1, s))
      else Some (sc\<lparr>sc_status := SANE_STATUS_IO_ERROR\<rparr>, s))"
| "scan_loop rpc be h bh poll (Sel_Ready be_rdy data_rdy ctl_rdy wr # evs) sc s =
     (case scan_data be h bh poll be_rdy data_rdy wr sc s of
        (sc1, s1, brk) \<Rightarrow>
          if brk then Some (sc1, s1)
          else if ctl_rdy then
            do {
              (s', r) \<leftarrow> rpc s1;
              let s2 = (if r < 0 then set_slot s' (uint h) (\<lambda>x. x\<lparr>hs_docancel := True\<rparr>) else s');
              (case get_slot s2 (uint h) of
                 None \<Rightarrow> Some (sc1, sd_fail s2)
               | Some x \<Rightarrow>
                   if hs_docancel x then Some (sc1, s2)
                   else if scan_more sc1 then scan_loop rpc be h bh poll evs sc1 s2
                   else Some (sc1, s2))
            }
          else if scan_more sc1 then scan_loop rpc be h bh poll evs sc1 s1
          else Some (sc1, s1))"

definition end_scan :: "'b backend \<Rightarrow> sane_word \<Rightarrow> 'b saned \<Rightarrow> 'b saned" where
  "end_scan be h s =
     (case get_slot s (uint h) of
        None \<Rightarrow> sd_fail s
      | Some x \<Rightarrow>
          set_slot (if hs_docancel x then s\<lparr>sd_be := b_cancel be (sd_be s) (hs_handle x)\<rparr> else s) (uint h)
            (\<lambda>y. y\<lparr>hs_docancel := False, hs_scanning := False\<rparr>))"

definition do_scan ::
  "('b saned \<Rightarrow> ('b saned \<times> int) option) \<Rightarrow> 'b backend \<Rightarrow> 'b saned \<Rightarrow> sane_word \<Rightarrow> sel_event list
     \<Rightarrow> 'b saned option"
where
  "do_scan rpc be s h evs =
     (case get_slot s (uint h) of
        None \<Rightarrow> Some (sd_fail s)
      | Some x \<Rightarrow>
          (case sd_malloc s of
             (s1, ok) \<Rightarrow>
               if \<not> ok then Some (end_scan be h s1)
               else
                 (case b_select_fd be (fst (b_set_io_mode be (sd_be s1) (hs_handle x) True)) (hs_handle x) of
                    (b', st, fd) \<Rightarrow>
                      let has_fd = (st = SANE_STATUS_GOOD);
                          sc = \<lparr>sc_buf = replicate (sd_buf_size s1) (ucast (w_junk (sd_wire s1))),
                                sc_reader = 0, sc_writer = 0, sc_bytes = 0, sc_status = SANE_STATUS_GOOD,
                                sc_dirty = False, sc_befd = has_fd, sc_sent = []\<rparr>
                      in do {
                           (sc', s') \<leftarrow> scan_loop rpc be h (hs_handle x) (\<not> has_fd) evs sc (s1\<lparr>sd_be := b'\<rparr>);
                           Some (end_scan be h (s'\<lparr>sd_data := sd_data s' @ [(hs_handle x, sc_sent sc')]\<rparr>))
                         })))"

end
