(* ===== verification/Saned_Ring.thy ===== *)
theory Saned_Ring
  imports Saned_Scan
begin

text \<open>
  The ring buffer of \<open>do_scan\<close>: positions modulo the buffer size, writing a string of bytes into the
  ring, and the bytes the ring holds between two positions.  \<open>store_reclen\<close> and the \<open>sane_read\<close> into
  the buffer are writes of this kind (\<open>store_reclen_ring\<close>, \<open>ring_put_blit\<close>).
\<close>

section \<open>Writing into the ring\<close>

definition ring_index :: "nat \<Rightarrow> int \<Rightarrow> nat \<Rightarrow> nat" where
  \<comment> \<open>the position of the \<open>k\<close>-th byte from offset \<open>i\<close>\<close>
  "ring_index sz i k = nat ((i + int k) mod int sz)"

fun ring_put :: "nat \<Rightarrow> byte list \<Rightarrow> int \<Rightarrow> byte list \<Rightarrow> byte list" where
  "ring_put sz buf i [] = buf"
| "ring_put sz buf i (b # bs) = ring_put sz (buf[nat i := b]) ((i + 1) mod int sz) bs"

lemma ring_put_length [simp]: "length (ring_put sz buf i bs) = length buf"
  by (induction bs arbitrary: buf i) auto

lemma next_index: "0 \<le> i \<Longrightarrow> i < int sz \<Longrightarrow> (if int sz \<le> i + 1 then 0 else i + 1) = (i + 1) mod int sz"
  by (cases "i + 1 = int sz") auto

lemma store_bytes:
  "length buf = sz \<Longrightarrow> 0 \<le> i \<Longrightarrow> i < int sz \<Longrightarrow>
    fold (store_byte sz) bs (Some buf, i) = (Some (ring_put sz buf i bs), (i + int (length bs)) mod int sz)"
proof (induction bs arbitrary: buf i)
  case (Cons b bs)
  then have "store_byte sz b (Some buf, i) = (Some (buf[nat i := b]), (i + 1) mod int sz)"
    using next_index [of i sz] by (auto simp: blk_set_def)
  with Cons.IH [of "buf[nat i := b]" "(i + 1) mod int sz"] Cons.prems show ?case
    by (simp add: mod_simps ac_simps)
qed simp

lemma ring_put_nth:
  "length buf = sz \<Longrightarrow> 0 \<le> i \<Longrightarrow> i < int sz \<Longrightarrow> length bs \<le> sz \<Longrightarrow> j < sz \<Longrightarrow>
    ring_put sz buf i bs ! j =
      (if (int j - i) mod int sz < int (length bs) then bs ! nat ((int j - i) mod int sz) else buf ! j)"
proof (induction bs arbitrary: buf i)
  case (Cons b bs)
  define d where "d = (int j - i) mod int sz"
  have sz: "0 < int sz" using Cons.prems by simp
  have d: "0 \<le> d" "d < int sz" using sz by (simp_all add: d_def)
  have eq: "(int j - (i + 1) mod int sz) mod int sz = (d - 1) mod int sz"
    unfolding d_def by (simp add: mod_diff_right_eq mod_diff_left_eq algebra_simps)
  have "ring_put sz buf i (b # bs) ! j =
      (if (d - 1) mod int sz < int (length bs) then bs ! nat ((d - 1) mod int sz) else buf[nat i := b] ! j)"
    using Cons.IH [of "buf[nat i := b]" "(i + 1) mod int sz"] Cons.prems sz eq by simp
  also have "\<dots> = (if d < int (length (b # bs)) then (b # bs) ! nat d else buf ! j)"
  proof (cases "d = 0")
    case True
    then have "int sz dvd int j - i" by (simp add: d_def dvd_eq_mod_eq_0)
    then have "int j = i"
      using Cons.prems dvd_imp_le_int [of "int j - i" "int sz"] by fastforce
    moreover have "(d - 1) mod int sz = int sz - 1"
      using True sz by (simp add: zmod_minus1)
    ultimately show ?thesis
      using True Cons.prems by auto
  next
    case False
    then have "(d - 1) mod int sz = d - 1" using d by simp
    moreover have "nat i \<noteq> j"
      using False Cons.prems by (auto simp: d_def)
    ultimately show ?thesis
      using False d by (auto simp: nth_Cons' nat_diff_distrib)
  qed
  finally show ?case by (simp add: d_def)
next
  case Nil
  then have "0 < int sz" by simp
  from pos_mod_sign [OF this] show ?case by (simp add: not_less [symmetric])
qed

lemma ring_index_less [simp]: "0 < sz \<Longrightarrow> ring_index sz i k < sz"
  by (simp add: ring_index_def nat_less_iff)

lemma ring_put_at:
  assumes "length buf = sz" "0 < sz" "length bs \<le> sz"
  shows "ring_put sz buf ((i + m) mod int sz) bs ! ring_index sz i k =
    (if (int k - m) mod int sz < int (length bs) then bs ! nat ((int k - m) mod int sz) else buf ! ring_index sz i k)"
proof -
  have "(int (ring_index sz i k) - (i + m) mod int sz) mod int sz = (int k - m) mod int sz"
    using assms by (simp add: ring_index_def mod_simps algebra_simps)
  with assms show ?thesis
    by (subst ring_put_nth) auto
qed

lemma ring_put_blit:
  assumes "length buf = sz" "i + length bs \<le> sz" "i < sz"
  shows "blit buf i bs = ring_put sz buf (int i) bs"
proof (rule nth_equalityI)
  show "length (blit buf i bs) = length (ring_put sz buf (int i) bs)"
    using assms by simp
  fix j assume "j < length (blit buf i bs)"
  then have j: "j < sz" using assms by simp
  have m: "(int j - int i) mod int sz = (if i \<le> j then int (j - i) else int sz - int (i - j))"
  proof (cases "i \<le> j")
    case False
    then have "(int j - int i + int sz) mod int sz = int j - int i + int sz"
      using assms j by (intro mod_pos_pos_trivial) auto
    with False show ?thesis by simp
  qed (use assms j in \<open>simp add: of_nat_diff\<close>)
  show "blit buf i bs ! j = ring_put sz buf (int i) bs ! j"
    using assms j m
    by (subst ring_put_nth) (auto simp: blit_def nth_append min_def nat_minus_as_int [THEN fun_cong, THEN fun_cong, symmetric])
qed

section \<open>The contents of the ring\<close>

definition ring_bytes :: "nat \<Rightarrow> byte list \<Rightarrow> int \<Rightarrow> int \<Rightarrow> byte list" where
  \<comment> \<open>the \<open>n\<close> bytes from offset \<open>w\<close> on\<close>
  "ring_bytes sz buf w n = map (\<lambda>k. buf ! ring_index sz w k) [0..<nat n]"

lemma ring_bytes_length [simp]: "length (ring_bytes sz buf w n) = nat n"
  by (simp add: ring_bytes_def)

lemma ring_bytes_0 [simp]: "ring_bytes sz buf w 0 = []"
  by (simp add: ring_bytes_def)

lemma ring_index_add: "ring_index sz ((w + int n) mod int sz) k = ring_index sz w (n + k)"
  by (simp add: ring_index_def mod_simps algebra_simps)

lemma ring_bytes_split:
  assumes "0 \<le> n" "n \<le> m"
  shows "ring_bytes sz buf w m = ring_bytes sz buf w n @ ring_bytes sz buf ((w + n) mod int sz) (m - n)"
proof -
  have "nat m = nat n + nat (m - n)"
    using assms by simp
  then have "[0..<nat m] = [0..<nat n] @ map (\<lambda>k. k + nat n) [0..<nat (m - n)]"
    using upt_add_eq_append [of 0 "nat n" "nat (m - n)"] map_add_upt [of "nat n" "nat (m - n)"] by (simp add: add.commute)
  then show ?thesis
    using ring_index_add [of sz w "nat n"] assms by (simp add: ring_bytes_def ac_simps)
qed

lemma ring_bytes_chunk:
  assumes "length buf = sz" "0 \<le> w" "0 \<le> n" "w + n \<le> int sz" "w < int sz"
  shows "ring_bytes sz buf w n = slice (nat w) (nat (w + n)) buf"
proof (rule nth_equalityI)
  show "length (ring_bytes sz buf w n) = length (slice (nat w) (nat (w + n)) buf)"
    using assms by (simp add: nat_add_distrib)
  fix k assume "k < length (ring_bytes sz buf w n)"
  then have k: "int k < n" by auto
  then have "ring_index sz w k = nat w + k"
    using assms by (simp add: ring_index_def nat_add_distrib)
  with k assms show "ring_bytes sz buf w n ! k = slice (nat w) (nat (w + n)) buf ! k"
    by (simp add: ring_bytes_def slice_def nat_add_distrib)
qed

lemma ring_bytes_put:
  assumes "length buf = sz" "0 \<le> n" "n + int (length bs) \<le> int sz" "0 < sz"
  shows "ring_bytes sz (ring_put sz buf ((w + n) mod int sz) bs) w (n + int (length bs)) = ring_bytes sz buf w n @ bs"
proof (rule nth_equalityI)
  show "length (ring_bytes sz (ring_put sz buf ((w + n) mod int sz) bs) w (n + int (length bs))) =
      length (ring_bytes sz buf w n @ bs)"
    using assms by (simp add: nat_add_distrib)
  fix k assume "k < length (ring_bytes sz (ring_put sz buf ((w + n) mod int sz) bs) w (n + int (length bs)))"
  then have k: "int k < n + int (length bs)" by auto
  have m: "(int k - n) mod int sz = (if n \<le> int k then int k - n else int k - n + int sz)"
  proof (cases "n \<le> int k")
    case False
    then have "(int k - n + int sz) mod int sz = int k - n + int sz"
      using assms k by (intro mod_pos_pos_trivial) auto
    with False show ?thesis by simp
  qed (use assms k in simp)
  show "ring_bytes sz (ring_put sz buf ((w + n) mod int sz) bs) w (n + int (length bs)) ! k =
      (ring_bytes sz buf w n @ bs) ! k"
    using assms k m ring_put_at [of buf sz bs w n k]
    by (auto simp: ring_bytes_def nth_append nat_diff_distrib)
qed

lemma ring_bytes_keep:
  assumes "length buf = sz" "0 \<le> n" "n + int (length bs) \<le> int sz" "0 < sz"
  shows "ring_bytes sz (ring_put sz buf ((w + n) mod int sz) bs) w n = ring_bytes sz buf w n"
proof -
  have "ring_bytes sz (ring_put sz buf ((w + n) mod int sz) bs) w (n + int (length bs)) =
      ring_bytes sz (ring_put sz buf ((w + n) mod int sz) bs) w n @
      ring_bytes sz (ring_put sz buf ((w + n) mod int sz) bs) ((w + n) mod int sz) (int (length bs))"
    using assms ring_bytes_split [of n "n + int (length bs)"] by simp
  then show ?thesis
    using ring_bytes_put [OF assms, of w] by (metis append_eq_append_conv ring_bytes_length)
qed

lemma ring_put_append:
  "0 \<le> i \<Longrightarrow> i < int sz \<Longrightarrow>
    ring_put sz buf i (xs @ ys) = ring_put sz (ring_put sz buf i xs) ((i + int (length xs)) mod int sz) ys"
proof (induction xs arbitrary: buf i)
  case (Cons x xs)
  from Cons.IH [of "(i + 1) mod int sz"] Cons.prems show ?case
    by (simp add: mod_simps ac_simps)
qed simp

lemma ring_put_one: "0 \<le> i \<Longrightarrow> blk_set buf (nat i) b = (if nat i < length buf then Some (ring_put sz buf i [b]) else None)"
  by (simp add: blk_set_def)

lemma be32_length: "length (be32 w) = 4"
  by (simp add: be32_def)

lemma store_reclen_ring:
  "length buf = sz \<Longrightarrow> 0 \<le> i \<Longrightarrow> i < int sz \<Longrightarrow>
    store_reclen buf sz i w = (Some (ring_put sz buf i (be32 w)), (i + 4) mod int sz)"
  by (simp add: store_reclen_def store_bytes be32_length)

end
