(* ===== verification/Saned_Rpc.thy ===== *)
theory Saned_Rpc
  imports Saned_Scan
begin

text \<open>
  The requests of the daemon, \<^verbatim>\<open>frontend/saned.c\<close>: the authorization callback
  (\<open>auth_callback\<close>), the handshake (\<open>init\<close>), \<open>start_scan\<close>, and \<open>process_request\<close> with one
  function per procedure.  An integer result is that of the C function, negative to end the
  connection.  \<open>V_MAJOR\<close> and \<open>V_MINOR\<close>, set by the build, are arguments of \<open>init\<close>; in
  \<open>process_request\<close> the scan is an argument, and \<open>saned_request\<close> closes the mutual recursion
  with \<open>do_scan\<close> up to a depth of nested scans.
\<close>

section \<open>Authorization\<close>

abbreviation (input) SANE_MAX_USERNAME_LEN :: nat where "SANE_MAX_USERNAME_LEN \<equiv> 128"
abbreviation (input) SANE_MAX_PASSWORD_LEN :: nat where "SANE_MAX_PASSWORD_LEN \<equiv> 128"

definition strcpy_from :: "byte list \<Rightarrow> c_string \<Rightarrow> byte list option" where
  \<comment> \<open>\<open>if (src) strcpy (dst, src);\<close>\<close>
  "strcpy_from dst src =
     (case src of None \<Rightarrow> Some dst | Some b \<Rightarrow> Option.bind (c_str b) (c_strcpy dst))"

definition auth_reply :: "sane_word \<Rightarrow> c_string \<Rightarrow> wire \<Rightarrow> wire \<times> unit" where
  \<comment> \<open>the reply that names the resource, in the form of the current request\<close>
  "auth_reply request res w =
     (if request = SANE_NET_OPEN then
        (fst (sanei_w_reply w sanei_w_open_reply \<lparr>orp_status = 0, orp_handle = 0, orp_resource = res\<rparr>), ())
      else if request = SANE_NET_CONTROL_OPTION then
        (fst (sanei_w_reply w sanei_w_control_option_reply
           \<lparr>cor_status = 0, cor_info = 0, cor_value_type = 0, cor_value_size = 0, cor_value = Ctl_Null, cor_resource = res\<rparr>), ())
      else if request = SANE_NET_START then
        (fst (sanei_w_reply w sanei_w_start_reply
           \<lparr>srp_status = 0, srp_port = 0, srp_byte_order = 0, srp_resource = res\<rparr>), ())
      else (w, ()))"

fun strcmp_in :: "byte list \<Rightarrow> byte list \<Rightarrow> bool" where
  \<comment> \<open>\<open>strcmp\<close> of two blocks stops before the end of either\<close>
  "strcmp_in (a # as) (b # bs) = (a \<noteq> b \<or> a = 0 \<or> strcmp_in as bs)"
| "strcmp_in _ _ = False"

definition resource_compared :: "c_string \<Rightarrow> c_string \<Rightarrow> bool" where
  \<comment> \<open>\<open>!req.resource || strcmp (req.resource, res) != 0\<close> reads only the two strings; the result of
      the comparison is only logged\<close>
  "resource_compared req res =
     (case req of
        None \<Rightarrow> True
      | Some a \<Rightarrow> (case res of None \<Rightarrow> False | Some b \<Rightarrow> strcmp_in a b))"

definition auth_answer :: "c_string \<Rightarrow> byte list \<Rightarrow> byte list \<Rightarrow> 'b saned \<Rightarrow> 'b saned \<times> byte list \<times> byte list" where
  \<comment> \<open>after the procedure number: decode the request, copy name and password, compare the resource
      with the one asked for, acknowledge\<close>
  "auth_answer res user pass s =
     (case on_wire (\<lambda>w. sanei_w_authorization_req w \<lparr>arq_resource = None, arq_username = None, arq_password = None\<rparr>) s of
        (s1, req) \<Rightarrow>
          if w_status (sd_wire s1) \<noteq> 0 then (s1, user, pass)
          else case (strcpy_from user (arq_username req), strcpy_from pass (arq_password req)) of
            (Some u, Some p) \<Rightarrow>
              (let s2 = (if resource_compared (arq_resource req) res then s1 else sd_fail s1)
               in case on_wire (\<lambda>w. sanei_w_free w sanei_w_authorization_req req) s2 of
                    (s3, _) \<Rightarrow> (fst (on_wire (\<lambda>w. sanei_w_reply w sanei_w_word 0) s3), u, p))
          | _ \<Rightarrow> (sd_fail s1, user, pass))"

definition auth_callback :: "'b saned \<Rightarrow> c_string \<Rightarrow> 'b saned \<times> byte list \<times> byte list" where
  \<comment> \<open>the result holds the buffers \<open>username\<close> and \<open>password\<close> of the caller\<close>
  "auth_callback s res =
     (let user = replicate SANE_MAX_USERNAME_LEN 0; pass = replicate SANE_MAX_PASSWORD_LEN 0
      in if \<not> sd_can_auth s then (s, user, pass)
         else if w_status (sd_wire s) \<noteq> 0 then (s, user, pass)
         else case on_wire (auth_reply (sd_request s) res) s of
           (s1, _) \<Rightarrow>
             if w_status (sd_wire s1) \<noteq> 0 then (s1, user, pass)
             else case on_wire (\<lambda>w. let w' = sanei_w_set_dir w WIRE_DECODE in sanei_w_word w' (w_junk w')) s1 of
               (s2, procnum) \<Rightarrow>
                 if w_status (sd_wire s2) \<noteq> 0 then (s2, user, pass)
                 else if procnum \<noteq> SANE_NET_AUTHORIZE then (s2, user, pass)
                 else auth_answer res user pass s2)"

primrec run_call :: "'r call \<Rightarrow> 'b saned \<Rightarrow> 'b saned \<times> 'r" where
  \<comment> \<open>an operation of the backend, with its calls of the callback\<close>
  "run_call (Ret r) = (\<lambda>s. (s, r))"
| "run_call (Auth res k) =
     (\<lambda>s. case auth_callback s res of (s1, u, p) \<Rightarrow> run_call (k (u, p)) s1)"

section \<open>The handshake\<close>

definition init_backend :: "'b backend \<Rightarrow> sane_word \<Rightarrow> 'b saned \<Rightarrow> 'b saned \<times> sane_word" where
  \<comment> \<open>\<open>sane_init\<close> and the check of the backend's major version\<close>
  "init_backend be v_major s =
     (case b_init be (sd_be s) of
        (b', status, version) \<Rightarrow>
          (s\<lparr>sd_be := b'\<rparr>, if sane_version_major version \<noteq> v_major then SANE_STATUS_INVAL else status))"

definition init :: "'b backend \<Rightarrow> net_env \<Rightarrow> sane_word \<Rightarrow> sane_word \<Rightarrow> 'b saned \<Rightarrow> 'b saned \<times> int" where
  "init be env v_major v_minor s0 =
     (case check_host env of
        (Verdict host_status flt, ip) \<Rightarrow>
          let s = s0\<lparr>sd_remote_ip := ip, sd_fault := sd_fault s0 \<or> flt\<rparr>
          in if host_status \<noteq> SANE_STATUS_GOOD then (s, - 1)
             else
               let s1 = s\<lparr>sd_wire := sanei_w_set_dir (sd_wire s) WIRE_DECODE\<rparr>
               in if w_status (sd_wire s1) \<noteq> 0 then (s1, - 1)
                  else case on_wire (\<lambda>w. sanei_w_word w (w_junk w)) s1 of
                    (s2, procnum) \<Rightarrow>
                      if w_status (sd_wire s2) \<noteq> 0 \<or> procnum \<noteq> SANE_NET_INIT then (s2, - 1)
                      else case on_wire (\<lambda>w. sanei_w_init_req w \<lparr>irq_version_code = 0, irq_username = None\<rparr>) s2 of
                        (s3, req) \<Rightarrow>
                          if w_status (sd_wire s3) \<noteq> 0 then (s3, - 1)
                          else
                            let s4 = s3\<lparr>sd_wire := (sd_wire s3)\<lparr>w_version := SANEI_NET_PROTOCOL_VERSION\<rparr>\<rparr>;
                                s5 = (case irq_username req of
                                        None \<Rightarrow> s4
                                      | Some b \<Rightarrow> (case c_str b of Some u \<Rightarrow> s4\<lparr>sd_user := u\<rparr> | None \<Rightarrow> sd_fail s4));
                                (s6, _) = on_wire (\<lambda>w. sanei_w_free w sanei_w_init_req req) s5
                            in if w_status (sd_wire s6) \<noteq> 0 then (s6, - 1)
                               else case init_backend be v_major s6 of
                                 (s7, status) \<Rightarrow>
                                   let code = (if status \<noteq> SANE_STATUS_GOOD then 0
                                               else sane_version_code v_major v_minor 3);
                                       (s8, _) = on_wire (\<lambda>w. sanei_w_reply w sanei_w_init_reply
                                         \<lparr>irp_status = status, irp_version_code = code\<rparr>) s7
                                   in (s8, if w_status (sd_wire s8) \<noteq> 0 \<or> status \<noteq> SANE_STATUS_GOOD then - 1 else 0))"

section \<open>Opening and closing\<close>

definition send_reply :: "(wire \<Rightarrow> 'a \<Rightarrow> wire \<times> 'a) \<Rightarrow> 'a \<Rightarrow> 'b saned \<Rightarrow> 'b saned" where
  "send_reply codec v s = fst (on_wire (\<lambda>w. sanei_w_reply w codec v) s)"

definition rpc_get_devices :: "'b backend \<Rightarrow> 'b saned \<Rightarrow> 'b saned \<times> int" where
  "rpc_get_devices be s =
     (case b_get_devices be (sd_be s) (\<not> sd_allow_net s) of
        (b', status, devs) \<Rightarrow>
          (send_reply sanei_w_get_devices_reply \<lparr>gdr_status = status, gdr_device_list = devs\<rparr> (s\<lparr>sd_be := b'\<rparr>), 0))"

definition default_resource :: "'b backend \<Rightarrow> 'b saned \<Rightarrow> 'b saned \<times> (sane_word + byte list)" where
  \<comment> \<open>for an empty name, the name of the first device, or the status to reply\<close>
  "default_resource be s =
     (case b_get_devices be (sd_be s) True of
        (b', status, devs) \<Rightarrow>
          let s1 = s\<lparr>sd_be := b'\<rparr>
          in if status \<noteq> SANE_STATUS_GOOD then (s1, Inl status)
             else case devs of
               None \<Rightarrow> (s1, Inl SANE_STATUS_INVAL)
             | Some l \<Rightarrow>
                 (case blk_get l 0 of
                    None \<Rightarrow> (sd_fail s1, Inl SANE_STATUS_INVAL)
                  | Some None \<Rightarrow> (s1, Inl SANE_STATUS_INVAL)
                  | Some (Some d) \<Rightarrow>
                      (case Option.bind (dev_name d) c_str of
                         Some name \<Rightarrow> (s1, Inr name)
                       | None \<Rightarrow> (sd_fail s1, Inl SANE_STATUS_INVAL))))"

definition open_reply_of :: "sane_word \<Rightarrow> sane_word \<Rightarrow> open_reply" where
  "open_reply_of status h = \<lparr>orp_status = status, orp_handle = h, orp_resource = None\<rparr>"

definition open_device :: "'b backend \<Rightarrow> byte list \<Rightarrow> byte list \<Rightarrow> 'b saned \<Rightarrow> ('b saned \<times> int) option" where
  \<comment> \<open>from the colon on the resource name is cut; then authorize, open, and find a handle\<close>
  "open_device be name resource s =
     (case run_call (b_authorize be (takeWhile (\<lambda>c. c \<noteq> 58) resource)) s of
        (s1, auth) \<Rightarrow>
          do {
            (s2, status, h) \<leftarrow>
              (if auth \<noteq> SANE_STATUS_GOOD then Some (s1, SANE_STATUS_ACCESS_DENIED, 0)
               else case run_call (b_open be (sd_be s1) (Some name)) s1 of
                 (s', b', status, bh) \<Rightarrow>
                   let s2 = s'\<lparr>sd_be := b'\<rparr>
                   in if status \<noteq> SANE_STATUS_GOOD then Some (s2, status, 0)
                      else do {
                        (s3, h) \<leftarrow> get_free_handle s2;
                        Some (if sint h < 0 then (s3, SANE_STATUS_NO_MEM, 0)
                              else (set_slot s3 (sint h) (\<lambda>x. x\<lparr>hs_handle := bh\<rparr>), SANE_STATUS_GOOD, h))
                      });
            let s3 = send_reply sanei_w_open_reply (open_reply_of status h) (s2\<lparr>sd_can_auth := False\<rparr>);
            Some (fst (on_wire (\<lambda>w. sanei_w_free w sanei_w_string (Some name)) s3), 0)
          })"

definition rpc_open :: "'b backend \<Rightarrow> 'b saned \<Rightarrow> ('b saned \<times> int) option" where
  \<comment> \<open>without a name the reply is sent with its other fields uninitialised\<close>
  "rpc_open be s =
     (case on_wire (\<lambda>w. sanei_w_string w None) s of
        (s1, name) \<Rightarrow>
          if w_status (sd_wire s1) \<noteq> 0 then Some (s1, 1)
          else case name of
            None \<Rightarrow> Some (sd_fail (send_reply sanei_w_open_reply (open_reply_of SANE_STATUS_INVAL 0) s1), 1)
          | Some b \<Rightarrow>
              let s2 = s1\<lparr>sd_can_auth := True\<rparr>
              in case c_str b of
                   None \<Rightarrow> Some (sd_fail s2, 1)
                 | Some cs \<Rightarrow>
                     if cs = [] then
                       (case default_resource be s2 of
                          (s3, Inl status) \<Rightarrow> Some (send_reply sanei_w_open_reply (open_reply_of status 0) s3, 0)
                        | (s3, Inr resource) \<Rightarrow> open_device be b resource s3)
                     else open_device be b cs s2)"

definition rpc_close :: "'b backend \<Rightarrow> 'b saned \<Rightarrow> 'b saned \<times> int" where
  "rpc_close be s =
     (case decode_handle s of
        (s1, h) \<Rightarrow> (send_reply sanei_w_word 0 (close_handle be s1 h), 0))"

section \<open>Options and parameters\<close>

definition rpc_descriptors :: "'b backend \<Rightarrow> 'b saned \<Rightarrow> 'b saned \<times> int" where
  "rpc_descriptors be s =
     (case decode_handle s of
        (s1, h) \<Rightarrow>
          if sint h < 0 then (s1, 1)
          else case get_slot s1 (sint h) of
            None \<Rightarrow> (sd_fail s1, 1)
          | Some x \<Rightarrow>
              (case run_call (b_control be (sd_be s1) (hs_handle x) 0 SANE_ACTION_GET_VALUE
                       (Ctl_Words [w_junk (sd_wire s1)])) s1 of
                 (s2, b', _, v, _) \<Rightarrow>
                   let num = (case v of Ctl_Words (n # _) \<Rightarrow> n | _ \<Rightarrow> w_junk (sd_wire s2));
                       (s3, ok) = sd_malloc (s2\<lparr>sd_be := b'\<rparr>)
                   in if \<not> ok \<and> 0 < sint num then (sd_fail s3, 1)
                      else (send_reply sanei_w_option_descriptor_array
                              \<lparr>oda_num_options = num,
                               oda_desc = Some (map (b_descriptor be (sd_be s3) (hs_handle x)) [0..<nat (sint num)])\<rparr> s3, 0)))"

definition enlarge_value :: "control_option_req \<Rightarrow> 'b saned \<Rightarrow> ('b saned \<times> control_option_req) option" where
  \<comment> \<open>a string to be read gets a zeroed buffer of the requested size; \<open>None\<close>: no memory.  A
      \<open>char\<close> buffer of which the peer sent no terminator is read past its end by \<open>strlen\<close>\<close>
  "enlarge_value req s =
     (if w_direction (sd_wire s) = WIRE_DECODE \<and> coq_value_type req = SANE_TYPE_STRING \<and>
         coq_action req = SANE_ACTION_GET_VALUE
      then
        (let s1 = (case coq_value req of
                     Ctl_Chars b \<Rightarrow>
                       (case c_strlen b of
                          Some n \<Rightarrow> s\<lparr>sd_wire := (sd_wire s)\<lparr>w_allocated := w_allocated (sd_wire s) - word_of_nat (1 + n)\<rparr>\<rparr>
                        | None \<Rightarrow> sd_fail s)
                   | _ \<Rightarrow> s);
             (s2, ok) = sd_malloc s1
         in if \<not> ok \<or> sint (coq_value_size req) < 0 then None
            else Some (s2\<lparr>sd_wire := (sd_wire s2)\<lparr>w_allocated := w_allocated (sd_wire s2) + coq_value_size req\<rparr>\<rparr>,
                       req\<lparr>coq_value := Ctl_Chars (replicate (unat (coq_value_size req)) 0)\<rparr>))
      else Some (s, req))"

definition junk_request :: "wire \<Rightarrow> control_option_req" where
  \<comment> \<open>the uninitialised request; what its value pointer holds counts as null\<close>
  "junk_request w = \<lparr>coq_handle = w_junk w, coq_option = w_junk w, coq_action = w_junk w,
     coq_value_type = w_junk w, coq_value_size = w_junk w, coq_value = Ctl_Null\<rparr>"

definition rpc_control :: "'b backend \<Rightarrow> 'b saned \<Rightarrow> 'b saned \<times> int" where
  "rpc_control be s =
     (case on_wire (\<lambda>w. sanei_w_control_option_req w (junk_request w)) s of
        (s1, req) \<Rightarrow>
          if w_status (sd_wire s1) \<noteq> 0 \<or> (word_of_int (sd_num s1) :: sane_word) \<le> coq_handle req then (s1, 1)
          else case get_slot s1 (uint (coq_handle req)) of
            None \<Rightarrow> (sd_fail s1, 1)
          | Some x \<Rightarrow>
              if \<not> hs_inuse x then (s1, 1)
              else case enlarge_value req s1 of
                None \<Rightarrow> (s1\<lparr>sd_wire := (sd_wire s1)\<lparr>w_status := ENOMEM\<rparr>\<rparr>, 1)
              | Some (s2, req2) \<Rightarrow>
                  (case run_call (b_control be (sd_be s2) (hs_handle x) (coq_option req2) (coq_action req2)
                           (coq_value req2)) (s2\<lparr>sd_can_auth := True\<rparr>) of
                     (s3, b', status, v, info) \<Rightarrow>
                       let s4 = s3\<lparr>sd_be := b', sd_can_auth := False\<rparr>;
                           s5 = send_reply sanei_w_control_option_reply
                                  \<lparr>cor_status = status, cor_info = info, cor_value_type = coq_value_type req2,
                                   cor_value_size = coq_value_size req2, cor_value = v, cor_resource = None\<rparr> s4
                       in (fst (on_wire (\<lambda>w. sanei_w_free w sanei_w_control_option_req (req2\<lparr>coq_value := v\<rparr>)) s5), 0)))"

definition rpc_params :: "'b backend \<Rightarrow> 'b saned \<Rightarrow> 'b saned \<times> int" where
  "rpc_params be s =
     (case decode_handle s of
        (s1, h) \<Rightarrow>
          if sint h < 0 then (s1, 1)
          else case get_slot s1 (sint h) of
            None \<Rightarrow> (sd_fail s1, 1)
          | Some x \<Rightarrow>
              (case b_params be (sd_be s1) (hs_handle x) of
                 (b', status, p) \<Rightarrow>
                   (send_reply sanei_w_get_parameters_reply \<lparr>gpr_status = status, gpr_params = p\<rparr> (s1\<lparr>sd_be := b'\<rparr>), 0)))"

section \<open>Scanning\<close>

partial_function (option) bind_loop :: "(16 word \<Rightarrow> bool) \<Rightarrow> 16 word \<Rightarrow> 16 word \<Rightarrow> bool option" where
  \<comment> \<open>\<open>for (data_port = lo; data_port <= hi; data_port++)\<close> until a \<open>bind\<close> succeeds\<close>
  "bind_loop bind_ok port hi =
     (if port \<le> hi then (if bind_ok port then Some True else bind_loop bind_ok (port + 1) hi) else Some False)"

definition start_failed :: "start_reply \<Rightarrow> start_reply" where
  "start_failed reply = reply\<lparr>srp_status := SANE_STATUS_IO_ERROR\<rparr>"

definition start_scan ::
  "'b backend \<Rightarrow> scan_net \<Rightarrow> sane_word \<Rightarrow> start_reply \<Rightarrow> 'b saned \<Rightarrow> ('b saned \<times> start_reply \<times> bool) option"
where
  \<comment> \<open>the result says whether there is a listening socket\<close>
  "start_scan be net h reply s =
     (case get_slot s (sint h) of
        None \<Rightarrow> Some (sd_fail s, reply, False)
      | Some x \<Rightarrow>
          if \<not> sn_sockname net \<or> \<not> sn_socket net then Some (s, start_failed reply, False)
          else do {
            bound \<leftarrow> bind_loop (sn_bind net) (sd_port_lo s) (sd_port_hi s);
            (if \<not> bound \<or> \<not> sn_listen net then Some (s, start_failed reply, False)
             else case sn_port net of
               None \<Rightarrow> Some (s, start_failed reply, False)
             | Some port \<Rightarrow>
                 (case run_call (b_start be (sd_be s) (hs_handle x)) s of
                    (s1, b', status) \<Rightarrow>
                      let s2 = s1\<lparr>sd_be := b'\<rparr>;
                          s3 = (if status = SANE_STATUS_GOOD
                                then set_slot s2 (sint h) (\<lambda>y. y\<lparr>hs_scanning := True, hs_docancel := False\<rparr>) else s2)
                      in Some (s3, reply\<lparr>srp_port := ucast port, srp_status := status\<rparr>, True)))
          })"

definition no_net :: scan_net where
  \<comment> \<open>a system on which nothing succeeds, for a script that has ended\<close>
  "no_net = \<lparr>sn_sockname = False, sn_socket = False, sn_bind = (\<lambda>_. False), sn_listen = False, sn_port = None,
     sn_poll = False, sn_accept = False, sn_peer = None, sn_events = []\<rparr>"

definition next_net :: "'b saned \<Rightarrow> 'b saned \<times> scan_net" where
  "next_net s = (case sd_scans s of [] \<Rightarrow> (s, no_net) | n # ns \<Rightarrow> (s\<lparr>sd_scans := ns\<rparr>, n))"

definition data_connection ::
  "('b saned \<Rightarrow> sane_word \<Rightarrow> sel_event list \<Rightarrow> 'b saned option) \<Rightarrow> 'b backend \<Rightarrow> scan_net \<Rightarrow> sane_word \<Rightarrow> 'b saned
     \<Rightarrow> ('b saned \<times> int) option"
where
  \<comment> \<open>accept the data connection, only from the authorized host, and scan\<close>
  "data_connection scan be net h s =
     (let accepted = sn_poll net \<and> sn_accept net
      in case (if accepted then sn_peer net else None) of
           None \<Rightarrow> Some (s, 1)
         | Some None \<Rightarrow> Some (s, 1)
         | Some (Some addr) \<Rightarrow>
             if addr \<noteq> sd_remote_ip s then Some (s, - 1)
             else do { s1 \<leftarrow> scan s h (sn_events net); Some (s1, 0) })"

definition rpc_start ::
  "('b saned \<Rightarrow> sane_word \<Rightarrow> sel_event list \<Rightarrow> 'b saned option) \<Rightarrow> 'b backend \<Rightarrow> 'b saned \<Rightarrow> ('b saned \<times> int) option"
where
  "rpc_start scan be s =
     (case decode_handle s of
        (s1, h) \<Rightarrow>
          if sint h < 0 then Some (s1, 1)
          else
            let reply = \<lparr>srp_status = 0, srp_port = 0, srp_byte_order = (if sd_little s1 then 0x1234 else 0x4321),
                         srp_resource = None\<rparr>
            in case get_slot s1 (sint h) of
                 None \<Rightarrow> Some (sd_fail s1, 1)
               | Some x \<Rightarrow>
                   do {
                     (s2, reply2, net) \<leftarrow>
                       (if hs_scanning x then Some (s1, reply\<lparr>srp_status := SANE_STATUS_DEVICE_BUSY\<rparr>, no_net)
                        else case next_net s1 of
                          (s', net) \<Rightarrow> do { (s2, r, _) \<leftarrow> start_scan be net h reply s'; Some (s2, r, net) });
                     let s3 = send_reply sanei_w_start_reply reply2 s2;
                     (if srp_status reply2 = SANE_STATUS_GOOD then data_connection scan be net h s3
                      else Some (s3, 0))
                   })"

definition rpc_cancel :: "'b backend \<Rightarrow> 'b saned \<Rightarrow> 'b saned \<times> int" where
  "rpc_cancel be s =
     (case decode_handle s of
        (s1, h) \<Rightarrow>
          let s2 = (if 0 \<le> sint h then
                      (case get_slot s1 (sint h) of
                         None \<Rightarrow> sd_fail s1
                       | Some x \<Rightarrow> set_slot (s1\<lparr>sd_be := b_cancel be (sd_be s1) (hs_handle x)\<rparr>) (sint h)
                                     (\<lambda>y. y\<lparr>hs_docancel := True\<rparr>))
                    else s1)
          in (send_reply sanei_w_word 0 s2, 0))"

section \<open>The dispatcher\<close>

definition process_request ::
  "('b saned \<Rightarrow> sane_word \<Rightarrow> sel_event list \<Rightarrow> 'b saned option) \<Rightarrow> 'b backend \<Rightarrow> 'b saned \<Rightarrow> ('b saned \<times> int) option"
where
  "process_request scan be s0 =
     (case on_wire (\<lambda>w. let w' = sanei_w_set_dir w WIRE_DECODE in sanei_w_word w' (w_junk w')) s0 of
        (s1, word) \<Rightarrow>
          if w_status (sd_wire s1) \<noteq> 0 then Some (s1, - 1)
          else
            let s = s1\<lparr>sd_request := word\<rparr>
            in if word = SANE_NET_GET_DEVICES then Some (rpc_get_devices be s)
               else if word = SANE_NET_OPEN then rpc_open be s
               else if word = SANE_NET_CLOSE then Some (rpc_close be s)
               else if word = SANE_NET_GET_OPTION_DESCRIPTORS then Some (rpc_descriptors be s)
               else if word = SANE_NET_CONTROL_OPTION then Some (rpc_control be s)
               else if word = SANE_NET_GET_PARAMETERS then Some (rpc_params be s)
               else if word = SANE_NET_START then rpc_start scan be s
               else if word = SANE_NET_CANCEL then Some (rpc_cancel be s)
               else Some (s, - 1))"

fun saned_request :: "nat \<Rightarrow> 'b backend \<Rightarrow> 'b saned \<Rightarrow> ('b saned \<times> int) option" where
  \<comment> \<open>scans nested in scans up to the given depth; a deeper one counts as not returning\<close>
  "saned_request 0 be = process_request (\<lambda>s h evs. None) be"
| "saned_request (Suc n) be = process_request (\<lambda>s h evs. do_scan (saned_request n be) be s h evs) be"

partial_function (option) serve :: "nat \<Rightarrow> 'b backend \<Rightarrow> 'b saned \<Rightarrow> 'b saned option" where
  \<comment> \<open>the loop of \<open>handle_connection\<close>\<close>
  "serve depth be s =
     do {
       (s1, r) \<leftarrow> saned_request depth be s;
       (if r < 0 then Some s1 else serve depth be s1)
     }"

definition handle_connection ::
  "nat \<Rightarrow> 'b backend \<Rightarrow> net_env \<Rightarrow> sane_word \<Rightarrow> sane_word \<Rightarrow> 'b saned \<Rightarrow> 'b saned option"
where
  "handle_connection depth be env v_major v_minor s =
     (case init be env v_major v_minor s of
        (s1, r) \<Rightarrow> if r < 0 then Some s1 else serve depth be s1)"

end
