(* ===== verification/Wire_Laws.thy ===== *)
theory Wire_Laws
  imports Wire_Array
begin

text \<open>
  The laws of the binary wire: what \<open>sanei_w_space\<close> does to the byte streams that a wire has
  written and will still read, the contract \<open>enc_ok\<close>/\<open>dec_ok\<close>/\<open>free_ok\<close> of a codec function with
  its sequencing rules, and the contract for bytes and words, the scalars everything else is
  made of.  The last section collects the arithmetic of array lengths on 32-bit words.
\<close>

unbundle bit_operations_syntax

section \<open>The byte streams of a wire\<close>

fun avail :: "read_ev list \<Rightarrow> byte list" where
  \<comment> \<open>the bytes the peer delivers before the end of the stream or an error\<close>
  "avail [] = []"
| "avail (RError e # evs) = []"
| "avail (RData bs # evs) = (if bs = [] then [] else bs @ avail evs)"

fun writes_ok :: "write_ev list \<Rightarrow> bool" where
  "writes_ok [] = True"
| "writes_ok (WError e # evs) = False"
| "writes_ok (WAccept k # evs) = writes_ok evs"

definition in_stream :: "wire \<Rightarrow> byte list" where
  "in_stream w = slice (w_curr w) (w_end w) (w_mem w) @ avail (w_rd w)"

definition out_stream :: "wire \<Rightarrow> byte list" where
  "out_stream w = w_sent w @ take (w_curr w) (w_mem w)"

definition buf_ok :: "wire \<Rightarrow> bool" where
  \<comment> \<open>the buffer invariant: the offsets stay in order and inside the allocated block, which
      holds the largest item the binary codec asks room for\<close>
  "buf_ok w \<longleftrightarrow> w_codec w = Codec_Bin \<and> length (w_mem w) = w_size w \<and> 4 \<le> w_size w \<and>
     w_curr w \<le> w_end w \<and> w_end w \<le> w_size w \<and> \<not> w_fault w"

type_synonym enc_frame = "sane_word \<times> read_ev list \<times> bool list"

definition enc_frame_of :: "wire \<Rightarrow> enc_frame" where
  \<comment> \<open>what encoding leaves alone: the account, the input, the allocator\<close>
  "enc_frame_of w = (w_allocated w, w_rd w, w_malloc w)"

definition enc_at :: "wire \<Rightarrow> int \<Rightarrow> enc_frame \<Rightarrow> byte list \<Rightarrow> bool" where
  "enc_at w ver al out \<longleftrightarrow> buf_ok w \<and> w_direction w = WIRE_ENCODE \<and> w_status w = 0 \<and>
     w_end w = w_size w \<and> writes_ok (w_wr w) \<and> w_version w = ver \<and> enc_frame_of w = al \<and>
     out_stream w = out"

definition dec_at :: "wire \<Rightarrow> int \<Rightarrow> sane_word \<Rightarrow> byte list \<Rightarrow> bool" where
  "dec_at w ver al inp \<longleftrightarrow> buf_ok w \<and> w_direction w = WIRE_DECODE \<and> w_status w = 0 \<and>
     list_all (\<lambda>b. b) (w_malloc w) \<and> w_version w = ver \<and> w_allocated w = al \<and>
     in_stream w = inp"

lemma io_read_avail:
  assumes "0 < n" "avail evs \<noteq> []"
  shows "\<exists>bs evs'. io_read n evs = (Inr bs, evs') \<and> bs \<noteq> [] \<and> length bs \<le> n \<and> avail evs = bs @ avail evs'"
  using assms by (cases evs rule: avail.cases) (auto split: if_splits)

lemma io_read_length: "io_read n evs = (Inr bs, evs') \<Longrightarrow> length bs \<le> n"
  by (cases "(n, evs)" rule: io_read.cases) (auto split: if_splits)

lemma io_recv_enough:
  "howmuch \<le> sz \<Longrightarrow> length got < howmuch \<Longrightarrow> howmuch \<le> length (got @ avail evs) \<Longrightarrow>
    \<exists>evs' got'. io_recv sz howmuch evs got = (None, evs', got') \<and> got' @ avail evs' = got @ avail evs \<and>
      howmuch \<le> length got' \<and> length got' \<le> sz"
proof (induction sz howmuch evs got rule: io_recv.induct)
  case (1 sz howmuch evs got)
  from "1.prems" have "0 < sz - length got" "avail evs \<noteq> []" by auto
  then obtain bs evs' where rd: "io_read (sz - length got) evs = (Inr bs, evs')" "bs \<noteq> []"
    "length bs \<le> sz - length got" "avail evs = bs @ avail evs'"
    using io_read_avail by blast
  show ?case
  proof (cases "length (got @ bs) < howmuch")
    case True
    with "1.IH" [OF rd(1) [symmetric] refl rd(2) True] "1.prems" rd show ?thesis
      by (subst io_recv.simps) auto
  next
    case False
    with rd "1.prems" show ?thesis
      by (subst io_recv.simps) auto
  qed
qed

lemma io_recv_length:
  "length got \<le> sz \<Longrightarrow> io_recv sz howmuch evs got = (err, evs', got') \<Longrightarrow>
    length got \<le> length got' \<and> length got' \<le> sz \<and> (err = None \<longrightarrow> howmuch \<le> length got')"
proof (induction sz howmuch evs got rule: io_recv.induct)
  case (1 sz howmuch evs got)
  show ?case
  proof (cases "io_read (sz - length got) evs")
    case (Pair r evs1)
    show ?thesis
    proof (cases r)
      case (Inl e)
      with Pair 1 show ?thesis by (subst (asm) (2) io_recv.simps) auto
    next
      case (Inr bs)
      with Pair have "length bs \<le> sz - length got" by (auto dest: io_read_length)
      with Pair Inr 1 show ?thesis
        by (subst (asm) (2) io_recv.simps) (fastforce split: if_splits)
    qed
  qed
qed

lemma io_send_all:
  "writes_ok evs \<Longrightarrow> \<exists>evs'. io_send evs bs n = (None, n + length bs, evs') \<and> writes_ok evs'"
  by (induction evs bs n rule: io_send.induct) (auto simp: min_def)

lemma io_send_le: "io_send evs bs n = (err, m, evs') \<Longrightarrow> n \<le> m \<and> m \<le> n + length bs"
  by (induction evs bs n rule: io_send.induct) (auto simp: min_def split: if_splits)

section \<open>sanei_w_space\<close>

lemma space_enc:
  assumes "enc_at w ver al out" "n \<le> 4"
  shows "enc_at (sanei_w_space w n) ver al out" "w_curr (sanei_w_space w n) + n \<le> w_size (sanei_w_space w n)"
proof -
  obtain evs where s: "io_send (w_wr w) (take (w_curr w) (w_mem w)) 0 = (None, w_curr w, evs)" "writes_ok evs"
    using io_send_all [of "w_wr w" "take (w_curr w) (w_mem w)" 0] assms
    by (auto simp: enc_at_def buf_ok_def min_def)
  have "enc_at (sanei_w_space w n) ver al out \<and> w_curr (sanei_w_space w n) + n \<le> w_size (sanei_w_space w n)"
    using assms s
    by (auto simp: enc_at_def buf_ok_def sanei_w_space_def space_encode_def Let_def out_stream_def enc_frame_of_def)
  then show "enc_at (sanei_w_space w n) ver al out" "w_curr (sanei_w_space w n) + n \<le> w_size (sanei_w_space w n)"
    by simp_all
qed

lemma space_dec:
  assumes d: "dec_at w ver al inp" and n: "n \<le> 4" "n \<le> length inp"
  shows "dec_at (sanei_w_space w n) ver al inp \<and> w_curr (sanei_w_space w n) + n \<le> w_end (sanei_w_space w n)"
proof (cases "w_end w < w_curr w + n")
  case False
  with d show ?thesis by (simp add: sanei_w_space_def)
next
  case True
  let ?got = "slice (w_curr w) (w_end w) (w_mem w)"
  have lg: "length ?got = w_end w - w_curr w"
    using d by (simp add: dec_at_def buf_ok_def)
  have "\<exists>evs' got'. io_recv (w_size w) n (w_rd w) ?got = (None, evs', got') \<and>
      got' @ avail evs' = ?got @ avail (w_rd w) \<and> n \<le> length got' \<and> length got' \<le> w_size w"
    using d n True lg by (intro io_recv_enough) (auto simp: dec_at_def buf_ok_def in_stream_def)
  then obtain evs' got' where r: "io_recv (w_size w) n (w_rd w) ?got = (None, evs', got')"
      "got' @ avail evs' = ?got @ avail (w_rd w)" "n \<le> length got'" "length got' \<le> w_size w"
    by blast
  have "sanei_w_space w n = w\<lparr>w_mem := blit (w_mem w) 0 got', w_curr := 0, w_end := length got', w_rd := evs'\<rparr>"
    using d True r by (auto simp: sanei_w_space_def space_decode_def dec_at_def buf_ok_def)
  moreover have "slice 0 (length got') (blit (w_mem w) 0 got') = got'"
    by (simp add: slice_def blit_def)
  ultimately show ?thesis
    using d r by (simp add: dec_at_def buf_ok_def in_stream_def)
qed

section \<open>The codec contract\<close>

text \<open>
  What a codec function of the binary wire promises for a value \<open>v\<close>: encoding appends the
  bytes \<open>bs\<close> to the stream; decoding these bytes, however they arrive, yields \<open>v\<close> and
  charges \<open>m\<close> bytes to the wire's account, provided they fit; freeing gives them back.
\<close>

definition enc_ok :: "int \<Rightarrow> (wire \<Rightarrow> 'a \<Rightarrow> wire \<times> 'a) \<Rightarrow> 'a \<Rightarrow> byte list \<Rightarrow> bool" where
  "enc_ok ver f v bs \<longleftrightarrow> (\<forall>w al out. enc_at w ver al out \<longrightarrow>
     (\<exists>w'. f w v = (w', v) \<and> enc_at w' ver al (out @ bs)))"

definition dec_ok :: "int \<Rightarrow> (wire \<Rightarrow> 'a \<Rightarrow> wire \<times> 'a) \<Rightarrow> 'a \<Rightarrow> 'a \<Rightarrow> byte list \<Rightarrow> nat \<Rightarrow> bool" where
  "dec_ok ver f v0 v bs m \<longleftrightarrow> (\<forall>w al rest. dec_at w ver al (bs @ rest) \<longrightarrow> unat al + m \<le> MAX_MEM \<longrightarrow>
     (\<exists>w'. f w v0 = (w', v) \<and> dec_at w' ver (al + word_of_nat m) rest))"

definition free_ok :: "int \<Rightarrow> (wire \<Rightarrow> 'a \<Rightarrow> wire \<times> 'a) \<Rightarrow> 'a \<Rightarrow> nat \<Rightarrow> bool" where
  "free_ok ver f v m \<longleftrightarrow> (\<forall>w. w_direction w = WIRE_FREE \<longrightarrow> w_codec w = Codec_Bin \<longrightarrow> w_version w = ver \<longrightarrow>
     f w v = (w\<lparr>w_allocated := w_allocated w - word_of_nat m\<rparr>, v))"

lemma unat_add_le_MAX:
  "unat (al :: sane_word) + m \<le> MAX_MEM \<Longrightarrow> unat (al + word_of_nat m) = unat al + m"
proof -
  assume a: "unat al + m \<le> MAX_MEM"
  then have "unat (word_of_nat m :: sane_word) = m"
    by (simp add: unat_of_nat take_bit_nat_eq_self)
  with a show ?thesis
    by (subst unat_word_ariths) simp
qed

text \<open>Sequencing: what remains of the input and of the account after one field.\<close>

lemma enc_bind:
  assumes "enc_ok ver f v bs" "enc_at w ver al out"
    and "\<And>w1. enc_at w1 ver al (out @ bs) \<Longrightarrow> \<exists>w'. k w1 v = (w', r) \<and> enc_at w' ver al ((out @ bs) @ bs')"
  shows "\<exists>w'. (case f w v of (w1, x) \<Rightarrow> k w1 x) = (w', r) \<and> enc_at w' ver al (out @ (bs @ bs'))"
  using assms unfolding enc_ok_def by fastforce

lemma enc_bind_last:
  assumes "enc_ok ver f v bs" "enc_at w ver al out"
    and "\<And>w1. enc_at w1 ver al (out @ bs) \<Longrightarrow> \<exists>w'. k w1 v = (w', r) \<and> enc_at w' ver al (out @ bs)"
  shows "\<exists>w'. (case f w v of (w1, x) \<Rightarrow> k w1 x) = (w', r) \<and> enc_at w' ver al (out @ bs)"
  using assms unfolding enc_ok_def by fastforce

lemma dec_bind:
  assumes "dec_ok ver f v0 v bs m" "dec_at w ver al (bs @ rest)" "unat al + (m + m') \<le> MAX_MEM"
    and "\<And>w1 al1. dec_at w1 ver al1 rest \<Longrightarrow> unat al1 + m' \<le> MAX_MEM \<Longrightarrow>
       \<exists>w'. k w1 v = (w', r) \<and> dec_at w' ver (al1 + word_of_nat m') rest'"
  shows "\<exists>w'. (case f w v0 of (w1, x) \<Rightarrow> k w1 x) = (w', r) \<and> dec_at w' ver (al + word_of_nat (m + m')) rest'"
proof -
  from assms(1,2,3) obtain w1 where w1: "f w v0 = (w1, v)" "dec_at w1 ver (al + word_of_nat m) rest"
    unfolding dec_ok_def by fastforce
  have "unat (al + word_of_nat m) + m' \<le> MAX_MEM"
    using assms(3) by (subst unat_add_le_MAX) auto
  from assms(4) [OF w1(2) this] w1(1) show ?thesis
    by (auto simp: add.assoc)
qed

lemma dec_bind0:
  assumes "dec_ok ver f v0 v bs 0" "dec_at w ver al (bs @ rest)" "unat al + m' \<le> MAX_MEM"
    and "\<And>w1 al1. dec_at w1 ver al1 rest \<Longrightarrow> unat al1 + m' \<le> MAX_MEM \<Longrightarrow>
       \<exists>w'. k w1 v = (w', r) \<and> dec_at w' ver (al1 + word_of_nat m') rest'"
  shows "\<exists>w'. (case f w v0 of (w1, x) \<Rightarrow> k w1 x) = (w', r) \<and> dec_at w' ver (al + word_of_nat m') rest'"
  using dec_bind [of ver f v0 v bs 0 w al rest m' k r rest'] assms by simp

lemma dec_bind_last:
  assumes "dec_ok ver f v0 v bs m" "dec_at w ver al (bs @ rest)" "unat al + m \<le> MAX_MEM"
    and "\<And>w1. dec_at w1 ver (al + word_of_nat m) rest \<Longrightarrow> k w1 v = (w1, r)"
  shows "\<exists>w'. (case f w v0 of (w1, x) \<Rightarrow> k w1 x) = (w', r) \<and> dec_at w' ver (al + word_of_nat m) rest"
  using assms unfolding dec_ok_def by fastforce

lemma free_bind:
  "free_ok ver f v m \<Longrightarrow> w_direction w = WIRE_FREE \<Longrightarrow> w_codec w = Codec_Bin \<Longrightarrow> w_version w = ver \<Longrightarrow>
    (case f w v of (w1, x) \<Rightarrow> k w1 x) = k (w\<lparr>w_allocated := w_allocated w - word_of_nat m\<rparr>) v"
  by (simp add: free_ok_def)

lemma free_at:
  "free_ok ver f v m \<Longrightarrow> w_direction w = WIRE_FREE \<Longrightarrow> w_codec w = Codec_Bin \<Longrightarrow> w_version w = ver \<Longrightarrow>
    f w v = (w\<lparr>w_allocated := w_allocated w - word_of_nat m\<rparr>, v)"
  by (simp add: free_ok_def)

section \<open>Bytes and words\<close>

lemma wput_enc:
  "enc_at w ver al out \<Longrightarrow> w_curr w < w_size w \<Longrightarrow>
    enc_at (wput b w) ver al (out @ [b]) \<and> w_curr (wput b w) = Suc (w_curr w) \<and> w_size (wput b w) = w_size w"
  by (auto simp: enc_at_def buf_ok_def wput_def blk_set_def out_stream_def take_Suc_conv_app_nth enc_frame_of_def)

lemma wputs_enc:
  "enc_at w ver al out \<Longrightarrow> w_curr w + length bs \<le> w_size w \<Longrightarrow> enc_at (wputs bs w) ver al (out @ bs)"
proof (induction bs arbitrary: w out)
  case (Cons b bs)
  then have "enc_at (wput b w) ver al (out @ [b])" "w_curr (wput b w) = Suc (w_curr w)" "w_size (wput b w) = w_size w"
    using wput_enc [of w ver al out b] by auto
  with Cons have "enc_at (wputs bs (wput b w)) ver al ((out @ [b]) @ bs)"
    by (intro Cons.IH) auto
  then show ?case by (simp add: wputs_def)
qed (simp add: wputs_def)

lemma wget_dec:
  assumes "dec_at w ver al (b # rest)" "w_curr w < w_end w"
  shows "wget w = (wskip w, b)" "dec_at (wskip w) ver al rest" "w_end (wskip w) = w_end w"
    "w_curr (wskip w) = Suc (w_curr w)"
proof -
  have "in_stream w = w_mem w ! w_curr w # slice (Suc (w_curr w)) (w_end w) (w_mem w) @ avail (w_rd w)"
    using assms by (simp add: in_stream_def slice_Suc dec_at_def buf_ok_def)
  with assms have "w_mem w ! w_curr w = b" "in_stream (wskip w) = rest"
    by (auto simp: dec_at_def in_stream_def wskip_def)
  with assms show "wget w = (wskip w, b)" "dec_at (wskip w) ver al rest" "w_end (wskip w) = w_end w"
    "w_curr (wskip w) = Suc (w_curr w)"
    by (auto simp: wget_def wpeek_def blk_get_def dec_at_def buf_ok_def wskip_def)
qed

lemma enc_at_status: "enc_at w ver al out \<Longrightarrow> w_status w = 0 \<and> w_direction w = WIRE_ENCODE \<and> w_codec w = Codec_Bin"
  by (simp add: enc_at_def buf_ok_def)

lemma dec_at_status: "dec_at w ver al inp \<Longrightarrow> w_status w = 0 \<and> w_direction w = WIRE_DECODE \<and> w_codec w = Codec_Bin \<and> w_version w = ver \<and> w_allocated w = al"
  by (simp add: dec_at_def buf_ok_def)

lemma byte_enc: "enc_ok ver sanei_w_byte b [b]"
  unfolding enc_ok_def
proof (intro allI impI)
  fix w al out assume e: "enc_at w ver al out"
  note s = space_enc [OF e, of 1, simplified]
  from wput_enc [OF s(1)] s(2)
  show "\<exists>w'. sanei_w_byte w b = (w', b) \<and> enc_at w' ver al (out @ [b])"
    using enc_at_status [OF e] enc_at_status [OF s(1)] by (simp add: sanei_w_byte_def bin_w_byte_def)
qed

lemma byte_dec: "dec_ok ver sanei_w_byte b0 b [b] 0"
  unfolding dec_ok_def
proof (intro allI impI)
  fix w al rest assume d: "dec_at w ver al ([b] @ rest)"
  have s: "dec_at (sanei_w_space w 1) ver al (b # rest)"
      "w_curr (sanei_w_space w 1) < w_end (sanei_w_space w 1)"
    using space_dec [OF d, of 1] by auto
  from wget_dec [OF s] show "\<exists>w'. sanei_w_byte w b0 = (w', b) \<and> dec_at w' ver (al + word_of_nat 0) rest"
    using dec_at_status [OF d] dec_at_status [OF s(1)] by (simp add: sanei_w_byte_def bin_w_byte_def)
qed

lemma space_free [simp]: "w_direction w = WIRE_FREE \<Longrightarrow> sanei_w_space w n = w"
  by (simp add: sanei_w_space_def)

lemma byte_free: "free_ok ver sanei_w_byte b 0"
  by (simp add: free_ok_def sanei_w_byte_def bin_w_byte_def)

lemma of_be32_be32:
  "of_be32 (ucast (drop_bit 24 v AND 0xff)) (ucast (drop_bit 16 v AND 0xff))
     (ucast (drop_bit 8 v AND 0xff)) (ucast (drop_bit 0 v AND 0xff)) = v"
  unfolding of_be32_def mask_8_32
  apply (rule bit_word_eqI)
  subgoal for n
  by (cases "n < 8"; cases "n < 16"; cases "n < 24"; cases "bit v n") (simp_all add: bit_simps, auto)
  done

lemma word_enc: "enc_ok ver sanei_w_word v (be32 v)"
  unfolding enc_ok_def
proof (intro allI impI)
  fix w al out assume e: "enc_at w ver al out"
  note s = space_enc [OF e, of 4, simplified]
  have "length (be32 v) = 4" by (simp add: be32_def)
  with wputs_enc [OF s(1), of "be32 v"] s(2)
  show "\<exists>w'. sanei_w_word w v = (w', v) \<and> enc_at w' ver al (out @ be32 v)"
    using enc_at_status [OF e] enc_at_status [OF s(1)] by (simp add: sanei_w_word_def bin_w_word_def)
qed

lemma word_dec: "dec_ok ver sanei_w_word v0 v (be32 v) 0"
  unfolding dec_ok_def
proof (intro allI impI)
  fix w al rest assume d: "dec_at w ver al (be32 v @ rest)"
  obtain a b c e where be: "be32 v = [a, b, c, e]" and v: "of_be32 a b c e = v"
    using of_be32_be32 unfolding be32_def by blast
  have s: "dec_at (sanei_w_space w 4) ver al (a # b # c # e # rest)"
      "w_curr (sanei_w_space w 4) + 4 \<le> w_end (sanei_w_space w 4)"
    using space_dec [OF d, of 4] be by auto
  define w1 where "w1 = sanei_w_space w 4"
  note g1 = wget_dec [OF s(1) [folded w1_def]]
  have c1: "w_curr w1 + 4 \<le> w_end w1" using s by (simp add: w1_def)
  note g1' = g1 [OF less_le_trans [OF _ c1], simplified]
  note g2 = wget_dec [OF g1'(2)] note g2' = g2 [unfolded g1'(3,4)]
  have g2'': "wget (wskip w1) = (wskip (wskip w1), b)" "dec_at (wskip (wskip w1)) ver al (c # e # rest)"
     "w_end (wskip (wskip w1)) = w_end w1" "w_curr (wskip (wskip w1)) = Suc (Suc (w_curr w1))"
    using g2' c1 by auto
  note g3 = wget_dec [OF g2''(2), unfolded g2''(3,4)]
  have g3': "wget (wskip (wskip w1)) = (wskip (wskip (wskip w1)), c)" "dec_at (wskip (wskip (wskip w1))) ver al (e # rest)"
     "w_end (wskip (wskip (wskip w1))) = w_end w1" "w_curr (wskip (wskip (wskip w1))) = Suc (Suc (Suc (w_curr w1)))"
    using g3 c1 by auto
  note g4 = wget_dec [OF g3'(2), unfolded g3'(3,4)]
  show "\<exists>w'. sanei_w_word w v0 = (w', v) \<and> dec_at w' ver (al + word_of_nat 0) rest"
    using dec_at_status [OF d] dec_at_status [OF s(1)] g1' g2'' g3' g4 c1 v
    by (simp add: sanei_w_word_def bin_w_word_def w1_def [symmetric])
qed

lemma word_free: "free_ok ver sanei_w_word v 0"
  by (simp add: free_ok_def sanei_w_word_def bin_w_word_def)

section \<open>Array bookkeeping on words\<close>

lemma unat_of_nat_small: "n < 2 ^ 32 \<Longrightarrow> unat (word_of_nat n :: sane_word) = n"
  by (simp add: unat_of_nat take_bit_nat_eq_self)

lemma sint_of_nat_small: "n < 2 ^ 31 \<Longrightarrow> sint (word_of_nat n :: sane_word) = int n"
  using sint_word_of_int_32 [of "int n"] by simp

lemma loop_count_of_nat [simp]: "n < 2 ^ 31 \<Longrightarrow> loop_count (word_of_nat n) = n"
  by (simp add: loop_count_def sint_of_nat_small)

lemma scast_of_nat_small: "n < 2 ^ 31 \<Longrightarrow> (scast (word_of_nat n :: sane_word) :: size_t) = word_of_nat n"
  by (simp add: scast_eq sint_of_nat_small)

lemma ucast_of_nat_small: "n < 2 ^ 32 \<Longrightarrow> (ucast (word_of_nat n :: sane_word) :: size_t) = word_of_nat n"
  by (simp add: unsigned_of_nat take_bit_nat_eq_self)

lemma scast_small: "unat (al :: sane_word) < 2 ^ 31 \<Longrightarrow> (scast al :: size_t) = word_of_nat (unat al)"
  using scast_of_nat_small [of "unat al"] by simp

lemma esize_product:
  "n * unat (e :: size_t) < 2 ^ 64 \<Longrightarrow> word_of_nat n * e = word_of_nat (n * unat e)"
  by simp

lemma ucast_size: "(ucast (word_of_nat n :: size_t) :: sane_word) = word_of_nat n"
  by (simp add: unsigned_of_nat word_of_nat_eq_iff)

lemma unat_of_nat_size: "n < 2 ^ 64 \<Longrightarrow> unat (word_of_nat n :: size_t) = n"
  by (simp add: unat_of_nat take_bit_nat_eq_self)

lemma array_limit_ok:
  assumes n: "n \<le> MAX_MEM" and s: "unat (w_allocated w) + n * unat e \<le> MAX_MEM"
  shows "\<not> array_limit w (word_of_nat n) e"
proof -
  have p: "(word_of_nat n :: size_t) * e = word_of_nat (n * unat e)"
    by simp
  have u1: "unat (word_of_nat (n * unat e) :: size_t) = n * unat e"
    using s by (intro unat_of_nat_size) simp
  have u2: "unat (word_of_nat (unat (w_allocated w)) + word_of_nat (n * unat e) :: size_t) = unat (w_allocated w) + n * unat e"
    unfolding of_nat_add [symmetric] using s by (intro unat_of_nat_size) simp
  have "unat (word_of_nat n :: sane_word) \<le> MAX_MEM"
    using n by (simp add: unat_of_nat_small)
  then have "\<not> (1048576 :: sane_word) < word_of_nat n"
    by (simp add: word_less_nat_alt)
  moreover have "\<not> 1048576 < (word_of_nat (n * unat e) :: size_t)"
    unfolding word_less_nat_alt u1 using s by simp
  moreover have "\<not> 1048576 < (word_of_nat (unat (w_allocated w)) + word_of_nat (n * unat e) :: size_t)"
    unfolding word_less_nat_alt u2 using s by simp
  moreover have "(ucast (word_of_nat n :: sane_word) :: size_t) * e = word_of_nat (n * unat e)"
    using n p by (simp add: ucast_of_nat_small)
  moreover have "(scast (word_of_nat n :: sane_word) :: size_t) * e = word_of_nat (n * unat e)"
    using n p by (simp add: scast_of_nat_small)
  moreover have "(scast (w_allocated w) :: size_t) = word_of_nat (unat (w_allocated w))"
    using s by (intro scast_small) simp
  ultimately show ?thesis
    unfolding array_limit_def by simp
qed

lemma array_charge:
  assumes "n \<le> MAX_MEM"
  shows "(ucast ((scast (word_of_nat n :: sane_word) :: size_t) * e) :: sane_word) = word_of_nat (n * unat e)"
proof -
  have "(scast (word_of_nat n :: sane_word) :: size_t) * e = word_of_nat (n * unat e)"
    using assms by (simp add: scast_of_nat_small)
  then show ?thesis by (simp only: ucast_size)
qed
lemma ucast_unat: "(ucast (e :: size_t) :: sane_word) = word_of_nat (unat e)"
  using ucast_size [of "unat e"] by simp

lemma word_length_nonzero:
  "xs \<noteq> [] \<Longrightarrow> length xs \<le> MAX_MEM \<Longrightarrow> (word_of_nat (length xs) :: sane_word) \<noteq> 0"
proof
  assume xs: "xs \<noteq> []" "length xs \<le> MAX_MEM" and "(word_of_nat (length xs) :: sane_word) = 0"
  then have "unat (word_of_nat (length xs) :: sane_word) = 0" by simp
  moreover have "unat (word_of_nat (length xs) :: sane_word) = length xs"
    using xs by (intro unat_of_nat_small) simp
  ultimately show False using xs by simp
qed

end
