(* ===== verification/Saned_Handles.thy ===== *)
theory Saned_Handles
  imports Saned_Rpc Wire_Laws
begin

text \<open>
  The handle table of the daemon: the search loop of \<open>get_free_handle\<close>, the invariant of the
  table, that an allocated handle is fresh, and exactly when the search never ends.
\<close>

section \<open>Searching the table\<close>

definition wrap :: "int \<Rightarrow> int \<Rightarrow> int" where
  "wrap num h = (if num \<le> h then 0 else h)"

lemma find_body:
  assumes "int (length l) = num" "0 < num" "0 \<le> h"
  shows "(let h1 = (if num \<le> h then 0 else h)
      in case (case Some l of Some l \<Rightarrow> if 0 \<le> h1 then blk_get l (nat h1) else None | None \<Rightarrow> None) of
           None \<Rightarrow> Some Find_Fault
         | Some x \<Rightarrow>
             if \<not> hs_inuse x then Some (Found h1)
             else if h1 + 1 = lst then Some Not_Found
             else k (h1 + 1)) =
    (if \<not> hs_inuse (l ! nat (wrap num h)) then Some (Found (wrap num h))
     else if wrap num h + 1 = lst then Some Not_Found else k (wrap num h + 1))"
  using assms by (auto simp: wrap_def blk_get_def Let_def)

lemma find_step:
  "int (length l) = num \<Longrightarrow> 0 < num \<Longrightarrow> 0 \<le> h \<Longrightarrow>
    find_handle (Some l) num lst h =
      (if \<not> hs_inuse (l ! nat (wrap num h)) then Some (Found (wrap num h))
       else if wrap num h + 1 = lst then Some Not_Found else find_handle (Some l) num lst (wrap num h + 1))"
  by (subst find_handle.simps) (rule find_body)

lemma wrap_bounds: "0 < num \<Longrightarrow> 0 \<le> h \<Longrightarrow> 0 \<le> wrap num h \<and> wrap num h < num"
  by (auto simp: wrap_def)

definition find_good :: "handle_slot list option \<Rightarrow> int \<Rightarrow> int \<Rightarrow> int \<Rightarrow> find_result \<Rightarrow> bool" where
  "find_good slots num lst h r \<longleftrightarrow>
     (\<forall>l. slots = Some l \<and> int (length l) = num \<and> 0 < num \<and> 0 \<le> h \<longrightarrow>
        (case r of Found k \<Rightarrow> 0 \<le> k \<and> k < num \<and> \<not> hs_inuse (l ! nat k)
         | Not_Found \<Rightarrow> lst \<noteq> 0 | Find_Fault \<Rightarrow> False))"

lemma find_result:
  "find_handle slots num lst h = Some r \<Longrightarrow> find_good slots num lst h r"
proof (rule find_handle.raw_induct [where P = "\<lambda>slots num lst h r. find_good slots num lst h r"])
  fix rec :: "handle_slot list option \<Rightarrow> int \<Rightarrow> int \<Rightarrow> int \<Rightarrow> find_result option"
  fix slots num lst h r
  assume IH: "\<And>slots num lst h r. rec slots num lst h = Some r \<Longrightarrow> find_good slots num lst h r"
    and eq: "(let h1 = (if num \<le> h then 0 else h)
      in case (case slots of Some l \<Rightarrow> if 0 \<le> h1 then blk_get l (nat h1) else None | None \<Rightarrow> None) of
           None \<Rightarrow> Some Find_Fault
         | Some x \<Rightarrow>
             if \<not> hs_inuse x then Some (Found h1)
             else if h1 + 1 = lst then Some Not_Found
             else rec slots num lst (h1 + 1)) = Some r"
  show "find_good slots num lst h r"
    unfolding find_good_def
  proof (intro allI impI)
    fix l assume l: "slots = Some l \<and> int (length l) = num \<and> 0 < num \<and> 0 \<le> h"
    then have w: "0 \<le> wrap num h" "wrap num h < num" using wrap_bounds by blast+
    from l have "(if \<not> hs_inuse (l ! nat (wrap num h)) then Some (Found (wrap num h))
       else if wrap num h + 1 = lst then Some Not_Found else rec slots num lst (wrap num h + 1)) = Some r"
      using eq find_body [of l num h lst "rec slots num lst"] by metis
    with w l IH [of slots num lst "wrap num h + 1" r]
    show "case r of Found k \<Rightarrow> 0 \<le> k \<and> k < num \<and> \<not> hs_inuse (l ! nat k)
         | Not_Found \<Rightarrow> lst \<noteq> 0 | Find_Fault \<Rightarrow> False"
      by (auto simp: find_good_def split: if_splits)
  qed
qed

lemma find_hangs:
  assumes "int (length l) = num" "0 < num" "0 \<le> h" "list_all hs_inuse l"
  shows "find_handle (Some l) num 0 h = None"
proof (cases "find_handle (Some l) num 0 h")
  case (Some r)
  then have "find_good (Some l) num 0 h r" by (rule find_result)
  with assms show ?thesis
    by (cases r) (auto simp: find_good_def list_all_iff)
qed

lemma find_returns:
  assumes n: "int (length l) = num" "0 < num" and lst: "0 < lst" "lst < num"
  shows "0 \<le> h \<Longrightarrow> h \<le> num \<Longrightarrow> h \<noteq> lst \<Longrightarrow> find_handle (Some l) num lst h \<noteq> None"
proof (induction "nat (if h < lst then lst - h else num - h + lst)" arbitrary: h rule: less_induct)
  case less
  show ?case
  proof (cases "hs_inuse (l ! nat (wrap num h)) \<and> wrap num h + 1 \<noteq> lst")
    case True
    have "find_handle (Some l) num lst (wrap num h + 1) \<noteq> None"
      using less.prems True lst n by (intro less.hyps) (auto simp: wrap_def)
    with True less.prems n show ?thesis by (subst find_step) auto
  next
    case False
    with less.prems n show ?thesis by (subst find_step) auto
  qed
qed

lemma find_returns_free:
  assumes n: "int (length l) = num" "0 < num" and k: "0 \<le> k" "k < num" "\<not> hs_inuse (l ! nat k)"
  shows "0 \<le> h \<Longrightarrow> h \<le> num \<Longrightarrow> find_handle (Some l) num lst h \<noteq> None"
proof (induction "nat (if h \<le> k then k - h else num - h + k + 1)" arbitrary: h rule: less_induct)
  case less
  show ?case
  proof (cases "hs_inuse (l ! nat (wrap num h)) \<and> wrap num h + 1 \<noteq> lst")
    case True
    then have "wrap num h \<noteq> k" using k(3) by auto
    then have "find_handle (Some l) num lst (wrap num h + 1) \<noteq> None"
      using less.prems k n by (intro less.hyps) (auto simp: wrap_def)
    with True less.prems n show ?thesis by (subst find_step) auto
  next
    case False
    with less.prems n show ?thesis by (subst find_step) auto
  qed
qed

section \<open>The table invariant\<close>

definition table_ok :: "'b saned \<Rightarrow> bool" where
  \<comment> \<open>no table yet, or a block of \<open>num_handles\<close> slots and a last handle inside it; and the
      count is an \<open>int\<close> of C with room for one more increment\<close>
  "table_ok s \<longleftrightarrow> sd_num s + 16 < 2 ^ 31 \<and>
     (if sd_num s = 0 then sd_handle s = None \<and> sd_last s = - 1
      else \<exists>l. sd_handle s = Some l \<and> int (length l) = sd_num s \<and> 0 \<le> sd_last s \<and> sd_last s < sd_num s)"

definition slot_free :: "'b saned \<Rightarrow> int \<Rightarrow> bool" where
  "slot_free s h \<longleftrightarrow> (case get_slot s h of Some x \<Rightarrow> \<not> hs_inuse x | None \<Rightarrow> True)"

definition in_use :: "'b saned \<Rightarrow> int \<Rightarrow> bool" where
  "in_use s h \<longleftrightarrow> (case get_slot s h of Some x \<Rightarrow> hs_inuse x | None \<Rightarrow> False)"

definition all_in_use :: "'b saned \<Rightarrow> bool" where
  "all_in_use s \<longleftrightarrow> (\<forall>h. 0 \<le> h \<and> h < sd_num s \<longrightarrow> in_use s h)"

lemma get_slot_table:
  "sd_handle s = Some l \<Longrightarrow> get_slot s h = (if 0 \<le> h \<and> h < int (length l) then Some (l ! nat h) else None)"
  by (auto simp: get_slot_def blk_get_def)

lemma get_free_handle_first:
  assumes "0 < sd_num s" "find_handle (sd_handle s) (sd_num s) (sd_last s) (sd_last s + 1) = Some (Found h)"
  shows "get_free_handle s = Some (set_slot (s\<lparr>sd_last := h\<rparr>) h (\<lambda>_. zero_slot\<lparr>hs_inuse := True\<rparr>), word_of_int h)"
  using assms by (subst get_free_handle.simps) simp

lemma grow_table:
  assumes "table_ok s" "list_all (\<lambda>b. b) (sd_alloc s)"
  defines "l \<equiv> (case sd_handle s of Some l \<Rightarrow> l | None \<Rightarrow> [])"
  obtains s1 where "grow_handles s = (s1, True)" "sd_handle s1 = Some (l @ replicate 16 zero_slot)"
    "sd_num s1 = sd_num s + 16" "sd_last s1 = sd_num s - 1" "int (length l) = sd_num s" "sd_be s1 = sd_be s"
    "list_all (\<lambda>b. b) (sd_alloc s1)" "sd_wire s1 = sd_wire s" "sd_fault s1 = sd_fault s"
proof -
  have "int (length l) = sd_num s"
    using assms(1) by (auto simp: table_ok_def l_def split: if_splits)
  with assms(2) that show ?thesis
    by (cases "sd_alloc s") (auto simp: grow_handles_def sd_malloc_def l_def)
qed

lemma get_free_handle_grown:
  assumes "sd_handle s = Some (l @ replicate 16 zero_slot)" "sd_num s = int (length l) + 16" "sd_last s = int (length l) - 1"
  shows "get_free_handle s = Some (set_slot (s\<lparr>sd_last := int (length l)\<rparr>) (int (length l)) (\<lambda>_. zero_slot\<lparr>hs_inuse := True\<rparr>),
    word_of_int (int (length l)))"
proof (rule get_free_handle_first)
  show "find_handle (sd_handle s) (sd_num s) (sd_last s) (sd_last s + 1) = Some (Found (int (length l)))"
    using assms find_step [of "l @ replicate 16 zero_slot" "sd_num s" "int (length l)" "sd_last s"]
    by (simp add: wrap_def nth_append zero_slot_def)
qed (use assms in simp)

lemma get_free_handle_cases:
  assumes "table_ok s" "list_all (\<lambda>b. b) (sd_alloc s)" "get_free_handle s = Some (s', h)"
  obtains (found) k l where "sd_handle s = Some l" "0 \<le> k" "k < sd_num s" "\<not> hs_inuse (l ! nat k)"
      "s' = set_slot (s\<lparr>sd_last := k\<rparr>) k (\<lambda>_. zero_slot\<lparr>hs_inuse := True\<rparr>)" "h = word_of_int k"
  | (grown) l s1 where "l = (case sd_handle s of Some l \<Rightarrow> l | None \<Rightarrow> [])" "int (length l) = sd_num s"
      "grow_handles s = (s1, True)" "sd_handle s1 = Some (l @ replicate 16 zero_slot)" "sd_num s1 = sd_num s + 16"
      "s' = set_slot (s1\<lparr>sd_last := sd_num s\<rparr>) (sd_num s) (\<lambda>_. zero_slot\<lparr>hs_inuse := True\<rparr>)"
      "h = word_of_int (sd_num s)" "sd_be s1 = sd_be s"
proof -
  define l where "l = (case sd_handle s of Some l \<Rightarrow> l | None \<Rightarrow> [])"
  have num: "0 \<le> sd_num s" "0 < sd_num s \<Longrightarrow> sd_handle s = Some l" "int (length l) = sd_num s" "- 1 \<le> sd_last s"
    using assms(1) by (auto simp: table_ok_def l_def split: if_splits)
  obtain s1 where s1: "grow_handles s = (s1, True)" "sd_handle s1 = Some (l @ replicate 16 zero_slot)"
    "sd_num s1 = sd_num s + 16" "sd_last s1 = sd_num s - 1" "sd_be s1 = sd_be s"
    using grow_table [OF assms(1,2)] unfolding l_def by metis
  have grown: ?thesis if "get_free_handle s = get_free_handle s1"
  proof -
    have "get_free_handle s1 = Some (set_slot (s1\<lparr>sd_last := sd_num s\<rparr>) (sd_num s) (\<lambda>_. zero_slot\<lparr>hs_inuse := True\<rparr>),
        word_of_int (sd_num s))"
      using get_free_handle_grown [of s1 l, unfolded num(3)] s1 by simp
    with that(1) assms(3) have "s' = set_slot (s1\<lparr>sd_last := sd_num s\<rparr>) (sd_num s) (\<lambda>_. zero_slot\<lparr>hs_inuse := True\<rparr>)"
      "h = word_of_int (sd_num s)"
      by simp_all
    with s1 num(3) show ?thesis by (intro grown [of l s1]) (simp_all add: l_def)
  qed
  show ?thesis
  proof (cases "0 < sd_num s")
    case False
    then show ?thesis
      by (intro grown) (subst get_free_handle.simps, simp add: s1)
  next
    case True
    obtain r where r: "find_handle (sd_handle s) (sd_num s) (sd_last s) (sd_last s + 1) = Some r"
      using assms(3) True by (subst (asm) get_free_handle.simps) (auto simp: bind_eq_Some_conv)
    have g: "find_good (sd_handle s) (sd_num s) (sd_last s) (sd_last s + 1) r"
      using r by (rule find_result)
    show ?thesis
    proof (cases r)
      case (Found k)
      with g True num have "0 \<le> k" "k < sd_num s" "\<not> hs_inuse (l ! nat k)"
        by (auto simp: find_good_def)
      with get_free_handle_first [OF True, of k] r Found assms(3) num(2) True show ?thesis
        by (intro found [of l k]) auto
    next
      case Not_Found
      with r True show ?thesis
        by (intro grown) (subst get_free_handle.simps, simp add: s1)
    next
      case Find_Fault
      with g True num show ?thesis by (auto simp: find_good_def)
    qed
  qed
qed

lemma sint_handle: "0 \<le> k \<Longrightarrow> k < 2 ^ 31 \<Longrightarrow> sint (word_of_int k :: sane_word) = k"
  by (simp add: sint_word_of_int_32)

text \<open>Every opened device gets a handle of its own.  When \<open>get_free_handle\<close> returns, and memory
  lasts, its result is the index of a slot that was not in use; this slot is now in use and
  otherwise cleared, every other slot is as it was, and the table invariant holds again, with
  the table grown only by free slots.\<close>

theorem free_handle_is_fresh:
  assumes "table_ok s" "list_all (\<lambda>b. b) (sd_alloc s)" "get_free_handle s = Some (s', h)" "sd_num s < 2 ^ 31 - 32"
  shows "table_ok s' \<and> 0 \<le> sint h \<and> sint h < sd_num s' \<and> slot_free s (sint h) \<and>
    get_slot s' (sint h) = Some (zero_slot\<lparr>hs_inuse := True\<rparr>) \<and>
    (\<forall>i. i \<noteq> sint h \<longrightarrow> in_use s' i = in_use s i) \<and>
    (\<forall>i. i \<noteq> sint h \<longrightarrow> get_slot s i \<noteq> None \<longrightarrow> get_slot s' i = get_slot s i) \<and> sd_be s' = sd_be s"
  using assms(1-3)
proof (cases rule: get_free_handle_cases)
  case (found k l)
  then have h: "sint h = k" using assms(4) by (simp add: sint_handle)
  have len: "int (length l) = sd_num s" "sd_num s \<noteq> 0"
    using assms(1) found by (auto simp: table_ok_def split: if_splits)
  have s': "s' = s\<lparr>sd_last := k, sd_handle := Some (l[nat k := zero_slot\<lparr>hs_inuse := True\<rparr>])\<rparr>"
    using found len by (simp add: set_slot_def get_slot_table)
  show ?thesis
    using found(1-4) len assms(1) h unfolding s'
    by (auto simp: table_ok_def slot_free_def in_use_def get_slot_table nth_list_update)
next
  case (grown l s1)
  have pos: "0 \<le> sd_num s" using grown(2) by simp
  then have h: "sint h = sd_num s" using grown assms(4) by (simp add: sint_handle)
  have s': "s' = s1\<lparr>sd_last := sd_num s, sd_handle := Some ((l @ replicate 16 zero_slot)[nat (sd_num s) := zero_slot\<lparr>hs_inuse := True\<rparr>])\<rparr>"
    using grown pos by (simp add: set_slot_def get_slot_table)
  have old: "get_slot s i = (if 0 \<le> i \<and> i < sd_num s then Some (l ! nat i) else None)" for i
    using grown assms(1) by (cases "sd_handle s") (auto simp: get_slot_def blk_get_def table_ok_def split: if_splits)
  show ?thesis
    using grown(1-5,8) pos assms(4) h unfolding s'
    by (auto simp: table_ok_def slot_free_def in_use_def get_slot_table nth_list_update nth_append old zero_slot_def)
qed

text \<open> C22: \<open>get_free_handle\<close> returns when the table is empty, when a slot is free, or when the last
  handle found was not handle 0; but when it was handle 0 and every slot is in use, the loop
  never ends: the stop test never sees the wrapped index, and the daemon hangs.\<close>

theorem free_handle_hangs:
  assumes "table_ok s" "list_all (\<lambda>b. b) (sd_alloc s)"
  shows "get_free_handle s = None \<longleftrightarrow> 0 < sd_num s \<and> sd_last s = 0 \<and> all_in_use s"
proof (cases "0 < sd_num s")
  case False
  obtain s1 where s1: "grow_handles s = (s1, True)"
    "sd_handle s1 = Some ((case sd_handle s of Some l \<Rightarrow> l | None \<Rightarrow> []) @ replicate 16 zero_slot)"
    "sd_num s1 = sd_num s + 16" "sd_last s1 = sd_num s - 1"
    "int (length (case sd_handle s of Some l \<Rightarrow> l | None \<Rightarrow> [])) = sd_num s"
    using grow_table [OF assms] by metis
  have "get_free_handle s = get_free_handle s1"
    using False by (subst get_free_handle.simps) (simp add: s1)
  with get_free_handle_grown [of s1] s1 False show ?thesis by simp
next
  case True
  then obtain l where l: "sd_handle s = Some l" "int (length l) = sd_num s" "0 \<le> sd_last s" "sd_last s < sd_num s"
    using assms(1) by (auto simp: table_ok_def)
  obtain s1 where s1: "grow_handles s = (s1, True)" "sd_handle s1 = Some (l @ replicate 16 zero_slot)"
    "sd_num s1 = sd_num s + 16" "sd_last s1 = sd_num s - 1"
    using grow_table [OF assms] l(1) by (metis option.simps(5))
  have used: "all_in_use s \<longleftrightarrow> list_all hs_inuse l"
  proof -
    have "(\<forall>h. 0 \<le> h \<and> h < int (length l) \<longrightarrow> hs_inuse (l ! nat h)) \<longleftrightarrow> (\<forall>i < length l. hs_inuse (l ! i))"
      by (metis nat_int nat_less_iff of_nat_0_le_iff zless_nat_eq_int_zless)
    with l show ?thesis
      by (simp add: all_in_use_def in_use_def get_slot_table list_all_length)
  qed
  have none: "get_free_handle s = None \<longleftrightarrow> find_handle (Some l) (sd_num s) (sd_last s) (sd_last s + 1) = None"
  proof (cases "find_handle (Some l) (sd_num s) (sd_last s) (sd_last s + 1)")
    case None
    with True l show ?thesis by (subst get_free_handle.simps) simp
  next
    case (Some r)
    then have g: "find_good (Some l) (sd_num s) (sd_last s) (sd_last s + 1) r"
      by (rule find_result)
    have "get_free_handle s1 \<noteq> None"
      using get_free_handle_grown [of s1 l] s1 l(2) by simp
    with Some True l g s1(1) show ?thesis
      by (subst get_free_handle.simps) (auto split: find_result.split)
  qed
  show ?thesis
  proof
    assume hang: "get_free_handle s = None"
    have "all_in_use s"
    proof (rule ccontr)
      assume "\<not> all_in_use s"
      then obtain i where "i < length l" "\<not> hs_inuse (l ! i)"
        by (auto simp: used list_all_length)
      with find_returns_free [OF l(2) True, of "int i" "sd_last s + 1" "sd_last s"] l hang none
      show False by simp
    qed
    moreover have "sd_last s = 0"
    proof (rule ccontr)
      assume "sd_last s \<noteq> 0"
      with find_returns [OF l(2) True _ l(4), of "sd_last s + 1"] l hang none
      show False by simp
    qed
    ultimately show "0 < sd_num s \<and> sd_last s = 0 \<and> all_in_use s"
      using True by simp
  next
    assume "0 < sd_num s \<and> sd_last s = 0 \<and> all_in_use s"
    with find_hangs [OF l(2) True, of 1] used l(1) none show "get_free_handle s = None" by simp
  qed
qed

definition ex_saned :: "int \<Rightarrow> handle_slot list \<Rightarrow> wire \<Rightarrow> unit saned" where
  \<comment> \<open>a daemon with the given last handle, table and wire\<close>
  "ex_saned lst l w = \<lparr>sd_wire = w, sd_handle = Some l, sd_num = int (length l), sd_last = lst, sd_request = 0,
     sd_can_auth = False, sd_remote_ip = [], sd_user = [], sd_allow_net = False, sd_little = True,
     sd_port_lo = 0, sd_port_hi = 0, sd_buf_size = 16, sd_alloc = [], sd_scans = [], sd_data = [], sd_be = (),
     sd_fault = False\<rparr>"

definition ex_wire :: wire where
  "ex_wire = \<lparr>w_version = 3, w_direction = WIRE_DECODE, w_status = 0, w_allocated = 0, w_codec = Codec_Bin,
     w_size = 8, w_mem = replicate 8 0, w_curr = 0, w_end = 0, w_rd = [], w_wr = [],
     w_sent = [], w_malloc = [], w_junk = 7, w_fault = False\<rparr>"

definition ex_full :: "unit saned" where
  \<comment> \<open>after 16 opens, a close of handle 0 and one more open\<close>
  "ex_full = ex_saned 0 (replicate 16 (zero_slot\<lparr>hs_inuse := True\<rparr>)) ex_wire"

lemma free_handle_hangs_witness: "get_free_handle ex_full = None"
proof -
  have ok: "table_ok ex_full" "list_all (\<lambda>b. b) (sd_alloc ex_full)"
    by (simp_all add: table_ok_def ex_full_def ex_saned_def)
  have "all_in_use ex_full"
    by (auto simp: all_in_use_def in_use_def get_slot_def blk_get_def ex_full_def ex_saned_def nat_less_iff)
  then show ?thesis
    using free_handle_hangs [OF ok] by (simp add: ex_full_def ex_saned_def)
qed

lemma free_handle_is_fresh_witness:
  "\<exists>s' h. get_free_handle (ex_saned 0 [zero_slot\<lparr>hs_inuse := True\<rparr>, zero_slot] ex_wire) = Some (s', h) \<and>
     table_ok s' \<and> in_use s' (sint h)"
proof -
  let ?s = "ex_saned 0 [zero_slot\<lparr>hs_inuse := True\<rparr>, zero_slot] ex_wire"
  have ok: "table_ok ?s" "list_all (\<lambda>b. b) (sd_alloc ?s)" "sd_num ?s < 2 ^ 31 - 32"
    by (simp_all add: table_ok_def ex_saned_def)
  obtain s' h where g: "get_free_handle ?s = Some (s', h)"
    using get_free_handle_first [of ?s 1] find_step [of "[zero_slot\<lparr>hs_inuse := True\<rparr>, zero_slot]" 2 1 0]
    by (simp add: ex_saned_def wrap_def zero_slot_def)
  with free_handle_is_fresh [OF ok(1,2) g ok(3)] show ?thesis
    by (auto simp: in_use_def)
qed

end
