(* ===== verification/Saned_Frames.thy ===== *)
theory Saned_Frames
  imports Saned_Ring Saned_Handles
begin

text \<open>
  What a client receives on the data connection: the steps of a turn of \<open>do_scan\<close> keep an invariant of
  the ring buffer, and what has been sent together with what is buffered is the image stream, one
  record for every successful \<open>sane_read\<close> and at most one final record.  The contract of
  \<open>sane_read\<close> is \<open>read_contract\<close>.
\<close>

section \<open>Records\<close>

definition frame :: "byte list \<Rightarrow> byte list" where
  \<comment> \<open>the length of the data, then the data\<close>
  "frame d = be32 (word_of_nat (length d)) @ d"

definition final_record :: "sane_word \<Rightarrow> byte list" where
  "final_record st = be32 0xffffffff @ [ucast st]"

definition scan_stream :: "scan_state \<Rightarrow> byte list" where
  \<comment> \<open>what has been sent and what is still in the buffer\<close>
  "scan_stream sc = sc_sent sc @ ring_bytes (length (sc_buf sc)) (sc_buf sc) (sc_writer sc) (sc_bytes sc)"

definition scan_ok :: "nat \<Rightarrow> scan_state \<Rightarrow> bool" where
  "scan_ok sz sc \<longleftrightarrow> length (sc_buf sc) = sz \<and> 9 \<le> sz \<and> sz < 2 ^ 31 \<and>
     0 \<le> sc_reader sc \<and> sc_reader sc < int sz \<and> 0 \<le> sc_writer sc \<and> sc_writer sc < int sz \<and>
     0 \<le> sc_bytes sc \<and> sc_bytes sc \<le> int sz \<and>
     (sc_status sc = SANE_STATUS_GOOD \<or> sc_dirty sc \<longrightarrow>
        sc_reader sc = (sc_writer sc + sc_bytes sc) mod int sz) \<and>
     (sc_dirty sc \<longrightarrow> sc_status sc \<noteq> SANE_STATUS_GOOD) \<and> sc_status sc \<le> SANE_STATUS_ACCESS_DENIED"

definition read_contract :: "'b backend \<Rightarrow> sane_handle \<Rightarrow> bool" where
  \<comment> \<open>\<open>sane_read\<close> returns at most the bytes asked for, none with a status other than good, and a status of
      the enumeration\<close>
  "read_contract be bh \<longleftrightarrow>
     (\<forall>b n b' st d. b_read be b bh n = (b', st, d) \<longrightarrow> length d \<le> n \<and> (st \<noteq> SANE_STATUS_GOOD \<longrightarrow> d = []) \<and>
        st \<le> SANE_STATUS_ACCESS_DENIED)"

section \<open>The steps of a turn\<close>

lemma scan_write_ok:
  assumes "scan_ok (sd_buf_size s) sc" "scan_write h (Some k) sc s = (sc', s', brk)"
  shows "scan_ok (sd_buf_size s) sc' \<and> scan_stream sc' = scan_stream sc \<and> s' = s \<and> \<not> brk \<and>
    sc_status sc' = sc_status sc \<and> sc_dirty sc' = sc_dirty sc \<and> (\<exists>out. sc_sent sc' = sc_sent sc @ out)"
proof -
  define sz where "sz = sd_buf_size s"
  define nb where "nb = (if sc_writer sc + sc_bytes sc > int sz then int sz - sc_writer sc else sc_bytes sc)"
  define n where "n = min (int k) nb"
  have ok: "scan_ok sz sc" using assms(1) by (simp add: sz_def)
  have n: "0 \<le> n" "sc_writer sc + n \<le> int sz" "n \<le> sc_bytes sc"
    using ok by (auto simp: scan_ok_def n_def nb_def)
  have sc': "sc' = sc\<lparr>sc_bytes := sc_bytes sc - n,
      sc_writer := (if sc_writer sc + n = int sz then 0 else sc_writer sc + n),
      sc_sent := sc_sent sc @ slice (nat (sc_writer sc)) (nat (sc_writer sc + n)) (sc_buf sc)\<rparr>"
    and s': "s' = s" and brk: "\<not> brk"
    using assms(2) n ok
    by (auto simp: scan_write_def scan_ok_def Let_def n_def nb_def sz_def split: if_splits)
  have w': "(if sc_writer sc + n = int sz then 0 else sc_writer sc + n) = (sc_writer sc + n) mod int sz"
    using n ok by (auto simp: scan_ok_def)
  have content: "ring_bytes sz (sc_buf sc) (sc_writer sc) (sc_bytes sc) =
      slice (nat (sc_writer sc)) (nat (sc_writer sc + n)) (sc_buf sc) @
      ring_bytes sz (sc_buf sc) ((sc_writer sc + n) mod int sz) (sc_bytes sc - n)"
    using ring_bytes_split [of n "sc_bytes sc"] ring_bytes_chunk [of "sc_buf sc" sz "sc_writer sc" n] n ok
    by (auto simp: scan_ok_def)
  have "((sc_writer sc + n) mod int sz + (sc_bytes sc - n)) mod int sz = (sc_writer sc + sc_bytes sc) mod int sz"
    by (simp add: mod_simps)
  then have "scan_ok sz sc'"
    using ok n unfolding sc' w' by (auto simp: scan_ok_def)
  moreover have "scan_stream sc' = scan_stream sc"
    using ok content unfolding sc' w' by (simp add: scan_stream_def scan_ok_def)
  ultimately show ?thesis
    using sc' s' brk by (auto simp: sz_def)
qed

lemma final_length: "length (final_record st) = 5"
  by (simp add: final_record_def be32_length)

lemma scan_status_eq:
  assumes "length (sc_buf sc) = sz" "0 \<le> sc_reader sc" "sc_reader sc < int sz" "sc_dirty sc"
    and "0 \<le> sc_bytes sc" "sc_bytes sc + 5 \<le> int sz" "sz < 2 ^ 31" "sz = sd_buf_size s"
  shows "scan_status sc s = (sc\<lparr>sc_dirty := False, sc_reader := (sc_reader sc + 4) mod int sz,
     sc_bytes := sc_bytes sc + 5, sc_buf := ring_put sz (sc_buf sc) (sc_reader sc) (final_record (sc_status sc))\<rparr>, s)"
proof -
  have room: "5 \<le> (int sz - sc_bytes sc) mod 2 ^ 64"
    using assms by simp
  have put: "ring_put sz (ring_put sz (sc_buf sc) (sc_reader sc) (be32 0xffffffff))
      ((sc_reader sc + 4) mod int sz) [ucast (sc_status sc)] =
      ring_put sz (sc_buf sc) (sc_reader sc) (final_record (sc_status sc))"
    using assms ring_put_append [of "sc_reader sc" sz "sc_buf sc" "be32 0xffffffff" "[ucast (sc_status sc)]"]
    by (simp add: final_record_def be32_length del: ring_put.simps)
  have idx: "0 \<le> (sc_reader sc + 4) mod int sz" "(sc_reader sc + 4) mod int sz < int sz"
    using assms by auto
  have 1: "store_reclen (sc_buf sc) sz (sc_reader sc) 0xffffffff =
      (Some (ring_put sz (sc_buf sc) (sc_reader sc) (be32 0xffffffff)), (sc_reader sc + 4) mod int sz)"
    using assms by (intro store_reclen_ring) auto
  have 2: "blk_set (ring_put sz (sc_buf sc) (sc_reader sc) (be32 0xffffffff))
      (nat ((sc_reader sc + 4) mod int sz)) (ucast (sc_status sc)) =
      Some (ring_put sz (sc_buf sc) (sc_reader sc) (final_record (sc_status sc)))"
    using idx assms put by (subst ring_put_one) (auto simp: nat_less_iff simp del: ring_put.simps)
  show ?thesis
    using assms(4) room idx(1) by (simp add: scan_status_def assms(8) [symmetric] 1 2 with_buf_def)
qed

lemma scan_status_ok:
  assumes ok: "scan_ok (sd_buf_size s) sc" and "scan_status sc s = (sc', s')"
  shows "scan_ok (sd_buf_size s) sc' \<and> s' = s \<and> sc_sent sc' = sc_sent sc \<and> sc_status sc' = sc_status sc \<and>
    (if sc_dirty sc \<and> sc_bytes sc + 5 \<le> int (sd_buf_size s)
     then \<not> sc_dirty sc' \<and> scan_stream sc' = scan_stream sc @ final_record (sc_status sc)
     else sc' = sc)"
proof -
  define sz where "sz = sd_buf_size s"
  show ?thesis
  proof (cases "sc_dirty sc \<and> sc_bytes sc + 5 \<le> int sz")
    case False
    moreover have "5 \<le> (int sz - sc_bytes sc) mod 2 ^ 64 \<longleftrightarrow> sc_bytes sc + 5 \<le> int sz"
      using ok by (auto simp: scan_ok_def sz_def)
    ultimately show ?thesis
      using ok assms(2) by (auto simp: scan_status_def sz_def)
  next
    case True
    let ?buf = "ring_put sz (sc_buf sc) (sc_reader sc) (final_record (sc_status sc))"
    have sc': "sc' = sc\<lparr>sc_dirty := False, sc_reader := (sc_reader sc + 4) mod int sz, sc_bytes := sc_bytes sc + 5,
        sc_buf := ?buf\<rparr>" and s': "s' = s"
      using assms(2) True ok scan_status_eq [of sc sz s] by (auto simp: scan_ok_def sz_def)
    have r: "sc_reader sc = (sc_writer sc + sc_bytes sc) mod int sz"
      using ok True by (simp add: scan_ok_def sz_def)
    have "ring_bytes sz ?buf (sc_writer sc) (sc_bytes sc + 5) =
        ring_bytes sz (sc_buf sc) (sc_writer sc) (sc_bytes sc) @ final_record (sc_status sc)"
      using ok True ring_bytes_put [of "sc_buf sc" sz "sc_bytes sc" "final_record (sc_status sc)" "sc_writer sc"]
      unfolding r by (simp add: scan_ok_def sz_def final_length)
    then have "scan_stream sc' = scan_stream sc @ final_record (sc_status sc)"
      using ok unfolding sc' by (simp add: scan_stream_def scan_ok_def sz_def)
    moreover have "scan_ok sz sc'"
      using ok True unfolding sc' by (auto simp: scan_ok_def sz_def)
    ultimately show ?thesis
      using True s' unfolding sz_def [symmetric] by (simp add: sc')
  qed
qed

lemma stale_record:
  assumes ok: "scan_ok sz sc" "sc_bytes sc = 0" "sc_status sc = SANE_STATUS_GOOD" "st \<noteq> SANE_STATUS_GOOD"
      "st \<le> SANE_STATUS_ACCESS_DENIED"
    and sz: "sz = sd_buf_size s"
    and st: "scan_status (sc\<lparr>sc_status := st, sc_bytes := 4, sc_dirty := True\<rparr>) s = (sc', s')"
  shows "s' = s \<and> scan_ok sz sc' \<and> sc_status sc' = st \<and> \<not> sc_dirty sc' \<and> sc_sent sc' = sc_sent sc \<and>
    (\<exists>junk. scan_stream sc' = scan_stream sc @ final_record st @ junk \<and> length junk = 4)"
proof -
  let ?buf = "ring_put sz (sc_buf sc) (sc_reader sc) (final_record st)"
  have sc': "sc' = sc\<lparr>sc_status := st, sc_dirty := False, sc_reader := (sc_reader sc + 4) mod int sz, sc_bytes := 9,
      sc_buf := ?buf\<rparr>" and s': "s' = s"
    using ok sz st scan_status_eq [of "sc\<lparr>sc_status := st, sc_bytes := 4, sc_dirty := True\<rparr>" sz s]
    by (auto simp: scan_ok_def)
  have b: "length (sc_buf sc) = sz" "9 \<le> sz" "sc_reader sc = sc_writer sc"
    "sc_writer sc mod int sz = sc_writer sc"
    using ok by (auto simp: scan_ok_def)
  have "ring_bytes sz ?buf (sc_writer sc) 5 = final_record st"
    using ring_bytes_put [of "sc_buf sc" sz 0 "final_record st" "sc_writer sc"] b by (simp add: final_length)
  then have "ring_bytes sz ?buf (sc_writer sc) 9 =
      final_record st @ ring_bytes sz ?buf ((sc_writer sc + 5) mod int sz) 4"
    using ring_bytes_split [of 5 9 sz ?buf "sc_writer sc"] by simp
  then have "\<exists>junk. scan_stream sc' = scan_stream sc @ final_record st @ junk \<and> length junk = 4"
    using b ok(2) unfolding sc' by (simp add: scan_stream_def)
  moreover have "scan_ok sz sc'"
    using ok unfolding sc' by (auto simp: scan_ok_def)
  ultimately show ?thesis
    using s' by (simp add: sc')
qed

lemma scan_read_cases:
  assumes ok: "scan_ok (sd_buf_size s) sc" "sc_bytes sc = 0" "sc_status sc = SANE_STATUS_GOOD"
    and c: "read_contract be bh" and r: "scan_read be bh sc s = (sc', s')"
  obtains (good) n b' d where "b_read be (sd_be s) bh n = (b', SANE_STATUS_GOOD, d)" "0 < n" "n < sd_buf_size s" "s' = s\<lparr>sd_be := b'\<rparr>"
      "scan_ok (sd_buf_size s) sc'" "sc_status sc' = SANE_STATUS_GOOD" "\<not> sc_dirty sc'" "sc_sent sc' = sc_sent sc"
      "scan_stream sc' = scan_stream sc @ frame d"
  | (bad) n b' st where "b_read be (sd_be s) bh n = (b', st, [])" "0 < n" "n < sd_buf_size s" "st \<noteq> SANE_STATUS_GOOD" "s' = s\<lparr>sd_be := b'\<rparr>"
      "sc' = sc\<lparr>sc_status := st, sc_bytes := 4, sc_dirty := True\<rparr>" "st \<le> SANE_STATUS_ACCESS_DENIED"
proof -
  define sz where "sz = sd_buf_size s"
  define i where "i = sc_reader sc"
  define reader where "reader = (i + 4) mod int sz"
  have sz: "length (sc_buf sc) = sz" "9 \<le> sz" "sz < 2 ^ 31" "0 \<le> i" "i < int sz" "i = sc_writer sc"
    using ok by (auto simp: scan_ok_def sz_def i_def)
  have reader: "(if i + 4 \<ge> int sz then i + 4 - int sz else i + 4) = reader"
  proof (cases "i + 4 \<ge> int sz")
    case True
    then have "(i + 4 - int sz) mod int sz = i + 4 - int sz"
      using sz by (intro mod_pos_pos_trivial) auto
    with True show ?thesis by (simp add: reader_def)
  qed (use sz in \<open>simp add: reader_def\<close>)
  have rb: "0 \<le> reader" "reader < int sz"
    using sz by (auto simp: reader_def)
  define n where "n = nat (if reader + (int sz - 4) > int sz then int sz - reader else int sz - 4)"
  have n: "0 < n" "n < sd_buf_size s"
    using rb sz by (auto simp: n_def sz_def)
  obtain b' st d where rd: "b_read be (sd_be s) bh n = (b', st, d)" by (metis prod_cases3)
  have d: "length d \<le> n" "st \<noteq> SANE_STATUS_GOOD \<Longrightarrow> d = []" "st \<le> SANE_STATUS_ACCESS_DENIED"
    using c rd unfolding read_contract_def by blast+
  then have dl: "reader + int (length d) \<le> int sz" "int (length d) \<le> int sz - 4"
    using rb sz by (auto simp: n_def split: if_splits)
  then have flt: "(reader < 0) = False" "(int (length (sc_buf sc)) < reader + int (length d)) = False"
    using rb sz by simp_all
  have bl: "blit (sc_buf sc) (nat reader) d = ring_put sz (sc_buf sc) reader d"
    using ring_put_blit [of "sc_buf sc" sz "nat reader" d] rb dl sz by simp
  define sc1 where "sc1 = sc\<lparr>sc_buf := ring_put sz (sc_buf sc) reader d, sc_status := st,
      sc_reader := (if int sz \<le> reader + int (length d) then 0 else reader + int (length d)),
      sc_bytes := int (length d) + 4\<rparr>"
  have eq: "scan_read be bh sc s =
      (if st \<noteq> SANE_STATUS_GOOD then (sc1\<lparr>sc_reader := i, sc_dirty := True\<rparr>, s\<lparr>sd_be := b'\<rparr>)
       else with_buf (fst (store_reclen (sc_buf sc1) sz i (word_of_int (int (length d))))) sc1 (s\<lparr>sd_be := b'\<rparr>))"
    unfolding scan_read_def Let_def sz_def [symmetric] i_def [symmetric] reader n_def [symmetric] rd prod.case flt bl
    using ok(2) by (simp add: sc1_def)
  show thesis
  proof (cases "st = SANE_STATUS_GOOD")
    case False
    then show thesis
      using r eq d rd n by (intro bad [of n b' st]) (auto simp: sc1_def i_def)
  next
    case True
    define buf where "buf = ring_put sz (ring_put sz (sc_buf sc) reader d) i (be32 (word_of_nat (length d)))"
    have reader2: "(if int sz \<le> reader + int (length d) then 0 else reader + int (length d)) =
        (i + (int (length d) + 4)) mod int sz"
    proof -
      have "(if int sz \<le> reader + int (length d) then 0 else reader + int (length d)) = (reader + int (length d)) mod int sz"
        using dl rb by auto
      also have "\<dots> = (i + (int (length d) + 4)) mod int sz"
        by (simp add: reader_def mod_simps ac_simps)
      finally show ?thesis .
    qed
    have sc': "sc' = sc\<lparr>sc_buf := buf, sc_reader := (i + (int (length d) + 4)) mod int sz,
        sc_bytes := int (length d) + 4, sc_status := SANE_STATUS_GOOD\<rparr>" and s': "s' = s\<lparr>sd_be := b'\<rparr>"
      using r eq True sz store_reclen_ring [of "ring_put sz (sc_buf sc) reader d" sz i]
      by (auto simp: sc1_def reader2 buf_def with_buf_def)
    have "ring_bytes sz buf i (int (length d) + 4) = frame d"
    proof -
      let ?h = "be32 (word_of_nat (length d))" and ?b1 = "ring_put sz (sc_buf sc) reader d"
      have "ring_bytes sz buf i 4 = ?h"
        using ring_bytes_put [of ?b1 sz 0 ?h i] sz by (simp add: buf_def be32_length)
      moreover have "ring_bytes sz buf reader (int (length d)) = d"
      proof (rule nth_equalityI)
        fix k assume "k < length (ring_bytes sz buf reader (int (length d)))"
        then have k: "k < length d" by simp
        have m: "(int k - - 4) mod int sz = int k + 4" "(int k - 0) mod int sz = int k"
          using k dl sz by auto
        have "i = (reader + - 4) mod int sz"
          using sz by (simp add: reader_def mod_simps)
        then have "buf ! ring_index sz reader k = ?b1 ! ring_index sz reader k"
          using ring_put_at [of ?b1 sz ?h reader "- 4" k] sz m by (simp add: buf_def be32_length)
        also have "\<dots> = d ! k"
          using ring_put_at [of "sc_buf sc" sz d reader 0 k] sz rb m k dl by simp
        finally show "ring_bytes sz buf reader (int (length d)) ! k = d ! k"
          using k by (simp add: ring_bytes_def)
      qed simp
      ultimately show ?thesis
        using ring_bytes_split [of 4 "int (length d) + 4" sz buf i] by (simp add: frame_def reader_def)
    qed
    then have "scan_stream sc' = scan_stream sc @ frame d"
      using ok sz unfolding sc' by (simp add: scan_stream_def buf_def)
    moreover have "scan_ok sz sc'"
      using ok dl sz unfolding sc' by (auto simp: scan_ok_def sz_def buf_def)
    ultimately show thesis
      using rd s' ok True n by (intro good [of n b' d]) (auto simp: sc' sz_def scan_ok_def)
  qed
qed

section \<open>The stream of a scan\<close>

definition read_log :: "('b \<Rightarrow> byte list) \<Rightarrow> 'b backend \<Rightarrow> sane_handle \<Rightarrow> bool" where
  \<comment> \<open>a view of the backend's state that records the data of every successful read\<close>
  "read_log log be bh \<longleftrightarrow>
     (\<forall>b n b' st d. b_read be b bh n = (b', st, d) \<longrightarrow>
        log b' = (if st = SANE_STATUS_GOOD then log b @ frame d else log b))"

definition status_tail :: "sane_word \<Rightarrow> byte list \<Rightarrow> bool" where
  \<comment> \<open>the final record with this status, and what a reader has to ignore behind it\<close>
  "status_tail st t \<longleftrightarrow> (\<exists>junk. t = final_record st @ junk \<and> length junk \<le> 4) \<and>
     st \<noteq> SANE_STATUS_GOOD \<and> st \<le> SANE_STATUS_ACCESS_DENIED"

definition stream_tail :: "byte list \<Rightarrow> bool" where
  "stream_tail t \<longleftrightarrow> (\<exists>st. status_tail st t)"

lemma status_tailI:
  "length junk \<le> 4 \<Longrightarrow> st \<noteq> SANE_STATUS_GOOD \<Longrightarrow> st \<le> SANE_STATUS_ACCESS_DENIED \<Longrightarrow> status_tail st (final_record st @ junk)"
  by (auto simp: status_tail_def)

definition scan_inv :: "nat \<Rightarrow> byte list \<Rightarrow> byte list \<Rightarrow> scan_state \<Rightarrow> bool" where
  "scan_inv sz start now sc \<longleftrightarrow> scan_ok sz sc \<and>
     (\<exists>new tail. now = start @ new \<and> scan_stream sc = new @ tail \<and>
        (if sc_status sc = SANE_STATUS_GOOD \<or> sc_dirty sc then tail = [] else stream_tail tail))"

definition scan_sends :: "(sane_word \<Rightarrow> 'b \<Rightarrow> byte list \<Rightarrow> bool) \<Rightarrow> nat \<Rightarrow> byte list \<Rightarrow> byte list \<Rightarrow> scan_state \<Rightarrow> 'b \<Rightarrow> bool" where
  \<comment> \<open>the same, with a relation \<open>Q status b log\<close> of the backend's state to the log that holds for the current
      status and for the one in the final record\<close>
  "scan_sends Q sz start now sc b \<longleftrightarrow> scan_ok sz sc \<and> Q (sc_status sc) b now \<and>
     (\<exists>new tail. now = start @ new \<and> scan_stream sc = new @ tail \<and>
        (if sc_status sc = SANE_STATUS_GOOD \<or> sc_dirty sc then tail = [] else \<exists>st. status_tail st tail \<and> Q st b now))"

lemma scan_inv_sends: "scan_inv sz start (lg b) sc \<longleftrightarrow> scan_sends (\<lambda>st b log. log = lg b) sz start (lg b) sc b"
  by (simp add: scan_inv_def scan_sends_def stream_tail_def)

lemma set_slot_parts [simp]:
  "sd_be (set_slot s h f) = sd_be s" "sd_buf_size (set_slot s h f) = sd_buf_size s" "sd_data (set_slot s h f) = sd_data s"
  by (simp_all add: set_slot_def sd_fail_def split: option.split)

definition read_keeps :: "(sane_word \<Rightarrow> 'b \<Rightarrow> byte list \<Rightarrow> bool) \<Rightarrow> 'b backend \<Rightarrow> sane_handle \<Rightarrow> nat \<Rightarrow> bool" where
  \<comment> \<open>\<open>Q status b log\<close> relates the backend's state to the last status and to the records of the reads up to
      now, and reads of less than \<open>sz\<close> bytes keep it\<close>
  "read_keeps Q be bh sz \<longleftrightarrow>
     (\<forall>b log n b' st d. Q SANE_STATUS_GOOD b log \<longrightarrow> 0 < n \<longrightarrow> n < sz \<longrightarrow> b_read be b bh n = (b', st, d) \<longrightarrow>
        Q st b' (if st = SANE_STATUS_GOOD then log @ frame d else log))"

lemma read_log_keeps: "read_log lg be bh \<Longrightarrow> read_keeps (\<lambda>st b log. log = lg b) be bh sz"
  by (auto simp: read_log_def read_keeps_def)

lemma scan_data_keeps:
  assumes inv: "scan_sends Q (sd_buf_size s) start now sc (sd_be s)"
    and c: "read_contract be bh" "read_keeps Q be bh (sd_buf_size s)"
    and r: "scan_data be h bh poll be_rdy data_rdy wr sc s = (sc', s', brk)"
  shows "sd_buf_size s' = sd_buf_size s \<and> sd_data s' = sd_data s \<and>
    (if brk then sc' = sc\<lparr>sc_status := SANE_STATUS_CANCELLED\<rparr> \<and> sd_be s' = sd_be s
     else (\<exists>now'. scan_sends Q (sd_buf_size s) start now' sc' (sd_be s')) \<and> sd_fault s' = sd_fault s)"
proof -
  obtain new tail where ok: "scan_ok (sd_buf_size s) sc" and q: "Q (sc_status sc) (sd_be s) now" and log: "now = start @ new"
    "scan_stream sc = new @ tail"
    "if sc_status sc = SANE_STATUS_GOOD \<or> sc_dirty sc then tail = [] else \<exists>st. status_tail st tail \<and> Q st (sd_be s) now"
    using inv unfolding scan_sends_def by blast
  have keep: ?thesis
    if "scan_ok (sd_buf_size s) sc1" "scan_stream sc1 = scan_stream sc" "sc_status sc1 = sc_status sc"
      "sc_dirty sc1 = sc_dirty sc" "(case scan_status sc1 s of (sc2, s2) \<Rightarrow> (sc2, s2, False)) = (sc', s', brk)" for sc1
  proof -
    have s: "scan_status sc1 s = (sc', s')" "\<not> brk"
      using that(5) by (auto split: prod.splits)
    have "\<exists>tail. scan_stream sc' = new @ tail \<and>
        (if sc_status sc' = SANE_STATUS_GOOD \<or> sc_dirty sc' then tail = [] else \<exists>st. status_tail st tail \<and> Q st (sd_be s) now)"
    proof (cases "sc_dirty sc \<and> sc_bytes sc1 + 5 \<le> int (sd_buf_size s)")
      case True
      then have "status_tail (sc_status sc) (final_record (sc_status sc))" "sc_status sc \<noteq> SANE_STATUS_GOOD"
        using ok status_tailI [of "[]" "sc_status sc"] by (auto simp: scan_ok_def)
      with True show ?thesis
        using scan_status_ok [OF that(1) s(1)] that log q by (intro exI [of _ "final_record (sc_status sc)"]) auto
    next
      case False
      then show ?thesis
        using scan_status_ok [OF that(1) s(1)] that log by (intro exI [of _ tail]) auto
    qed
    then have "scan_sends Q (sd_buf_size s) start now sc' (sd_be s')"
      using scan_status_ok [OF that(1) s(1)] log(1) q that(3) by (auto simp: scan_sends_def)
    then show ?thesis
      using scan_status_ok [OF that(1) s(1)] s(2) by auto
  qed
  consider (put) "sc_bytes sc \<noteq> 0" "data_rdy \<and> 0 < sc_bytes sc"
    | (get) "sc_bytes sc = 0" "sc_status sc = SANE_STATUS_GOOD \<and> (poll \<or> be_rdy)"
    | (idle) "\<not> (sc_bytes sc \<noteq> 0 \<and> data_rdy \<and> 0 < sc_bytes sc)"
        "\<not> (sc_bytes sc = 0 \<and> sc_status sc = SANE_STATUS_GOOD \<and> (poll \<or> be_rdy))"
    by blast
  then show ?thesis
  proof cases
    case put
    show ?thesis
    proof (cases wr)
      case None
      with put r show ?thesis by (auto simp: scan_data_def scan_write_def Let_def)
    next
      case (Some k)
      obtain sc1 s1 b1 where w: "scan_write h (Some k) sc s = (sc1, s1, b1)" by (metis prod_cases3)
      then show ?thesis
        using scan_write_ok [OF ok w] r put Some by (intro keep [of sc1]) (auto simp: scan_data_def)
    qed
  next
    case get
    obtain sc1 s1 where rd: "scan_read be bh sc s = (sc1, s1)" by (metis surj_pair)
    have st: "scan_status sc1 s1 = (sc', s')" "\<not> brk"
      using r get rd by (auto simp: scan_data_def split: prod.splits)
    have t: "tail = []" using log get by simp
    have q: "Q SANE_STATUS_GOOD (sd_be s) now" using q get(2) by simp
    from ok get(1) conjunct1 [OF get(2)] c(1) rd show ?thesis
    proof (cases rule: scan_read_cases)
      case (good n b' d)
      have "Q SANE_STATUS_GOOD b' (start @ new @ frame d)"
        using c(2) [unfolded read_keeps_def, rule_format, OF q good(2,3,1)] log(1) by simp
      moreover have "scan_status sc1 s1 = (sc1, s1)"
        using good by (simp add: scan_status_def)
      ultimately show ?thesis
        using good st log t by (auto simp: scan_sends_def intro: exI [of _ "start @ new @ frame d"])
    next
      case (bad n b' st')
      have "Q st' b' now"
        using c(2) [unfolded read_keeps_def, rule_format, OF q bad(2,3,1)] bad(4) by simp
      moreover have p: "s' = s1" "scan_ok (sd_buf_size s) sc'" "sc_status sc' = st'" "\<not> sc_dirty sc'"
        "\<exists>junk. scan_stream sc' = scan_stream sc @ final_record st' @ junk \<and> length junk = 4"
        using stale_record [OF ok get(1) conjunct1 [OF get(2)] bad(4,7), of s1 sc' s'] st bad by auto
      moreover obtain junk where "scan_stream sc' = new @ final_record st' @ junk" "length junk = 4"
        using p(5) log(2) t by auto
      moreover from this have "status_tail st' (final_record st' @ junk)" using bad(4,7) by (intro status_tailI) simp_all
      ultimately have "scan_sends Q (sd_buf_size s) start now sc' b'"
        using log(1) bad(4) unfolding scan_sends_def by auto
      with p(1) show ?thesis
        using bad(5) st(2) by auto
    qed
  next
    case idle
    then show ?thesis
      using r ok by (intro keep [of sc]) (auto simp: scan_data_def split: if_splits)
  qed
qed

lemma scan_data_inv:
  assumes inv: "scan_inv (sd_buf_size s) start (lg (sd_be s)) sc" and c: "read_contract be bh" "read_log lg be bh"
    and r: "scan_data be h bh poll be_rdy data_rdy wr sc s = (sc', s', brk)"
  shows "sd_buf_size s' = sd_buf_size s \<and> sd_data s' = sd_data s \<and>
    (if brk then sc' = sc\<lparr>sc_status := SANE_STATUS_CANCELLED\<rparr> \<and> sd_be s' = sd_be s
     else scan_inv (sd_buf_size s) start (lg (sd_be s')) sc' \<and> sd_fault s' = sd_fault s)"
  using scan_data_keeps [OF inv [unfolded scan_inv_sends] c(1) read_log_keeps [OF c(2)] r]
  by (auto simp: scan_inv_sends) (auto simp: scan_sends_def)

lemma with_buf_befd [simp]: "sc_befd (fst (with_buf buf sc s)) = sc_befd sc"
  by (simp add: with_buf_def split: option.split)

lemma scan_parts_befd:
  "sc_befd (fst (scan_write h wr sc s)) = sc_befd sc" "sc_befd (fst (scan_read be bh sc s)) = sc_befd sc"
  "sc_befd (fst (scan_status sc s)) = sc_befd sc"
  by (simp_all add: scan_write_def scan_read_def scan_status_def Let_def split: option.split prod.split)

lemma scan_data_befd:
  assumes "scan_data be h bh poll be_rdy data_rdy wr sc s = (sc', s', brk)"
  shows "sc_befd sc' = sc_befd sc"
proof -
  have "sc_befd (fst (scan_data be h bh poll be_rdy data_rdy wr sc s)) = sc_befd sc"
    using scan_parts_befd(1) [of h wr sc s] scan_parts_befd(2) [of be bh sc s] unfolding scan_data_def Let_def
    by (auto simp: split_beta scan_parts_befd(3))
  with assms show ?thesis by simp
qed

definition rpc_keeps :: "('b \<Rightarrow> byte list) \<Rightarrow> ('b saned \<Rightarrow> ('b saned \<times> int) option) \<Rightarrow> bool" where
  \<comment> \<open>requests served during the scan leave the buffer size and the log alone\<close>
  "rpc_keeps lg rpc \<longleftrightarrow>
     (\<forall>s s' r. rpc s = Some (s', r) \<longrightarrow> sd_buf_size s' = sd_buf_size s \<and> lg (sd_be s') = lg (sd_be s))"

definition scan_ends :: "(sane_word \<Rightarrow> 'b \<Rightarrow> byte list \<Rightarrow> bool) \<Rightarrow> byte list \<Rightarrow> byte list \<Rightarrow> scan_state \<Rightarrow> 'b \<Rightarrow> bool" where
  "scan_ends Q start now sc b \<longleftrightarrow> (\<exists>st. Q st b now) \<and>
     (\<exists>new tail. now = start @ new \<and> scan_stream sc = new @ tail \<and> (tail = [] \<or> (\<exists>st. status_tail st tail \<and> Q st b now)) \<and>
        (\<not> scan_more sc \<longrightarrow> scan_stream sc = sc_sent sc \<and>
           (sc_status sc \<noteq> SANE_STATUS_IO_ERROR \<and> sc_status sc \<noteq> SANE_STATUS_CANCELLED \<longrightarrow>
              (\<exists>st. status_tail st tail \<and> Q st b now))))"

lemma scan_sendsE:
  assumes "scan_sends Q sz start now sc b"
  obtains new tail where "scan_ok sz sc" "Q (sc_status sc) b now" "now = start @ new" "scan_stream sc = new @ tail"
    "tail = [] \<and> (sc_status sc = SANE_STATUS_GOOD \<or> sc_dirty sc) \<or>
     (\<exists>st. status_tail st tail \<and> Q st b now) \<and> sc_status sc \<noteq> SANE_STATUS_GOOD \<and> \<not> sc_dirty sc"
  using assms unfolding scan_sends_def by (metis (full_types))

lemma scan_stream_empty: "sc_bytes sc \<le> 0 \<Longrightarrow> scan_stream sc = sc_sent sc"
  by (simp add: scan_stream_def ring_bytes_def)

lemma scan_sends_end: "scan_sends Q sz start now sc b \<Longrightarrow> scan_ends Q start now sc b"
  by (erule scan_sendsE) (auto simp: scan_ends_def scan_more_def scan_stream_empty)

lemma scan_sends_broken:
  assumes "scan_sends Q sz start now sc b" "st = SANE_STATUS_IO_ERROR \<or> st = SANE_STATUS_CANCELLED"
  shows "scan_ends Q start now (sc\<lparr>sc_status := st\<rparr>) b"
proof -
  have "scan_stream (sc\<lparr>sc_status := st\<rparr>) = scan_stream sc" by (simp add: scan_stream_def)
  with assms scan_stream_empty [of sc] show ?thesis
    by (elim scan_sendsE) (auto simp: scan_ends_def scan_more_def)
qed

lemma scan_sends_eof:
  assumes "scan_sends Q sz start now sc b" "Q (sc_status sc) b now \<Longrightarrow> Q SANE_STATUS_EOF b now"
  shows "scan_sends Q sz start now (sc\<lparr>sc_befd := f, sc_dirty := (sc_dirty sc \<or> sc_status sc = SANE_STATUS_GOOD),
      sc_status := SANE_STATUS_EOF\<rparr>) b" (is "scan_sends _ _ _ _ ?sc _")
proof -
  have "scan_stream ?sc = scan_stream sc" by (simp add: scan_stream_def)
  moreover have "scan_ok sz sc \<Longrightarrow> scan_ok sz ?sc" by (auto simp: scan_ok_def)
  ultimately show ?thesis
    using assms by (elim scan_sendsE) (auto simp: scan_sends_def)
qed

lemma scan_ends_done:
  assumes "scan_ends Q start now sc b" "\<not> scan_more sc" "sc_status sc \<noteq> SANE_STATUS_IO_ERROR" "sc_status sc \<noteq> SANE_STATUS_CANCELLED"
  obtains new tail st where "now = start @ new" "sc_sent sc = new @ tail" "status_tail st tail" "Q st b now"
  using assms unfolding scan_ends_def by metis

lemma scan_loop_ready:
  assumes "scan_loop rpc be h bh poll (Sel_Ready be_rdy data_rdy ctl_rdy wr # evs) sc s = Some (sc', s')"
    and d: "scan_data be h bh poll be_rdy data_rdy wr sc s = (sc1, s1, False)"
  obtains s2 where "s2 = s1 \<or> (\<exists>s3 r. rpc s1 = Some (s3, r) \<and> (s2 = s3 \<or> s2 = set_slot s3 (uint h) (\<lambda>x. x\<lparr>hs_docancel := True\<rparr>)))"
    and "(sc', s') = (sc1, s2) \<or> (sc', s') = (sc1, sd_fail s2) \<or> scan_loop rpc be h bh poll evs sc1 s2 = Some (sc', s')"
proof (cases ctl_rdy)
  case False
  then show thesis
    using assms(1) d by (intro that [of s1]) (auto split: if_splits)
next
  case True
  with assms(1) d obtain s3 r where r: "rpc s1 = Some (s3, r)"
    by (auto simp: bind_eq_Some_conv)
  define s2 where "s2 = (if r < 0 then set_slot s3 (uint h) (\<lambda>x. x\<lparr>hs_docancel := True\<rparr>) else s3)"
  show thesis
  proof (rule that [of s2])
    show "(sc', s') = (sc1, s2) \<or> (sc', s') = (sc1, sd_fail s2) \<or> scan_loop rpc be h bh poll evs sc1 s2 = Some (sc', s')"
      using assms(1) d True r unfolding scan_loop.simps d prod.case
      by (simp add: s2_def [symmetric] Let_def split: option.splits if_splits)
  qed (use r in \<open>auto simp: s2_def\<close>)
qed

lemma scan_loop_keeps:
  assumes "read_contract be bh" "read_keeps Q be bh sz"
    and rpc: "\<And>s s' r. rpc s = Some (s', r) \<Longrightarrow>
      sd_buf_size s' = sd_buf_size s \<and> (\<forall>st log. Q st (sd_be s) log \<longrightarrow> Q st (sd_be s') log)"
  shows "scan_loop rpc be h bh poll evs sc s = Some (sc', s') \<Longrightarrow> scan_sends Q sz start now sc (sd_be s) \<Longrightarrow> sd_buf_size s = sz \<Longrightarrow>
    (\<And>st b log. sc_befd sc \<Longrightarrow> Sel_Error True \<in> set evs \<Longrightarrow> Q st b log \<Longrightarrow> Q SANE_STATUS_EOF b log) \<Longrightarrow>
    \<exists>now'. scan_ends Q start now' sc' (sd_be s')"
proof (induction evs arbitrary: sc s now)
  case Nil
  then show ?case by (auto intro!: exI [of _ now] intro: scan_sends_broken)
next
  case (Cons e evs)
  show ?case
  proof (cases e)
    case (Sel_Error badf)
    let ?sc = "sc\<lparr>sc_befd := False, sc_dirty := (sc_dirty sc \<or> sc_status sc = SANE_STATUS_GOOD), sc_status := SANE_STATUS_EOF\<rparr>"
    have i: "scan_sends Q sz start now ?sc (sd_be s)" if "sc_befd sc" "badf"
      using Sel_Error that Cons.prems(4) by (intro scan_sends_eof [OF Cons.prems(2)]) simp
    consider "s' = s" "sc' = sc\<lparr>sc_status := SANE_STATUS_IO_ERROR\<rparr>" | "s' = s" "sc' = ?sc" "sc_befd sc" "badf"
      | "scan_loop rpc be h bh poll evs ?sc s = Some (sc', s')" "sc_befd sc" "badf"
      using Cons.prems(1) unfolding Sel_Error scan_loop.simps Let_def by (metis option.inject prod.inject)
    then show ?thesis
    proof cases
      case 1
      with Cons.prems(2) show ?thesis by (auto intro!: exI [of _ now] intro: scan_sends_broken)
    next
      case 2
      with scan_sends_end [OF i] show ?thesis by auto
    next
      case 3
      show ?thesis by (rule Cons.IH [OF 3(1) i [OF 3(2,3)] Cons.prems(3)]) simp
    qed
  next
    case (Sel_Ready be_rdy data_rdy ctl_rdy wr)
    obtain sc1 s1 brk where d: "scan_data be h bh poll be_rdy data_rdy wr sc s = (sc1, s1, brk)" by (metis prod_cases3)
    note inv = scan_data_keeps [OF Cons.prems(2) [folded Cons.prems(3)] assms(1) assms(2) [folded Cons.prems(3)] d]
    show ?thesis
    proof (cases brk)
      case True
      with inv Cons.prems d Sel_Ready show ?thesis by (auto intro!: exI [of _ now] intro: scan_sends_broken)
    next
      case False
      with inv Cons.prems(3) obtain now1 where n: "scan_sends Q sz start now1 sc1 (sd_be s1)" "sd_buf_size s1 = sz"
        by auto
      obtain s2 where s2: "s2 = s1 \<or> (\<exists>s3 r. rpc s1 = Some (s3, r) \<and> (s2 = s3 \<or> s2 = set_slot s3 (uint h) (\<lambda>x. x\<lparr>hs_docancel := True\<rparr>)))"
        "(sc', s') = (sc1, s2) \<or> (sc', s') = (sc1, sd_fail s2) \<or> scan_loop rpc be h bh poll evs sc1 s2 = Some (sc', s')"
        by (rule scan_loop_ready [OF Cons.prems(1) [unfolded Sel_Ready]]) (use d False in simp_all)
      have "(\<forall>st. Q st (sd_be s1) now1 \<longrightarrow> Q st (sd_be s2) now1) \<and> sd_buf_size s2 = sz"
        using s2(1) rpc [of s1] n(2) by auto
      then have q: "sd_buf_size s2 = sz" "scan_sends Q sz start now1 sc1 (sd_be s2)"
        using n(1) unfolding scan_sends_def by (simp, metis)
      from s2(2) show ?thesis
      proof (elim disjE)
        assume l: "scan_loop rpc be h bh poll evs sc1 s2 = Some (sc', s')"
        show ?thesis
          using Cons.prems(4) scan_data_befd [OF d] by (intro Cons.IH [OF l q(2,1)]) simp
      qed (use scan_sends_end [OF q(2)] in \<open>auto simp: sd_fail_def\<close>)
    qed
  qed
qed

lemma scan_loop_end:
  assumes "read_contract be bh" "read_log lg be bh" "rpc_keeps lg rpc"
    and "scan_loop rpc be h bh poll evs sc s = Some (sc', s')" "scan_inv (sd_buf_size s) start (lg (sd_be s)) sc"
  shows "scan_ends (\<lambda>st b log. log = lg b) start (lg (sd_be s')) sc' (sd_be s')"
proof -
  let ?Q = "\<lambda>st b log. log = lg b"
  have "\<And>s s' r. rpc s = Some (s', r) \<Longrightarrow>
      sd_buf_size s' = sd_buf_size s \<and> (\<forall>st log. ?Q st (sd_be s) log \<longrightarrow> ?Q st (sd_be s') log)"
    using assms(3) unfolding rpc_keeps_def by metis
  then obtain now where "scan_ends ?Q start now sc' (sd_be s')"
    using scan_loop_keeps [where Q = ?Q, OF assms(1) read_log_keeps [OF assms(2)] _ assms(4) assms(5) [unfolded scan_inv_sends] refl]
    by blast
  moreover from this have "now = lg (sd_be s')" by (simp add: scan_ends_def)
  ultimately show ?thesis by simp
qed

section \<open>Properties\<close>

definition scan_start :: "nat \<Rightarrow> byte \<Rightarrow> bool \<Rightarrow> scan_state" where
  \<comment> \<open>the state in which \<open>do_scan\<close> enters its loop\<close>
  "scan_start sz junk has_fd = \<lparr>sc_buf = replicate sz junk, sc_reader = 0, sc_writer = 0, sc_bytes = 0,
     sc_status = SANE_STATUS_GOOD, sc_dirty = False, sc_befd = has_fd, sc_sent = []\<rparr>"

lemma scan_start_inv: "9 \<le> sz \<Longrightarrow> sz < 2 ^ 31 \<Longrightarrow> scan_inv sz lg lg (scan_start sz junk has_fd)"
  by (simp add: scan_inv_def scan_ok_def scan_start_def scan_stream_def)

text \<open> C28: a turn of the scan loop never leaves the ring buffer.  From a state in which the buffer
  holds \<open>sc_bytes\<close> bytes between two positions inside it, a turn that moves data with a backend
  that keeps the contract of \<open>sane_read\<close> leads to such a state again, whatever the descriptors
  and the \<open>write\<close> do, and no access leaves the buffer; a failed \<open>write\<close> only changes the status.\<close>

theorem scan_turn_in_bounds:
  assumes "scan_inv (sd_buf_size s) start (lg (sd_be s)) sc" "read_contract be bh" "read_log lg be bh"
    and "scan_data be h bh poll be_rdy data_rdy wr sc s = (sc', s', brk)"
  shows "if brk then sc' = sc\<lparr>sc_status := SANE_STATUS_CANCELLED\<rparr>
    else scan_inv (sd_buf_size s') start (lg (sd_be s')) sc' \<and> sd_fault s' = sd_fault s"
  using scan_data_inv [OF assms] by (auto split: if_splits)

text \<open> C2: what goes over the data connection.  However the descriptors become ready and however
  many bytes each \<open>write\<close> takes, the bytes sent are a prefix of the image stream: one record of
  length and data for every successful \<open>sane_read\<close>, in order, then perhaps the final record with
  the length \<open>0xffffffff\<close> and a status.  When the loop ends by itself everything of it has been
  sent, and the final record is there unless \<open>select\<close> or \<open>write\<close> failed; up to four stale bytes
  of the buffer follow it.\<close>

theorem scan_loop_sends_image:
  assumes "read_contract be bh" "read_log lg be bh" "rpc_keeps lg rpc" "9 \<le> sd_buf_size s" "sd_buf_size s < 2 ^ 31"
    and "scan_loop rpc be h bh poll evs (scan_start (sd_buf_size s) junk has_fd) s = Some (sc', s')"
  shows "\<exists>image tail rest. lg (sd_be s') = lg (sd_be s) @ image \<and> sc_sent sc' @ rest = image @ tail \<and>
    (tail = [] \<or> stream_tail tail) \<and>
    (\<not> scan_more sc' \<longrightarrow> rest = [] \<and>
       (sc_status sc' \<noteq> SANE_STATUS_IO_ERROR \<and> sc_status sc' \<noteq> SANE_STATUS_CANCELLED \<longrightarrow> stream_tail tail))"
  using scan_loop_end [OF assms(1-3) assms(6) scan_start_inv [OF assms(4,5)]]
  by (auto simp: scan_ends_def scan_stream_def stream_tail_def)

definition scan_backend :: "(byte list \<times> byte list list) backend" where
  \<comment> \<open>a scanner that delivers the pieces of an image, and keeps a log\<close>
  "scan_backend = \<lparr>b_init = (\<lambda>b. (b, 0, 0)), b_get_devices = (\<lambda>b l. (b, 0, Some [None])),
     b_open = (\<lambda>b n. Ret (b, 0, 1)), b_close = (\<lambda>b h. b), b_descriptor = (\<lambda>b h i. None),
     b_control = (\<lambda>b h i a v. Ret (b, 0, v, 0)), b_params = (\<lambda>b h. (b, 0, zero_parameters)),
     b_start = (\<lambda>b h. Ret (b, 0)),
     b_read = (\<lambda>b h n. case b of (l, []) \<Rightarrow> ((l, []), SANE_STATUS_EOF, [])
        | (l, c # cs) \<Rightarrow> ((l @ frame (take n c), cs), SANE_STATUS_GOOD, take n c)),
     b_cancel = (\<lambda>b h. b), b_set_io_mode = (\<lambda>b h m. (b, 0)), b_select_fd = (\<lambda>b h. (b, 1, 0)), b_exit = (\<lambda>b. b),
     b_authorize = (\<lambda>r. Ret 0)\<rparr>"

lemma scan_backend_laws: "read_contract scan_backend bh" "read_log fst scan_backend bh"
  by (auto simp: read_contract_def read_log_def scan_backend_def split: list.splits prod.splits)

definition ex_scanning :: "byte list list \<Rightarrow> (byte list \<times> byte list list) saned" where
  "ex_scanning pieces = \<lparr>sd_wire = ex_wire, sd_handle = Some [zero_slot\<lparr>hs_inuse := True\<rparr>], sd_num = 1, sd_last = 0,
     sd_request = 0, sd_can_auth = False, sd_remote_ip = [], sd_user = [], sd_allow_net = False, sd_little = True,
     sd_port_lo = 0, sd_port_hi = 0, sd_buf_size = 16, sd_alloc = [], sd_scans = [], sd_data = [],
     sd_be = ([], pieces), sd_fault = False\<rparr>"

definition ex_events :: "sel_event list" where
  "ex_events = Sel_Ready True True False (Some 5) # replicate 8 (Sel_Ready True True False (Some 7))"

lemma scan_turn_in_bounds_witness:
  "sd_fault (fst (snd (scan_data scan_backend 0 0 True False False None (scan_start 16 0 False) (ex_scanning [[1, 2]])))) = False"
proof -
  let ?s = "ex_scanning [[1, 2]]"
  obtain sc' s' where r: "scan_data scan_backend 0 0 True False False None (scan_start 16 0 False) ?s = (sc', s', False)"
    by (cases "scan_data scan_backend 0 0 True False False None (scan_start 16 0 False) ?s")
      (auto simp: scan_data_def scan_start_def ex_scanning_def Let_def split: prod.splits if_splits)
  have i: "scan_inv (sd_buf_size ?s) [] (fst (sd_be ?s)) (scan_start 16 0 False)"
    using scan_start_inv [of 16 "[]" 0 False] by (simp add: ex_scanning_def)
  from scan_turn_in_bounds [OF i scan_backend_laws r] show ?thesis
    by (simp add: r) (simp add: ex_scanning_def)
qed

lemma scan_loop_sends_image_witness:
  "\<exists>sc' s' tail. scan_loop (\<lambda>s. Some (s, 0)) scan_backend 0 0 True ex_events (scan_start 16 0 False)
       (ex_scanning [[1, 2, 3], [4]]) = Some (sc', s') \<and>
     sc_sent sc' = frame [1, 2, 3] @ frame [4] @ tail \<and> stream_tail tail"
proof -
  let ?s = "ex_scanning [[1, 2, 3], [4]]" and ?rpc = "\<lambda>s. Some (s, 0)"
  have k: "rpc_keeps fst ?rpc" by (simp add: rpc_keeps_def)
  obtain sc' s' where r: "scan_loop ?rpc scan_backend 0 0 True ex_events (scan_start (sd_buf_size ?s) 0 False) ?s = Some (sc', s')"
    and e: "\<not> scan_more sc'" "sc_status sc' = SANE_STATUS_EOF" "fst (sd_be s') = frame [1, 2, 3] @ frame [4]" "fst (sd_be ?s) = []"
  proof -
    have "(case scan_loop ?rpc scan_backend 0 0 True ex_events (scan_start (sd_buf_size ?s) 0 False) ?s of
        Some (sc', s') \<Rightarrow> \<not> scan_more sc' \<and> sc_status sc' = SANE_STATUS_EOF \<and> fst (sd_be s') = frame [1, 2, 3] @ frame [4]
      | None \<Rightarrow> False)" by code_simp
    then show thesis using that by (auto simp: ex_scanning_def split: option.splits prod.splits)
  qed
  have b: "9 \<le> sd_buf_size ?s" "sd_buf_size ?s < 2 ^ 31" by (simp_all add: ex_scanning_def)
  have "\<exists>tail. sc_sent sc' = (frame [1, 2, 3] @ frame [4]) @ tail \<and> stream_tail tail"
    using scan_loop_sends_image [OF scan_backend_laws k b r] e by auto
  moreover have "sd_buf_size ?s = 16" by (simp add: ex_scanning_def)
  ultimately show ?thesis using r by auto
qed

end
