(* ===== verification/Net_Image.thy ===== *)
theory Net_Image
  imports Net_Read Saned_Frames
begin

text \<open>
  Reading an image over the network: \<open>sane_read\<close> of \<^verbatim>\<open>backend/net.c\<close> on the stream of records the
  daemon's \<open>do_scan\<close> sends.  The view \<open>image_at\<close> of a scanner says which bytes of the image are still to come;
  every call hands out the next of them, whatever pieces the connection delivers and however often it
  has nothing (\<open>EAGAIN\<close>).
\<close>

section \<open>What the connection delivers\<close>

fun payload :: "read_ev list \<Rightarrow> byte list" where
  "payload [] = []"
| "payload (RError e # evs) = payload evs"
| "payload (RData bs # evs) = bs @ payload evs"

definition steady :: "read_ev list \<Rightarrow> bool" where
  \<comment> \<open>data, and calls of \<open>read\<close> that find none\<close>
  "steady evs \<longleftrightarrow> (\<forall>e \<in> set evs. e = RError EAGAIN \<or> (\<exists>bs. e = RData bs \<and> bs \<noteq> []))"

fun work :: "read_ev list \<Rightarrow> nat" where
  \<comment> \<open>a bound on the calls of \<open>read\<close>\<close>
  "work [] = 0"
| "work (RError e # evs) = Suc (work evs)"
| "work (RData bs # evs) = length bs + work evs"

lemma steady_simps [simp]:
  "steady []"
  "steady (RError e # evs) \<longleftrightarrow> e = EAGAIN \<and> steady evs"
  "steady (RData bs # evs) \<longleftrightarrow> bs \<noteq> [] \<and> steady evs"
  by (auto simp: steady_def)

lemma io_read_steady:
  assumes "steady evs" "0 < n" "io_read n evs = (r, evs')" "payload evs \<noteq> []"
  obtains (again) "r = Inl EAGAIN" "payload evs' = payload evs" "steady evs'" "work evs' < work evs"
  | (got) bs where "r = Inr bs" "bs \<noteq> []" "length bs \<le> n" "payload evs = bs @ payload evs'" "steady evs'"
      "work evs' < work evs"
  using assms
proof (cases "(n, evs)" rule: io_read.cases)
  case (3 n' bs evs0)
  then have eq: "n' = n" "evs = RData bs # evs0" by auto
  show thesis
  proof (cases "length bs \<le> n")
    case True
    with assms eq show thesis by (intro got [of bs]) auto
  next
    case False
    with assms eq have r: "r = Inr (take n bs)" "evs' = RData (drop n bs) # evs0" by auto
    from False assms eq have "payload evs = take n bs @ payload evs'" "take n bs \<noteq> []" "length (take n bs) \<le> n"
      "steady evs'" "work evs' < work evs"
      unfolding r eq by (auto simp flip: append_assoc)
    with r(1) show thesis by (intro got [of "take n bs"])
  qed
qed auto

section \<open>The state of a reader\<close>

definition records :: "byte list list \<Rightarrow> sane_word \<Rightarrow> byte list \<Rightarrow> byte list" where
  "records ds st junk = concat (map frame ds) @ final_record st @ junk"

definition short_records :: "byte list list \<Rightarrow> bool" where
  "short_records ds \<longleftrightarrow> (\<forall>d \<in> set ds. length d < 2 ^ 31)"

definition image_at :: "net_scanner \<Rightarrow> byte list \<Rightarrow> sane_word \<Rightarrow> bool" where
  \<comment> \<open>a scanner that still has to deliver the given bytes and then the status\<close>
  "image_at s img st \<longleftrightarrow> 0 \<le> ns_data s \<and> length (ns_reclen s) = 4 \<and> steady (ns_stream s) \<and>
     (\<exists>cur ds junk. img = cur @ concat ds \<and> ns_remaining s = word_of_nat (length cur) \<and> length cur < 2 ^ 31 \<and>
        short_records ds \<and>
        (if cur = [] then 0 \<le> ns_offset s \<and> ns_offset s < 4 \<and>
           take (nat (ns_offset s)) (ns_reclen s) @ payload (ns_stream s) = records ds st junk
         else ns_offset s = 0 \<and> payload (ns_stream s) = cur @ records ds st junk))"

lemma reclen_word_be32: "reclen_word (be32 v) = v"
  using of_be32_be32 [of v] by (simp add: reclen_word_def be32_def numeral_eq_Suc)

lemma blocking_steady:
  "steady evs \<Longrightarrow> steady (blocking evs) \<and> payload (blocking evs) = payload evs"
  by (induction evs rule: payload.induct) (auto simp: blocking_def)

lemma io_read_one:
  assumes "steady evs" "payload evs = b # rest"
  obtains evs' where "io_read 1 (blocking evs) = (Inr [b], evs')"
proof -
  have s: "steady (blocking evs)" "payload (blocking evs) = b # rest"
    using blocking_steady assms by auto
  obtain bs evs0 where e: "blocking evs = RData bs # evs0"
  proof (cases "blocking evs" rule: payload.cases)
    case (2 e es)
    then have "e \<noteq> EAGAIN" using hd_dropWhile [of "\<lambda>e. e = RError EAGAIN" evs] by (auto simp: blocking_def)
    with 2 s show thesis by simp
  qed (use s that in auto)
  with s obtain bs' where "bs = b # bs'" by (cases bs) auto
  with e that show thesis by (cases bs') auto
qed

lemma read_reclen_cases:
  assumes off: "0 \<le> ns_offset s" "ns_offset s < 4" "length (ns_reclen s) = 4" and st: "steady (ns_stream s)"
    and p: "take (nat (ns_offset s)) (ns_reclen s) @ payload (ns_stream s) = be32 len @ rest"
    and r: "read_reclen s = (s', r, ok)"
  obtains (wait) evs off' buf where "r = Rec_Wait" "ok" "s' = s\<lparr>ns_stream := evs, ns_reclen := buf, ns_offset := off'\<rparr>"
      "0 \<le> off'" "off' < 4" "length buf = 4" "take (nat off') buf @ payload evs = be32 len @ rest" "steady evs"
      "work evs < work (ns_stream s)"
  | (data) evs where "r = Rec_Data" "ok" "len \<noteq> 0xffffffff"
      "s' = s\<lparr>ns_stream := evs, ns_reclen := be32 len, ns_offset := 0, ns_remaining := ucast len\<rparr>"
      "payload evs = rest" "steady evs" "work evs < work (ns_stream s)"
  | (final) evs where "ok" "len = 0xffffffff" "\<And>b more. rest = b # more \<Longrightarrow> r = Rec_Status (scast b)"
      "s' = s\<lparr>ns_stream := evs, ns_reclen := be32 len, ns_offset := 0, ns_remaining := ucast len\<rparr>"
proof -
  let ?n = "nat ((4 - ns_offset s) mod 2 ^ 64)"
  have n: "?n = 4 - nat (ns_offset s)" "0 < ?n" "nat (ns_offset s) < 4" using off by auto
  have ne: "payload (ns_stream s) \<noteq> []"
  proof
    assume "payload (ns_stream s) = []"
    with arg_cong [OF p, of length] n off show False by (simp add: be32_length)
  qed
  obtain x evs where rd: "io_read ?n (ns_stream s) = (x, evs)" by (metis surj_pair)
  from st n(2) rd ne show thesis
  proof (cases rule: io_read_steady)
    case again
    with r rd have "r = Rec_Wait \<and> ok \<and> s' = s\<lparr>ns_stream := evs\<rparr>" by (simp add: read_reclen_def)
    with again off p show thesis
      by (intro wait [of "ns_offset s" "ns_reclen s" evs]) simp_all
  next
    case (got bs)
    define buf where "buf = blit (ns_reclen s) (nat (ns_offset s)) bs"
    define off' where "off' = ns_offset s + int (length bs)"
    have lb: "nat (ns_offset s) + length bs \<le> 4" "length bs > 0" using got n by auto
    then have buf: "length buf = 4" using off by (simp add: buf_def)
    have "nat off' = nat (ns_offset s) + length bs" using off by (simp add: off'_def nat_add_distrib)
    then have tk: "take (nat off') buf = take (nat (ns_offset s)) (ns_reclen s) @ bs"
      using take_blit [of "nat (ns_offset s)" bs "ns_reclen s"] lb off by (simp add: buf_def)
    then have str: "take (nat off') buf @ payload evs = be32 len @ rest" using p got(4) by simp
    show thesis
    proof (cases "off' < 4")
      case True
      with r rd got lb off have "r = Rec_Wait \<and> ok \<and> s' = s\<lparr>ns_stream := evs, ns_reclen := buf, ns_offset := off'\<rparr>"
        by (simp add: read_reclen_def off'_def buf_def Let_def)
      with True str got buf off show thesis
        by (intro wait [of off' buf evs]) (auto simp: off'_def)
    next
      case False
      then have o4: "off' = 4" using lb off by (auto simp: off'_def)
      then have "buf @ payload evs = be32 len @ rest" using str buf by simp
      then have b: "buf = be32 len" "payload evs = rest" using buf by (simp_all add: be32_length)
      define s2 where "s2 = s\<lparr>ns_stream := evs, ns_reclen := be32 len, ns_offset := 0, ns_remaining := ucast len\<rparr>"
      have "read_reclen s = (if len = 0xffffffff then
            (case io_read 1 (blocking evs) of
               (Inr [b], evs2) \<Rightarrow> (s2\<lparr>ns_stream := evs2\<rparr>, Rec_Status (scast b), True)
             | (_, evs2) \<Rightarrow> (s2\<lparr>ns_stream := evs2\<rparr>, Rec_Status SANE_STATUS_IO_ERROR, True))
          else (s2, Rec_Data, True))"
        using rd got(1) False lb off b(1) unfolding buf_def off'_def s2_def
        by (simp add: read_reclen_def Let_def reclen_word_be32)
      note rr = this [unfolded r]
      show thesis
      proof (cases "len = 0xffffffff")
        case False
        with rr got b show thesis by (intro data [of evs]) (auto simp: s2_def)
      next
        case True
        obtain y evs2 where y: "io_read 1 (blocking evs) = (y, evs2)" by (metis surj_pair)
        have ok: "ok" "s' = s2\<lparr>ns_stream := evs2\<rparr>"
          using rr True y by (auto split: sum.splits list.splits)
        have "r = Rec_Status (scast c)" if "rest = c # more" for c more
        proof -
          from that b(2) have "payload evs = c # more" by simp
          then obtain evs3 where "io_read 1 (blocking evs) = (Inr [c], evs3)"
            using io_read_one got(5) by blast
          with rr True show ?thesis by simp
        qed
        with ok True show thesis by (intro final [of evs2]) (auto simp: s2_def)
      qed
    qed
  qed
qed

section \<open>One call\<close>

lemma get_put_scanner [simp]:
  "get_scanner c h \<noteq> None \<Longrightarrow> get_scanner (put_scanner h s c) h = Some s"
  "put_scanner h s (put_scanner h t c) = put_scanner h s c"
proof -
  have "map_of (map (\<lambda>(k, t). (k, if k = h then s else t)) l) h = Some s" if "map_of l h \<noteq> None" for l :: "(nat \<times> net_scanner) list"
    using that by (induction l) auto
  then show "get_scanner c h \<noteq> None \<Longrightarrow> get_scanner (put_scanner h s c) h = Some s"
    by (simp add: get_scanner_def put_scanner_def)
  show "put_scanner h s (put_scanner h t c) = put_scanner h s c"
    by (simp add: put_scanner_def comp_def case_prod_beta)
qed

lemma nc_check_True [simp]: "nc_check True c = c"
  by (simp add: nc_check_def)

lemma put_scanner_parts [simp]:
  "nc_depth (put_scanner h s c) = nc_depth c" "nc_server_big (put_scanner h s c) = nc_server_big c"
  "nc_left (put_scanner h s c) = nc_left c" "nc_hang (put_scanner h s c) = nc_hang c"
  "nc_fault (put_scanner h s c) = nc_fault c" "swapping env (put_scanner h s c) = swapping env c"
  by (simp_all add: put_scanner_def swapping_def)

lemma small_length: "n < 2 ^ 31 \<Longrightarrow> sint (ucast (word_of_nat n :: size_t) :: sane_word) = int n"
proof -
  assume n: "n < 2 ^ 31"
  then have "ucast (word_of_nat n :: size_t) = (word_of_nat n :: sane_word)"
    by (simp add: word_unat_eq_iff unsigned_ucast_eq unsigned_of_nat take_bit_nat_eq_self)
  moreover have "sint (word_of_nat n :: sane_word) = int n"
    using n sint_word_of_int_32 [of "int n"] by simp
  ultimately show ?thesis by simp
qed

text \<open>Reading from a record whose rest is \<open>cur\<close>.\<close>

lemma read_data_step:
  assumes s: "0 \<le> ns_data s" "length (ns_reclen s) = 4" "steady (ns_stream s)" "ns_offset s = 0"
      "ns_remaining s = word_of_nat (length cur)" "length cur < 2 ^ 31" "short_records ds"
      "payload (ns_stream s) = cur @ records ds st junk"
    and m: "0 < m" "nat m \<le> room" "m < 2 ^ 31" and sw: "\<not> swapping env c"
    and r: "read_data env h m room s c = (c', r)"
  obtains (step) s' img' where "c' = put_scanner h s' c" "rr_status r = SANE_STATUS_GOOD" "cur @ concat ds = rr_data r @ img'"
    "image_at s' img' st" "ns_hw s' = ns_hw s" "work (ns_stream s') \<le> work (ns_stream s)" "cur \<noteq> [] \<Longrightarrow> work (ns_stream s') < work (ns_stream s)"
proof -
  define len where "len = (if int (length cur) < m then int (length cur) else m)"
  have len: "0 \<le> len" "nat len \<le> length cur" "nat len \<le> room" "len < 2 ^ 31" "cur \<noteq> [] \<Longrightarrow> 0 < len"
    using m s(6) by (auto simp: len_def)
  have n: "\<not> len < 0" using len by simp
  obtain x evs where rd: "io_read (nat len) (ns_stream s) = (x, evs)" by (metis surj_pair)
  have eq: "read_data env h m room s c = (case x of
      Inl e \<Rightarrow> (let c1 = put_scanner h (s\<lparr>ns_stream := evs\<rparr>) c
        in if e = EAGAIN then (c1, \<lparr>rr_status = SANE_STATUS_GOOD, rr_data = []\<rparr>)
           else (do_cancel h c1, \<lparr>rr_status = SANE_STATUS_IO_ERROR, rr_data = []\<rparr>))
    | Inr bs \<Rightarrow> (nc_check (length bs \<le> room)
          (put_scanner h (s\<lparr>ns_stream := evs, ns_remaining := ns_remaining s - word_of_nat (length bs)\<rparr>) c),
        \<lparr>rr_status = SANE_STATUS_GOOD, rr_data = bs\<rparr>))"
    using sw unfolding read_data_def s(5) small_length [OF s(6)] Let_def len_def [symmetric] if_not_P [OF n] rd prod.case by (cases x) simp_all
  have again: thesis if "x = Inl EAGAIN" "payload evs = payload (ns_stream s)" "steady evs" "work evs \<le> work (ns_stream s)"
      "cur \<noteq> [] \<Longrightarrow> work evs < work (ns_stream s)"
  proof (rule step [of "s\<lparr>ns_stream := evs\<rparr>" "cur @ concat ds"])
    show "image_at (s\<lparr>ns_stream := evs\<rparr>) (cur @ concat ds) st"
      unfolding image_at_def using s that(2,3) by (intro conjI exI [of _ cur] exI [of _ ds] exI [of _ junk]) auto
  qed (use that r eq in auto)
  have got: thesis if "x = Inr bs" "payload (ns_stream s) = bs @ payload evs" "length bs \<le> nat len" "steady evs"
      "work evs \<le> work (ns_stream s)" "cur \<noteq> [] \<Longrightarrow> work evs < work (ns_stream s)" for bs
  proof -
    have "bs = take (length bs) (payload (ns_stream s))" using that(2) by simp
    with that(3) len s(8) have bs: "bs = take (length bs) cur" by simp
    then obtain cur' where cur: "cur = bs @ cur'" by (metis append_take_drop_id)
    let ?s = "s\<lparr>ns_stream := evs, ns_remaining := ns_remaining s - word_of_nat (length bs)\<rparr>"
    show thesis
    proof (rule step [of ?s "cur' @ concat ds"])
      show "image_at ?s (cur' @ concat ds) st"
        unfolding image_at_def using s that(2,4) cur
        by (intro conjI exI [of _ cur'] exI [of _ ds] exI [of _ junk]) auto
    qed (use that r eq cur len in auto)
  qed
  show thesis
  proof (cases "0 < nat len")
    case True
    have "payload (ns_stream s) \<noteq> []" using s(8) by (auto simp: records_def final_record_def be32_def)
    with s(3) True rd show thesis
      by (cases rule: io_read_steady) (use again got in \<open>auto intro: less_imp_le\<close>)
  next
    case False
    with len have "cur = []" "nat len = 0" by auto
    note c = this
    show thesis
    proof (cases "ns_stream s" rule: payload.cases)
      case 1
      with rd c s(3) show thesis by (intro got [of "[]"]) auto
    next
      case (2 e es)
      with rd c s(3) show thesis by (intro again) auto
    next
      case (3 bs es)
      with rd c s(3) have "x = Inr []" "evs = ns_stream s" by (auto split: if_splits)
      with c(1) s(3) show thesis by (intro got [of "[]"]) simp_all
    qed
  qed
qed

lemma sane_read_step:
  assumes h: "get_scanner c h = Some s" and i: "image_at s img st" and sw: "\<not> swapping env c"
    and m: "0 < m" "nat m \<le> room" "m < 2 ^ 31" and r: "sane_read env h m room c = (c', r)"
  obtains (more) s' img' where "c' = put_scanner h s' c" "rr_status r = SANE_STATUS_GOOD" "img = rr_data r @ img'"
      "image_at s' img' st" "ns_hw s' = ns_hw s" "work (ns_stream s') < work (ns_stream s)"
  | (over) s' where "ns_hw s' = ns_hw s" "ns_data s' = ns_data s"  "img = []" "rr_status r = scast (ucast st :: byte)" "rr_data r = []"
      "c' = do_cancel h (put_scanner h s' c)"
proof -
  obtain cur ds junk where s: "0 \<le> ns_data s" "length (ns_reclen s) = 4" "steady (ns_stream s)"
    and img: "img = cur @ concat ds" "ns_remaining s = word_of_nat (length cur)" "length cur < 2 ^ 31" "short_records ds"
    and v: "if cur = [] then 0 \<le> ns_offset s \<and> ns_offset s < 4 \<and>
         take (nat (ns_offset s)) (ns_reclen s) @ payload (ns_stream s) = records ds st junk
       else ns_offset s = 0 \<and> payload (ns_stream s) = cur @ records ds st junk"
    using i unfolding image_at_def by blast
  have step: thesis if "0 \<le> ns_data t" "length (ns_reclen t) = 4" "steady (ns_stream t)" "ns_offset t = 0"
      "ns_remaining t = word_of_nat (length cu)" "length cu < 2 ^ 31" "short_records es"
      "payload (ns_stream t) = cu @ records es st junk" "\<not> swapping env c0"
      "read_data env h m room t c0 = (c', r)" "img = cu @ concat es" "\<And>s'. put_scanner h s' c0 = put_scanner h s' c"
      "work (ns_stream t) < work (ns_stream s) \<or> t = s \<and> cu \<noteq> []" "ns_hw t = ns_hw s" for t cu es c0
  proof -
    note a = that
    obtain s' img' where "c' = put_scanner h s' c0" "rr_status r = SANE_STATUS_GOOD" "cu @ concat es = rr_data r @ img'"
      "image_at s' img' st" "ns_hw s' = ns_hw t" "work (ns_stream s') \<le> work (ns_stream t)" "cu \<noteq> [] \<Longrightarrow> work (ns_stream s') < work (ns_stream t)"
      using read_data_step [OF a(1-8) m a(9,10)] by metis
    with a(11,12,13,14) show thesis by (intro more [of s' img']) auto
  qed
  show thesis
  proof (cases "cur = []")
    case False
    moreover have "ns_remaining s \<noteq> 0"
      using False img(2,3) by (simp add: word_unat_eq_iff unsigned_of_nat take_bit_nat_eq_self)
    ultimately show thesis
      using step [of s cur ds c] s img v r h sw m by (simp add: sane_read_def)
  next
    case True
    with v have off: "0 \<le> ns_offset s" "ns_offset s < 4"
      and p: "take (nat (ns_offset s)) (ns_reclen s) @ payload (ns_stream s) = records ds st junk" by auto
    obtain s1 x ok where rl: "read_reclen s = (s1, x, ok)" by (metis prod_cases3)
    have eq: "sane_read env h m room c = (let c1 = nc_check ok (put_scanner h s1 c)
        in case x of
             Rec_Wait \<Rightarrow> (c1, \<lparr>rr_status = SANE_STATUS_GOOD, rr_data = []\<rparr>)
           | Rec_Error \<Rightarrow> (do_cancel h c1, \<lparr>rr_status = SANE_STATUS_IO_ERROR, rr_data = []\<rparr>)
           | Rec_Status st \<Rightarrow> (do_cancel h c1, \<lparr>rr_status = st, rr_data = []\<rparr>)
           | Rec_Data \<Rightarrow> read_data env h m room s1 c1)"
      using h s sw True img(2) rl by (simp add: sane_read_def)
    obtain len rest where rec: "records ds st junk = be32 len @ rest"
      "ds = [] \<Longrightarrow> len = 0xffffffff \<and> rest = ucast st # junk"
      "\<And>d es. ds = d # es \<Longrightarrow> len = word_of_nat (length d) \<and> rest = d @ records es st junk"
      by (cases ds) (auto simp: records_def final_record_def frame_def)
    have small: "word_of_nat n \<noteq> (0xffffffff :: sane_word)" if "n < 2 ^ 31" for n
      using that by (simp add: word_unat_eq_iff unsigned_of_nat take_bit_nat_eq_self)
    from off s(2,3) p [unfolded rec(1)] rl show thesis
    proof (cases rule: read_reclen_cases)
      case (wait evs off' buf)
      show thesis
      proof (rule more)
        show "image_at s1 img st"
          unfolding image_at_def using wait s img True rec(1)
          by (intro conjI exI [of _ "[]"] exI [of _ ds] exI [of _ junk]) auto
      qed (use eq r wait in auto)
    next
      case (data evs)
      then obtain d es where ds: "ds = d # es" using rec(2) by (cases ds) auto
      note rd = rec(3) [OF ds]
      have "length d < 2 ^ 31" "short_records es" using img(4) ds by (auto simp: short_records_def)
      moreover have "ucast len = (word_of_nat (length d) :: size_t)"
        using \<open>length d < 2 ^ 31\<close> rd by (simp add: word_unat_eq_iff unsigned_ucast_eq unsigned_of_nat take_bit_nat_eq_self)
      moreover have "read_data env h m room s1 (put_scanner h s1 c) = (c', r)"
        using eq r data(1,2) by simp
      ultimately show thesis
        using s sw data(4-7) rd img(1) True ds by (intro step [of s1 d es "put_scanner h s1 c"]) (simp_all add: be32_length)
    next
      case (final evs)
      then have "ds = []" using rec(3) small img(4) by (cases ds) (auto simp: short_records_def)
      then have x: "x = Rec_Status (scast (ucast st :: byte))" using final(3) rec(2) by blast
      with eq r final(1) have "c' = do_cancel h (put_scanner h s1 c)" "r = \<lparr>rr_status = scast (ucast st :: byte), rr_data = []\<rparr>"
        by simp_all
      with \<open>ds = []\<close> True img(1) final(4) show thesis by (intro over [of s1]) simp_all
    qed
  qed
qed

end
