(* ===== verification/Net_Examples.thy ===== *)
theory Net_Examples
  imports Net_Image
begin

text \<open>The environment and the state of the client that the concrete runs of the other theories use.\<close>

definition ex_client_env :: client_env where
  \<comment> \<open>no configuration, no authorization callback, and arbitrary uninitialised replies\<close>
  "ex_client_env = \<lparr>ce_files = (\<lambda>_. None), ce_paths = [], ce_hosts = None, ce_timeout = None, ce_resolve = (\<lambda>_ _. None),
     ce_passwd = None, ce_auth = None, ce_peername = True, ce_big_endian = False, ce_version = (1, 1),
     ce_init_junk = \<lparr>irp_status = 7, irp_version_code = 7\<rparr>,
     ce_open_junk = \<lparr>orp_status = 7, orp_handle = 7, orp_resource = None\<rparr>,
     ce_devices_junk = \<lparr>gdr_status = 7, gdr_device_list = None\<rparr>,
     ce_control_junk = \<lparr>cor_status = 7, cor_info = 7, cor_value_type = 7, cor_value_size = 7, cor_value = Ctl_Null,
       cor_resource = None\<rparr>,
     ce_params_junk = \<lparr>gpr_status = 7, gpr_params = zero_parameters\<rparr>,
     ce_start_junk = \<lparr>srp_status = 7, srp_port = 7, srp_byte_order = 7, srp_resource = None\<rparr>\<rparr>"

definition ex_reader :: "read_ev list \<Rightarrow> net_client" where
  \<comment> \<open>a client with one connected host and one scanner whose data connection delivers the events\<close>
  "ex_reader evs = \<lparr>nc_devs = [new_net_device [104] [Net4 1 6566]], nc_handles = [(0, (new_scanner 0 0)\<lparr>ns_data := 5, ns_stream := evs\<rparr>)],
     nc_next = 1, nc_devlist = None, nc_server_big = False, nc_depth = 8, nc_timeout = - 1, nc_hang = - 1, nc_left = - 1,
     nc_malloc = [], nc_conns = [], nc_dialed = [], nc_fault = False\<rparr>"

end
