(* ===== verification/Net_End_To_End.thy ===== *)
theory Net_End_To_End
  imports Net_Examples
begin

text \<open>
  An image on its way from a scanner to a frontend on another machine: the daemon's \<open>do_scan\<close> loop
  (\<open>Saned_Frames\<close>) composed with the client's \<open>sane_read\<close> (\<open>Net_Image\<close>), which a frontend calls until
  the status changes.
\<close>

section \<open>A frontend that reads until the status changes\<close>

fun read_image :: "client_env \<Rightarrow> nat \<Rightarrow> nat list \<Rightarrow> net_client \<Rightarrow> net_client \<times> byte list \<times> sane_word option" where
  \<comment> \<open>one call of \<open>sane_read\<close> for each buffer size; the data, and the status that ended the reading\<close>
  "read_image env h [] c = (c, [], None)"
| "read_image env h (n # ns) c =
     (case sane_read env h (int n) n c of
        (c1, r) \<Rightarrow>
          if rr_status r \<noteq> SANE_STATUS_GOOD then (c1, [], Some (rr_status r))
          else case read_image env h ns c1 of (c2, d, st) \<Rightarrow> (c2, rr_data r @ d, st))"

lemma do_cancel_fault:
  "get_scanner c h = Some s \<Longrightarrow> ns_hw s < length (nc_devs c) \<Longrightarrow> nc_fault (do_cancel h c) = nc_fault c"
  by (simp add: do_cancel_def set_dev_def put_scanner_def Let_def)

lemma put_scanner_devs [simp]: "nc_devs (put_scanner h s c) = nc_devs c"
  by (simp add: put_scanner_def)

lemma read_image_all:
  assumes "get_scanner c h = Some s" "image_at s img st" "\<not> swapping env c" "scast (ucast st :: byte) \<noteq> (0 :: sane_word)"
    and "ns_hw s < length (nc_devs c)" "\<forall>n \<in> set ns. 0 < n \<and> n < 2 ^ 31"
    and "read_image env h ns c = (c', d, res)"
  shows "nc_fault c' = nc_fault c \<and> (\<exists>rest. img = d @ rest \<and>
    (res = None \<and> length ns \<le> work (ns_stream s) \<or> res = Some (scast (ucast st :: byte)) \<and> rest = []))"
  using assms
proof (induction ns arbitrary: c s img d c' res)
  case Nil
  then show ?case by auto
next
  case (Cons n ns)
  obtain c1 r where rd: "sane_read env h (int n) n c = (c1, r)" by (metis surj_pair)
  have n: "0 < int n" "nat (int n) \<le> n" "int n < 2 ^ 31" using Cons.prems(6) by auto
  from Cons.prems(1-3) n rd show ?case
  proof (cases rule: sane_read_step)
    case (more s' img')
    obtain c2 d2 res2 where rest: "read_image env h ns c1 = (c2, d2, res2)" by (metis prod_cases3)
    then have eq: "c' = c2" "d = rr_data r @ d2" "res = res2"
      using Cons.prems(7) rd more(2) by simp_all
    have "nc_fault c2 = nc_fault c1 \<and> (\<exists>rest. img' = d2 @ rest \<and>
        (res2 = None \<and> length ns \<le> work (ns_stream s') \<or> res2 = Some (scast (ucast st :: byte)) \<and> rest = []))"
      using Cons.prems(1,3-6) more(1,5) by (intro Cons.IH [OF _ more(4) _ _ _ _ rest]) simp_all
    with eq more(1,3,6) show ?thesis by auto
  next
    case (over s')
    then have "nc_fault c1 = nc_fault c"
      using do_cancel_fault [of "put_scanner h s' c" h s'] Cons.prems(1,5) by simp
    with over Cons.prems(4,7) rd show ?thesis by auto
  qed
qed

section \<open>From the backend of the daemon to the frontend of the client\<close>

lemma frame_length: "length (frame d) = 4 + length d"
  by (simp add: frame_def be32_length)

lemma be32_inject [simp]: "be32 a = be32 b \<longleftrightarrow> a = b"
  by (metis reclen_word_be32)

lemma frames_split:
  assumes "short_records as" "short_records bs" "concat (map frame as) = concat (map frame bs) @ x"
  obtains ds where "x = concat (map frame ds)" "as = bs @ ds"
  using assms
proof (induction bs arbitrary: as thesis)
  case Nil
  from Nil.prems(4) show ?case by (intro Nil.prems(1) [of as]) simp_all
next
  case (Cons b bs)
  show ?case
  proof (cases as)
    case Nil
    with Cons.prems(4) show ?thesis by (simp add: frame_def be32_def)
  next
    case (Cons a as')
    with Cons.prems have l: "length a < 2 ^ 31" "length b < 2 ^ 31" "short_records as'" "short_records bs"
      by (simp_all add: short_records_def)
    have eq: "be32 (word_of_nat (length a)) @ a @ concat (map frame as') = be32 (word_of_nat (length b)) @ b @ concat (map frame bs) @ x"
      using Cons.prems(4) Cons by (simp add: frame_def [of a] frame_def [of b])
    then have w: "(word_of_nat (length a) :: sane_word) = word_of_nat (length b)"
      by (simp add: be32_length)
    have "length a = length b"
      using arg_cong [OF w, of unat] l(1,2) by (simp add: unsigned_of_nat take_bit_nat_eq_self)
    with eq w have ab: "a = b" "concat (map frame as') = concat (map frame bs) @ x" by simp_all
    from Cons.IH [OF _ l(3,4) ab(2)] obtain ds where "x = concat (map frame ds)" "as' = bs @ ds" by blast
    with Cons ab(1) show ?thesis by (intro Cons.prems(1) [of ds]) simp_all
  qed
qed

definition record_log :: "('b \<Rightarrow> byte list list) \<Rightarrow> 'b backend \<Rightarrow> sane_handle \<Rightarrow> bool" where
  \<comment> \<open>a view of the backend's state that lists the pieces of the image it has delivered\<close>
  "record_log recs be bh \<longleftrightarrow>
     (\<forall>b n b' st d. b_read be b bh n = (b', st, d) \<longrightarrow>
        recs b' = (if st = SANE_STATUS_GOOD then recs b @ [d] else recs b))"

definition log_bytes :: "('b \<Rightarrow> byte list list) \<Rightarrow> 'b \<Rightarrow> byte list" where
  "log_bytes recs b = concat (map frame (recs b))"

lemma record_log_bytes: "record_log recs be bh \<Longrightarrow> read_log (log_bytes recs) be bh"
  unfolding record_log_def read_log_def log_bytes_def by fastforce

definition reader_start :: "net_scanner \<Rightarrow> bool" where
  \<comment> \<open>a scanner as \<open>open_data\<close> leaves it\<close>
  "reader_start t \<longleftrightarrow> 0 \<le> ns_data t \<and> ns_offset t = 0 \<and> ns_remaining t = 0 \<and> length (ns_reclen t) = 4"

lemma reader_start_image:
  "reader_start t \<Longrightarrow> steady (ns_stream t) \<Longrightarrow> short_records ds \<Longrightarrow> payload (ns_stream t) = records ds st junk \<Longrightarrow>
    image_at t (concat ds) st"
  unfolding image_at_def reader_start_def by (intro conjI exI [of _ "[]"] exI [of _ ds] exI [of _ junk]) auto

lemma status_byte: "st \<le> SANE_STATUS_ACCESS_DENIED \<Longrightarrow> scast (ucast st :: byte) = (st :: sane_word)"
proof -
  assume "st \<le> SANE_STATUS_ACCESS_DENIED"
  then have n: "unat st < 12" by (simp add: word_le_nat_alt)
  have "list_all (\<lambda>k. scast (ucast (word_of_nat k :: sane_word) :: byte) = (word_of_nat k :: sane_word)) [0..<12]"
    by code_simp
  then have "\<And>k. k < 12 \<Longrightarrow> scast (ucast (word_of_nat k :: sane_word) :: byte) = (word_of_nat k :: sane_word)"
    by (simp add: list_all_iff)
  from this [OF n] show ?thesis by simp
qed

lemma sent_image_read:
  assumes im: "short_records img" "payload (ns_stream t) = concat (map frame img) @ tail" "status_tail st tail"
    and t: "get_scanner c ch = Some t" "reader_start t" "ns_hw t < length (nc_devs c)" "\<not> swapping env c" "steady (ns_stream t)"
    and ns: "\<forall>n \<in> set ns. 0 < n \<and> n < 2 ^ 31"
    and rd: "read_image env ch ns c = (c', d, res)"
  shows "nc_fault c' = nc_fault c \<and>
    (if work (ns_stream t) < length ns then d = concat img \<and> res = Some st else \<exists>rest. concat img = d @ rest)"
proof -
  obtain more where st: "tail = final_record st @ more" "st \<noteq> SANE_STATUS_GOOD" "st \<le> SANE_STATUS_ACCESS_DENIED"
    using im(3) by (auto simp: status_tail_def)
  have i: "image_at t (concat img) st"
    using im st(1) by (intro reader_start_image [OF t(2,5), of img st more]) (auto simp: records_def)
  have "scast (ucast st :: byte) = st" using st(3) by (rule status_byte)
  with read_image_all [OF t(1) i t(4) _ t(3) ns rd] st(2) show ?thesis by auto
qed

definition status_log :: "('b \<Rightarrow> sane_word) \<Rightarrow> 'b backend \<Rightarrow> sane_handle \<Rightarrow> bool" where
  \<comment> \<open>a view of the backend's state that shows the status of the last read\<close>
  "status_log seen be bh \<longleftrightarrow> (\<forall>b n b' st d. b_read be b bh n = (b', st, d) \<longrightarrow> seen b' = st)"

definition end_seen :: "('b \<Rightarrow> byte list) \<Rightarrow> ('b \<Rightarrow> sane_word) \<Rightarrow> bool \<Rightarrow> sane_word \<Rightarrow> 'b \<Rightarrow> byte list \<Rightarrow> bool" where
  \<comment> \<open>a status that ends the image is that of the backend's last read, or, when the backend has hung up, the end of
      the file\<close>
  "end_seen lg seen hung st b log \<longleftrightarrow> log = lg b \<and> (st \<noteq> SANE_STATUS_GOOD \<longrightarrow> st = seen b \<or> hung \<and> st = SANE_STATUS_EOF)"

lemma end_seen_keeps: "read_log lg be bh \<Longrightarrow> status_log seen be bh \<Longrightarrow> read_keeps (end_seen lg seen hung) be bh sz"
  unfolding read_log_def status_log_def read_keeps_def end_seen_def by metis

lemma image_delivered:
  assumes be: "read_contract be bh" "record_log recs be bh" "status_log seen be bh" "rpc_keeps (log_bytes recs) rpc"
      "\<And>s s' r. rpc s = Some (s', r) \<Longrightarrow> seen (sd_be s') = seen (sd_be s)"
    and sz: "9 \<le> sd_buf_size s" "sd_buf_size s < 2 ^ 31"
    and run: "scan_loop rpc be h bh poll evs (scan_start (sd_buf_size s) junk has_fd) s = Some (sc', s')"
    and fin: "\<not> scan_more sc'" "sc_status sc' \<noteq> SANE_STATUS_IO_ERROR" "sc_status sc' \<noteq> SANE_STATUS_CANCELLED"
    and short: "short_records (recs (sd_be s))" "short_records (recs (sd_be s'))"
    and t: "get_scanner c ch = Some t" "reader_start t" "ns_hw t < length (nc_devs c)" "\<not> swapping env c"
    and conn: "steady (ns_stream t)" "payload (ns_stream t) = sc_sent sc'"
    and ns: "\<forall>n \<in> set ns. 0 < n \<and> n < 2 ^ 31"
    and rd: "read_image env ch ns c = (c', d, res)"
  shows "nc_fault c' = nc_fault c \<and> (\<exists>image. recs (sd_be s') = recs (sd_be s) @ image \<and>
    (if work (ns_stream t) < length ns then d = concat image \<and> (\<exists>st. res = Some st \<and> st \<noteq> SANE_STATUS_GOOD \<and>
       (st = seen (sd_be s') \<or> has_fd \<and> Sel_Error True \<in> set evs \<and> st = SANE_STATUS_EOF))
     else \<exists>rest. concat image = d @ rest))"
proof -
  let ?lg = "log_bytes recs" and ?sc = "scan_start (sd_buf_size s) junk has_fd"
  let ?hung = "has_fd \<and> Sel_Error True \<in> set evs"
  let ?Q = "end_seen ?lg seen ?hung"
  have i: "scan_sends ?Q (sd_buf_size s) (?lg (sd_be s)) (?lg (sd_be s)) ?sc (sd_be s)"
    using scan_start_inv [OF sz, of "?lg (sd_be s)" junk has_fd]
    by (simp add: scan_inv_def scan_sends_def end_seen_def scan_start_def)
  have k: "\<And>s s' r. rpc s = Some (s', r) \<Longrightarrow> sd_buf_size s' = sd_buf_size s \<and> (\<forall>st log. ?Q st (sd_be s) log \<longrightarrow> ?Q st (sd_be s') log)"
    using be(4,5) unfolding rpc_keeps_def end_seen_def by metis
  have "\<exists>now. scan_ends ?Q (?lg (sd_be s)) now sc' (sd_be s')"
    by (rule scan_loop_keeps [OF be(1) end_seen_keeps [OF record_log_bytes [OF be(2)] be(3)] k run i refl])
      (auto simp: end_seen_def scan_start_def)
  then obtain now where "scan_ends ?Q (?lg (sd_be s)) now sc' (sd_be s')" by blast
  from this fin obtain new tail st where now: "now = ?lg (sd_be s) @ new"
    and sent: "sc_sent sc' = new @ tail" "status_tail st tail" "?Q st (sd_be s') now"
    by (rule scan_ends_done)
  have l: "?lg (sd_be s') = ?lg (sd_be s) @ new" using now sent(3) by (simp add: end_seen_def)
  obtain image where im: "new = concat (map frame image)" "recs (sd_be s') = recs (sd_be s) @ image"
    using frames_split [OF short(2,1)] l unfolding log_bytes_def by metis
  have "short_records image" using short(2) im(2) by (simp add: short_records_def)
  moreover have "payload (ns_stream t) = concat (map frame image) @ tail" using conn(2) sent(1) im(1) by simp
  ultimately show ?thesis using sent_image_read [OF _ _ sent(2) t conn(1) ns rd] im(2) sent(2,3)
    by (auto simp: end_seen_def status_tail_def)
qed

text \<open> C1: an image goes from the scanner to the frontend of another machine unchanged.  The daemon's
  loop has ended by itself with all data sent, its status neither \<open>SANE_STATUS_IO_ERROR\<close> nor
  \<open>SANE_STATUS_CANCELLED\<close>; the connection delivers its bytes in pieces of any size, with any
  number of calls that find nothing; and the samples need no exchange of bytes, as they are not 16 bits wide or both
  machines have the same byte order.  A frontend of the client that calls \<open>sane_read\<close> with buffers of
  any sizes, often enough, gets exactly the bytes the backend's \<open>sane_read\<close> delivered, in order, and then the
  status of the backend's last read, or \<open>SANE_STATUS_EOF\<close> if the loop has found the backend's descriptor
  closed; fewer calls give a prefix, and no access leaves a buffer.\<close>

theorem image_end_to_end:
  assumes be: "read_contract be bh" "record_log recs be bh" "status_log seen be bh" "rpc_keeps (log_bytes recs) rpc"
      "\<And>s s' r. rpc s = Some (s', r) \<Longrightarrow> seen (sd_be s') = seen (sd_be s)"
    and sz: "9 \<le> sd_buf_size s" "sd_buf_size s < 2 ^ 31"
    and run: "scan_loop rpc be h bh poll evs (scan_start (sd_buf_size s) junk has_fd) s = Some (sc', s')"
    and fin: "\<not> scan_more sc'" "sc_status sc' \<noteq> SANE_STATUS_IO_ERROR" "sc_status sc' \<noteq> SANE_STATUS_CANCELLED"
    and short: "short_records (recs (sd_be s))" "short_records (recs (sd_be s'))"
    and t: "get_scanner c ch = Some t" "reader_start t" "ns_hw t < length (nc_devs c)" "\<not> swapping env c"
    and conn: "steady (ns_stream t)" "payload (ns_stream t) = sc_sent sc'"
    and ns: "\<forall>n \<in> set ns. 0 < n \<and> n < 2 ^ 31"
    and rd: "read_image env ch ns c = (c', d, res)"
  shows "nc_fault c' = nc_fault c \<and> (\<exists>image. recs (sd_be s') = recs (sd_be s) @ image \<and>
    (if work (ns_stream t) < length ns then d = concat image \<and> (\<exists>st. res = Some st \<and> st \<noteq> SANE_STATUS_GOOD \<and>
       (st = seen (sd_be s') \<or> has_fd \<and> Sel_Error True \<in> set evs \<and> st = SANE_STATUS_EOF))
     else \<exists>rest. concat image = d @ rest))"
  by (rule image_delivered [OF assms])

definition film_backend :: "(byte list list \<times> byte list list \<times> sane_word) backend" where
  \<comment> \<open>a scanner that delivers the pieces of an image, and keeps those delivered and the last status\<close>
  "film_backend = \<lparr>b_init = (\<lambda>b. (b, 0, 0)), b_get_devices = (\<lambda>b l. (b, 0, Some [None])),
     b_open = (\<lambda>b n. Ret (b, 0, 1)), b_close = (\<lambda>b h. b), b_descriptor = (\<lambda>b h i. None),
     b_control = (\<lambda>b h i a v. Ret (b, 0, v, 0)), b_params = (\<lambda>b h. (b, 0, zero_parameters)),
     b_start = (\<lambda>b h. Ret (b, 0)),
     b_read = (\<lambda>b h n. case b of (l, [], _) \<Rightarrow> ((l, [], SANE_STATUS_NO_DOCS), SANE_STATUS_NO_DOCS, [])
        | (l, c # cs, _) \<Rightarrow> ((l @ [take n c], cs, SANE_STATUS_GOOD), SANE_STATUS_GOOD, take n c)),
     b_cancel = (\<lambda>b h. b), b_set_io_mode = (\<lambda>b h m. (b, 0)), b_select_fd = (\<lambda>b h. (b, 1, 0)), b_exit = (\<lambda>b. b),
     b_authorize = (\<lambda>r. Ret 0)\<rparr>"

lemma film_backend_laws:
  "read_contract film_backend bh" "record_log fst film_backend bh" "status_log (snd \<circ> snd) film_backend bh"
  by (auto simp: read_contract_def record_log_def status_log_def film_backend_def split: list.splits prod.splits)

definition ex_film :: "(byte list list \<times> byte list list \<times> sane_word) saned" where
  "ex_film = \<lparr>sd_wire = zero_wire, sd_handle = Some [zero_slot\<lparr>hs_inuse := True\<rparr>], sd_num = 1, sd_last = 0,
     sd_request = 0, sd_can_auth = False, sd_remote_ip = [], sd_user = [], sd_allow_net = False, sd_little = True,
     sd_port_lo = 0, sd_port_hi = 0, sd_buf_size = 16, sd_alloc = [], sd_scans = [], sd_data = [],
     sd_be = ([], [[1, 2, 3], [4]], 0), sd_fault = False\<rparr>"

definition ex_sent :: "byte list" where
  \<comment> \<open>two records, the final one, and four bytes of an older record\<close>
  "ex_sent = [0, 0, 0, 3, 1, 2, 3, 0, 0, 0, 1, 4, 0xff, 0xff, 0xff, 0xff, 7, 0, 0, 3, 1]"

lemma image_end_to_end_witness:
  "\<exists>c'. read_image ex_client_env 0 (replicate 30 2) (ex_reader [RError EAGAIN, RData (take 6 ex_sent), RData (drop 6 ex_sent)]) =
     (c', [1, 2, 3, 4], Some SANE_STATUS_NO_DOCS) \<and> \<not> nc_fault c'"
proof -
  let ?evs = "[RError EAGAIN, RData (take 6 ex_sent), RData (drop 6 ex_sent)]" and ?rpc = "\<lambda>s. Some (s, 0)"
  let ?t = "(new_scanner 0 0)\<lparr>ns_data := 5, ns_stream := ?evs\<rparr>"
  have k: "rpc_keeps (log_bytes fst) ?rpc" by (simp add: rpc_keeps_def)
  obtain sc' s' where r: "scan_loop ?rpc film_backend 0 0 True ex_events (scan_start (sd_buf_size ex_film) 0 False) ex_film = Some (sc', s')"
    and e: "\<not> scan_more sc'" "sc_status sc' = SANE_STATUS_NO_DOCS" "fst (sd_be s') = [[1, 2, 3], [4]]" "sc_sent sc' = ex_sent"
      "snd (snd (sd_be s')) = SANE_STATUS_NO_DOCS"
  proof -
    have "(case scan_loop ?rpc film_backend 0 0 True ex_events (scan_start (sd_buf_size ex_film) 0 False) ex_film of
        Some (sc', s') \<Rightarrow> \<not> scan_more sc' \<and> sc_status sc' = SANE_STATUS_NO_DOCS \<and> fst (sd_be s') = [[1, 2, 3], [4]] \<and> sc_sent sc' = ex_sent \<and>
          snd (snd (sd_be s')) = SANE_STATUS_NO_DOCS
      | None \<Rightarrow> False)" by code_simp
    then show thesis using that by (auto split: option.splits prod.splits)
  qed
  have f: "sc_status sc' \<noteq> SANE_STATUS_IO_ERROR" "sc_status sc' \<noteq> SANE_STATUS_CANCELLED" using e(2) by simp_all
  have b: "9 \<le> sd_buf_size ex_film" "sd_buf_size ex_film < 2 ^ 31" "short_records (fst (sd_be ex_film))"
    "short_records (fst (sd_be s'))" by (simp_all add: ex_film_def short_records_def e(3))
  have t: "get_scanner (ex_reader ?evs) 0 = Some ?t" "reader_start ?t" "ns_hw ?t < length (nc_devs (ex_reader ?evs))"
    "\<not> swapping ex_client_env (ex_reader ?evs)" "steady (ns_stream ?t)" "payload (ns_stream ?t) = sc_sent sc'"
    "work (ns_stream ?t) < length (replicate 30 (2 :: nat))" "\<forall>n \<in> set (replicate 30 2). 0 < n \<and> (n :: nat) < 2 ^ 31"
    "\<not> nc_fault (ex_reader ?evs)"
    by (simp_all add: ex_reader_def get_scanner_def reader_start_def new_scanner_def swapping_def ex_sent_def e(4))
  obtain c' d res where rd: "read_image ex_client_env 0 (replicate 30 2) (ex_reader ?evs) = (c', d, res)" by (metis prod_cases3)
  have keep: "(snd \<circ> snd) (sd_be s') = (snd \<circ> snd) (sd_be s)" if "?rpc s = Some (s', r)"
    for s s' :: "(byte list list \<times> byte list list \<times> sane_word) saned" and r :: int
    using that by simp
  from image_end_to_end [OF film_backend_laws k keep b(1,2) r e(1) f b(3,4) t(1-6,8) rd] t(7,9) e(3,5) rd
  show ?thesis by (auto simp: ex_film_def)
qed

end
