(* ===== verification/Pnm.thy ===== *)
theory Pnm
  imports Saned_State Net_Calls
begin

text \<open>
  The backend \<^verbatim>\<open>pnm\<close>, \<^verbatim>\<open>backend/pnm.c\<close>, a virtual scanner that delivers the contents of a PNM file, and
  the demonstration of how a backend is written: its options, devices and settings.  Of the table
  \<open>sod\<close> only the capabilities change, so the state holds these and \<open>pnm_sod\<close> the rest; the eight flags
  of the status options are one list in the order of the options.  \<open>pn_now\<close> is what \<open>gettimeofday\<close>
  reports, \<open>pn_malloc\<close> the script of the allocations, where the empty list stands for success.
  \<open>pn_fault\<close> becomes true when the code uses an invalid pointer or leaves a block.
\<close>

unbundle bit_operations_syntax

section \<open>The options\<close>

abbreviation (input) SANE_STATUS_WARMING_UP :: sane_word where "SANE_STATUS_WARMING_UP \<equiv> 12"
abbreviation (input) SANE_STATUS_HW_LOCKED :: sane_word where "SANE_STATUS_HW_LOCKED \<equiv> 13"
abbreviation (input) SANE_CAP_SOFT_SELECT :: sane_word where "SANE_CAP_SOFT_SELECT \<equiv> 1"
abbreviation (input) SANE_CAP_INACTIVE :: sane_word where "SANE_CAP_INACTIVE \<equiv> 32"
abbreviation (input) MAGIC :: sane_handle where "MAGIC \<equiv> 0xab730324"

abbreviation (input) opt_num_opts :: nat where "opt_num_opts \<equiv> 0"
abbreviation (input) opt_filename :: nat where "opt_filename \<equiv> 2"
abbreviation (input) opt_resolution :: nat where "opt_resolution \<equiv> 3"
abbreviation (input) opt_brightness :: nat where "opt_brightness \<equiv> 5"
abbreviation (input) opt_contrast :: nat where "opt_contrast \<equiv> 6"
abbreviation (input) opt_grayify :: nat where "opt_grayify \<equiv> 7"
abbreviation (input) opt_three_pass :: nat where "opt_three_pass \<equiv> 8"
abbreviation (input) opt_hand_scanner :: nat where "opt_hand_scanner \<equiv> 9"
abbreviation (input) opt_default_enhancements :: nat where "opt_default_enhancements \<equiv> 10"
abbreviation (input) opt_read_only :: nat where "opt_read_only \<equiv> 11"
abbreviation (input) opt_custom_gamma :: nat where "opt_custom_gamma \<equiv> 13"
abbreviation (input) opt_gamma :: nat where "opt_gamma \<equiv> 14"
abbreviation (input) opt_gamma_b :: nat where "opt_gamma_b \<equiv> 17"
abbreviation (input) opt_status :: nat where "opt_status \<equiv> 19"
abbreviation (input) opt_status_accessdenied :: nat where "opt_status_accessdenied \<equiv> 26"
abbreviation (input) num_options :: nat where "num_options \<equiv> 27"

definition resbit_list :: "sane_word list" where
  "resbit_list = [17, 75, 90, 100, 120, 135, 150, 165, 180, 195, 200, 210, 225, 240, 255, 270, 285, 300]"

definition percentage_range :: sane_range where
  \<comment> \<open>from \<open>SANE_FIX (-100)\<close> to \<open>SANE_FIX (100)\<close>\<close>
  "percentage_range = \<lparr>rng_min = - 6553600, rng_max = 6553600, rng_quant = 0\<rparr>"

definition gamma_range :: sane_range where
  "gamma_range = \<lparr>rng_min = 0, rng_max = 255, rng_quant = 0\<rparr>"

definition sod_entry :: "string \<Rightarrow> string \<Rightarrow> string \<Rightarrow> sane_word \<Rightarrow> sane_word \<Rightarrow> sane_word \<Rightarrow> sane_word \<Rightarrow>
    sane_word \<times> sane_constraint \<Rightarrow> sane_option_descriptor" where
  "sod_entry name title descr ty unt sz cap con =
     \<lparr>opt_name = Some (mk_cstr (ascii name)), opt_title = Some (mk_cstr (ascii title)), opt_desc = Some (mk_cstr (ascii descr)),
      opt_type = ty, opt_unit = unt, opt_size = sz, opt_cap = cap, opt_constraint_type = fst con, opt_constraint = snd con\<rparr>"

definition no_constraint :: "sane_word \<times> sane_constraint" where
  "no_constraint = (SANE_CONSTRAINT_NONE, Constr_Unset)"

definition range_constraint :: "sane_range \<Rightarrow> sane_word \<times> sane_constraint" where
  "range_constraint r = (SANE_CONSTRAINT_RANGE, Constr_Range (Some r))"

definition list_constraint :: "sane_word list \<Rightarrow> sane_word \<times> sane_constraint" where
  "list_constraint ws = (SANE_CONSTRAINT_WORD_LIST, Constr_Words (Some ws))"

definition pnm_sod :: "sane_option_descriptor list" where
  \<comment> \<open>\<open>sod\<close> at the start of the program: name, title, description, type, unit, size, capabilities, constraint\<close>
  "pnm_sod =
    [sod_entry '''' ''Number of options''
       ''Read-only option that specifies how many options a specific device supports.''
       SANE_TYPE_INT 0 4 4 no_constraint,
     sod_entry '''' ''Source Selection''
       ''''
       SANE_TYPE_GROUP 0 0 0 no_constraint,
     sod_entry ''filename'' ''Filename''
       ''The filename of the image to be loaded.''
       SANE_TYPE_STRING 0 4096 5 no_constraint,
     sod_entry ''resolution'' ''Scan resolution''
       ''Sets the resolution of the scanned image.''
       SANE_TYPE_INT 3 4 21 (list_constraint resbit_list),
     sod_entry '''' ''Image Enhancement''
       ''''
       SANE_TYPE_GROUP 0 0 0 no_constraint,
     sod_entry ''brightness'' ''Brightness''
       ''Controls the brightness of the acquired image.''
       SANE_TYPE_FIXED 4 4 5 (range_constraint percentage_range),
     sod_entry ''contrast'' ''Contrast''
       ''Controls the contrast of the acquired image.''
       SANE_TYPE_FIXED 4 4 5 (range_constraint percentage_range),
     sod_entry ''grayify'' ''Grayify''
       ''Load the image as grayscale.''
       SANE_TYPE_BOOL 0 4 5 no_constraint,
     sod_entry ''three-pass'' ''Three-Pass Simulation''
       ''Simulate a three-pass scanner by returning 3 separate frames.  For kicks, it returns green, then blue, then red.''
       SANE_TYPE_BOOL 0 4 5 no_constraint,
     sod_entry ''hand-scanner'' ''Hand-Scanner Simulation''
       ''Simulate a hand-scanner.  Hand-scanners often do not know the image height a priori.  Instead, they return a height of -1.  Setting this option allows one to test whether a frontend can handle this correctly.''
       SANE_TYPE_BOOL 0 4 5 no_constraint,
     sod_entry ''default-enhancements'' ''Defaults''
       ''Set default values for enhancement controls (brightness & contrast).''
       SANE_TYPE_BUTTON 0 0 5 no_constraint,
     sod_entry ''read-only'' ''Read only test-option''
       (''Let'' @ [CHR 39] @ ''s see whether frontends can treat this right'')
       SANE_TYPE_INT 4 4 4 no_constraint,
     sod_entry '''' ''Gamma Tables''
       ''''
       SANE_TYPE_GROUP 0 0 0 no_constraint,
     sod_entry ''custom-gamma'' ''Use custom gamma table''
       ''Determines whether a builtin or a custom gamma-table should be used.''
       SANE_TYPE_BOOL 0 4 5 no_constraint,
     sod_entry ''gamma-table'' ''Image intensity''
       ''Gamma-correction table.  In color mode this option equally affects the red, green, and blue channels simultaneously (i.e., it is an intensity gamma table).''
       SANE_TYPE_INT 0 1024 37 (range_constraint gamma_range),
     sod_entry ''red-gamma-table'' ''Red intensity''
       ''Gamma-correction table for the red band.''
       SANE_TYPE_INT 0 1024 37 (range_constraint gamma_range),
     sod_entry ''green-gamma-table'' ''Green intensity''
       ''Gamma-correction table for the green band.''
       SANE_TYPE_INT 0 1024 37 (range_constraint gamma_range),
     sod_entry ''blue-gamma-table'' ''Blue intensity''
       ''Gamma-correction table for the blue band.''
       SANE_TYPE_INT 0 1024 37 (range_constraint gamma_range),
     sod_entry '''' ''Status Code Simulation''
       ''''
       SANE_TYPE_GROUP 0 0 64 no_constraint,
     sod_entry ''status'' ''Do not force status code''
       ''Do not force the backend to return a status code.''
       SANE_TYPE_BOOL 0 4 5 no_constraint,
     sod_entry ''status-eof'' ''Return SANE_STATUS_EOF''
       ''Force the backend to return the status code SANE_STATUS_EOF after sane_read() has been called.''
       SANE_TYPE_BOOL 0 4 5 no_constraint,
     sod_entry ''status-jammed'' ''Return SANE_STATUS_JAMMED''
       ''Force the backend to return the status code SANE_STATUS_JAMMED after sane_read() has been called.''
       SANE_TYPE_BOOL 0 4 5 no_constraint,
     sod_entry ''status-nodocs'' ''Return SANE_STATUS_NO_DOCS''
       ''Force the backend to return the status code SANE_STATUS_NO_DOCS after sane_read() has been called.''
       SANE_TYPE_BOOL 0 4 5 no_constraint,
     sod_entry ''status-coveropen'' ''Return SANE_STATUS_COVER_OPEN''
       ''Force the backend to return the status code SANE_STATUS_COVER_OPEN after sane_read() has been called.''
       SANE_TYPE_BOOL 0 4 5 no_constraint,
     sod_entry ''status-ioerror'' ''Return SANE_STATUS_IO_ERROR''
       ''Force the backend to return the status code SANE_STATUS_IO_ERROR after sane_read() has been called.''
       SANE_TYPE_BOOL 0 4 5 no_constraint,
     sod_entry ''status-nomem'' ''Return SANE_STATUS_NO_MEM''
       ''Force the backend to return the status code SANE_STATUS_NO_MEM after sane_read() has been called.''
       SANE_TYPE_BOOL 0 4 5 no_constraint,
     sod_entry ''status-accessdenied'' ''Return SANE_STATUS_ACCESS_DENIED''
       ''Force the backend to return the status code SANE_STATUS_ACCESS_DENIED after sane_read() has been called.''
       SANE_TYPE_BOOL 0 4 5 no_constraint]"

section \<open>The state\<close>

datatype ppm_type = ppm_bitmap | ppm_greyscale | ppm_color

record c_file =
  cf_rest :: "byte list"
  cf_eof :: bool

text \<open>An open file: what is left to read, and the flag \<open>feof\<close> asks for.\<close>

record pnm =
  pn_open :: bool
  pn_rgb_comp :: nat
  pn_three_pass :: bool
  pn_hand_scanner :: bool
  pn_pass :: nat
  pn_filename :: "byte list"
  pn_status :: "sane_word list"
  pn_test_option :: sane_word
  pn_warming_up :: bool
  pn_start :: int
  pn_bright :: sane_word
  pn_res :: sane_word
  pn_contr :: sane_word
  pn_gray :: bool
  pn_usegamma :: sane_word
  pn_gamma :: "sane_word list list"
  pn_type :: ppm_type
  pn_infile :: "c_file option"
  pn_cap :: "sane_word list"
  pn_parms :: sane_parameters
  pn_rgblength :: nat
  pn_rgbbuf :: "nat option"
  pn_left :: "byte list"
  pn_now :: int
  pn_malloc :: "bool list"
  pn_fault :: bool

text \<open>Of \<open>rgbbuf\<close> the size of the block is kept, as its contents do not outlast a call; \<open>pn_left\<close> are the bytes
  in use of \<open>rgbleftover\<close>.\<close>

definition pnm_initial :: "int \<Rightarrow> pnm" where
  \<comment> \<open>the static variables at the start of the program\<close>
  "pnm_initial now =
     \<lparr>pn_open = False, pn_rgb_comp = 0, pn_three_pass = False, pn_hand_scanner = False, pn_pass = 0,
      pn_filename = ascii ''/tmp/input.ppm'', pn_status = SANE_TRUE # replicate 7 SANE_FALSE, pn_test_option = 0,
      pn_warming_up = False, pn_start = 0, pn_bright = 0, pn_res = 75, pn_contr = 0, pn_gray = False, pn_usegamma = 0,
      pn_gamma = replicate 4 (replicate 256 0), pn_type = ppm_color, pn_infile = None, pn_cap = map opt_cap pnm_sod,
      pn_parms = \<lparr>par_format = 1, par_last_frame = 0, par_bytes_per_line = 0, par_pixels_per_line = 0, par_lines = 0, par_depth = 8\<rparr>,
      pn_rgblength = 0, pn_rgbbuf = None, pn_left = [], pn_now = now, pn_malloc = [], pn_fault = False\<rparr>"

definition pn_fail :: "pnm \<Rightarrow> pnm" where
  "pn_fail s = s\<lparr>pn_fault := True\<rparr>"

section \<open>Devices\<close>

definition pnm_device :: "string \<Rightarrow> string \<Rightarrow> sane_device" where
  "pnm_device name model = \<lparr>dev_name = Some (mk_cstr (ascii name)), dev_vendor = Some (mk_cstr (ascii ''Noname'')),
     dev_model = Some (mk_cstr (ascii model)), dev_type = Some (mk_cstr (ascii ''virtual device''))\<rparr>"

definition pnm_dev :: "sane_device list" where
  "pnm_dev = [pnm_device ''0'' ''PNM file reader'', pnm_device ''1'' ''PNM file reader'',
     pnm_device ''locked'' ''Hardware locked'', pnm_device ''warmup'' ''Always warming up'']"

definition sane_init_pnm :: "pnm \<Rightarrow> pnm \<times> sane_word \<times> sane_word" where
  "sane_init_pnm s = (s, SANE_STATUS_GOOD, sane_version_code 1 0 9)"

definition sane_get_devices_pnm :: "pnm \<Rightarrow> bool \<Rightarrow> pnm \<times> sane_word \<times> sane_device option list option" where
  "sane_get_devices_pnm s local_only = (s, SANE_STATUS_GOOD, Some (map Some pnm_dev @ [None]))"

definition sane_open_pnm :: "c_string \<Rightarrow> pnm \<Rightarrow> pnm \<times> sane_word \<times> sane_handle" where
  \<comment> \<open>a handle that is not stored counts as 0\<close>
  "sane_open_pnm devicename s =
     (case devicename of
        None \<Rightarrow> (s, SANE_STATUS_INVAL, 0)
      | Some blk \<Rightarrow>
          (case c_str blk of
             None \<Rightarrow> (pn_fail s, SANE_STATUS_INVAL, 0)
           | Some name \<Rightarrow>
               if name \<noteq> [] \<and> mk_cstr name \<notin> set (map (\<lambda>d. the (dev_name d)) pnm_dev) then (s, SANE_STATUS_INVAL, 0)
               else if pn_open s then (s, SANE_STATUS_DEVICE_BUSY, 0)
               else let s1 = s\<lparr>pn_open := True, pn_gamma := replicate 4 (map word_of_nat [0..<256])\<rparr>
                    in if take 6 name = ascii ''locked'' then (s1, SANE_STATUS_HW_LOCKED, MAGIC)
                       else if take 6 name = ascii ''warmup'' then (s1\<lparr>pn_warming_up := True, pn_start := 0\<rparr>, SANE_STATUS_GOOD, MAGIC)
                       else (s1, SANE_STATUS_GOOD, MAGIC)))"

definition sane_close_pnm :: "sane_handle \<Rightarrow> pnm \<Rightarrow> pnm" where
  "sane_close_pnm h s = (if h = MAGIC then s\<lparr>pn_open := False\<rparr> else s)"

section \<open>Reading and setting options\<close>

definition pnm_descriptor :: "nat \<Rightarrow> pnm \<Rightarrow> sane_option_descriptor" where
  "pnm_descriptor i s = (pnm_sod ! i)\<lparr>opt_cap := pn_cap s ! i\<rparr>"

definition sane_get_option_descriptor_pnm :: "sane_handle \<Rightarrow> sane_word \<Rightarrow> pnm \<Rightarrow> sane_option_descriptor option" where
  "sane_get_option_descriptor_pnm h option s =
     (if h \<noteq> MAGIC \<or> \<not> pn_open s then None
      else if sint option < 0 \<or> int num_options \<le> sint option then None
      else Some (pnm_descriptor (nat (sint option)) s))"

definition constrain_pnm :: "sane_option_descriptor \<Rightarrow> ctl_value \<Rightarrow> (sane_word \<times> ctl_value \<times> sane_word) option" where
  \<comment> \<open>\<open>sanei_constrain_value (sod + option, value, &myinfo)\<close> with \<open>myinfo = 0\<close>, on the memory \<open>value\<close> points to;
      none of the options is constrained by strings\<close>
  "constrain_pnm d v =
     (case sanei_constrain_value d (Val_Words (bytes_words (value_bytes v))) (Some 0) of
        Some (status, Val_Words ws, Some info) \<Rightarrow>
          map_option (\<lambda>v1. (status, v1, info)) (store_bytes v (concat (map word_bytes ws)))
      | _ \<Rightarrow> None)"

definition gamma_caps :: "sane_word \<Rightarrow> bool \<Rightarrow> sane_word list \<Rightarrow> sane_word list" where
  \<comment> \<open>activate or deactivate the options \<open>opt_gamma\<close> to \<open>opt_gamma_b\<close>\<close>
  "gamma_caps use gray cap =
     (let off = (\<lambda>c. c OR SANE_CAP_INACTIVE); on = (\<lambda>c. c AND NOT SANE_CAP_INACTIVE)
      in if use \<noteq> 0 then
           if gray then cap[14 := on (cap ! 14), 15 := off (cap ! 15), 16 := off (cap ! 16), 17 := off (cap ! 17)]
           else cap[14 := off (cap ! 14), 15 := on (cap ! 15), 16 := on (cap ! 16), 17 := on (cap ! 17)]
         else cap[14 := off (cap ! 14), 15 := off (cap ! 15), 16 := off (cap ! 16), 17 := off (cap ! 17)])"

definition with_word :: "byte list \<Rightarrow> (sane_word \<Rightarrow> pnm) \<Rightarrow> sane_word \<Rightarrow> pnm \<Rightarrow> pnm \<times> sane_word \<times> sane_word" where
  \<comment> \<open>use \<open>*(SANE_Word *) value\<close>, and set bits of \<open>myinfo\<close>\<close>
  "with_word mem f info s =
     (case bytes_words mem of [] \<Rightarrow> (pn_fail s, SANE_STATUS_INVAL, 0) | w # _ \<Rightarrow> (f w, SANE_STATUS_GOOD, info))"

definition set_value_pnm :: "nat \<Rightarrow> byte list \<Rightarrow> sane_word \<Rightarrow> pnm \<Rightarrow> pnm \<times> sane_word \<times> sane_word" where
  \<comment> \<open>the \<open>switch\<close> of \<open>SANE_ACTION_SET_VALUE\<close>: the new state, the status and \<open>myinfo\<close>\<close>
  "set_value_pnm i mem info s =
     (if i = opt_filename then
        (case c_str mem of
           None \<Rightarrow> (pn_fail s, SANE_STATUS_INVAL, 0)
         | Some name \<Rightarrow>
             if 4096 < length name + 1 then (s, SANE_STATUS_NO_MEM, 0)
             else (s\<lparr>pn_filename := name\<rparr>, SANE_STATUS_GOOD, info OR SANE_INFO_RELOAD_PARAMS))
      else if i = opt_resolution then with_word mem (\<lambda>w. s\<lparr>pn_res := w\<rparr>) info s
      else if i = opt_brightness then with_word mem (\<lambda>w. s\<lparr>pn_bright := w\<rparr>) info s
      else if i = opt_contrast then with_word mem (\<lambda>w. s\<lparr>pn_contr := w\<rparr>) info s
      else if i = opt_grayify then
        with_word mem (\<lambda>w. s\<lparr>pn_gray := (w \<noteq> 0), pn_cap := gamma_caps (pn_usegamma s) (w \<noteq> 0) (pn_cap s)\<rparr>)
          (info OR SANE_INFO_RELOAD_PARAMS OR SANE_INFO_RELOAD_OPTIONS) s
      else if i = opt_three_pass then with_word mem (\<lambda>w. s\<lparr>pn_three_pass := (w \<noteq> 0)\<rparr>) (info OR SANE_INFO_RELOAD_PARAMS) s
      else if i = opt_hand_scanner then with_word mem (\<lambda>w. s\<lparr>pn_hand_scanner := (w \<noteq> 0)\<rparr>) (info OR SANE_INFO_RELOAD_PARAMS) s
      else if i = opt_default_enhancements then
        (s\<lparr>pn_bright := 0, pn_contr := 0\<rparr>, SANE_STATUS_GOOD, info OR SANE_INFO_RELOAD_OPTIONS)
      else if i = opt_custom_gamma then
        with_word mem (\<lambda>w. s\<lparr>pn_usegamma := w, pn_test_option := (if w \<noteq> 0 then 100 else 0),
            pn_cap := gamma_caps w (pn_gray s) (pn_cap s)\<rparr>) (info OR SANE_INFO_RELOAD_OPTIONS) s
      else if opt_gamma \<le> i \<and> i \<le> opt_gamma_b then
        (if length (bytes_words mem) < 256 then (pn_fail s, SANE_STATUS_INVAL, 0)
         else (s\<lparr>pn_gamma := (pn_gamma s)[i - opt_gamma := take 256 (bytes_words mem)]\<rparr>, SANE_STATUS_GOOD,
           info OR SANE_INFO_RELOAD_OPTIONS))
      else if opt_status \<le> i \<and> i \<le> opt_status_accessdenied then
        with_word mem (\<lambda>w. s\<lparr>pn_status := (if w \<noteq> 0 then replicate 8 SANE_FALSE else pn_status s)[i - opt_status := w]\<rparr>)
          (info OR SANE_INFO_RELOAD_OPTIONS) s
      else (s, SANE_STATUS_INVAL, 0))"

definition option_bytes :: "nat \<Rightarrow> pnm \<Rightarrow> byte list option" where
  \<comment> \<open>what the \<open>switch\<close> of \<open>SANE_ACTION_GET_VALUE\<close> stores; \<open>None\<close> for the other options\<close>
  "option_bytes i s =
     (if i = opt_num_opts then Some (word_bytes (word_of_nat num_options))
      else if i = opt_filename then Some (mk_cstr (pn_filename s))
      else if i = opt_resolution then Some (word_bytes (pn_res s))
      else if i = opt_brightness then Some (word_bytes (pn_bright s))
      else if i = opt_contrast then Some (word_bytes (pn_contr s))
      else if i = opt_grayify then Some (word_bytes (of_bool (pn_gray s)))
      else if i = opt_three_pass then Some (word_bytes (of_bool (pn_three_pass s)))
      else if i = opt_hand_scanner then Some (word_bytes (of_bool (pn_hand_scanner s)))
      else if i = opt_read_only then Some (word_bytes (pn_test_option s))
      else if i = opt_custom_gamma then Some (word_bytes (pn_usegamma s))
      else if opt_gamma \<le> i \<and> i \<le> opt_gamma_b then Some (concat (map word_bytes (pn_gamma s ! (i - opt_gamma))))
      else if opt_status \<le> i \<and> i \<le> opt_status_accessdenied then Some (word_bytes (pn_status s ! (i - opt_status)))
      else None)"

definition sane_control_option_pnm :: "sane_handle \<Rightarrow> sane_word \<Rightarrow> sane_word \<Rightarrow> ctl_value \<Rightarrow> pnm \<Rightarrow>
    pnm \<times> sane_word \<times> ctl_value \<times> sane_word" where
  \<comment> \<open>the new state, the status, the memory of \<open>value\<close> and \<open>*info\<close>, 0 when it is not written\<close>
  "sane_control_option_pnm h option action v s =
     (if h \<noteq> MAGIC \<or> \<not> pn_open s then (s, SANE_STATUS_INVAL, v, 0)
      else if sint option < 0 \<or> int num_options \<le> sint option then (s, SANE_STATUS_INVAL, v, 0)
      else let i = nat (sint option); d = pnm_descriptor i s
           in if opt_cap d AND SANE_CAP_INACTIVE \<noteq> 0 then (s, SANE_STATUS_INVAL, v, 0)
              else if action = SANE_ACTION_SET_AUTO then
                (if opt_cap d AND SANE_CAP_SOFT_SELECT = 0 then (s, SANE_STATUS_INVAL, v, 0)
                 else case constrain_pnm d (Ctl_Words [75]) of
                   None \<Rightarrow> (pn_fail s, SANE_STATUS_INVAL, v, 0)
                 | Some (status, _, info) \<Rightarrow>
                     if status \<noteq> SANE_STATUS_GOOD then (s, status, v, 0)
                     else if i = opt_resolution then (s\<lparr>pn_res := 75\<rparr>, SANE_STATUS_GOOD, v, info OR SANE_INFO_RELOAD_PARAMS)
                     else (s, SANE_STATUS_INVAL, v, 0))
              else if action = SANE_ACTION_SET_VALUE then
                (if opt_cap d AND SANE_CAP_SOFT_SELECT = 0 then (s, SANE_STATUS_INVAL, v, 0)
                 else case constrain_pnm d v of
                   None \<Rightarrow> (pn_fail s, SANE_STATUS_INVAL, v, 0)
                 | Some (status, v1, info) \<Rightarrow>
                     if status \<noteq> SANE_STATUS_GOOD then (s, status, v1, 0)
                     else (case set_value_pnm i (value_bytes v1) info s of (s1, st, info1) \<Rightarrow> (s1, st, v1, info1)))
              else if action = SANE_ACTION_GET_VALUE then
                (case option_bytes i s of
                   None \<Rightarrow> (s, SANE_STATUS_INVAL, v, 0)
                 | Some bs \<Rightarrow>
                     (case store_bytes v bs of
                        None \<Rightarrow> (pn_fail s, SANE_STATUS_INVAL, v, 0)
                      | Some v1 \<Rightarrow> (s, SANE_STATUS_GOOD, v1, 0)))
              else (s, SANE_STATUS_GOOD, v, 0))"

end
