(* ===== verification/Pnm_Scan.thy ===== *)
theory Pnm_Scan
  imports Pnm Config "HOL-Library.Monad_Syntax"
begin

text \<open>
  Scanning with the backend \<^verbatim>\<open>pnm\<close>, the second half of \<^verbatim>\<open>backend/pnm.c\<close>: the header of the file, and the
  image, which passes through brightness, contrast and gamma.  A function whose loops may not end has
  an option result.  The argument \<open>env\<close> has the files, the contents of a fresh line buffer, and the values
  of the two variables of a header line that has no numbers.
\<close>

unbundle bit_operations_syntax

record pnm_env =
  pe_files :: file_system
  pe_buf :: "byte list"
  pe_junk :: "sane_word \<times> sane_word"

abbreviation (input) SANE_FRAME_GRAY :: sane_word where "SANE_FRAME_GRAY \<equiv> 0"
abbreviation (input) SANE_FRAME_RGB :: sane_word where "SANE_FRAME_RGB \<equiv> 1"
abbreviation (input) SANE_FRAME_RED :: sane_word where "SANE_FRAME_RED \<equiv> 2"
abbreviation (input) SANE_FRAME_GREEN :: sane_word where "SANE_FRAME_GREEN \<equiv> 3"
abbreviation (input) SANE_FRAME_BLUE :: sane_word where "SANE_FRAME_BLUE \<equiv> 4"

section \<open>The header of the file\<close>

definition file_gets :: "byte list \<Rightarrow> nat \<Rightarrow> c_file \<Rightarrow> byte list \<times> c_file" where
  \<comment> \<open>\<open>fgets (buf, len, f)\<close>, whose result the code ignores: at the end of the file the buffer stays as it is\<close>
  "file_gets buf len f =
     (case read_line (len - 1) (cf_rest f) of
        (l, rest) \<Rightarrow> (if l = [] then buf else blit buf 0 (l @ [NUL]),
          \<lparr>cf_rest = rest, cf_eof = (cf_eof f \<or> length l < len - 1 \<and> (l = [] \<or> last l \<noteq> 10))\<rparr>))"

definition file_read :: "nat \<Rightarrow> c_file \<Rightarrow> byte list \<times> c_file" where
  \<comment> \<open>\<open>fread (p, 1, n, f)\<close>\<close>
  "file_read n f = (take n (cf_rest f), \<lparr>cf_rest = drop n (cf_rest f), cf_eof = (cf_eof f \<or> length (cf_rest f) < n)\<rparr>)"

partial_function (option) get_line :: "byte list \<Rightarrow> nat \<Rightarrow> c_file \<Rightarrow> (byte list \<times> c_file) option" where
  \<comment> \<open>\<open>do fgets (buf, len, f); while (*buf == '#')\<close>\<close>
  "get_line buf len f = (case file_gets buf len f of (b, f1) \<Rightarrow> if b ! 0 = 35 then get_line b len f1 else Some (b, f1))"

partial_function (option) skip_comments :: "byte list \<Rightarrow> c_file \<Rightarrow> (byte list \<times> c_file) option" where
  "skip_comments buf f =
     do {
       (b, f1) \<leftarrow> get_line buf 1024 f;
       (if b ! 0 = 35 then skip_comments b f1 else Some (b, f1))
     }"

declare get_line.simps [code] skip_comments.simps [code]

definition scan_int :: "byte list \<Rightarrow> (sane_word \<times> byte list) option" where
  \<comment> \<open>a conversion \<open>%d\<close>: the number and what follows\<close>
  "scan_int s =
     (let t = dropWhile is_space s;
          u = (if t \<noteq> [] \<and> (hd t = 45 \<or> hd t = 43) then tl t else t)
      in if takeWhile is_digit u = [] then None
         else Some (word_of_int (fst (c_strtol10 s)), dropWhile is_digit u))"

definition scan_size :: "sane_word \<times> sane_word \<Rightarrow> byte list \<Rightarrow> sane_word \<times> sane_word" where
  \<comment> \<open>\<open>sscanf (buf, "%d %d", &x, &y)\<close>\<close>
  "scan_size junk s =
     (case scan_int s of
        None \<Rightarrow> junk
      | Some (x, rest) \<Rightarrow> (case scan_int rest of None \<Rightarrow> (x, snd junk) | Some (y, _) \<Rightarrow> (x, y)))"

definition header_type :: "byte list \<Rightarrow> ppm_type option" where
  "header_type buf =
     (if take 2 buf = ascii ''P4'' then Some ppm_bitmap
      else if take 2 buf = ascii ''P5'' then Some ppm_greyscale
      else if take 2 buf = ascii ''P6'' then Some ppm_color
      else None)"

definition header_parms :: "ppm_type \<Rightarrow> sane_word \<Rightarrow> sane_word \<Rightarrow> pnm \<Rightarrow> pnm" where
  \<comment> \<open>the parameters of an image of the type and size in the header\<close>
  "header_parms ty x y s =
     (let bpl = (if ty = ppm_bitmap then word_of_int (c_div (sint (x + 7)) 8) else x);
          p = (pn_parms s)\<lparr>par_depth := (if ty = ppm_bitmap then 1 else 8), par_last_frame := SANE_TRUE,
                par_bytes_per_line := bpl, par_pixels_per_line := x,
                par_lines := (if pn_hand_scanner s then - 1 else y)\<rparr>
      in s\<lparr>pn_type := ty, pn_parms :=
           (if ty = ppm_greyscale \<or> ty = ppm_bitmap \<or> pn_gray s then p\<lparr>par_format := SANE_FRAME_GRAY\<rparr>
            else if pn_three_pass s then
              p\<lparr>par_format := SANE_FRAME_RED + word_of_nat ((pn_pass s + 1) mod 3), par_last_frame := of_bool (2 \<le> pn_pass s)\<rparr>
            else p\<lparr>par_format := SANE_FRAME_RGB, par_bytes_per_line := bpl * 3\<rparr>)\<rparr>)"

definition getparmfromfile :: "pnm_env \<Rightarrow> pnm \<Rightarrow> (pnm \<times> bool) option" where
  \<comment> \<open>whether it succeeds; \<open>None\<close> when it never returns\<close>
  "getparmfromfile env s =
     (let s1 = s\<lparr>pn_parms := (pn_parms s)\<lparr>par_depth := 8, par_bytes_per_line := 0, par_pixels_per_line := 0, par_lines := 0\<rparr>\<rparr>
      in case pe_files env (pn_filename s) of
           None \<Rightarrow> Some (s1, False)
         | Some content \<Rightarrow>
             do {
               (buf, f) \<leftarrow> skip_comments (pe_buf env) \<lparr>cf_rest = content, cf_eof = False\<rparr>;
               (case header_type buf of
                  None \<Rightarrow> Some (s1, False)
                | Some ty \<Rightarrow>
                    do {
                      (buf1, f1) \<leftarrow> skip_comments buf f;
                      (case c_str buf1 of
                         None \<Rightarrow> Some (pn_fail s1, False)
                       | Some line \<Rightarrow> (case scan_size (pe_junk env) line of (x, y) \<Rightarrow> Some (header_parms ty x y s1, True)))
                    })
             })"

definition sane_get_parameters_pnm :: "pnm_env \<Rightarrow> sane_handle \<Rightarrow> pnm \<Rightarrow> (pnm \<times> sane_word \<times> sane_parameters) option" where
  "sane_get_parameters_pnm env h s =
     (if h \<noteq> MAGIC \<or> \<not> pn_open s then Some (s, SANE_STATUS_INVAL, pn_parms s)
      else do {
        (s1, ok) \<leftarrow> getparmfromfile env s;
        Some (s1, if ok then SANE_STATUS_GOOD else SANE_STATUS_INVAL, pn_parms s1)
      })"

section \<open>Starting a scan\<close>

partial_function (option) skip_header :: "nat \<Rightarrow> byte list \<Rightarrow> c_file \<Rightarrow> c_file option" where
  \<comment> \<open>the lines of the header, counted by \<open>nlines\<close>\<close>
  "skip_header nlines buf f =
     (if nlines < 3 then
        do {
          (b, f1) \<leftarrow> get_line buf 1024 f;
          skip_header (if b ! 0 \<noteq> 35 then Suc nlines else nlines) b f1
        }
      else Some f)"

declare skip_header.simps [code]

definition sane_start_pnm :: "pnm_env \<Rightarrow> sane_handle \<Rightarrow> pnm \<Rightarrow> (pnm \<times> sane_word) option" where
  "sane_start_pnm env h s0 =
     (let s = s0\<lparr>pn_rgb_comp := 0\<rparr>
      in if h \<noteq> MAGIC \<or> \<not> pn_open s then Some (s, SANE_STATUS_INVAL)
         else if pn_warming_up s \<and> 5 < pn_now s - pn_start s then Some (s\<lparr>pn_start := pn_now s\<rparr>, SANE_STATUS_WARMING_UP)
         else if pn_warming_up s \<and> pn_now s - pn_start s < 5 then Some (s, SANE_STATUS_WARMING_UP)
         else
           (let again = pn_infile s \<noteq> None;
                s1 = s\<lparr>pn_infile := None\<rparr>;
                s2 = (if again \<and> pn_three_pass s1 then s1\<lparr>pn_pass := pn_pass s1 + 1\<rparr> else s1)
            in if again \<and> (\<not> pn_three_pass s1 \<or> 3 \<le> pn_pass s2) then Some (s2, SANE_STATUS_EOF)
               else do {
                 (s3, ok) \<leftarrow> getparmfromfile env s2;
                 (if \<not> ok then Some (s3, SANE_STATUS_INVAL)
                  else case pe_files env (pn_filename s3) of
                    None \<Rightarrow> Some (s3, SANE_STATUS_INVAL)
                  | Some content \<Rightarrow>
                      do {
                        f \<leftarrow> skip_header (if pn_type s3 = ppm_bitmap then 1 else 0) (pe_buf env) \<lparr>cf_rest = content, cf_eof = False\<rparr>;
                        Some (s3\<lparr>pn_infile := Some f\<rparr>, SANE_STATUS_GOOD)
                      })
               }))"

section \<open>Reading the image\<close>

definition forced_status :: "pnm \<Rightarrow> sane_word option" where
  \<comment> \<open>the status that an option asks for\<close>
  "forced_status s =
     (let on = (\<lambda>k. pn_status s ! k = SANE_TRUE)
      in if on 2 then Some SANE_STATUS_JAMMED
         else if on 1 then Some SANE_STATUS_EOF
         else if on 3 then Some SANE_STATUS_NO_DOCS
         else if on 4 then Some SANE_STATUS_COVER_OPEN
         else if on 5 then Some SANE_STATUS_IO_ERROR
         else if on 6 then Some SANE_STATUS_NO_MEM
         else if on 7 then Some SANE_STATUS_ACCESS_DENIED
         else None)"

definition pn_alloc :: "pnm \<Rightarrow> pnm \<times> bool" where
  "pn_alloc s = (case pn_malloc s of [] \<Rightarrow> (s, True) | b # bs \<Rightarrow> (s\<lparr>pn_malloc := bs\<rparr>, b))"

definition grow_rgbbuf :: "nat \<Rightarrow> pnm \<Rightarrow> pnm \<times> bool" where
  \<comment> \<open>make room for \<open>n\<close> bytes; whether there is memory\<close>
  "grow_rgbbuf n s =
     (if pn_rgbbuf s = None \<or> pn_rgblength s < n then
        (case pn_alloc s of
           (s1, True) \<Rightarrow> (s1\<lparr>pn_rgblength := n, pn_rgbbuf := Some n\<rparr>, True)
         | (s1, False) \<Rightarrow> (s1\<lparr>pn_rgblength := n, pn_rgbbuf := None\<rparr>, False))
      else (s\<lparr>pn_rgblength := n\<rparr>, True))"

definition rgb_byte :: "pnm \<Rightarrow> byte list \<Rightarrow> nat \<Rightarrow> byte" where
  \<comment> \<open>the byte made from the pixel at offset \<open>k\<close>: the average, or the band of this pass\<close>
  "rgb_byte s buf k =
     (if pn_gray s then word_of_nat ((unat (buf ! k) + unat (buf ! (k + 1)) + unat (buf ! (k + 2))) div 3)
      else buf ! (k + (pn_pass s + 1) mod 3))"

definition rgb_read :: "nat \<Rightarrow> c_file \<Rightarrow> pnm \<Rightarrow> pnm \<times> byte list" where
  \<comment> \<open>read pixels and keep of each one byte; \<open>rgbend\<close> is \<open>len\<close> bytes behind the start of the buffer, the bytes left
      over from the last time included; a byte made from an incomplete pixel lies behind those delivered\<close>
  "rgb_read max_length f s =
     (case file_read (pn_rgblength s - length (pn_left s)) f of
        (got, f1) \<Rightarrow>
          let buf = pn_left s @ got; len = length got
          in (s\<lparr>pn_infile := Some f1, pn_left := drop (len - len mod 3) (take len buf)\<rparr>,
              map (\<lambda>j. rgb_byte s buf (3 * j)) [0..<len div 3]))"

definition level :: "sane_word \<Rightarrow> sane_word \<Rightarrow> byte \<Rightarrow> byte" where
  \<comment> \<open>contrast and brightness, in 32-bit arithmetic\<close>
  "level contr bright c =
     (let h1 = (ucast c :: sane_word) - 128;
          h2 = h1 * (contr + 6553600);
          h3 = word_of_int (c_div (sint h2) 6553600);
          h4 = h3 + (signed_drop_bit 16 bright + 128)
      in if sint h4 < 0 then 0 else if 255 < sint h4 then 255 else ucast h4)"

definition gamma_byte :: "pnm \<Rightarrow> nat \<Rightarrow> byte \<Rightarrow> byte" where
  "gamma_byte s k uc = ucast (pn_gamma s ! k ! unat uc)"

fun rgb_gamma :: "pnm \<Rightarrow> nat \<Rightarrow> byte list \<Rightarrow> byte list \<times> nat" where
  \<comment> \<open>the tables in turn; \<open>rgb_comp\<close> goes on in the next call\<close>
  "rgb_gamma s band [] = ([], band)"
| "rgb_gamma s band (c # cs) =
     (case rgb_gamma s (if 2 < band + 1 then 0 else band + 1) cs of (ds, band1) \<Rightarrow> (gamma_byte s (band + 1) c # ds, band1))"

definition apply_gamma :: "byte list \<Rightarrow> pnm \<Rightarrow> pnm \<times> byte list" where
  "apply_gamma d s =
     (if pn_usegamma s = 0 then (s, d)
      else if pn_gray s then (s, map (gamma_byte s 0) d)
      else if par_format (pn_parms s) = SANE_FRAME_RGB then
        (case rgb_gamma s (pn_rgb_comp s) d of (e, band) \<Rightarrow> (s\<lparr>pn_rgb_comp := band\<rparr>, e))
      else
        (let k = (if par_format (pn_parms s) = SANE_FRAME_RED then 1
                  else if par_format (pn_parms s) = SANE_FRAME_GREEN then 2
                  else if par_format (pn_parms s) = SANE_FRAME_BLUE then 3 else 0)
         in (s, if k \<noteq> 0 then map (gamma_byte s k) d else d)))"

definition shade :: "byte list \<Rightarrow> pnm \<Rightarrow> pnm \<times> byte list" where
  "shade d s =
     (if par_depth (pn_parms s) = 8 then apply_gamma (map (level (pn_contr s) (pn_bright s)) d) s else (s, d))"

definition pnm_read :: "nat \<Rightarrow> pnm \<Rightarrow> pnm \<times> sane_word \<times> byte list" where
  \<comment> \<open>\<open>sane_read\<close> behind the checks of its arguments\<close>
  "pnm_read max_length s =
     (if \<not> pn_open s then (s, SANE_STATUS_INVAL, [])
      else case pn_infile s of
        None \<Rightarrow> (s, SANE_STATUS_CANCELLED, [])
      | Some f \<Rightarrow>
          if cf_eof f then (s, SANE_STATUS_EOF, [])
          else case forced_status s of
            Some status \<Rightarrow> (s, status, [])
          | None \<Rightarrow>
              let rgb = (pn_type s = ppm_color \<and> (pn_gray s \<or> pn_three_pass s));
                  (s1, ok) = (if rgb then grow_rgbbuf (3 * max_length) s else (s, True))
              in if rgb \<and> 2 ^ 31 \<le> 3 * int max_length then (pn_fail s, SANE_STATUS_INVAL, [])
                 else if \<not> ok then (s1, SANE_STATUS_NO_MEM, [])
                 else if rgb \<and> pn_rgblength s1 < length (pn_left s1) then (pn_fail s1, SANE_STATUS_INVAL, [])
                 else let (s2, d) = (if rgb then rgb_read max_length f s1
                            else case file_read max_length f of (d, f1) \<Rightarrow> (s1\<lparr>pn_infile := Some f1\<rparr>, d))
                      in if d = [] then
                           (s2, if (case pn_infile s2 of Some f2 \<Rightarrow> cf_eof f2 | None \<Rightarrow> False) then SANE_STATUS_EOF
                                else SANE_STATUS_IO_ERROR, [])
                         else (case shade d s2 of (s3, e) \<Rightarrow> (s3, SANE_STATUS_GOOD, e)))"

definition sane_read_pnm :: "sane_handle \<Rightarrow> nat \<Rightarrow> pnm \<Rightarrow> pnm \<times> sane_word \<times> byte list" where
  \<comment> \<open>\<open>length\<close> and \<open>data\<close> are not null; the status and the \<open>*length\<close> bytes stored, none with a status other than good\<close>
  "sane_read_pnm h max_length s = (if h \<noteq> MAGIC then (s, SANE_STATUS_INVAL, []) else pnm_read max_length s)"

lemma int_limit [simp]: "(2147483648 :: int) \<le> 3 * int n \<longleftrightarrow> 2147483648 \<le> 3 * n"
  by linarith

definition sane_cancel_pnm :: "sane_handle \<Rightarrow> pnm \<Rightarrow> pnm" where
  "sane_cancel_pnm h s = s\<lparr>pn_pass := 0, pn_infile := None\<rparr>"

definition sane_set_io_mode_pnm :: "sane_handle \<Rightarrow> bool \<Rightarrow> pnm \<Rightarrow> pnm \<times> sane_word" where
  "sane_set_io_mode_pnm h non_blocking s =
     (if pn_infile s = None then (s, SANE_STATUS_INVAL)
      else if non_blocking then (s, SANE_STATUS_UNSUPPORTED)
      else (s, SANE_STATUS_GOOD))"

definition sane_get_select_fd_pnm :: "sane_handle \<Rightarrow> pnm \<Rightarrow> pnm \<times> sane_word \<times> sane_word" where
  \<comment> \<open>the descriptor is not stored\<close>
  "sane_get_select_fd_pnm h s = (s, SANE_STATUS_UNSUPPORTED, 0)"

section \<open>The backend\<close>

definition pnm_backend :: "pnm_env \<Rightarrow> pnm backend" where
  \<comment> \<open>the operations as the daemon and the loader call them; a call that never returns counts as a fault\<close>
  "pnm_backend env =
     \<lparr>b_init = sane_init_pnm,
      b_get_devices = sane_get_devices_pnm,
      b_open = (\<lambda>s name. Ret (sane_open_pnm name s)),
      b_close = (\<lambda>s h. sane_close_pnm h s),
      b_descriptor = (\<lambda>s h i. sane_get_option_descriptor_pnm h (word_of_nat i) s),
      b_control = (\<lambda>s h option action v. Ret (sane_control_option_pnm h option action v s)),
      b_params = (\<lambda>s h. case sane_get_parameters_pnm env h s of Some r \<Rightarrow> r | None \<Rightarrow> (pn_fail s, SANE_STATUS_INVAL, pn_parms s)),
      b_start = (\<lambda>s h. Ret (case sane_start_pnm env h s of Some r \<Rightarrow> r | None \<Rightarrow> (pn_fail s, SANE_STATUS_INVAL))),
      b_read = (\<lambda>s h n. sane_read_pnm h n s),
      b_cancel = (\<lambda>s h. sane_cancel_pnm h s),
      b_set_io_mode = (\<lambda>s h m. sane_set_io_mode_pnm h m s),
      b_select_fd = (\<lambda>s h. sane_get_select_fd_pnm h s),
      b_exit = (\<lambda>s. s),
      b_authorize = (\<lambda>r. Ret SANE_STATUS_GOOD)\<rparr>"

end
