(* ===== verification/Pnm_Image.thy ===== *)
theory Pnm_Image
  imports Pnm_Scan Config_Props Saned_Frames
begin

text \<open>
  What the PNM backend delivers: the arithmetic of brightness and contrast does not overflow, the
  header of a file is found behind any comments, and a scan is the image of the file's body.
\<close>

section \<open>Brightness and contrast\<close>

definition percent_ok :: "sane_word \<Rightarrow> bool" where
  "percent_ok w \<longleftrightarrow> - 6553600 \<le> sint w \<and> sint w \<le> 6553600"

lemma c_div_bounds:
  assumes "0 < b" "\<bar>a\<bar> \<le> k * b"
  shows "\<bar>c_div a b\<bar> \<le> k"
proof -
  have "\<bar>a\<bar> div b \<le> k" using assms zdiv_mono1 [OF assms(2,1)] by simp
  moreover have "0 \<le> \<bar>a\<bar> div b" using assms(1) by (simp add: pos_imp_zdiv_nonneg_iff)
  ultimately show ?thesis using assms(1) by (auto simp: c_div_def abs_mult sgn_if)
qed

lemma uint_byte: "0 \<le> uint (c :: byte)" "uint (c :: byte) < 256"
  using unsigned_less [where 'a = int, of c] by simp_all

lemma level_exact:
  assumes "percent_ok contr" "percent_ok bright"
  shows "level contr bright c = word_of_int (max 0 (min 255
    (c_div ((uint c - 128) * (sint contr + 6553600)) 6553600 + sint bright div 65536 + 128)))"
proof -
  define p q where "p = (uint c - 128) * (sint contr + 6553600)" and "q = c_div p 6553600 + (sint bright div 65536 + 128)"
  have c: "\<bar>uint c - 128\<bar> \<le> 128" using uint_byte [of c] by linarith
  moreover have f: "\<bar>sint contr + 6553600\<bar> \<le> 13107200" using assms(1) by (simp add: percent_ok_def)
  ultimately have p: "\<bar>p\<bar> \<le> 128 * 13107200" unfolding p_def abs_mult by (intro mult_mono) simp_all
  then have d: "\<bar>c_div p 6553600\<bar> \<le> 256" by (intro c_div_bounds) simp_all
  have b: "- 100 \<le> sint bright div 65536" "sint bright div 65536 \<le> 100"
    using assms(2) zdiv_mono1 [of "- 6553600" "sint bright" 65536] zdiv_mono1 [of "sint bright" 6553600 65536]
    by (simp_all add: percent_ok_def)
  have "((ucast c :: sane_word) - 128) * (contr + 6553600) = word_of_int p"
    unfolding p_def by simp
  then have h2: "sint (((ucast c :: sane_word) - 128) * (contr + 6553600)) = p"
    using p by (simp add: sint_word_of_int_32)
  have "signed_drop_bit 16 bright = word_of_int (sint bright div 65536)"
    using word_of_int_sint [of "signed_drop_bit 16 bright"]
    by (simp add: sint_signed_drop_bit_eq drop_bit_eq_div)
  then have h4: "word_of_int (c_div p 6553600) + (signed_drop_bit 16 bright + 128) = (word_of_int q :: sane_word)"
    unfolding q_def by simp
  have "- 500 \<le> q" "q \<le> 500"
    using d b unfolding q_def by linarith+
  then have q: "sint (word_of_int q :: sane_word) = q"
    by (simp add: sint_word_of_int_32)
  have "ucast (word_of_int q :: sane_word) = (word_of_int q :: byte)" if "0 \<le> q" "q \<le> 255"
    using that by (simp add: ucast_eq uint_word_of_int)
  then have "(if q < 0 then 0 else if 255 < q then 255 else ucast (word_of_int q :: sane_word)) = (word_of_int (max 0 (min 255 q)) :: byte)"
    by (auto simp: max_def min_def)
  moreover have "c_div p 6553600 + sint bright div 65536 + 128 = q" by (simp add: q_def)
  ultimately show ?thesis
    unfolding level_def Let_def h2 h4 q by (simp only: p_def)
qed

lemma level_neutral: "level 0 0 c = c"
proof -
  have "c_div ((uint c - 128) * 6553600) 6553600 = uint c - 128"
    by (auto simp: c_div_def abs_mult sgn_mult sgn_if abs_if)
  then show ?thesis
    using level_exact [of 0 0 c] uint_byte [of c] by (simp add: percent_ok_def)
qed

section \<open>The header\<close>

definition comment_line :: "byte list \<Rightarrow> bool" where
  "comment_line l \<longleftrightarrow> 10 \<notin> set l \<and> length l \<le> 1022 \<and> l \<noteq> [] \<and> hd l = 35"

definition data_line :: "byte list \<Rightarrow> bool" where
  "data_line l \<longleftrightarrow> 10 \<notin> set l \<and> NUL \<notin> set l \<and> length l \<le> 1022 \<and> (l = [] \<or> hd l \<noteq> 35)"

lemma file_gets_line:
  assumes "10 \<notin> set l" "length l \<le> 1022"
  shows "file_gets buf 1024 \<lparr>cf_rest = l @ 10 # r, cf_eof = e\<rparr> = (blit buf 0 (l @ [10, 0]), \<lparr>cf_rest = r, cf_eof = e\<rparr>)"
proof -
  have "read_line 1023 (l @ 10 # r) = (l @ [10], r)"
    using assms by (intro read_line_text) simp_all
  then show ?thesis by (simp add: file_gets_def)
qed

lemma blit_front: "blit buf 0 src = src @ drop (length src) buf"
  by (simp add: blit_def)

lemma get_line_text:
  assumes "\<forall>c \<in> set cs. comment_line c" "data_line l" "length buf = 1024"
  shows "\<exists>b. get_line buf 1024 \<lparr>cf_rest = file_text (cs @ [l]) @ r, cf_eof = e\<rparr> = Some (b, \<lparr>cf_rest = r, cf_eof = e\<rparr>) \<and>
    length b = 1024 \<and> b ! 0 \<noteq> 35 \<and> c_str b = Some (l @ [10]) \<and> take 2 b = take 2 (l @ [10, 0])"
  using assms
proof (induction cs arbitrary: buf)
  case Nil
  let ?b = "blit buf 0 (l @ [10, 0])"
  have "length ?b = 1024" using Nil by (simp add: data_line_def)
  moreover have "?b ! 0 \<noteq> 35" using Nil by (cases l) (simp_all add: data_line_def blit_front)
  moreover have "c_str ?b = Some (l @ [10])"
    using Nil c_str_prefix_NUL [of "l @ [10]" "drop (length l + 2) buf"] unfolding blit_front by (simp add: data_line_def)
  moreover have "take 2 ?b = take 2 (l @ [10, 0])" unfolding blit_front by (cases l; cases "tl l") simp_all
  moreover have "file_gets buf 1024 \<lparr>cf_rest = file_text ([] @ [l]) @ r, cf_eof = e\<rparr> = (?b, \<lparr>cf_rest = r, cf_eof = e\<rparr>)"
    using Nil file_gets_line [of l buf r e] by (simp add: data_line_def)
  ultimately show ?case by (subst get_line.simps) simp
next
  case (Cons c cs)
  let ?b = "blit buf 0 (c @ [10, 0])"
  have c: "10 \<notin> set c" "length c \<le> 1022" "c \<noteq> []" "hd c = 35" using Cons.prems by (auto simp: comment_line_def)
  then have b: "length ?b = 1024" "?b ! 0 = 35" using Cons.prems(3) unfolding blit_front by (cases c; simp)+
  have "file_gets buf 1024 \<lparr>cf_rest = file_text ((c # cs) @ [l]) @ r, cf_eof = e\<rparr> =
      (?b, \<lparr>cf_rest = file_text (cs @ [l]) @ r, cf_eof = e\<rparr>)"
    using file_gets_line [OF c(1,2), of buf "file_text (cs @ [l]) @ r" e] by simp
  then have "get_line buf 1024 \<lparr>cf_rest = file_text ((c # cs) @ [l]) @ r, cf_eof = e\<rparr> =
      get_line ?b 1024 \<lparr>cf_rest = file_text (cs @ [l]) @ r, cf_eof = e\<rparr>"
    using b(2) by (subst get_line.simps) simp
  with Cons.IH [of ?b] Cons.prems b(1) show ?case by simp
qed

lemma skip_comments_text:
  assumes "\<forall>c \<in> set cs. comment_line c" "data_line l" "length buf = 1024"
  shows "\<exists>b. skip_comments buf \<lparr>cf_rest = file_text (cs @ [l]) @ r, cf_eof = e\<rparr> = Some (b, \<lparr>cf_rest = r, cf_eof = e\<rparr>) \<and>
    length b = 1024 \<and> c_str b = Some (l @ [10]) \<and> take 2 b = take 2 (l @ [10, 0])"
  using get_line_text [OF assms, of r e] by (subst skip_comments.simps) auto

lemma skip_header_text:
  assumes "\<forall>(cs, l) \<in> set parts. (\<forall>c \<in> set cs. comment_line c) \<and> data_line l" "length buf = 1024" "k + length parts = 3"
  shows "skip_header k buf \<lparr>cf_rest = concat (map (\<lambda>(cs, l). file_text (cs @ [l])) parts) @ r, cf_eof = e\<rparr> =
    Some \<lparr>cf_rest = r, cf_eof = e\<rparr>"
  using assms
proof (induction parts arbitrary: k buf)
  case Nil
  then show ?case by (subst skip_header.simps) simp
next
  case (Cons p parts)
  obtain cs l where p: "p = (cs, l)" by (cases p)
  let ?r = "concat (map (\<lambda>(cs, l). file_text (cs @ [l])) parts) @ r"
  obtain b where b: "get_line buf 1024 \<lparr>cf_rest = file_text (cs @ [l]) @ ?r, cf_eof = e\<rparr> = Some (b, \<lparr>cf_rest = ?r, cf_eof = e\<rparr>)"
    "length b = 1024" "b ! 0 \<noteq> 35"
    using get_line_text [of cs l buf ?r e] Cons.prems p by auto
  moreover have "skip_header (Suc k) b \<lparr>cf_rest = ?r, cf_eof = e\<rparr> = Some \<lparr>cf_rest = r, cf_eof = e\<rparr>"
    using Cons.prems b(2) by (intro Cons.IH) simp_all
  ultimately show ?case using Cons.prems(3) p by (subst skip_header.simps) simp
qed

definition pnm_header :: "ppm_type \<Rightarrow> byte list \<Rightarrow> byte list \<Rightarrow> (byte list list \<times> byte list) list \<Rightarrow> bool" where
  \<comment> \<open>the lines of a header, each with the comments before it: the magic number, the size, and the greatest value
      unless it is a bitmap\<close>
  "pnm_header ty magic sz parts \<longleftrightarrow> (\<forall>(cs, l) \<in> set parts. (\<forall>c \<in> set cs. comment_line c) \<and> data_line l) \<and>
     length parts = (if ty = ppm_bitmap then 2 else 3) \<and> snd (parts ! 0) = magic \<and> header_type (magic @ [10, 0]) = Some ty \<and>
     snd (parts ! 1) = sz"

definition header_text :: "(byte list list \<times> byte list) list \<Rightarrow> byte list" where
  "header_text parts = concat (map (\<lambda>(cs, l). file_text (cs @ [l])) parts)"

lemma header_type_take: "take 2 b = take 2 c \<Longrightarrow> header_type b = header_type c"
  by (simp add: header_type_def)

lemma getparm_header:
  assumes "pnm_header ty magic sz parts" "pe_files env (pn_filename s) = Some (header_text parts @ body)" "length (pe_buf env) = 1024"
    and "scan_size (pe_junk env) (sz @ [10]) = (x, y)"
  shows "getparmfromfile env s = Some (header_parms ty x y (s\<lparr>pn_parms := (pn_parms s)\<lparr>par_depth := 8, par_bytes_per_line := 0,
    par_pixels_per_line := 0, par_lines := 0\<rparr>\<rparr>), True)"
proof -
  obtain p q ps where parts: "parts = p # q # ps"
    using assms(1) by (cases parts; cases "tl parts") (auto simp: pnm_header_def split: if_splits)
  obtain cs1 l1 cs2 l2 where pq: "p = (cs1, l1)" "q = (cs2, l2)" by (cases p; cases q)
  have l: "l1 = magic" "l2 = sz" "\<forall>c \<in> set cs1. comment_line c" "data_line l1" "\<forall>c \<in> set cs2. comment_line c" "data_line l2"
    "header_type (magic @ [10, 0]) = Some ty"
    using assms(1) parts pq by (auto simp: pnm_header_def)
  let ?r2 = "header_text ps @ body"
  obtain b where b: "skip_comments (pe_buf env) \<lparr>cf_rest = file_text (cs1 @ [l1]) @ file_text (cs2 @ [l2]) @ ?r2, cf_eof = False\<rparr> =
      Some (b, \<lparr>cf_rest = file_text (cs2 @ [l2]) @ ?r2, cf_eof = False\<rparr>)" "length b = 1024" "take 2 b = take 2 (l1 @ [10, 0])"
    using skip_comments_text [OF l(3,4) assms(3), of "file_text (cs2 @ [l2]) @ ?r2" False] by blast
  obtain d where d: "skip_comments b \<lparr>cf_rest = file_text (cs2 @ [l2]) @ ?r2, cf_eof = False\<rparr> =
      Some (d, \<lparr>cf_rest = ?r2, cf_eof = False\<rparr>)" "c_str d = Some (l2 @ [10])"
    using skip_comments_text [OF l(5,6) b(2), of ?r2 False] by blast
  have "header_type b = Some ty" using header_type_take [OF b(3)] l by simp
  with b(1) d assms(2,4) l(2) show ?thesis
    by (simp add: getparmfromfile_def parts pq header_text_def)
qed

lemma start_header:
  assumes "pnm_header ty magic sz parts" "pe_files env (pn_filename s) = Some (header_text parts @ body)" "length (pe_buf env) = 1024"
    and "scan_size (pe_junk env) (sz @ [10]) = (x, y)" "pn_open s" "\<not> pn_warming_up s" "pn_infile s = None"
  shows "sane_start_pnm env MAGIC s = Some ((header_parms ty x y (s\<lparr>pn_rgb_comp := 0, pn_parms := (pn_parms s)\<lparr>par_depth := 8,
    par_bytes_per_line := 0, par_pixels_per_line := 0, par_lines := 0\<rparr>\<rparr>))\<lparr>pn_infile := Some \<lparr>cf_rest = body, cf_eof = False\<rparr>\<rparr>,
    SANE_STATUS_GOOD)"
proof -
  have s: "s\<lparr>pn_rgb_comp := 0, pn_infile := None\<rparr> = s\<lparr>pn_rgb_comp := 0\<rparr>" using assms(7) by simp
  let ?k = "if ty = ppm_bitmap then 1 else 0 :: nat"
  have "skip_header ?k (pe_buf env) \<lparr>cf_rest = header_text parts @ body, cf_eof = False\<rparr> = Some \<lparr>cf_rest = body, cf_eof = False\<rparr>"
    using assms(1,3) unfolding header_text_def by (intro skip_header_text) (auto simp: pnm_header_def)
  moreover have "pn_type (header_parms ty x y z) = ty" "pn_filename (header_parms ty x y z) = pn_filename z" for z
    by (simp_all add: header_parms_def Let_def)
  ultimately show ?thesis
    using getparm_header [OF assms(1) _ assms(3,4), of "s\<lparr>pn_rgb_comp := 0\<rparr>" body] assms(2,5-7)
    unfolding sane_start_pnm_def Let_def by (simp add: s)
qed

section \<open>The image\<close>

definition pnm_rgb :: "pnm \<Rightarrow> bool" where
  \<comment> \<open>pixels of three bytes are made into one byte each\<close>
  "pnm_rgb s \<longleftrightarrow> pn_type s = ppm_color \<and> (pn_gray s \<or> pn_three_pass s)"

definition pnm_raw :: "pnm \<Rightarrow> byte list \<Rightarrow> byte list" where
  "pnm_raw s body = (if pnm_rgb s then map (\<lambda>j. rgb_byte s body (3 * j)) [0..<length body div 3] else body)"

definition gamma_at :: "pnm \<Rightarrow> nat \<Rightarrow> byte \<Rightarrow> byte" where
  \<comment> \<open>the table for the byte at position \<open>k\<close>\<close>
  "gamma_at s k c =
     (let fmt = par_format (pn_parms s)
      in if pn_usegamma s = 0 then c
         else if pn_gray s then gamma_byte s 0 c
         else if fmt = SANE_FRAME_RGB then gamma_byte s ((pn_rgb_comp s + k) mod 3 + 1) c
         else if fmt = SANE_FRAME_RED then gamma_byte s 1 c
         else if fmt = SANE_FRAME_GREEN then gamma_byte s 2 c
         else if fmt = SANE_FRAME_BLUE then gamma_byte s 3 c
         else c)"

definition shade_at :: "pnm \<Rightarrow> nat \<Rightarrow> byte \<Rightarrow> byte" where
  "shade_at s k c = (if par_depth (pn_parms s) = 8 then gamma_at s k (level (pn_contr s) (pn_bright s) c) else c)"

definition indexed :: "(nat \<Rightarrow> 'a \<Rightarrow> 'b) \<Rightarrow> 'a list \<Rightarrow> 'b list" where
  "indexed f xs = map (\<lambda>k. f k (xs ! k)) [0..<length xs]"

definition pnm_image :: "pnm \<Rightarrow> byte list \<Rightarrow> byte list" where
  \<comment> \<open>the specification: the image of a file whose contents behind the header are \<open>body\<close>\<close>
  "pnm_image s body = indexed (shade_at s) (pnm_raw s body)"

lemma indexed_simps [simp]: "length (indexed f xs) = length xs" "indexed f [] = []"
  "indexed f xs = [] \<longleftrightarrow> xs = []"
  by (simp_all add: indexed_def)

lemma indexed_Cons: "indexed f (x # xs) = f 0 x # indexed (\<lambda>k. f (Suc k)) xs"
  unfolding indexed_def by (simp add: upt_conv_Cons map_Suc_upt [symmetric] del: upt_Suc)

lemma indexed_map: "indexed f (map g xs) = indexed (\<lambda>k x. f k (g x)) xs"
  by (simp add: indexed_def)

lemma indexed_const: "indexed (\<lambda>k. g) xs = map g xs"
  by (rule nth_equalityI) (simp_all add: indexed_def)

lemma indexed_cong: "(\<And>k x. k < length xs \<Longrightarrow> f k x = g k x) \<Longrightarrow> indexed f xs = indexed g xs"
  by (simp add: indexed_def)

lemma indexed_take: "indexed f (take n xs) = take n (indexed f xs)"
  by (rule nth_equalityI) (simp_all add: indexed_def)

lemma indexed_drop: "indexed (\<lambda>k. f (n + k)) (drop n xs) = drop n (indexed f xs)"
  by (rule nth_equalityI) (simp_all add: indexed_def less_diff_conv add.commute)

lemma rgb_gamma_indexed:
  "band \<le> 2 \<Longrightarrow> rgb_gamma s band cs = (indexed (\<lambda>k. gamma_byte s ((band + k) mod 3 + 1)) cs, (band + length cs) mod 3)"
proof (induction cs arbitrary: band)
  case (Cons c cs)
  have b: "(if 2 < band + 1 then 0 else band + 1) = Suc band mod 3" using Cons.prems by (auto simp: mod_Suc)
  have "rgb_gamma s (Suc band mod 3) cs =
      (indexed (\<lambda>k. gamma_byte s ((Suc band mod 3 + k) mod 3 + 1)) cs, (Suc band mod 3 + length cs) mod 3)"
    by (intro Cons.IH) (simp add: less_Suc_eq_le [symmetric])
  with Cons.prems show ?case
    unfolding rgb_gamma.simps b by (simp add: indexed_Cons mod_simps)
qed simp

lemma shade_indexed:
  assumes "pn_rgb_comp s \<le> 2"
  obtains band where "shade d s = (s\<lparr>pn_rgb_comp := band\<rparr>, indexed (shade_at s) d)" "band \<le> 2"
    "shade_at (s\<lparr>pn_rgb_comp := band\<rparr>) = (\<lambda>k. shade_at s (length d + k))"
proof (cases "par_depth (pn_parms s) = 8 \<and> pn_usegamma s \<noteq> 0 \<and> \<not> pn_gray s \<and> par_format (pn_parms s) = SANE_FRAME_RGB")
  case True
  define band where "band = (pn_rgb_comp s + length d) mod 3"
  have b: "band \<le> 2" by (simp add: band_def less_Suc_eq_le [symmetric])
  have at: "shade_at z = (\<lambda>k c. gamma_byte s ((pn_rgb_comp z + k) mod 3 + 1) (level (pn_contr s) (pn_bright s) c))"
    if "z = s\<lparr>pn_rgb_comp := r\<rparr>" for z r
    using True that by (simp add: shade_at_def gamma_at_def gamma_byte_def fun_eq_iff)
  have "shade_at (s\<lparr>pn_rgb_comp := band\<rparr>) = (\<lambda>k. shade_at s (length d + k))"
    using at [of "s\<lparr>pn_rgb_comp := band\<rparr>" band] at [of s "pn_rgb_comp s"]
    by (simp add: band_def mod_simps add.assoc)
  moreover have "shade d s = (s\<lparr>pn_rgb_comp := band\<rparr>, indexed (shade_at s) d)"
    using True rgb_gamma_indexed [OF assms] at [of s "pn_rgb_comp s"]
    by (simp add: shade_def apply_gamma_def indexed_map band_def)
  ultimately show thesis using b that by blast
next
  case False
  then have at0: "shade_at s k = shade_at s 0" for k
    by (auto simp: shade_at_def gamma_at_def Let_def fun_eq_iff)
  then have "shade_at s = (\<lambda>k. shade_at s 0)" by (rule ext)
  then have "indexed (shade_at s) d = map (shade_at s 0) d" by (metis indexed_const)
  moreover have "shade d s = (s, map (shade_at s 0) d)"
    using False by (auto simp: shade_def apply_gamma_def shade_at_def [abs_def] gamma_at_def [abs_def] Let_def)
  moreover have "s\<lparr>pn_rgb_comp := pn_rgb_comp s\<rparr> = s" by simp
  moreover have "shade_at s = (\<lambda>k. shade_at s (length d + k))" using at0 by (intro ext) metis
  ultimately show thesis using assms that [of "pn_rgb_comp s"] by metis
qed

section \<open>Reading the image\<close>

definition pnm_reading :: "pnm \<Rightarrow> byte list \<Rightarrow> bool" where
  \<comment> \<open>the scan has \<open>body\<close> left to deliver\<close>
  "pnm_reading s body \<longleftrightarrow> pn_open s \<and> forced_status s = None \<and> pn_malloc s = [] \<and> pn_rgb_comp s \<le> 2 \<and>
     (case pn_infile s of
        None \<Rightarrow> False
      | Some f \<Rightarrow> if cf_eof f then body = [] else cf_rest f = body \<and> pn_left s = [])"

lemma rgb_byte_settings [simp]:
  "rgb_byte (s\<lparr>pn_rgblength := len\<rparr>) = rgb_byte s" "rgb_byte (s\<lparr>pn_rgbbuf := m\<rparr>) = rgb_byte s"
  by (simp_all add: rgb_byte_def fun_eq_iff)

lemma rgb_byte_take:
  assumes "k + 2 < n"
  shows "rgb_byte s (take n body) k = rgb_byte s body k"
proof -
  have "(pn_pass s + 1) mod 3 \<le> 2" by (simp add: less_Suc_eq_le [symmetric])
  with assms show ?thesis by (simp add: rgb_byte_def)
qed

lemma rgb_byte_drop: "rgb_byte s (drop n body) k = rgb_byte s body (n + k)" if "n \<le> length body"
  using that by (simp add: rgb_byte_def add.assoc)

lemma pnm_raw_take:
  assumes "pnm_rgb s"
  shows "pnm_raw s (take (3 * n) body) = take n (pnm_raw s body)"
proof (cases "length body \<le> 3 * n")
  case True
  then have "length (pnm_raw s body) \<le> n" using assms by (auto simp: pnm_raw_def)
  with True show ?thesis by simp
next
  case False
  then show ?thesis using assms by (intro nth_equalityI) (auto simp: pnm_raw_def rgb_byte_take min_def)
qed

lemma pnm_raw_drop:
  assumes "pnm_rgb s"
  shows "pnm_raw s (drop (3 * n) body) = drop n (pnm_raw s body)"
proof (cases "3 * n \<le> length body")
  case True
  then show ?thesis using assms by (intro nth_equalityI) (auto simp: pnm_raw_def rgb_byte_drop algebra_simps div_diff)
next
  case False
  then show ?thesis using assms by (simp add: pnm_raw_def)
qed

lemma read_bytes:
  \<comment> \<open>the bytes of one call, before they are shaded\<close>
  assumes "pnm_reading s body" "0 < n" "pnm_rgb s \<longrightarrow> 3 * n < 2 ^ 31" "pn_infile s = Some f" "\<not> cf_eof f"
  obtains f1 m len left where
    "sane_read_pnm MAGIC n s =
      (let s1 = s\<lparr>pn_infile := Some f1, pn_left := left, pn_rgblength := len, pn_rgbbuf := m\<rparr>; d = take n (pnm_raw s body)
       in if d = [] then (s1, SANE_STATUS_EOF, []) else (case shade d s1 of (s2, e) \<Rightarrow> (s2, SANE_STATUS_GOOD, e)))"
    "if cf_eof f1 then length (pnm_raw s body) \<le> n else left = [] \<and> pnm_raw s (cf_rest f1) = drop n (pnm_raw s body)"
proof (cases "pnm_rgb s")
  case False
  let ?f1 = "\<lparr>cf_rest = drop n body, cf_eof = (length body < n)\<rparr>"
  have same: "s\<lparr>pn_infile := Some ?f1, pn_left := pn_left s, pn_rgblength := pn_rgblength s, pn_rgbbuf := pn_rgbbuf s\<rparr> =
    s\<lparr>pn_infile := Some ?f1\<rparr>"
    by simp
  have "sane_read_pnm MAGIC n s =
      (let s1 = s\<lparr>pn_infile := Some ?f1\<rparr>; d = take n (pnm_raw s body)
       in if d = [] then (s1, SANE_STATUS_EOF, []) else (case shade d s1 of (s2, e) \<Rightarrow> (s2, SANE_STATUS_GOOD, e)))"
    using assms False by (auto simp: sane_read_pnm_def pnm_read_def pnm_reading_def pnm_rgb_def pnm_raw_def file_read_def Let_def)
  moreover have "if cf_eof ?f1 then length (pnm_raw s body) \<le> n else pn_left s = [] \<and> pnm_raw s (cf_rest ?f1) = drop n (pnm_raw s body)"
    using False assms by (auto simp: pnm_raw_def pnm_reading_def)
  ultimately show thesis by (intro that [of "pn_rgbbuf s" "pn_rgblength s" "pn_left s" ?f1]) (simp_all only: same)
next
  case True
  let ?f1 = "\<lparr>cf_rest = drop (3 * n) body, cf_eof = (length body < 3 * n)\<rparr>"
  let ?left = "drop (length (take (3 * n) body) - length (take (3 * n) body) mod 3) (take (3 * n) body)"
  obtain m where m: "grow_rgbbuf (3 * n) s = (s\<lparr>pn_rgblength := 3 * n, pn_rgbbuf := m\<rparr>, True)"
  proof (cases "pn_rgbbuf s = None \<or> pn_rgblength s < 3 * n")
    case True
    with assms(1) show ?thesis by (intro that [of "Some (3 * n)"]) (simp add: grow_rgbbuf_def pn_alloc_def pnm_reading_def)
  next
    case False
    then show ?thesis by (intro that [of "pn_rgbbuf s"]) (auto simp: grow_rgbbuf_def)
  qed
  have r: "rgb_read n f (s\<lparr>pn_rgblength := 3 * n, pn_rgbbuf := m\<rparr>) =
      (s\<lparr>pn_infile := Some ?f1, pn_left := ?left, pn_rgblength := 3 * n, pn_rgbbuf := m\<rparr>, take n (pnm_raw s body))"
    using assms True pnm_raw_take [OF True, of n body]
    by (simp add: rgb_read_def file_read_def pnm_reading_def pnm_raw_def Let_def)
  have "length body < 3 * n" if "take n (pnm_raw s body) = []"
    using that assms(2) True by (auto simp: pnm_raw_def div_eq_0_iff)
  with m r True assms have "sane_read_pnm MAGIC n s =
      (let s1 = s\<lparr>pn_infile := Some ?f1, pn_left := ?left, pn_rgblength := 3 * n, pn_rgbbuf := m\<rparr>; d = take n (pnm_raw s body)
       in if d = [] then (s1, SANE_STATUS_EOF, []) else (case shade d s1 of (s2, e) \<Rightarrow> (s2, SANE_STATUS_GOOD, e)))"
    by (simp add: sane_read_pnm_def pnm_read_def pnm_reading_def pnm_rgb_def Let_def)
  moreover have "if length body < 3 * n then length (pnm_raw s body) \<le> n
      else ?left = [] \<and> pnm_raw s (drop (3 * n) body) = drop n (pnm_raw s body)"
    using True pnm_raw_drop [OF True, of n body] by (auto simp: pnm_raw_def min_def)
  ultimately show thesis using that [of m "3 * n" ?left ?f1] by simp
qed

lemma image_settings:
  fixes s :: pnm
  defines "s1 f left len m \<equiv> s\<lparr>pn_infile := f, pn_left := left, pn_rgblength := len, pn_rgbbuf := m\<rparr>"
  shows "shade_at (s1 f left len m) = shade_at s" "pnm_rgb (s1 f left len m) = pnm_rgb s"
    "pnm_raw ((s1 f left len m)\<lparr>pn_rgb_comp := band\<rparr>) = pnm_raw s" "pnm_raw (s1 f left len m) = pnm_raw s"
    "forced_status (s1 f left len m) = forced_status s"
proof -
  have g: "gamma_byte (s1 f left len m) = gamma_byte s" by (simp add: s1_def gamma_byte_def fun_eq_iff)
  show "shade_at (s1 f left len m) = shade_at s"
    unfolding s1_def by (intro ext) (simp add: shade_at_def gamma_at_def Let_def g [unfolded s1_def])
  show r: "pnm_rgb (s1 f left len m) = pnm_rgb s" by (simp add: s1_def pnm_rgb_def)
  have b: "rgb_byte (s1 f left len m) = rgb_byte s" "rgb_byte ((s1 f left len m)\<lparr>pn_rgb_comp := band\<rparr>) = rgb_byte s"
    "pnm_rgb ((s1 f left len m)\<lparr>pn_rgb_comp := band\<rparr>) = pnm_rgb s"
    by (simp_all add: s1_def rgb_byte_def pnm_rgb_def fun_eq_iff)
  show "pnm_raw ((s1 f left len m)\<lparr>pn_rgb_comp := band\<rparr>) = pnm_raw s" "pnm_raw (s1 f left len m) = pnm_raw s"
    unfolding pnm_raw_def [abs_def] r b by (rule refl)+
  show "forced_status (s1 f left len m) = forced_status s" by (simp add: s1_def forced_status_def)
qed

lemma pnm_image_Nil [simp]: "pnm_image s [] = []"
  by (simp add: pnm_image_def pnm_raw_def)

lemma pnm_read_step:
  assumes "pnm_reading s body" "0 < n" "pnm_rgb s \<longrightarrow> 3 * n < 2 ^ 31"
  obtains s1 rest where "sane_read_pnm MAGIC n s =
      (if pnm_image s body = [] then (s1, SANE_STATUS_EOF, []) else (s1, SANE_STATUS_GOOD, take n (pnm_image s body)))"
    "pnm_reading s1 rest" "pnm_image s1 rest = drop n (pnm_image s body)" "pn_fault s1 = pn_fault s" "pnm_rgb s1 = pnm_rgb s"
proof -
  obtain f where f: "pn_infile s = Some f" using assms(1) by (auto simp: pnm_reading_def split: option.splits)
  show thesis
  proof (cases "cf_eof f")
    case True
    with f assms(1) show thesis by (intro that [of s "[]"]) (auto simp: pnm_reading_def sane_read_pnm_def pnm_read_def)
  next
    case False
    let ?raw = "pnm_raw s body"
    obtain m len left f1 where r: "sane_read_pnm MAGIC n s =
        (let s1 = s\<lparr>pn_infile := Some f1, pn_left := left, pn_rgblength := len, pn_rgbbuf := m\<rparr>; d = take n ?raw
         in if d = [] then (s1, SANE_STATUS_EOF, []) else (case shade d s1 of (s2, e) \<Rightarrow> (s2, SANE_STATUS_GOOD, e)))"
      and left: "if cf_eof f1 then length ?raw \<le> n else left = [] \<and> pnm_raw s (cf_rest f1) = drop n ?raw"
      by (rule read_bytes [OF assms f False])
    define s1 where "s1 = s\<lparr>pn_infile := Some f1, pn_left := left, pn_rgblength := len, pn_rgbbuf := m\<rparr>"
    define rest where "rest = (if cf_eof f1 then [] else cf_rest f1)"
    have raw: "pnm_raw s rest = drop n ?raw" using left by (auto simp: rest_def pnm_raw_def)
    have rd: "pnm_reading (s1\<lparr>pn_rgb_comp := band\<rparr>) rest" if "band \<le> 2" for band
      using assms(1) left that by (auto simp: s1_def rest_def pnm_reading_def forced_status_def)
    obtain band where sh: "shade (take n ?raw) s1 = (s1\<lparr>pn_rgb_comp := band\<rparr>, indexed (shade_at s) (take n ?raw))" "band \<le> 2"
      "shade_at (s1\<lparr>pn_rgb_comp := band\<rparr>) = (\<lambda>k. shade_at s (length (take n ?raw) + k))"
      using shade_indexed [of s1 "take n ?raw"] assms(1) by (auto simp: s1_def image_settings pnm_reading_def)
    show thesis
    proof (cases "?raw = []")
      case True
      have "s1\<lparr>pn_rgb_comp := pn_rgb_comp s\<rparr> = s1" by (simp add: s1_def)
      then have "pnm_reading s1 rest" using rd [of "pn_rgb_comp s"] assms(1) by (simp add: pnm_reading_def)
      moreover have "pnm_image s body = []" "pnm_image s1 rest = []"
        using True raw by (simp_all add: pnm_image_def s1_def image_settings)
      ultimately show thesis
        using True r by (intro that [of s1 rest]) (simp_all add: s1_def image_settings)
    next
      case False
      let ?s2 = "s1\<lparr>pn_rgb_comp := band\<rparr>"
      have "pnm_image ?s2 rest = indexed (\<lambda>k. shade_at s (length (take n ?raw) + k)) (drop n ?raw)"
        using raw sh(3) by (simp add: pnm_image_def s1_def image_settings)
      also have "\<dots> = drop n (pnm_image s body)"
        using indexed_drop [of "shade_at s" n ?raw] by (cases "n \<le> length ?raw") (simp_all add: pnm_image_def min_def)
      finally show thesis
        using False r sh rd [OF sh(2)] assms(2)
        by (intro that [of ?s2 rest]) (simp_all add: pnm_image_def indexed_take s1_def pnm_rgb_def)
    qed
  qed
qed

fun backend_reads :: "'b backend \<Rightarrow> sane_handle \<Rightarrow> nat list \<Rightarrow> 'b \<Rightarrow> 'b \<times> byte list \<times> sane_word option" where
  \<comment> \<open>calls of \<open>sane_read\<close> with these buffer sizes, up to a status other than good\<close>
  "backend_reads be h [] b = (b, [], None)"
| "backend_reads be h (n # ns) b =
     (case b_read be b h n of
        (b1, status, d) \<Rightarrow>
          if status \<noteq> SANE_STATUS_GOOD then (b1, d, Some status)
          else case backend_reads be h ns b1 of (b2, e, r) \<Rightarrow> (b2, d @ e, r))"

lemma pnm_reads:
  assumes "pnm_reading s body" "\<forall>n \<in> set ns. 0 < n \<and> 3 * n < 2 ^ 31"
    and "backend_reads (pnm_backend env) MAGIC ns s = (s1, d, r)"
  shows "pn_fault s1 = pn_fault s \<and>
    (if length (pnm_image s body) < length ns then d = pnm_image s body \<and> r = Some SANE_STATUS_EOF
     else \<exists>rest. pnm_image s body = d @ rest)"
  using assms
proof (induction ns arbitrary: s body d)
  case (Cons n ns)
  obtain s2 rest where s2: "sane_read_pnm MAGIC n s =
      (if pnm_image s body = [] then (s2, SANE_STATUS_EOF, []) else (s2, SANE_STATUS_GOOD, take n (pnm_image s body)))"
    "pnm_reading s2 rest" "pnm_image s2 rest = drop n (pnm_image s body)" "pn_fault s2 = pn_fault s"
    using Cons.prems pnm_read_step [of s body n] by (metis list.set_intros(1))
  show ?case
  proof (cases "pnm_image s body = []")
    case True
    with Cons.prems(3) s2 show ?thesis by (simp add: pnm_backend_def)
  next
    case False
    obtain e where e: "backend_reads (pnm_backend env) MAGIC ns s2 = (s1, e, r)" "d = take n (pnm_image s body) @ e"
      using Cons.prems(3) s2(1) False by (auto simp: pnm_backend_def split: prod.splits)
    have n: "0 < n" "\<forall>n \<in> set ns. 0 < n \<and> 3 * n < 2 ^ 31" using Cons.prems(2) by simp_all
    let ?img = "pnm_image s body"
    have ih: "pn_fault s1 = pn_fault s2 \<and> (if length (drop n ?img) < length ns then e = drop n ?img \<and> r = Some SANE_STATUS_EOF
        else \<exists>rest. drop n ?img = e @ rest)"
      using Cons.IH [OF s2(2) n(2) e(1)] unfolding s2(3) .
    have whole: "take n ?img @ drop n ?img = ?img" by (rule append_take_drop_id)
    have "length (drop n ?img) < length ns" if "length ?img < length (n # ns)"
      using that False n(1) by (cases ?img) auto
    moreover have "\<exists>rest. ?img = d @ rest" if "drop n ?img = e @ rest'" for rest'
      using that whole e(2) by (metis append_assoc)
    ultimately show ?thesis using ih e(2) whole s2(4) by (auto split: if_splits)
  qed
qed simp

lemma header_parms_base: "pn_parms (header_parms ty x y (s\<lparr>pn_rgb_comp := band, pn_parms := (pn_parms s)\<lparr>par_depth := d,
    par_bytes_per_line := b, par_pixels_per_line := p, par_lines := l\<rparr>\<rparr>)) = pn_parms (header_parms ty x y s)"
  by (simp add: header_parms_def Let_def)

lemma start_reading:
  assumes "pnm_header ty magic sz parts" "pe_files env (pn_filename s) = Some (header_text parts @ body)" "length (pe_buf env) = 1024"
    and "scan_size (pe_junk env) (sz @ [10]) = (x, y)"
    and "pn_open s" "\<not> pn_warming_up s" "pn_infile s = None" "forced_status s = None" "pn_malloc s = []" "pn_left s = []"
  obtains s1 where "sane_start_pnm env MAGIC s = Some (s1, SANE_STATUS_GOOD)" "pnm_reading s1 body" "pn_fault s1 = pn_fault s"
    "pn_parms s1 = pn_parms (header_parms ty x y s)"
proof -
  let ?s0 = "s\<lparr>pn_rgb_comp := 0, pn_parms := (pn_parms s)\<lparr>par_depth := 8, par_bytes_per_line := 0, par_pixels_per_line := 0,
    par_lines := 0\<rparr>\<rparr>"
  let ?s1 = "(header_parms ty x y ?s0)\<lparr>pn_infile := Some \<lparr>cf_rest = body, cf_eof = False\<rparr>\<rparr>"
  have "pnm_reading ?s1 body"
    using assms(5,8-10) by (simp add: pnm_reading_def header_parms_def forced_status_def Let_def)
  moreover have "pn_fault ?s1 = pn_fault s" by (simp add: header_parms_def Let_def)
  moreover have "pn_parms ?s1 = pn_parms (header_parms ty x y s)" using header_parms_base by simp
  ultimately show thesis using start_header [OF assms(1-7)] by (intro that [of ?s1])
qed

text \<open> C11: a scan of the PNM backend.  For a file with a header of any comments and any body, \<open>sane_start\<close> on an open, idle
  device succeeds with the parameters of the header; calls of \<open>sane_read\<close> with buffers of any sizes then
  deliver, in order and without an access outside of a buffer, the image of the body: its bytes, or one
  byte per pixel when it is made gray or scanned in three passes, each through contrast, brightness and
  the gamma table of its band.  After the last byte comes \<open>SANE_STATUS_EOF\<close>.\<close>

theorem pnm_scan:
  assumes "pnm_header ty magic sz parts" "pe_files env (pn_filename s) = Some (header_text parts @ body)" "length (pe_buf env) = 1024"
    and "scan_size (pe_junk env) (sz @ [10]) = (x, y)"
    and "pn_open s" "\<not> pn_warming_up s" "pn_infile s = None" "forced_status s = None" "pn_malloc s = []" "pn_left s = []"
    and "\<forall>n \<in> set ns. 0 < n \<and> 3 * n < 2 ^ 31"
  shows "\<exists>s1. sane_start_pnm env MAGIC s = Some (s1, SANE_STATUS_GOOD) \<and> pn_parms s1 = pn_parms (header_parms ty x y s) \<and>
    (case backend_reads (pnm_backend env) MAGIC ns s1 of (s2, d, r) \<Rightarrow>
       pn_fault s2 = pn_fault s \<and>
       (if length (pnm_image s1 body) < length ns then d = pnm_image s1 body \<and> r = Some SANE_STATUS_EOF
        else \<exists>rest. pnm_image s1 body = d @ rest))"
proof -
  obtain s1 where s1: "sane_start_pnm env MAGIC s = Some (s1, SANE_STATUS_GOOD)" "pnm_reading s1 body" "pn_fault s1 = pn_fault s"
    "pn_parms s1 = pn_parms (header_parms ty x y s)"
    using start_reading [OF assms(1-10)] by blast
  then show ?thesis using pnm_reads [OF s1(2) assms(11)] by (intro exI [of _ s1]) (auto split: prod.split)
qed

definition pn_example_parts :: "(byte list list \<times> byte list) list" where
  "pn_example_parts = [([ascii ''# a comment''], ascii ''P6''), ([], ascii ''2 1''), ([], ascii ''255'')]"

definition pn_example_env :: "byte list \<Rightarrow> pnm_env" where
  "pn_example_env body = \<lparr>pe_files = (\<lambda>path. if path = ascii ''/tmp/input.ppm'' then Some (header_text pn_example_parts @ body) else None),
     pe_buf = replicate 1024 0, pe_junk = (7, 7)\<rparr>"

definition pn_example :: pnm where
  \<comment> \<open>an open device with a gray image and contrast\<close>
  "pn_example = (pnm_initial 0)\<lparr>pn_open := True, pn_gamma := replicate 4 (map word_of_nat [0..<256]), pn_gray := True,
     pn_contr := 6553600\<rparr>"

lemma pn_example_header: "pnm_header ppm_color (ascii ''P6'') (ascii ''2 1'') pn_example_parts"
  by code_simp

lemma pnm_scan_witness:
  "\<exists>s1. sane_start_pnm (pn_example_env [10, 20, 30, 100, 110, 121]) MAGIC pn_example = Some (s1, SANE_STATUS_GOOD) \<and>
    pn_parms s1 = pn_parms (header_parms ppm_color 2 1 pn_example) \<and>
    (case backend_reads (pnm_backend (pn_example_env [10, 20, 30, 100, 110, 121])) MAGIC [1, 1, 1] s1 of (s2, d, r) \<Rightarrow>
       pn_fault s2 = pn_fault pn_example \<and>
       (if length (pnm_image s1 [10, 20, 30, 100, 110, 121]) < length [1, 1, 1 :: nat]
        then d = pnm_image s1 [10, 20, 30, 100, 110, 121] \<and> r = Some SANE_STATUS_EOF
        else \<exists>rest. pnm_image s1 [10, 20, 30, 100, 110, 121] = d @ rest))"
proof (rule pnm_scan [OF pn_example_header])
  show "pn_open pn_example" "\<not> pn_warming_up pn_example" "pn_infile pn_example = None" "forced_status pn_example = None"
    "pn_malloc pn_example = []" "pn_left pn_example = []"
    by (simp_all add: pn_example_def pnm_initial_def forced_status_def)
  show "pe_files (pn_example_env [10, 20, 30, 100, 110, 121]) (pn_filename pn_example) =
      Some (header_text pn_example_parts @ [10, 20, 30, 100, 110, 121])"
    by (simp add: pn_example_def pnm_initial_def pn_example_env_def)
  show "scan_size (pe_junk (pn_example_env [10, 20, 30, 100, 110, 121])) (ascii ''2 1'' @ [10]) = (2, 1)"
    by code_simp
qed (simp_all add: pn_example_env_def)

end
