(* ===== verification/Net_Pnm.thy ===== *)
theory Net_Pnm
  imports Net_End_To_End Pnm_Image
begin

text \<open>
  A file on one machine, the image of a frontend on another: the PNM backend behind the daemon, and the
  network backend in front of it.
\<close>

section \<open>The PNM backend in the daemon\<close>

lemma shade_length: "length (snd (shade d s)) = length d"
proof -
  have "length (fst (rgb_gamma s band e)) = length e" for band e
    by (induction e arbitrary: band) (simp_all add: split_beta)
  then show ?thesis by (simp add: shade_def apply_gamma_def Let_def split_beta)
qed

lemma forced_status_enum: "forced_status s = Some st \<Longrightarrow> st \<noteq> SANE_STATUS_GOOD \<and> st \<le> SANE_STATUS_ACCESS_DENIED"
  by (auto simp: forced_status_def Let_def split: if_splits)

lemma grow_rgbbuf_length: "grow_rgbbuf n s = (s1, True) \<Longrightarrow> pn_rgblength s1 = n"
  by (auto simp: grow_rgbbuf_def split: if_splits prod.splits bool.splits)

lemma pnm_read_contract: "read_contract (pnm_backend env) h"
  unfolding read_contract_def
proof (intro allI impI)
  fix b n b' st d
  assume "b_read (pnm_backend env) b h n = (b', st, d)"
  then have r: "sane_read_pnm h n b = (b', st, d)" by (simp add: pnm_backend_def)
  have data: "length d \<le> n \<and> (st \<noteq> SANE_STATUS_GOOD \<longrightarrow> d = []) \<and> st \<le> SANE_STATUS_ACCESS_DENIED"
    if "length raw \<le> n" "(if raw = [] then
        (s2, if (case pn_infile s2 of Some f2 \<Rightarrow> cf_eof f2 | None \<Rightarrow> False) then SANE_STATUS_EOF else SANE_STATUS_IO_ERROR, [])
      else (case shade raw s2 of (s3, e) \<Rightarrow> (s3, SANE_STATUS_GOOD, e))) = (b', st, d)" for raw s2
    using that shade_length [of raw s2] by (auto split: if_splits prod.splits)
  show "length d \<le> n \<and> (st \<noteq> SANE_STATUS_GOOD \<longrightarrow> d = []) \<and> st \<le> SANE_STATUS_ACCESS_DENIED"
  proof (cases "h \<noteq> MAGIC \<or> \<not> pn_open b \<or> pn_infile b = None \<or> cf_eof (the (pn_infile b)) \<or> forced_status b \<noteq> None")
    case True
    with r forced_status_enum show ?thesis by (auto simp: sane_read_pnm_def pnm_read_def split: option.splits if_splits)
  next
    case False
    then obtain f where f: "pn_infile b = Some f" "\<not> cf_eof f" "forced_status b = None" "h = MAGIC" "pn_open b" by auto
    show ?thesis
    proof (cases "pnm_rgb b")
      case rgb: True
      obtain s1 ok where g: "grow_rgbbuf (3 * n) b = (s1, ok)" by fastforce
      obtain s2 raw where rr: "rgb_read n f s1 = (s2, raw)" by fastforce
      have "length raw \<le> n" if ok
      proof -
        have "pn_rgblength s1 = 3 * n" using grow_rgbbuf_length g that by simp
        moreover have "length raw = length (fst (file_read (pn_rgblength s1 - length (pn_left s1)) f)) div 3"
          using rr by (auto simp: rgb_read_def Let_def split: prod.splits)
        ultimately show ?thesis by (simp add: file_read_def)
      qed
      with data [of raw s2] r f g rr rgb show ?thesis
        by (auto simp: sane_read_pnm_def pnm_read_def pnm_rgb_def Let_def split: if_splits)
    next
      case False
      obtain raw f1 where rr: "file_read n f = (raw, f1)" by fastforce
      then have "length raw \<le> n" by (auto simp: file_read_def)
      with data [of raw "b\<lparr>pn_infile := Some f1\<rparr>"] r f rr False show ?thesis
        by (auto simp: sane_read_pnm_def pnm_read_def pnm_rgb_def Let_def split: if_splits)
    qed
  qed
qed

definition pnm_sent :: "byte list \<Rightarrow> sane_word \<Rightarrow> pnm \<Rightarrow> byte list \<Rightarrow> bool" where
  \<comment> \<open>the records of the log and what is left to read make up the image; after the last read nothing is left\<close>
  "pnm_sent img status s log \<longleftrightarrow>
     (\<exists>recs rest. log = concat (map frame recs) \<and> short_records recs \<and> pnm_reading s rest \<and>
        img = concat recs @ pnm_image s rest \<and> 
        (status \<noteq> SANE_STATUS_GOOD \<longrightarrow> pnm_image s rest = [] \<and> status = SANE_STATUS_EOF))"

lemma pnm_sent_start: "pnm_reading s body \<Longrightarrow> pnm_sent (pnm_image s body) SANE_STATUS_GOOD s []"
  unfolding pnm_sent_def by (intro exI [of _ "[]"] exI [of _ body]) (simp add: short_records_def)

lemma pnm_sent_keeps:
  assumes "3 * sz < 2 ^ 31"
  shows "read_keeps (pnm_sent img) (pnm_backend env) MAGIC sz"
  unfolding read_keeps_def
proof (intro allI impI)
  fix s log n s' st d
  assume q: "pnm_sent img SANE_STATUS_GOOD s log" and n: "0 < n" "n < sz"
    and "b_read (pnm_backend env) s MAGIC n = (s', st, d)"
  then have r: "sane_read_pnm MAGIC n s = (s', st, d)" by (simp add: pnm_backend_def)
  obtain recs rest where recs: "log = concat (map frame recs)" "short_records recs" "pnm_reading s rest"
      "img = concat recs @ pnm_image s rest"
    using q by (auto simp: pnm_sent_def)
  obtain s1 rest1 where s1: "sane_read_pnm MAGIC n s =
      (if pnm_image s rest = [] then (s1, SANE_STATUS_EOF, []) else (s1, SANE_STATUS_GOOD, take n (pnm_image s rest)))"
    "pnm_reading s1 rest1" "pnm_image s1 rest1 = drop n (pnm_image s rest)"
  proof (rule pnm_read_step [OF recs(3) n(1)])
    show "pnm_rgb s \<longrightarrow> 3 * n < 2 ^ 31" using n(2) assms by simp
  qed (rule that)
  show "pnm_sent img st s' (if st = SANE_STATUS_GOOD then log @ frame d else log)"
  proof (cases "pnm_image s rest = []")
    case True
    with r s1 recs show ?thesis
      unfolding pnm_sent_def by (intro exI [of _ recs] exI [of _ rest1]) simp
  next
    case False
    have "length (take n (pnm_image s rest)) < 2 ^ 31" using n assms by (simp add: min_def)
    then have "short_records (recs @ [take n (pnm_image s rest)])" using recs(2) by (simp add: short_records_def)
    moreover have "s' = s1" "st = SANE_STATUS_GOOD" "d = take n (pnm_image s rest)" using False r s1(1) by simp_all
    moreover have "img = concat (recs @ [take n (pnm_image s rest)]) @ pnm_image s1 rest1" using recs(4) s1(3) by simp
    ultimately show ?thesis
      using recs(1) s1(2) unfolding pnm_sent_def
      by (intro exI [of _ "recs @ [take n (pnm_image s rest)]"] exI [of _ rest1]) simp
  qed
qed

section \<open>From the file to the frontend\<close>

text \<open> C3: a scan of a file on another machine.  The daemon has started the PNM backend, which has no descriptor to wait for,
  on a file with a header and any body, and its loop has ended with all data sent, whatever the
  readiness of the descriptors and the sizes of the writes; requests served meanwhile left the backend
  alone.  A frontend that calls the network backend's \<open>sane_read\<close> with buffers of any sizes, often
  enough, gets exactly the image of the file, and then \<open>SANE_STATUS_EOF\<close>; fewer calls
  give a prefix.\<close>

theorem file_to_frontend:
  assumes hd: "pnm_header ty magic sz parts" "pe_files env (pn_filename b) = Some (header_text parts @ body)" "length (pe_buf env) = 1024"
      "scan_size (pe_junk env) (sz @ [10]) = (x, y)"
    and idle: "pn_open b" "\<not> pn_warming_up b" "pn_infile b = None" "forced_status b = None" "pn_malloc b = []" "pn_left b = []"
    and start: "sane_start_pnm env MAGIC b = Some (sd_be s, st)"
    and rpc: "\<And>s s' r. rpc s = Some (s', r) \<Longrightarrow> sd_buf_size s' = sd_buf_size s \<and> sd_be s' = sd_be s"
    and size: "9 \<le> sd_buf_size s" "3 * sd_buf_size s < 2 ^ 31"
    and run: "scan_loop rpc (pnm_backend env) h MAGIC poll evs (scan_start (sd_buf_size s) junk False) s = Some (sc', s')"
    and fin: "\<not> scan_more sc'" "sc_status sc' \<noteq> SANE_STATUS_IO_ERROR" "sc_status sc' \<noteq> SANE_STATUS_CANCELLED"
    and t: "get_scanner c ch = Some t" "reader_start t" "ns_hw t < length (nc_devs c)" "\<not> swapping cenv c"
    and conn: "steady (ns_stream t)" "payload (ns_stream t) = sc_sent sc'"
    and ns: "\<forall>n \<in> set ns. 0 < n \<and> n < 2 ^ 31"
    and rd: "read_image cenv ch ns c = (c', d, res)"
  shows "st = SANE_STATUS_GOOD \<and> nc_fault c' = nc_fault c \<and>
    (if work (ns_stream t) < length ns then d = pnm_image (sd_be s) body \<and> res = Some SANE_STATUS_EOF
     else \<exists>rest. pnm_image (sd_be s) body = d @ rest)"
proof -
  let ?img = "pnm_image (sd_be s) body"
  have st: "st = SANE_STATUS_GOOD" "pnm_reading (sd_be s) body"
    using start_reading [OF hd idle] start by auto
  let ?sc = "scan_start (sd_buf_size s) junk False"
  have sc: "sc_status ?sc = SANE_STATUS_GOOD" "\<not> sc_befd ?sc" by (simp_all add: scan_start_def)
  have "scan_inv (sd_buf_size s) [] [] ?sc" using size by (intro scan_start_inv) simp_all
  then have i: "scan_sends (pnm_sent ?img) (sd_buf_size s) [] [] ?sc (sd_be s)"
    using pnm_sent_start [OF st(2)] sc(1) by (simp add: scan_inv_def scan_sends_def)
  have k: "sd_buf_size s' = sd_buf_size s \<and> (\<forall>st log. pnm_sent ?img st (sd_be s) log \<longrightarrow> pnm_sent ?img st (sd_be s') log)"
    if "rpc s = Some (s', r)" for s s' r
    using rpc [OF that] by simp
  have "\<exists>now'. scan_ends (pnm_sent ?img) [] now' sc' (sd_be s')"
    using k sc(2) by (intro scan_loop_keeps [OF pnm_read_contract pnm_sent_keeps [OF size(2)] _ run i refl]) blast+
  then obtain now where "scan_ends (pnm_sent ?img) [] now sc' (sd_be s')" by blast
  from this fin obtain new tail est where "now = [] @ new"
    and e: "sc_sent sc' = new @ tail" "status_tail est tail" "pnm_sent ?img est (sd_be s') now" by (rule scan_ends_done)
  then have e: "sc_sent sc' = now @ tail" "status_tail est tail" "pnm_sent ?img est (sd_be s') now" by simp_all
  then have "est \<noteq> SANE_STATUS_GOOD" by (simp add: status_tail_def)
  with e(3) obtain recs where recs: "now = concat (map frame recs)" "short_records recs" "?img = concat recs" "est = SANE_STATUS_EOF"
    by (auto simp: pnm_sent_def)
  have "payload (ns_stream t) = concat (map frame recs) @ tail" using e(1) conn(2) recs(1) by simp
  from sent_image_read [OF recs(2) this e(2) t conn(1) ns rd] show ?thesis
    using st(1) recs(3,4) by simp
qed

lemma scan_loop_b_read:
  assumes "\<And>b n. b_read be1 b bh n = b_read be2 b bh n"
  shows "scan_loop rpc be1 h bh poll evs sc s = scan_loop rpc be2 h bh poll evs sc s"
proof -
  have "scan_read be1 bh = scan_read be2 bh"
    by (intro ext) (simp add: scan_read_def assms)
  then have d: "scan_data be1 h bh = scan_data be2 h bh"
    by (intro ext) (simp only: scan_data_def)
  show ?thesis
  proof (induction evs arbitrary: sc s)
    case (Cons e evs)
    show ?case
    proof (cases e)
      case (Sel_Error badf)
      show ?thesis unfolding Sel_Error scan_loop.simps Cons.IH ..
    next
      case (Sel_Ready be_rdy data_rdy ctl_rdy wr)
      show ?thesis unfolding Sel_Ready scan_loop.simps d Cons.IH ..
    qed
  qed simp
qed

definition pn_reader :: "pnm backend" where
  \<comment> \<open>only the reads\<close>
  "pn_reader = \<lparr>b_init = (\<lambda>b. (b, 0, 0)), b_get_devices = (\<lambda>b l. (b, 0, Some [None])),
     b_open = (\<lambda>b n. Ret (b, 0, 1)), b_close = (\<lambda>b h. b), b_descriptor = (\<lambda>b h i. None),
     b_control = (\<lambda>b h i a v. Ret (b, 0, v, 0)), b_params = (\<lambda>b h. (b, 0, zero_parameters)),
     b_start = (\<lambda>b h. Ret (b, 0)), b_read = (\<lambda>b h n. pnm_read n b),
     b_cancel = (\<lambda>b h. b), b_set_io_mode = (\<lambda>b h m. (b, 0)), b_select_fd = (\<lambda>b h. (b, 1, 0)), b_exit = (\<lambda>b. b),
     b_authorize = (\<lambda>r. Ret 0)\<rparr>"

definition pn_body :: "byte list" where
  "pn_body = [10, 20, 30, 100, 110, 121]"

definition pn_scanning :: "byte list \<Rightarrow> sane_word list \<Rightarrow> sane_word list list \<Rightarrow> pnm" where
  \<comment> \<open>a scan of a color image has started\<close>
  "pn_scanning name cap gamma =
     \<lparr>pn_open = True, pn_rgb_comp = 0, pn_three_pass = False, pn_hand_scanner = False, pn_pass = 0,
      pn_filename = name, pn_status = SANE_TRUE # replicate 7 SANE_FALSE, pn_test_option = 0,
      pn_warming_up = False, pn_start = 0, pn_bright = 0, pn_res = 75, pn_contr = 0, pn_gray = False, pn_usegamma = 0,
      pn_gamma = gamma, pn_type = ppm_color, pn_infile = Some \<lparr>cf_rest = pn_body, cf_eof = False\<rparr>, pn_cap = cap,
      pn_parms = \<lparr>par_format = 1, par_last_frame = 1, par_bytes_per_line = 6, par_pixels_per_line = 2, par_lines = 1, par_depth = 8\<rparr>,
      pn_rgblength = 0, pn_rgbbuf = None, pn_left = [], pn_now = 0, pn_malloc = [], pn_fault = False\<rparr>"

definition pn_daemon :: "pnm \<Rightarrow> pnm saned" where
  "pn_daemon s = \<lparr>sd_wire = zero_wire, sd_handle = Some [zero_slot\<lparr>hs_inuse := True\<rparr>], sd_num = 1, sd_last = 0,
     sd_request = 0, sd_can_auth = False, sd_remote_ip = [], sd_user = [], sd_allow_net = False, sd_little = True,
     sd_port_lo = 0, sd_port_hi = 0, sd_buf_size = 16, sd_alloc = [], sd_scans = [], sd_data = [], sd_be = s, sd_fault = False\<rparr>"

definition pn_sent :: "byte list" where
  \<comment> \<open>a record, the final one, and four bytes of an older record\<close>
  "pn_sent = [0, 0, 0, 6, 10, 20, 30, 100, 110, 121, 0xff, 0xff, 0xff, 0xff, 5, 0, 0, 0, 0]"

lemma pn_run: "(case scan_loop (\<lambda>s. Some (s, 0)) pn_reader 0 MAGIC True ex_events (scan_start 16 0 False) (pn_daemon (pn_scanning name cap gamma)) of
    Some (sc', s') \<Rightarrow> \<not> scan_more sc' \<and> sc_status sc' = SANE_STATUS_EOF \<and> sc_sent sc' = pn_sent | None \<Rightarrow> False)"
proof -
  have "(case scan_loop (\<lambda>s. Some (s, 0)) pn_reader 0 bh True ex_events (scan_start 16 0 False) (pn_daemon (pn_scanning name cap gamma)) of
    Some (sc', s') \<Rightarrow> \<not> scan_more sc' \<and> sc_status sc' = SANE_STATUS_EOF \<and> sc_sent sc' = pn_sent | None \<Rightarrow> False)" for bh
    by code_simp
  then show ?thesis .
qed

lemma file_to_frontend_witness:
  "\<exists>c'. read_image ex_client_env 0 (replicate 30 2) (ex_reader [RError EAGAIN, RData (take 6 pn_sent), RData (drop 6 pn_sent)]) =
     (c', pnm_image (pn_scanning (ascii ''/tmp/input.ppm'') (map opt_cap pnm_sod) (replicate 4 (replicate 256 0))) pn_body, Some SANE_STATUS_EOF) \<and>
     \<not> nc_fault c'"
proof -
  let ?evs = "[RError EAGAIN, RData (take 6 pn_sent), RData (drop 6 pn_sent)]" and ?rpc = "\<lambda>s. Some (s, 0)"
  let ?t = "(new_scanner 0 0)\<lparr>ns_data := 5, ns_stream := ?evs\<rparr>" and ?env = "pn_example_env pn_body"
  let ?b = "(pnm_initial 0)\<lparr>pn_open := True\<rparr>"
  let ?s = "pn_daemon (pn_scanning (ascii ''/tmp/input.ppm'') (map opt_cap pnm_sod) (replicate 4 (replicate 256 0)))"
  have b: "pe_files ?env (pn_filename ?b) = Some (header_text pn_example_parts @ pn_body)" "length (pe_buf ?env) = 1024"
    "pn_open ?b" "\<not> pn_warming_up ?b" "pn_infile ?b = None" "forced_status ?b = None" "pn_malloc ?b = []" "pn_left ?b = []"
    by (simp_all add: pnm_initial_def pn_example_env_def forced_status_def)
  have "scan_size (7, 7) (ascii ''2 1'' @ [10]) = (2, 1)" by code_simp
  then have sz: "scan_size (pe_junk ?env) (ascii ''2 1'' @ [10]) = (2, 1)" by (simp add: pn_example_env_def)
  have st: "sane_start_pnm ?env MAGIC ?b = Some (sd_be ?s, SANE_STATUS_GOOD)"
    using start_header [OF pn_example_header b(1,2) sz b(3-5)]
    by (simp add: pn_daemon_def pn_scanning_def pnm_initial_def header_parms_def Let_def)
  have "b_read (pnm_backend ?env) b MAGIC n = b_read pn_reader b MAGIC n" for b n
    by (simp add: pnm_backend_def pn_reader_def sane_read_pnm_def)
  then have eq: "scan_loop ?rpc (pnm_backend ?env) 0 MAGIC True ex_events (scan_start 16 0 False) ?s =
      scan_loop ?rpc pn_reader 0 MAGIC True ex_events (scan_start 16 0 False) ?s"
    by (rule scan_loop_b_read)
  have size: "sd_buf_size ?s = 16" by (simp add: pn_daemon_def)
  obtain sc' s' where r: "scan_loop ?rpc (pnm_backend ?env) 0 MAGIC True ex_events (scan_start (sd_buf_size ?s) 0 False) ?s = Some (sc', s')"
    and e: "\<not> scan_more sc'" "sc_status sc' = SANE_STATUS_EOF" "sc_sent sc' = pn_sent"
    using pn_run [of "ascii ''/tmp/input.ppm''" "map opt_cap pnm_sod" "replicate 4 (replicate 256 0)"] unfolding eq size
    by (auto split: option.splits prod.splits)
  have f: "sc_status sc' \<noteq> SANE_STATUS_IO_ERROR" "sc_status sc' \<noteq> SANE_STATUS_CANCELLED" using e(2) by simp_all
  have z: "9 \<le> sd_buf_size ?s" "3 * sd_buf_size ?s < 2 ^ 31" by (simp_all add: size)
  have t: "get_scanner (ex_reader ?evs) 0 = Some ?t" "reader_start ?t" "ns_hw ?t < length (nc_devs (ex_reader ?evs))"
    "\<not> swapping ex_client_env (ex_reader ?evs)" "steady (ns_stream ?t)" "payload (ns_stream ?t) = sc_sent sc'"
    "work (ns_stream ?t) < length (replicate 30 (2 :: nat))" "\<forall>n \<in> set (replicate 30 2). 0 < n \<and> (n :: nat) < 2 ^ 31"
    "\<not> nc_fault (ex_reader ?evs)"
    by (simp_all add: ex_reader_def get_scanner_def reader_start_def new_scanner_def swapping_def pn_sent_def e(3))
  obtain c' d res where rd: "read_image ex_client_env 0 (replicate 30 2) (ex_reader ?evs) = (c', d, res)" by (metis prod_cases3)
  have keep: "sd_buf_size s' = sd_buf_size s \<and> sd_be s' = sd_be s" if "?rpc s = Some (s', r)" for s s' :: "pnm saned" and r :: int
    using that by simp
  from file_to_frontend [OF pn_example_header b(1,2) sz b(3-8) st keep z r e(1) f t(1-6,8) rd] t(7,9) rd
  show ?thesis by (simp add: pn_daemon_def)
qed

end
