(* ===== verification/Constrain_Props.thy ===== *)
theory Constrain_Props
  imports Constrain
begin

text \<open>
  Facts and properties of \<^verbatim>\<open>sanei/sanei_constrain_value.c\<close>.  The element-wise adjustment to a
  range is related to its mathematical meaning on integers (\<open>elem_value\<close>: clamp, round to
  the nearest quantum, clamp again); the word-list loop to the least distance; the string
  matching to \<open>resolve_string\<close>.
\<close>

unbundle bit_operations_syntax

section \<open>Ranges\<close>

definition range_ok :: "sane_range \<Rightarrow> bool" where
  "range_ok r \<longleftrightarrow> sint (rng_min r) \<le> sint (rng_max r) \<and> 0 \<le> sint (rng_quant r) \<and>
     sint (rng_max r) + sint (rng_quant r) div 2 < 2 ^ 31 \<and>
     sint (rng_max r) - sint (rng_min r) + sint (rng_quant r) div 2 < 2 ^ 31"

lemma sint_quantize:
  assumes r: "range_ok r" and q: "rng_quant r \<noteq> 0"
    and lo: "sint (rng_min r) \<le> sint x" and hi: "sint x \<le> sint (rng_max r)"
  shows "sint (quantize r x) =
    (sint x - sint (rng_min r) + sint (rng_quant r) div 2) div sint (rng_quant r)
      * sint (rng_quant r) + sint (rng_min r)"
proof -
  define q where "q = sint (rng_quant r)"
  define m where "m = sint (rng_min r)"
  define d where "d = sint x - m + q div 2"
  have q0: "0 < q"
    using r \<open>rng_quant r \<noteq> 0\<close> unfolding range_ok_def q_def
    by (metis  order_le_less sint_0 word_of_int_sint)
  have d: "0 \<le> d" "d < 2 ^ 31"
    using r lo hi q0 unfolding range_ok_def d_def q_def m_def by auto
  have ws: "x - rng_min r + word_of_int (c_div (sint (rng_quant r)) 2) = word_of_int d"
    using q0 unfolding d_def m_def q_def by (simp add: wi_hom_syms)
  have ud: "uint (word_of_int d :: 32 word) = d"
    using d by (simp add: uint_word_of_int_eq take_bit_int_eq_self)
  have uq: "uint (rng_quant r) = q"
    using q0 uint_sint_nonneg unfolding q_def by auto
  have "word_of_int d div rng_quant r = word_of_int (d div q)"
    by (metis ud uq uint_div word_of_int_uint)
  then have eq: "quantize r x = word_of_int (d div q * q + m)"
    unfolding quantize_def ws m_def q_def by (simp add: wi_hom_syms)
  have "d div q * q + d mod q = d" "0 \<le> d mod q" "0 \<le> d div q"
    using q0 d by (simp_all add: pos_imp_zdiv_nonneg_iff)
  then have "d div q * q \<le> d" "0 \<le> d div q * q"
    using q0 by (linarith, simp)
  then have "d div q * q + m < 2 ^ 31" "- (2 ^ 31) \<le> d div q * q + m"
    using r lo hi q0 sint_range_32 [of "rng_min r"] unfolding range_ok_def d_def q_def m_def by auto
  then have "sint (word_of_int (d div q * q + m) :: sane_word) = d div q * q + m"
    by (intro sint_word_of_int_32)
  then show ?thesis
    by (simp only: eq) (simp only: d_def m_def q_def)
qed
text \<open>Rounding to the nearest multiple of the quantum, on integers.\<close>

definition round_to :: "int \<Rightarrow> int \<Rightarrow> int" where
  "round_to q d = (d + q div 2) div q * q"

lemma round_to_nonneg: "0 < q \<Longrightarrow> 0 \<le> d \<Longrightarrow> 0 \<le> round_to q d"
  by (simp add: round_to_def pos_imp_zdiv_nonneg_iff)

lemma round_to_mono: "0 < q \<Longrightarrow> d \<le> e \<Longrightarrow> round_to q d \<le> round_to q e"
  by (simp add: round_to_def zdiv_mono1)

lemma round_to_multiple [simp]: "0 < q \<Longrightarrow> round_to q (n * q) = n * q"
  by (simp add: round_to_def div_pos_pos_trivial)

lemma round_to_idem [simp]: "0 < q \<Longrightarrow> round_to q (round_to q d) = round_to q d"
  by (metis round_to_def round_to_multiple)

lemma round_to_distance: 
  assumes "0 < q" shows "2 * \<bar>round_to q d - d\<bar> \<le> q"
proof -
  have "round_to q d = d + q div 2 - (d + q div 2) mod q"
    by (simp add: round_to_def minus_mod_eq_div_mult [symmetric])
  moreover have "0 \<le> (d + q div 2) mod q" "(d + q div 2) mod q < q"
    using assms by simp_all
  ultimately show ?thesis
    by (auto simp: abs_if)
qed

definition elem_value :: "sane_range \<Rightarrow> int \<Rightarrow> int" where
  "elem_value r x =
     (let a = max (sint (rng_min r)) x; b = min (sint (rng_max r)) a
      in if rng_quant r = 0 then b
         else min (sint (rng_max r))
                (round_to (sint (rng_quant r)) (b - sint (rng_min r)) + sint (rng_min r)))"

lemma constrain_elem_value:
  assumes r: "range_ok r"
  shows "sint (fst (constrain_elem r x info)) = elem_value r (sint x)"
proof -
  define b where "b = (if sint (rng_max r) < sint (if sint x < sint (rng_min r) then rng_min r else x)
     then rng_max r else (if sint x < sint (rng_min r) then rng_min r else x))"
  have b: "sint b = min (sint (rng_max r)) (max (sint (rng_min r)) (sint x))"
    by (simp add: b_def min_def max_def)
  have bb: "sint (rng_min r) \<le> sint b" "sint b \<le> sint (rng_max r)"
    using r by (auto simp: b range_ok_def)
  have q: "rng_quant r \<noteq> 0 \<Longrightarrow> sint (quantize r b) =
      round_to (sint (rng_quant r)) (sint b - sint (rng_min r)) + sint (rng_min r)"
    using sint_quantize [OF r _ bb] by (simp add: round_to_def)
  have "fst (constrain_elem r x info) =
     (if rng_quant r = 0 then b else if sint (rng_max r) < sint (quantize r b) then rng_max r else quantize r b)"
    by (auto simp: constrain_elem_def b_def Let_def)
  moreover have "elem_value r (sint x) = (if rng_quant r = 0 then sint b
      else min (sint (rng_max r))
        (round_to (sint (rng_quant r)) (sint b - sint (rng_min r)) + sint (rng_min r)))"
    by (simp add: elem_value_def Let_def b)
  ultimately show ?thesis
    using q by (simp add: min_def)
qed

lemma constrain_elem_Pair:
  "range_ok r \<Longrightarrow> constrain_elem r x info = (y, info') \<Longrightarrow> sint y = elem_value r (sint x)"
  by (metis constrain_elem_value fst_conv)

lemma elem_value_range:
  assumes r: "range_ok r"
  shows "sint (rng_min r) \<le> elem_value r x" "elem_value r x \<le> sint (rng_max r)"
proof -
  define b where "b = min (sint (rng_max r)) (max (sint (rng_min r)) x)"
  have b: "sint (rng_min r) \<le> b" "b \<le> sint (rng_max r)"
    using r by (auto simp: b_def range_ok_def)
  have q: "rng_quant r \<noteq> 0 \<Longrightarrow> 0 < sint (rng_quant r)"
    using r unfolding range_ok_def by (metis order_le_less sint_0 word_of_int_sint)
  then have "rng_quant r \<noteq> 0 \<Longrightarrow>
     0 \<le> round_to (sint (rng_quant r)) (b - sint (rng_min r))"
    using b by (simp add: round_to_nonneg)
  then show "sint (rng_min r) \<le> elem_value r x" "elem_value r x \<le> sint (rng_max r)"
    using b r by (auto simp: elem_value_def Let_def b_def [symmetric] range_ok_def)
qed

lemma elem_value_idem:
  assumes r: "range_ok r"
  shows "elem_value r (elem_value r x) = elem_value r x"
proof -
  let ?m = "sint (rng_min r)" and ?M = "sint (rng_max r)" and ?q = "sint (rng_quant r)"
  define b where "b = min ?M (max ?m x)"
  have b: "?m \<le> b" "b \<le> ?M"
    using r by (auto simp: b_def range_ok_def)
  show ?thesis
  proof (cases "rng_quant r = 0")
    case True
    then show ?thesis by (simp add: elem_value_def Let_def)
  next
    case False
    then have q: "0 < ?q"
      using r unfolding range_ok_def by (metis order_le_less sint_0 word_of_int_sint)
    define y where "y = elem_value r x"
    have y: "y = min ?M (round_to ?q (b - ?m) + ?m)"
      using False by (simp add: y_def elem_value_def Let_def b_def)
    have yr: "?m \<le> y" "y \<le> ?M"
      using elem_value_range [OF r] by (simp_all add: y_def)
    have yy: "elem_value r y = min ?M (round_to ?q (y - ?m) + ?m)"
      using False yr by (simp add: elem_value_def Let_def max_def min_def)
    show ?thesis
    proof (cases "round_to ?q (b - ?m) + ?m \<le> ?M")
      case True
      then have "y = round_to ?q (b - ?m) + ?m"
        by (simp add: y)
      with yy True q show ?thesis
        by (simp add: y_def [symmetric])
    next
      case F: False
      then have "y = ?M"
        by (simp add: y)
      moreover have "round_to ?q (b - ?m) \<le> round_to ?q (?M - ?m)"
        using b q by (simp add: round_to_mono)
      ultimately show ?thesis
        using yy F by (simp add: y_def [symmetric])
    qed
  qed
qed

text \<open>The range loops, over lists.\<close>

lemma constrain_range_loop_length:
  "constrain_range_loop r xs n info = Some (ys, info') \<Longrightarrow> length ys = length xs \<and> n \<le> length xs"
  by (induction r xs n info arbitrary: ys info' rule: constrain_range_loop.induct)
    (auto split: option.splits prod.splits)

lemma constrain_range_loop_total:
  "n \<le> length xs \<Longrightarrow> \<exists>ys info'. constrain_range_loop r xs n info = Some (ys, info')"
proof (induction r xs n info rule: constrain_range_loop.induct)
  case (3 r x xs n info)
  obtain y i where e: "constrain_elem r x info = (y, i)" by fastforce
  from 3 e obtain ys info' where "constrain_range_loop r xs n i = Some (ys, info')" by auto
  with e show ?case by simp
qed auto

lemma constrain_range_loop_values:
  "range_ok r \<Longrightarrow> constrain_range_loop r xs n info = Some (ys, info') \<Longrightarrow>
    map sint ys = map (elem_value r \<circ> sint) (take n xs) @ map sint (drop n xs)"
  by (induction r xs n info arbitrary: ys info' rule: constrain_range_loop.induct)
    (auto split: option.splits prod.splits dest: constrain_elem_Pair)

lemma constrain_elem_fixpoint:
  assumes "sint (rng_min r) \<le> sint x" "sint x \<le> sint (rng_max r)"
    and "rng_quant r \<noteq> 0 \<Longrightarrow> quantize r x = x"
  shows "constrain_elem r x info = (x, info)"
  using assms by (auto simp: constrain_elem_def Let_def)

lemma check_range_loop_constrain:
  "check_range_loop r xs n = Some SANE_STATUS_GOOD \<Longrightarrow> constrain_range_loop r xs n info = Some (xs, info)"
proof (induction r xs n arbitrary: info rule: check_range_loop.induct)
  case (3 r x xs n)
  then have "constrain_elem r x info = (x, info)" for info
    by (intro constrain_elem_fixpoint) (auto split: if_splits)
  with 3 show ?case by (auto split: if_splits)
qed auto

lemma check_elem_value:
  assumes r: "range_ok r" and y: "sint y = elem_value r (sint x)"
  shows "check_range_loop r [y] 1 = Some SANE_STATUS_GOOD \<longleftrightarrow>
    rng_quant r = 0 \<or> sint (rng_quant r) dvd sint y - sint (rng_min r)"
proof (cases "rng_quant r = 0")
  case True
  then show ?thesis
    using elem_value_range [OF r, of "sint x"] y by (simp add: not_less)
next
  case False
  let ?q = "sint (rng_quant r)" and ?m = "sint (rng_min r)"
  have q: "0 < ?q"
    using r False unfolding range_ok_def by (metis order_le_less sint_0 word_of_int_sint)
  have b: "?m \<le> sint y" "sint y \<le> sint (rng_max r)"
    using elem_value_range [OF r, of "sint x"] y by simp_all
  have "sint (quantize r y) = round_to ?q (sint y - ?m) + ?m"
    using sint_quantize [OF r False b] by (simp add: round_to_def)
  then have "quantize r y = y \<longleftrightarrow> round_to ?q (sint y - ?m) = sint y - ?m"
    by (metis add_diff_cancel_right' diff_add_cancel word_of_int_sint)
  also have "\<dots> \<longleftrightarrow> ?q dvd sint y - ?m"
    using q by (metis dvd_def dvd_triv_right mult.commute round_to_def round_to_multiple)
  finally show ?thesis
    using b False by (simp add: not_less)
qed

section \<open>Word lists\<close>

lemma sint_word_abs_diff:
  assumes "- (2 ^ 31) < sint w - sint x" "sint w - sint x < 2 ^ 31"
  shows "sint (word_abs (w - x)) = \<bar>sint w - sint x\<bar>"
proof -
  have eq: "w - x = word_of_int (sint w - sint x)"
    by (simp add: wi_hom_syms)
  have s: "sint (w - x) = sint w - sint x"
    unfolding eq using assms by (intro sint_word_of_int_32) auto
  moreover have "sint (- (w - x)) = - (sint w - sint x)"
    unfolding eq wi_hom_neg using assms by (intro sint_word_of_int_32) auto
  ultimately show ?thesis
    by (simp add: word_abs_def)
qed

definition word_list_ok :: "sane_word list \<Rightarrow> bool" where
  \<comment> \<open>the first word is the number of values that follow, at least one\<close>
  "word_list_ok ws \<longleftrightarrow> 2 \<le> length ws \<and> sint (ws ! 0) = int (length ws) - 1"

definition no_diff_overflow :: "sane_word \<Rightarrow> sane_word list \<Rightarrow> bool" where
  "no_diff_overflow w xs \<longleftrightarrow> list_all (\<lambda>x. \<bar>sint w - sint x\<bar> < 2 ^ 31) xs"

definition least_upto :: "sane_word \<Rightarrow> sane_word list \<Rightarrow> nat \<Rightarrow> nat \<Rightarrow> bool" where
  \<comment> \<open>entry \<open>k\<close> is nearest to \<open>w\<close> among the entries from 1 up to, not including, \<open>i\<close>\<close>
  "least_upto w ws i k \<longleftrightarrow> 1 \<le> k \<and> k < max i 2 \<and>
     (\<forall>j. 1 \<le> j \<and> j < i \<longrightarrow> \<bar>sint w - sint (ws ! k)\<bar> \<le> \<bar>sint w - sint (ws ! j)\<bar>)"

lemma least_upto_start: "least_upto w ws 1 1"
  by (simp add: least_upto_def)

lemma least_upto_new:
  "least_upto w ws i k \<Longrightarrow> 1 \<le> i \<Longrightarrow> \<bar>sint w - sint (ws ! i)\<bar> < \<bar>sint w - sint (ws ! k)\<bar>
     \<Longrightarrow> least_upto w ws (Suc i) i"
  by (fastforce simp: least_upto_def less_Suc_eq)

lemma least_upto_keep:
  "least_upto w ws i k \<Longrightarrow> 1 \<le> i \<Longrightarrow> \<not> \<bar>sint w - sint (ws ! i)\<bar> < \<bar>sint w - sint (ws ! k)\<bar>
     \<Longrightarrow> least_upto w ws (Suc i) k"
  by (fastforce simp: least_upto_def less_Suc_eq)

lemma word_list_dist:
  assumes "no_diff_overflow w (tl ws)" "1 \<le> j" "j < length ws"
  shows "sint (word_abs (w - ws ! j)) = \<bar>sint w - sint (ws ! j)\<bar>"
proof -
  have "ws ! j = tl ws ! (j - 1)" and "j - 1 < length (tl ws)"
    using assms by (auto simp: nth_tl)
  then have "\<bar>sint w - sint (ws ! j)\<bar> < 2 ^ 31"
    using assms(1) by (metis list_all_length no_diff_overflow_def)
  then show ?thesis
    by (intro sint_word_abs_diff) linarith+
qed

lemma nearest_word_loop_least:
  "word_list_ok ws \<Longrightarrow> no_diff_overflow w (tl ws) \<Longrightarrow> least_upto w ws i k \<Longrightarrow> 1 \<le> i \<Longrightarrow> i \<le> length ws
   \<Longrightarrow> v = word_abs (w - ws ! k)
   \<Longrightarrow> \<exists>k'. nearest_word_loop w ws i k v = Some k' \<and> least_upto w ws (length ws) k'"
proof (induction w ws i k v rule: nearest_word_loop.induct)
  case (1 w ws i k v)
  show ?case
  proof (cases "i = length ws")
    case True
    with 1 show ?thesis
      by (subst nearest_word_loop.simps) (auto simp: word_list_ok_def)
  next
    case False
    with 1 have i: "i < length ws" by simp
    have ni: "\<not> sint (ws ! 0) < int i" "\<not> length ws \<le> i"
      using 1 i by (auto simp: word_list_ok_def)
    have k: "1 \<le> k" "k < length ws"
      using 1 i by (auto simp: least_upto_def word_list_ok_def)
    have cmp: "sint (word_abs (w - ws ! i)) < sint v \<longleftrightarrow>
        \<bar>sint w - sint (ws ! i)\<bar> < \<bar>sint w - sint (ws ! k)\<bar>"
      using 1 i k by (simp add: word_list_dist)
    show ?thesis
    proof (cases "sint (word_abs (w - ws ! i)) < sint v")
      case True
      with 1 i cmp have "least_upto w ws (Suc i) i" by (intro least_upto_new) auto
      with "1.IH"(1) [OF ni True] 1 i True ni show ?thesis
        by (subst nearest_word_loop.simps) simp
    next
      case F: False
      with 1 i cmp have "least_upto w ws (Suc i) k" by (intro least_upto_keep) auto
      with "1.IH"(2) [OF ni F] 1 i F ni show ?thesis
        by (subst nearest_word_loop.simps) simp
    qed
  qed
qed

lemma constrain_word_list_nearest:
  assumes ok: "word_list_ok ws" and no: "no_diff_overflow w (tl ws)"
  shows "\<exists>w'. constrain_word_list w ws info = Some (w', if w' = w then info else set_inexact info) \<and>
    w' \<in> set (tl ws) \<and> (\<forall>x \<in> set (tl ws). \<bar>sint w - sint w'\<bar> \<le> \<bar>sint w - sint x\<bar>)"
proof -
  from ok have len: "\<not> length ws \<le> 1"
    by (simp add: word_list_ok_def)
  obtain k where k: "nearest_word_loop w ws 1 1 (word_abs (w - ws ! 1)) = Some k"
      and least: "least_upto w ws (length ws) k"
    using nearest_word_loop_least [OF ok no least_upto_start] len by auto
  have res: "constrain_word_list w ws info = Some (ws ! k, if ws ! k = w then info else set_inexact info)"
    using k len by (auto simp: constrain_word_list_def)
  have "1 \<le> k" "k < length ws"
    using least len by (auto simp: least_upto_def)
  then have "ws ! k \<in> set (tl ws)"
    by (auto simp: set_tl_conv)
  moreover have "\<bar>sint w - sint (ws ! k)\<bar> \<le> \<bar>sint w - sint x\<bar>" if "x \<in> set (tl ws)" for x
    using that least by (auto simp: least_upto_def set_tl_conv)
  ultimately show ?thesis
    using res by blast
qed

lemma check_word_list_loop_member:
  "check_word_list_loop w ws i = Some SANE_STATUS_GOOD \<Longrightarrow>
    \<exists>j. i \<le> j \<and> j < length ws \<and> ws ! j = w \<and> (i < j \<longrightarrow> int j \<le> sint (ws ! 0))"
proof (induction w ws i rule: check_word_list_loop.induct)
  case (1 w ws i)
  show ?case
  proof (cases "length ws \<le> i \<or> w = ws ! i \<or> sint (ws ! 0) \<le> int i")
    case True
    with "1.prems" show ?thesis
      by (subst (asm) check_word_list_loop.simps) (auto split: if_splits)
  next
    case False
    with "1.prems" have "check_word_list_loop w ws (Suc i) = Some SANE_STATUS_GOOD"
      by (subst (asm) check_word_list_loop.simps) (auto split: if_splits)
    with "1.IH" False obtain j where j: "Suc i \<le> j" "j < length ws" "ws ! j = w"
      "Suc i < j \<longrightarrow> int j \<le> sint (ws ! 0)"
      by auto
    with False show ?thesis
      by (intro exI [of _ j]) (auto simp: Suc_le_eq le_less)
  qed
qed

section \<open>String lists\<close>

definition string_block :: "byte list list \<Rightarrow> c_string list" where
  \<comment> \<open>the NULL-terminated array of the given strings\<close>
  "string_block names = map (\<lambda>n. Some (mk_cstr n)) names @ [None]"

definition case_prefix :: "byte list \<Rightarrow> byte list \<Rightarrow> bool" where
  "case_prefix v n \<longleftrightarrow> take (length v) (map to_lower n) = map to_lower v"

definition resolve_string :: "byte list list \<Rightarrow> byte list \<Rightarrow> byte list option" where
  \<comment> \<open>what the option's list makes of \<open>v\<close>: the first entry equal up to case, else the only
      entry that \<open>v\<close> abbreviates\<close>
  "resolve_string names v =
     (case find (strcasecmp_eq v) names of
        Some n \<Rightarrow> Some n
      | None \<Rightarrow> (case filter (case_prefix v) names of [n] \<Rightarrow> Some n | _ \<Rightarrow> None))"

lemma strncasecmp_prefix:
  assumes "nul_free v" "nul_free n"
  shows "strncasecmp_eq v n (length v) \<and> length v \<le> length n \<longleftrightarrow> case_prefix v n"
proof
  assume "strncasecmp_eq v n (length v) \<and> length v \<le> length n"
  then show "case_prefix v n"
    by (simp add: strncasecmp_eq_def case_prefix_def mk_cstr_def take_map)
next
  assume p: "case_prefix v n"
  then have "length v \<le> length n"
    by (metis case_prefix_def length_map length_take min.cobounded1)
  with p show "strncasecmp_eq v n (length v) \<and> length v \<le> length n"
    by (simp add: strncasecmp_eq_def case_prefix_def mk_cstr_def take_map)
qed

lemma case_prefix_full:
  "length v = length n \<Longrightarrow> case_prefix v n \<longleftrightarrow> strcasecmp_eq v n"
  by (auto simp: case_prefix_def strcasecmp_eq_def)

lemma strcasecmp_length: "strcasecmp_eq v n \<Longrightarrow> length v = length n"
  unfolding strcasecmp_eq_def by (metis length_map)

lemma match_string_loop_Cons:
  assumes "nul_free v" "nul_free n"
  shows "match_string_loop v (Some (mk_cstr n) # rest) i num m =
    (if strcasecmp_eq v n then Some (Exact_Match i)
     else if case_prefix v n then match_string_loop v rest (Suc i) (Suc num) (Some i)
     else match_string_loop v rest (Suc i) num m)"
  using strncasecmp_prefix [OF assms] case_prefix_full [of v n] strcasecmp_length [of v n] assms
  by auto

declare match_string_loop.simps(3) [simp del]

lemma match_string_loop_exact:
  "nul_free v \<Longrightarrow> list_all nul_free names \<Longrightarrow> find (strcasecmp_eq v) names = Some n \<Longrightarrow>
    \<exists>j. match_string_loop v (string_block names) i num m = Some (Exact_Match (i + j)) \<and>
      j < length names \<and> names ! j = n"
proof (induction names arbitrary: i num m)
  case (Cons a names)
  show ?case
  proof (cases "strcasecmp_eq v a")
    case True
    with Cons show ?thesis
      by (intro exI [of _ 0]) (simp add: string_block_def match_string_loop_Cons)
  next
    case False
    with Cons.prems have "find (strcasecmp_eq v) names = Some n" "list_all nul_free names" by auto
    note IH = Cons.IH [OF \<open>nul_free v\<close> this(2,1)]
    have "\<exists>num' m'. match_string_loop v (string_block (a # names)) i num m =
        match_string_loop v (string_block names) (Suc i) num' m'"
      using False Cons.prems by (auto simp: string_block_def match_string_loop_Cons)
    then obtain num' m' where step: "match_string_loop v (string_block (a # names)) i num m =
        match_string_loop v (string_block names) (Suc i) num' m'"
      by blast
    from IH [of "Suc i" num' m'] obtain j where
      "match_string_loop v (string_block names) (Suc i) num' m' = Some (Exact_Match (Suc i + j))"
      "j < length names" "names ! j = n"
      by blast
    with step show ?thesis
      by (intro exI [of _ "Suc j"]) simp
  qed
qed simp

lemma match_string_loop_prefix:
  "nul_free v \<Longrightarrow> list_all nul_free names \<Longrightarrow> find (strcasecmp_eq v) names = None \<Longrightarrow>
    \<exists>m'. match_string_loop v (string_block names) i num m =
        Some (Prefix_Matches (num + length (filter (case_prefix v) names)) m') \<and>
      (if filter (case_prefix v) names = [] then m' = m
       else \<exists>j. m' = Some (i + j) \<and> j < length names \<and> names ! j = last (filter (case_prefix v) names))"
proof (induction names arbitrary: i num m)
  case Nil
  then show ?case by (simp add: string_block_def)
next
  case (Cons a names)
  from Cons.prems have no: "\<not> strcasecmp_eq v a" and a: "nul_free a"
    and prems: "nul_free v" "list_all nul_free names" "find (strcasecmp_eq v) names = None"
    by (auto split: if_splits)
  define m0 where "m0 = (if case_prefix v a then Some i else m)"
  define num0 where "num0 = (if case_prefix v a then Suc num else num)"
  have "match_string_loop v (string_block (a # names)) i num m =
      match_string_loop v (string_block names) (Suc i) num0 m0"
    using no a prems by (simp add: string_block_def match_string_loop_Cons m0_def num0_def)
  with Cons.IH [OF prems, of "Suc i" num0 m0] obtain m' where
    m': "match_string_loop v (string_block (a # names)) i num m =
        Some (Prefix_Matches (num0 + length (filter (case_prefix v) names)) m')"
      "if filter (case_prefix v) names = [] then m' = m0
       else \<exists>j. m' = Some (Suc i + j) \<and> j < length names \<and> names ! j = last (filter (case_prefix v) names)"
    by auto
  have n: "num0 + length (filter (case_prefix v) names) = num + length (filter (case_prefix v) (a # names))"
    by (simp add: num0_def)
  show ?case
  proof (cases "filter (case_prefix v) names = []")
    case True
    with m' n show ?thesis
      by (auto simp: m0_def intro: exI [of _ 0])
  next
    case False
    with m' obtain j where "m' = Some (i + Suc j)" "Suc j < length (a # names)"
      "(a # names) ! Suc j = last (filter (case_prefix v) (a # names))"
      by auto
    with False m' n show ?thesis
      by (metis append_is_Nil_conv filter.simps(2) list.distinct(1))
  qed
qed

section \<open>Combined facts\<close>

lemma constrain_elem_stable:
  assumes r: "range_ok r" and y: "sint y = elem_value r (sint x)"
  shows "constrain_elem r y info = (y, info)"
proof -
  have b: "sint (rng_min r) \<le> sint y" "sint y \<le> sint (rng_max r)"
    using elem_value_range [OF r, of "sint x"] y by simp_all
  have "sint (fst (constrain_elem r y info)) = sint y"
    using constrain_elem_value [OF r] elem_value_idem [OF r] y by metis
  then have "fst (constrain_elem r y info) = y"
    by (metis word_of_int_sint)
  with b show ?thesis
    by (auto simp: constrain_elem_def Let_def split: if_splits)
qed

lemma constrain_range_loop_stable:
  "n \<le> length ys \<Longrightarrow> (\<And>i info. i < n \<Longrightarrow> constrain_elem r (ys ! i) info = (ys ! i, info)) \<Longrightarrow>
    constrain_range_loop r ys n info = Some (ys, info)"
proof (induction r ys n info rule: constrain_range_loop.induct)
  case (3 r x xs n info)
  have "constrain_elem r x i = (x, i)" for i
    using "3.prems"(2) [of 0] by simp
  moreover have "constrain_elem r (xs ! i) j = (xs ! i, j)" if "i < n" for i j
    using "3.prems"(2) [of "Suc i"] that by simp
  ultimately show ?case
    using 3 by simp
qed auto

lemma elem_value_nearest:
  assumes r: "range_ok r"
  shows "2 * \<bar>elem_value r x - min (sint (rng_max r)) (max (sint (rng_min r)) x)\<bar> \<le> sint (rng_quant r)"
proof (cases "rng_quant r = 0")
  case True
  then show ?thesis by (simp add: elem_value_def Let_def)
next
  case False
  then have "0 < sint (rng_quant r)"
    using r unfolding range_ok_def by (metis order_le_less sint_0 word_of_int_sint)
  from round_to_distance [OF this, of "min (sint (rng_max r)) (max (sint (rng_min r)) x) - sint (rng_min r)"]
  show ?thesis
    using False r by (auto simp: elem_value_def Let_def range_ok_def min_def abs_if split: if_splits)
qed



lemma check_word_list_good:
  assumes "check_word_list_loop w ws 1 = Some SANE_STATUS_GOOD"
    and "word_list_ok ws" "no_diff_overflow w (tl ws)"
  shows "constrain_word_list w ws info = Some (w, info)"
proof -
  from check_word_list_loop_member [OF assms(1)] have "w \<in> set (tl ws)"
    by (auto simp: set_tl_conv)
  moreover obtain w' where w': "constrain_word_list w ws info = Some (w', if w' = w then info else set_inexact info)"
    "\<forall>x \<in> set (tl ws). \<bar>sint w - sint w'\<bar> \<le> \<bar>sint w - sint x\<bar>"
    using constrain_word_list_nearest [OF assms(2,3), of info] by blast
  ultimately have "\<bar>sint w - sint w'\<bar> \<le> 0"
    by fastforce
  then have "sint w' = sint w" by simp
  then have "w' = w" by (metis word_of_int_sint)
  with w' show ?thesis by simp
qed

lemma check_bool_loop_head:
  "check_bool_loop xs n = Some SANE_STATUS_GOOD \<Longrightarrow> 0 < n \<Longrightarrow>
    \<exists>b rest. xs = b # rest \<and> (b = SANE_TRUE \<or> b = SANE_FALSE)"
  by (cases "(xs, n)" rule: check_bool_loop.cases) (auto split: if_splits)

lemma elem_count_pos: "sint sz \<le> 0 \<or> 4 \<le> sint sz \<Longrightarrow> 0 < elem_count sz"
  by (auto simp: elem_count_def)

text \<open>
  C17: a value that passes \<open>sanei_check_value\<close> is left unchanged by
  \<open>sanei_constrain_value\<close>, info word included, for range, word-list and unconstrained
  options of any type with at least one element, where the count in front of a word list is that of its words and the
  differences between the value and the words of the list do not overflow.  Options constrained by a list of strings
  are excluded: of entries equal up to case the two functions may take different ones.
\<close>

theorem checked_value_is_kept:
  assumes good: "sanei_check_value opt value = Some SANE_STATUS_GOOD"
    and ns: "opt_constraint_type opt \<noteq> SANE_CONSTRAINT_STRING_LIST"
    and n: "0 < elem_count (opt_size opt)"
    and words: "\<And>ws w rest. constraint_words (opt_constraint opt) = Some ws \<Longrightarrow>
        value = Val_Words (w # rest) \<Longrightarrow> word_list_ok ws \<and> no_diff_overflow w (tl ws)"
  shows "sanei_constrain_value opt value info = Some (SANE_STATUS_GOOD, value, info)"
proof -
  consider "opt_constraint_type opt = SANE_CONSTRAINT_RANGE"
    | "opt_constraint_type opt = SANE_CONSTRAINT_WORD_LIST"
    | "opt_constraint_type opt = SANE_CONSTRAINT_NONE" "opt_type opt = SANE_TYPE_BOOL"
    | "opt_constraint_type opt = SANE_CONSTRAINT_NONE" "opt_type opt \<noteq> SANE_TYPE_BOOL"
    | "opt_constraint_type opt \<notin> {SANE_CONSTRAINT_RANGE, SANE_CONSTRAINT_WORD_LIST, SANE_CONSTRAINT_NONE}"
    by blast
  then show ?thesis
  proof cases
    case 1
    with good show ?thesis
      by (cases "value")
        (auto simp: sanei_check_value_def sanei_constrain_value_def check_range_loop_constrain
          split: option.splits)
  next
    case 2
    with good obtain w rest ws where v: "value = Val_Words (w # rest)"
      "constraint_words (opt_constraint opt) = Some ws"
      "check_word_list_loop w ws 1 = Some SANE_STATUS_GOOD"
      by (cases "value") (auto simp: sanei_check_value_def split: option.splits list.splits)
    with words have "constrain_word_list w ws info = Some (w, info)"
      by (intro check_word_list_good) auto
    with 2 v show ?thesis
      by (simp add: sanei_constrain_value_def)
  next
    case 3
    with good n obtain b rest where "value = Val_Words (b # rest)" "b = SANE_TRUE \<or> b = SANE_FALSE"
      by (cases "value") (auto simp: sanei_check_value_def dest: check_bool_loop_head)
    with 3 show ?thesis
      by (auto simp: sanei_constrain_value_def)
  next
    case 4
    then show ?thesis by (simp add: sanei_constrain_value_def)
  next
    case 5
    with ns show ?thesis by (simp add: sanei_constrain_value_def)
  qed
qed

theorem checked_value_is_kept_witness:
  "sanei_constrain_value
      (zero_descriptor\<lparr>opt_constraint_type := SANE_CONSTRAINT_WORD_LIST,
         opt_constraint := Constr_Words (Some [3, 75, 150, 300])\<rparr>)
      (Val_Words [150]) (Some 4) = Some (SANE_STATUS_GOOD, Val_Words [150], Some 4)"
  by (rule checked_value_is_kept)
    (auto simp: sanei_check_value_def check_word_list_loop.simps zero_descriptor_def
      elem_count_def word_list_ok_def no_diff_overflow_def)

text \<open>
  C19: the two functions disagree.  After \<open>sanei_constrain_value\<close> has adjusted an element
  of a well-formed range, \<open>sanei_check_value\<close> accepts the result exactly when it is a
  whole number of quanta above the minimum; the clamp of a rounded value to the maximum,
  which only the first function has, can produce a value the second one rejects.
\<close>

theorem constrain_then_check:
  assumes "opt_constraint_type opt = SANE_CONSTRAINT_RANGE"
    and "opt_constraint opt = Constr_Range (Some r)" and r: "range_ok r"
    and "elem_count (opt_size opt) = 1"
    and res: "sanei_constrain_value opt (Val_Words [x]) info = Some (st, Val_Words [y], info')"
  shows "sanei_check_value opt (Val_Words [y]) =
       Some (if rng_quant r = 0 \<or> sint (rng_quant r) dvd sint y - sint (rng_min r)
             then SANE_STATUS_GOOD else SANE_STATUS_INVAL) \<and>
     (rng_quant r = 0 \<or> sint (rng_quant r) dvd sint y - sint (rng_min r) \<or> y = rng_max r)"
proof -
  let ?q = "sint (rng_quant r)" and ?d = "sint y - sint (rng_min r)"
  from assms have "fst (constrain_elem r x info) = y"
    by (auto simp: sanei_constrain_value_def split: prod.splits)
  then have y: "sint y = elem_value r (sint x)"
    using constrain_elem_value [OF r] by metis
  have "check_range_loop r [y] 1 = Some SANE_STATUS_GOOD \<or> check_range_loop r [y] 1 = Some SANE_STATUS_INVAL"
    by simp
  with check_elem_value [OF r y] have "check_range_loop r [y] 1 =
      Some (if rng_quant r = 0 \<or> ?q dvd ?d then SANE_STATUS_GOOD else SANE_STATUS_INVAL)"
    by (auto simp del: check_range_loop.simps)
  moreover have "rng_quant r = 0 \<or> ?q dvd ?d \<or> sint y = sint (rng_max r)"
    by (auto simp: y elem_value_def Let_def min_def round_to_def)
  then have "rng_quant r = 0 \<or> ?q dvd ?d \<or> y = rng_max r"
    by (metis word_of_int_sint)
  ultimately show ?thesis
    using assms by (simp add: sanei_check_value_def)
qed

theorem constrain_then_check_witness:
  "sanei_check_value
      (zero_descriptor\<lparr>opt_size := 4, opt_constraint_type := SANE_CONSTRAINT_RANGE,
         opt_constraint := Constr_Range (Some \<lparr>rng_min = 0, rng_max = 10, rng_quant = 4\<rparr>)\<rparr>)
      (Val_Words [10]) = Some SANE_STATUS_INVAL"
  using constrain_then_check [of "zero_descriptor\<lparr>opt_size := 4, opt_constraint_type := SANE_CONSTRAINT_RANGE,
         opt_constraint := Constr_Range (Some \<lparr>rng_min = 0, rng_max = 10, rng_quant = 4\<rparr>)\<rparr>"
      "\<lparr>rng_min = 0, rng_max = 10, rng_quant = 4\<rparr>" 11 "Some 0" 0 10 "Some 1"]
  by (simp add: range_ok_def elem_count_def sanei_constrain_value_def constrain_elem_def
      quantize_def set_inexact_def)

lemma string_at_block:
  "j < length names \<Longrightarrow> list_all nul_free names \<Longrightarrow> string_at (string_block names) j = Some (names ! j)"
  by (simp add: string_at_def blk_get_def string_block_def nth_append list_all_length)

lemma c_strcpy_fits:
  "nul_free s \<Longrightarrow> length s < length b \<Longrightarrow>
    \<exists>b'. c_strcpy b s = Some b' \<and> length b' = length b \<and> c_str b' = Some s"
proof -
  assume s: "nul_free s" "length s < length b"
  have "takeWhile (\<lambda>x. x \<noteq> NUL) (s @ NUL # rest) = s" for rest
    using s(1) unfolding nul_free_def by (induction s) auto
  then have "c_str (blit b 0 (mk_cstr s)) = Some s"
    by (simp add: c_str_def blit_def mk_cstr_def)
  with s show ?thesis
    by (simp add: c_strcpy_def mk_cstr_def)
qed

text \<open>
  Adjusting a string option resolves the string against the option's list: the first
  entry equal up to case wins, otherwise the only entry it abbreviates, otherwise the
  value is rejected and left as it was.  With a buffer that holds every entry no access
  leaves a block, and the info word is never touched, although the value may have changed.
\<close>

theorem constrain_string_resolves:
  assumes "opt_constraint_type opt = SANE_CONSTRAINT_STRING_LIST"
    and "opt_constraint opt = Constr_Strings (Some (string_block names))"
    and names: "list_all nul_free names" and v: "c_str b = Some v"
    and fits: "list_all (\<lambda>n. length n < length b) names"
  shows "case resolve_string names v of
      Some n \<Rightarrow> \<exists>b'. sanei_constrain_value opt (Val_Bytes b) info
                 = Some (SANE_STATUS_GOOD, Val_Bytes b', info) \<and> length b' = length b \<and> c_str b' = Some n
    | None \<Rightarrow> sanei_constrain_value opt (Val_Bytes b) info = Some (SANE_STATUS_INVAL, Val_Bytes b, info)"
proof -
  have vf: "nul_free v" by (rule nul_free_c_str [OF v])
  let ?ss = "string_block names"
  have copy: "\<exists>b'. c_strcpy b (names ! j) = Some b' \<and> length b' = length b \<and> c_str b' = Some (names ! j)"
    if "j < length names" for j
    using that names fits by (intro c_strcpy_fits) (auto simp: list_all_length)
  have "case resolve_string names v of
      Some n \<Rightarrow> \<exists>b'. constrain_string_list b ?ss = Some (SANE_STATUS_GOOD, b') \<and>
                  length b' = length b \<and> c_str b' = Some n
    | None \<Rightarrow> constrain_string_list b ?ss = Some (SANE_STATUS_INVAL, b)"
  proof (cases "find (strcasecmp_eq v) names")
    case (Some n)
    with match_string_loop_exact [OF vf names, of n 0 0 None] obtain j where
      "match_string_loop v ?ss 0 0 None = Some (Exact_Match j)" "j < length names" "names ! j = n"
      by auto
    with copy [of j] v Some names show ?thesis
      by (auto simp: constrain_string_list_def resolve_string_def string_at_block)
  next
    case None
    let ?pre = "filter (case_prefix v) names"
    from match_string_loop_prefix [OF vf names None, of 0 0 None] obtain m' where
      m: "match_string_loop v ?ss 0 0 None = Some (Prefix_Matches (length ?pre) m')"
        "?pre \<noteq> [] \<Longrightarrow> \<exists>j. m' = Some j \<and> j < length names \<and> names ! j = last ?pre"
      by (auto split: if_splits)
    show ?thesis
    proof (cases "length ?pre = 1")
      case True
      then obtain n where n: "?pre = [n]"
        by (auto simp: length_Suc_conv)
      with m obtain j where "m' = Some j" "j < length names" "names ! j = n"
        by auto
      with copy [of j] v None m n names show ?thesis
        by (auto simp: constrain_string_list_def resolve_string_def string_at_block)
    next
      case False
      with v None m(1) show ?thesis
        by (auto simp: constrain_string_list_def resolve_string_def split: list.splits)
    qed
  qed
  with assms(1,2) show ?thesis
    by (auto simp: sanei_constrain_value_def split: option.splits)
qed

theorem constrain_string_resolves_witness:
  "\<exists>b'. sanei_constrain_value
      (zero_descriptor\<lparr>opt_constraint_type := SANE_CONSTRAINT_STRING_LIST,
         opt_constraint := Constr_Strings (Some (string_block [ascii ''Gray'', ascii ''Color'']))\<rparr>)
      (Val_Bytes (ascii ''co'' @ replicate 8 NUL)) (Some 0) = Some (SANE_STATUS_GOOD, Val_Bytes b', Some 0) \<and>
     c_str b' = Some (ascii ''Color'')"
proof -
  have r: "resolve_string [ascii ''Gray'', ascii ''Color''] (ascii ''co'') = Some (ascii ''Color'')"
    by code_simp
  have f: "list_all nul_free [ascii ''Gray'', ascii ''Color'']" by code_simp
  have c: "c_str (ascii ''co'' @ replicate 8 NUL) = Some (ascii ''co'')" by code_simp
  have l: "list_all (\<lambda>n. length n < length (ascii ''co'' @ replicate 8 NUL)) [ascii ''Gray'', ascii ''Color'']"
    by code_simp
  show ?thesis
    using constrain_string_resolves [OF _ _ f c l, of "zero_descriptor\<lparr>opt_constraint_type := SANE_CONSTRAINT_STRING_LIST,
         opt_constraint := Constr_Strings (Some (string_block [ascii ''Gray'', ascii ''Color'']))\<rparr>" "Some 0"] r
    by auto
qed

end
