(* ===== verification/Pnm_Inv.thy ===== *)
theory Pnm_Inv
  imports Pnm_Image Constrain_Props Wire_Laws
begin

text \<open>
  The invariant of the PNM backend under every sequence of calls: the settings satisfy their
  descriptors, the gamma tables have all their entries, the options that may be set are those that have
  an effect, at most one status is forced, and no access leaves a buffer.
\<close>

unbundle bit_operations_syntax

section \<open>Words in memory\<close>

lemma bytes_words_word: "bytes_words (word_bytes w @ bs) = w # bytes_words bs"
  using of_be32_be32 [of w] by (simp add: word_bytes_def be32_def)

lemma length_word_bytes [simp]: "length (word_bytes w) = 4"
  by (simp add: word_bytes_def be32_def)

lemma length_words_bytes [simp]: "length (concat (map word_bytes ws)) = 4 * length ws"
  by (induction ws) simp_all

lemma bytes_words_concat: "bytes_words (concat (map word_bytes ws) @ bs) = ws @ bytes_words bs"
  by (induction ws) (simp_all add: bytes_words_word)

lemma bytes_words_short: "length bs < 4 \<Longrightarrow> bytes_words bs = []"
  by (cases bs rule: bytes_words.cases) simp_all

lemma length_bytes_words [simp]: "length (bytes_words bs) = length bs div 4"
  by (induction bs rule: bytes_words.induct) simp_all

lemma word_bytes_of: "word_bytes (of_be32 d c b a) = [a, b, c, d]"
  unfolding word_bytes_def be32_def of_be32_def mask_8_32
  by (simp, intro conjI; rule bit_word_eqI) (auto simp: bit_simps)

lemma words_bytes_self: "concat (map word_bytes (bytes_words bs)) = take (4 * (length bs div 4)) bs"
proof (induction bs rule: bytes_words.induct)
  case (1 a b c d bs)
  have "4 * (length (a # b # c # d # bs) div 4) = Suc (Suc (Suc (Suc (4 * (length bs div 4)))))"
    using div_add_self1 [of 4 "length bs"] by simp
  with 1 show ?case by (simp only: bytes_words.simps list.map concat.simps word_bytes_of append.simps take_Suc_Cons)
qed simp_all

lemma bytes_words_self [simp]: "bytes_words (concat (map word_bytes ws)) = ws"
  using bytes_words_concat [of ws "[]"] by simp

lemma store_words:
  assumes "length ws = length (bytes_words (value_bytes v))"
  obtains v1 where "store_bytes v (concat (map word_bytes ws)) = Some v1" "bytes_words (value_bytes v1) = ws"
    "length (value_bytes v1) = length (value_bytes v)"
    "ws = bytes_words (value_bytes v) \<Longrightarrow> value_bytes v1 = value_bytes v"
proof -
  have n: "4 * length ws \<le> length (value_bytes v)" using assms by simp
  let ?b = "blit (value_bytes v) 0 (concat (map word_bytes ws))"
  have b: "bytes_words ?b = ws"
    using assms by (simp add: blit_def bytes_words_concat bytes_words_short)
  have same: "?b = value_bytes v" if "ws = bytes_words (value_bytes v)"
    unfolding that words_bytes_self by (simp add: blit_def min_def)
  show thesis
  proof (cases v)
    case (Ctl_Words us)
    with assms n b that [of "Ctl_Words ws"] show thesis by simp
  next
    case (Ctl_Chars c)
    with n b same that [of "Ctl_Chars ?b"] show thesis by simp
  qed (use assms that [of v] in simp_all)
qed

section \<open>Values after sanei_constrain_value\<close>

definition plain_constraint :: "sane_option_descriptor \<Rightarrow> bool" where
  "plain_constraint d \<longleftrightarrow> opt_constraint_type d = SANE_CONSTRAINT_NONE \<and> opt_type d \<noteq> SANE_TYPE_BOOL"

lemma constrain_plain:
  assumes "plain_constraint d"
  obtains v1 where "constrain_pnm d v = Some (SANE_STATUS_GOOD, v1, 0)" "value_bytes v1 = value_bytes v"
proof -
  obtain v1 where "store_bytes v (concat (map word_bytes (bytes_words (value_bytes v)))) = Some v1" "value_bytes v1 = value_bytes v"
    using store_words [OF refl] by metis
  with assms that [of v1] show thesis by (simp add: constrain_pnm_def sanei_constrain_value_def plain_constraint_def)
qed

lemma constrain_bool:
  assumes "opt_constraint_type d = SANE_CONSTRAINT_NONE" "opt_type d = SANE_TYPE_BOOL" "4 \<le> length (value_bytes v)"
  obtains st v1 w ws where "constrain_pnm d v = Some (st, v1, 0)" "bytes_words (value_bytes v1) = w # ws"
    "st = SANE_STATUS_GOOD \<Longrightarrow> w = SANE_FALSE \<or> w = SANE_TRUE"
proof -
  obtain w ws where w: "bytes_words (value_bytes v) = w # ws"
    using assms(3) length_bytes_words [of "value_bytes v"] by (cases "bytes_words (value_bytes v)") auto
  obtain v1 where "store_bytes v (concat (map word_bytes (bytes_words (value_bytes v)))) = Some v1" "value_bytes v1 = value_bytes v"
    using store_words [OF refl] by metis
  with w assms(1,2) that [of _ v1 w ws] show thesis
    by (cases "w = SANE_TRUE \<or> w = SANE_FALSE") (auto simp: constrain_pnm_def sanei_constrain_value_def)
qed

lemma constrain_elem_info: "info \<noteq> None \<Longrightarrow> snd (constrain_elem r x info) \<noteq> None"
  by (simp add: constrain_elem_def set_inexact_def Let_def)

lemma constrain_range_info:
  "constrain_range_loop r xs n info = Some (ys, info1) \<Longrightarrow> info \<noteq> None \<Longrightarrow> info1 \<noteq> None"
proof (induction r xs n info arbitrary: ys info1 rule: constrain_range_loop.induct)
  case (3 r x xs n info)
  obtain y j where e: "constrain_elem r x info = (y, j)" by fastforce
  with constrain_elem_info [OF 3(3), of r x] 3(1) [OF e [symmetric]] 3(2) show ?case
    by (auto split: option.splits)
qed auto

lemma constrain_words:
  assumes "opt_constraint_type d = SANE_CONSTRAINT_RANGE" "opt_constraint d = Constr_Range (Some r)" "range_ok r"
    and "4 \<le> sint (opt_size d)" "sint (opt_size d) \<le> int (length (value_bytes v))" "elem_count (opt_size d) = n"
  shows "\<exists>v1 info. constrain_pnm d v = Some (SANE_STATUS_GOOD, v1, info) \<and> n \<le> length (bytes_words (value_bytes v1)) \<and>
    (\<forall>i < n. sint (rng_min r) \<le> sint (bytes_words (value_bytes v1) ! i) \<and>
       sint (bytes_words (value_bytes v1) ! i) \<le> sint (rng_max r))"
proof -
  let ?xs = "bytes_words (value_bytes v)" and ?n = "elem_count (opt_size d)"
  have n: "?n \<le> length ?xs" using assms(4,5) by (simp add: elem_count_def)
  obtain ys info where ys: "constrain_range_loop r ?xs ?n (Some 0) = Some (ys, info)"
    using constrain_range_loop_total [OF n] by blast
  have len: "length ys = length ?xs" using constrain_range_loop_length [OF ys] by simp
  obtain i where i: "info = Some i" using constrain_range_info [OF ys] by auto
  have el: "sint (ys ! k) = elem_value r (sint (?xs ! k))" if "k < ?n" for k
    using arg_cong [OF constrain_range_loop_values [OF assms(3) ys], of "\<lambda>l. l ! k"] that len n by (simp add: nth_append)
  obtain v1 where "store_bytes v (concat (map word_bytes ys)) = Some v1" "bytes_words (value_bytes v1) = ys"
    using store_words [OF len] by blast
  with ys i el n len elem_value_range [OF assms(3)] assms(1,2,6) show ?thesis
    by (intro exI [of _ v1] exI [of _ i]) (simp add: constrain_pnm_def sanei_constrain_value_def)
qed

lemma nearest_word_loop_index:
  assumes "sint (ws ! 0) < int (length ws)" "1 \<le> i" "1 \<le> k" "k < length ws"
  shows "\<exists>m. nearest_word_loop w ws i k v = Some m \<and> 1 \<le> m \<and> m < length ws"
  using assms
proof (induction w ws i k v rule: nearest_word_loop.induct)
  case (1 w ws i k v)
  then show ?case by (subst nearest_word_loop.simps) auto
qed

lemma constrain_list:
  assumes "opt_constraint_type d = SANE_CONSTRAINT_WORD_LIST" "opt_constraint d = Constr_Words (Some ws)"
    and "sint (ws ! 0) < int (length ws)" "1 < length ws" "4 \<le> length (value_bytes v)"
  obtains v1 info w us where "constrain_pnm d v = Some (SANE_STATUS_GOOD, v1, info)" "bytes_words (value_bytes v1) = w # us"
    "w \<in> set (tl ws)"
proof -
  obtain u us where u: "bytes_words (value_bytes v) = u # us"
    using assms(5) length_bytes_words [of "value_bytes v"] by (cases "bytes_words (value_bytes v)") auto
  obtain m where m: "nearest_word_loop u ws 1 1 (word_abs (u - ws ! 1)) = Some m" "1 \<le> m" "m < length ws"
    using nearest_word_loop_index [OF assms(3), of 1 1] assms(4) by auto
  obtain w i where w: "constrain_word_list u ws (Some 0) = Some (w, Some i)" "w = ws ! m"
    using m assms(4) by (cases "u = ws ! m") (auto simp: constrain_word_list_def set_inexact_def)
  obtain v1 where "store_bytes v (concat (map word_bytes (w # us))) = Some v1" "bytes_words (value_bytes v1) = w # us"
    using store_words [of "w # us" v] u by (metis length_Cons)
  moreover have "w \<in> set (tl ws)" using m w(2) by (auto simp: set_tl_conv)
  ultimately show thesis
    using u w(1) assms(1,2) by (intro that [of v1 i w us]) (simp_all add: constrain_pnm_def sanei_constrain_value_def)
qed

section \<open>The table of options\<close>

lemma sod_bool:
  "i \<in> {7, 8, 9, 13} \<union> {19..26} \<Longrightarrow>
    opt_constraint_type (pnm_sod ! i) = SANE_CONSTRAINT_NONE \<and> opt_type (pnm_sod ! i) = SANE_TYPE_BOOL \<and> opt_size (pnm_sod ! i) = 4"
proof -
  assume "i \<in> {7, 8, 9, 13} \<union> {19..26}"
  then have "i \<in> {7, 8, 9, 13, 19, 20, 21, 22, 23, 24, 25, 26}" by (auto simp: numeral_eq_Suc atLeastAtMostSuc_conv)
  then show ?thesis by (elim insertE) (simp_all add: pnm_sod_def sod_entry_def no_constraint_def)
qed

lemma sod_percent:
  "i = 5 \<or> i = 6 \<Longrightarrow> opt_constraint_type (pnm_sod ! i) = SANE_CONSTRAINT_RANGE \<and>
    opt_constraint (pnm_sod ! i) = Constr_Range (Some percentage_range) \<and> opt_size (pnm_sod ! i) = 4 \<and> opt_type (pnm_sod ! i) \<noteq> SANE_TYPE_STRING"
  by (auto simp: pnm_sod_def sod_entry_def range_constraint_def)

lemma sod_gamma:
  assumes "14 \<le> i" "i \<le> 17"
  shows "opt_constraint_type (pnm_sod ! i) = SANE_CONSTRAINT_RANGE \<and>
    opt_constraint (pnm_sod ! i) = Constr_Range (Some gamma_range) \<and> opt_size (pnm_sod ! i) = 1024 \<and> opt_type (pnm_sod ! i) \<noteq> SANE_TYPE_STRING"
proof -
  have "i = 14 \<or> i = 15 \<or> i = 16 \<or> i = 17" using assms by linarith
  then show ?thesis by (elim disjE) (simp_all add: pnm_sod_def sod_entry_def range_constraint_def)
qed

lemma sod_others:
  "opt_constraint_type (pnm_sod ! 3) = SANE_CONSTRAINT_WORD_LIST" "opt_constraint (pnm_sod ! 3) = Constr_Words (Some resbit_list)"
  "opt_size (pnm_sod ! 3) = 4" "opt_type (pnm_sod ! 3) \<noteq> SANE_TYPE_STRING"
  "opt_constraint_type (pnm_sod ! 2) = SANE_CONSTRAINT_NONE" "opt_type (pnm_sod ! 2) = SANE_TYPE_STRING" "opt_size (pnm_sod ! 2) = 4096"
  "opt_constraint_type (pnm_sod ! 10) = SANE_CONSTRAINT_NONE" "opt_type (pnm_sod ! 10) = SANE_TYPE_BUTTON"
  by (simp_all add: pnm_sod_def sod_entry_def no_constraint_def list_constraint_def)

lemma sod_caps: "map opt_cap pnm_sod = [4, 0, 5, 21, 0, 5, 5, 5, 5, 5, 5, 4, 0, 5, 37, 37, 37, 37, 64, 5, 5, 5, 5, 5, 5, 5, 5]"
  by (simp add: pnm_sod_def sod_entry_def)

section \<open>The invariant\<close>

definition one_flag :: "sane_word list \<Rightarrow> bool" where
  \<comment> \<open>eight flags, of which at most one is set\<close>
  "one_flag st \<longleftrightarrow> length st = 8 \<and> set st \<subseteq> {SANE_FALSE, SANE_TRUE} \<and>
     (\<forall>j < 8. \<forall>k < 8. st ! j = SANE_TRUE \<longrightarrow> st ! k = SANE_TRUE \<longrightarrow> j = k)"

lemma one_flag_set:
  assumes "one_flag st" "w = SANE_FALSE \<or> w = SANE_TRUE" "i < 8"
  shows "one_flag ((if w \<noteq> 0 then replicate 8 SANE_FALSE else st)[i := w])"
proof -
  have "set (l[i := w]) \<subseteq> {SANE_FALSE, SANE_TRUE}" if "set l \<subseteq> {SANE_FALSE, SANE_TRUE}" for l
    using set_update_subset_insert [of l i w] that assms(2) by fastforce
  with assms show ?thesis by (auto simp: one_flag_def nth_list_update)
qed

definition pnm_caps :: "sane_word \<Rightarrow> bool \<Rightarrow> sane_word list" where
  "pnm_caps use gray = gamma_caps use gray (map opt_cap pnm_sod)"

lemma gamma_caps_again: "gamma_caps use gray (pnm_caps use1 gray1) = pnm_caps use gray"
  unfolding pnm_caps_def sod_caps by (simp add: gamma_caps_def Let_def)

definition gamma_ok :: "sane_word list list \<Rightarrow> bool" where
  "gamma_ok gs \<longleftrightarrow> length gs = 4 \<and> (\<forall>g \<in> set gs. length g = 256 \<and> (\<forall>w \<in> set g. w \<le> 255))"

definition pnm_ok :: "pnm \<Rightarrow> bool" where
  "pnm_ok s \<longleftrightarrow> \<not> pn_fault s \<and> pn_res s \<in> set (tl resbit_list) \<and> percent_ok (pn_bright s) \<and> percent_ok (pn_contr s) \<and>
     (pn_usegamma s = SANE_FALSE \<or> pn_usegamma s = SANE_TRUE) \<and> pn_test_option s = (if pn_usegamma s = SANE_FALSE then 0 else 100) \<and>
     gamma_ok (pn_gamma s) \<and>
     one_flag (pn_status s) \<and> pn_cap s = pnm_caps (pn_usegamma s) (pn_gray s) \<and>
     nul_free (pn_filename s) \<and> length (pn_filename s) < 4096 \<and> pn_rgb_comp s \<le> 2 \<and> length (pn_left s) \<le> 2 \<and>
     (\<forall>n. pn_rgbbuf s = Some n \<longrightarrow> pn_rgblength s \<le> n)"

lemma pnm_ok_initial: "pnm_ok (pnm_initial now)"
proof -
  have "pnm_caps 0 False = map opt_cap pnm_sod"
    unfolding pnm_caps_def sod_caps by (simp add: gamma_caps_def Let_def)
  moreover have "one_flag (SANE_TRUE # replicate 7 SANE_FALSE)"
    by (auto simp: one_flag_def nth_Cons' split: if_splits)
  ultimately show ?thesis
    by (simp add: pnm_ok_def pnm_initial_def resbit_list_def percent_ok_def nul_free_def ascii_def gamma_ok_def)
qed

section \<open>Setting options\<close>

definition ctl_fits :: "sane_word \<Rightarrow> sane_word \<Rightarrow> ctl_value \<Rightarrow> bool" where
  \<comment> \<open>what a caller has to provide: memory of the size of the option, or a terminated string to set one; nothing
      to ask for an automatic value\<close>
  "ctl_fits option action v \<longleftrightarrow>
     (let i = nat (sint option); d = pnm_sod ! i
      in 0 \<le> sint option \<longrightarrow> sint option < int num_options \<longrightarrow>
         (if action = SANE_ACTION_SET_AUTO then True
          else if action = SANE_ACTION_SET_VALUE \<and> opt_type d = SANE_TYPE_STRING then c_str (value_bytes v) \<noteq> None
          else sint (opt_size d) \<le> int (length (value_bytes v))))"

lemma constrain_pnm_cap: "constrain_pnm (d\<lparr>opt_cap := c\<rparr>) v = constrain_pnm d v"
proof -
  let ?d = "d\<lparr>opt_cap := c\<rparr>"
  have d: "opt_size ?d = opt_size d" "opt_constraint_type ?d = opt_constraint_type d" "opt_constraint ?d = opt_constraint d"
    "opt_type ?d = opt_type d"
    by simp_all
  show ?thesis unfolding constrain_pnm_def sanei_constrain_value_def d ..
qed

lemma with_word_Cons: "bytes_words mem = w # ws \<Longrightarrow> with_word mem f info s = (f w, SANE_STATUS_GOOD, info)"
  by (simp add: with_word_def)

definition fits_set :: "nat \<Rightarrow> ctl_value \<Rightarrow> bool" where
  "fits_set i v \<longleftrightarrow> (if opt_type (pnm_sod ! i) = SANE_TYPE_STRING then c_str (value_bytes v) \<noteq> None
     else sint (opt_size (pnm_sod ! i)) \<le> int (length (value_bytes v)))"

definition set_good :: "nat \<Rightarrow> ctl_value \<Rightarrow> pnm \<Rightarrow> bool" where
  \<comment> \<open>constraining and setting keeps the invariant\<close>
  "set_good i v s \<longleftrightarrow> (\<exists>status v1 info. constrain_pnm (pnm_sod ! i) v = Some (status, v1, info) \<and>
     (status = SANE_STATUS_GOOD \<longrightarrow> pnm_ok (fst (set_value_pnm i (value_bytes v1) info s))))"

lemma set_good_word:
  assumes "constrain_pnm (pnm_sod ! i) v = Some (status, v1, info)" "bytes_words (value_bytes v1) = w # ws"
    and "status = SANE_STATUS_GOOD \<Longrightarrow> pnm_ok (f w)" "set_value_pnm i (value_bytes v1) info s = with_word (value_bytes v1) f info1 s"
  shows "set_good i v s"
  unfolding set_good_def
  by (intro exI conjI impI) (rule assms(1), simp add: assms(4) with_word_Cons [OF assms(2)] assms(3))

lemma gamma_ok_set:
  assumes "gamma_ok gs" "k < 4" "256 \<le> length ws" "\<And>i. i < 256 \<Longrightarrow> 0 \<le> sint (ws ! i) \<and> sint (ws ! i) \<le> 255"
  shows "gamma_ok (gs[k := take 256 ws])"
proof -
  have "w \<le> 255" if "w \<in> set (take 256 ws)" for w
  proof -
    obtain i where "i < length (take 256 ws)" "take 256 ws ! i = w" using \<open>w \<in> set (take 256 ws)\<close> by (meson in_set_conv_nth)
    then have "i < 256" "w = ws ! i" by simp_all
    then have "0 \<le> sint w" "sint w \<le> 255" using assms(4) by blast+
    then have "uint w \<le> 255" by (simp add: uint_sint_nonneg)
    then show ?thesis by (simp add: word_le_def)
  qed
  moreover have "set (gs[k := take 256 ws]) \<subseteq> insert (take 256 ws) (set gs)" by (rule set_update_subset_insert)
  ultimately show ?thesis using assms(1,3) by (auto simp: gamma_ok_def)
qed

lemma set_bool_good:
  assumes "pnm_ok s" "fits_set i v" "i \<in> {7, 8, 9, 13} \<union> {19..26}"
  shows "set_good i v s"
proof -
  have d: "opt_constraint_type (pnm_sod ! i) = SANE_CONSTRAINT_NONE" "opt_type (pnm_sod ! i) = SANE_TYPE_BOOL" "opt_size (pnm_sod ! i) = 4"
    using sod_bool [OF assms(3)] by simp_all
  have len: "4 \<le> length (value_bytes v)" using assms(2) d by (simp add: fits_set_def)
  obtain status v1 w ws where c: "constrain_pnm (pnm_sod ! i) v = Some (status, v1, 0)" "bytes_words (value_bytes v1) = w # ws"
    "status = SANE_STATUS_GOOD \<Longrightarrow> w = SANE_FALSE \<or> w = SANE_TRUE"
    using constrain_bool [OF d(1,2) len] by blast
  have caps: "pn_cap s = pnm_caps (pn_usegamma s) (pn_gray s)" using assms(1) by (simp add: pnm_ok_def)
  consider "i = 7" | "i = 8" | "i = 9" | "i = 13" | "19 \<le> i" "i \<le> 26" using assms(3) by auto
  then show ?thesis
  proof cases
    case 1
    with assms(1) caps show ?thesis
      by (intro set_good_word [OF c(1,2)]) (auto simp: set_value_pnm_def pnm_ok_def gamma_caps_again)
  next
    case 2
    with assms(1) show ?thesis by (intro set_good_word [OF c(1,2)]) (auto simp: set_value_pnm_def pnm_ok_def)
  next
    case 3
    with assms(1) show ?thesis by (intro set_good_word [OF c(1,2)]) (auto simp: set_value_pnm_def pnm_ok_def)
  next
    case 4
    with assms(1) caps c(3) show ?thesis
      by (intro set_good_word [OF c(1,2)]) (auto simp: set_value_pnm_def pnm_ok_def gamma_caps_again)
  next
    case 5
    then have "i - 19 < 8" by linarith
    with assms(1) c(3) have "one_flag ((if w \<noteq> 0 then replicate 8 SANE_FALSE else pn_status s)[i - 19 := w])"
      if "status = SANE_STATUS_GOOD"
      using one_flag_set that by (auto simp: pnm_ok_def)
    with assms(1) have "pnm_ok (s\<lparr>pn_status := (if w \<noteq> 0 then replicate 8 SANE_FALSE else pn_status s)[i - 19 := w]\<rparr>)"
      if "status = SANE_STATUS_GOOD"
      using that by (simp add: pnm_ok_def)
    with 5 show ?thesis by (intro set_good_word [OF c(1,2)]) (auto simp: set_value_pnm_def)
  qed
qed

lemma set_other_good:
  assumes "pnm_ok s" "fits_set i v" "i \<in> {2, 3, 5, 6, 10} \<union> {14..17}"
  shows "set_good i v s"
proof -
  consider "i = 2" | "i = 3" | "i = 5 \<or> i = 6" | "i = 10" | "14 \<le> i" "i \<le> 17" using assms(3) by auto
  then show ?thesis
  proof cases
    case 1
    have p: "plain_constraint (pnm_sod ! 2)" by (simp add: plain_constraint_def sod_others)
    obtain v1 where c: "constrain_pnm (pnm_sod ! 2) v = Some (SANE_STATUS_GOOD, v1, 0)" "value_bytes v1 = value_bytes v"
      by (rule constrain_plain [OF p])
    obtain n where "c_str (value_bytes v) = Some n" using assms(2) 1 by (auto simp: fits_set_def sod_others)
    with 1 c assms(1) show ?thesis
      unfolding set_good_def by (intro exI [of _ SANE_STATUS_GOOD] exI [of _ v1] exI [of _ 0])
        (auto simp: set_value_pnm_def pnm_ok_def nul_free_c_str)
  next
    case 2
    have r: "sint (resbit_list ! 0) < int (length resbit_list)" "1 < length resbit_list" by (simp_all add: resbit_list_def)
    have "4 \<le> length (value_bytes v)" using assms(2) 2 sod_others by (simp add: fits_set_def)
    then obtain v1 info w us where "constrain_pnm (pnm_sod ! 3) v = Some (SANE_STATUS_GOOD, v1, info)"
      "bytes_words (value_bytes v1) = w # us" "w \<in> set (tl resbit_list)"
      by (rule constrain_list [OF sod_others(1,2) r])
    with 2 assms(1) show ?thesis by (intro set_good_word) (auto simp: set_value_pnm_def pnm_ok_def)
  next
    case 3
    have d: "opt_constraint_type (pnm_sod ! i) = SANE_CONSTRAINT_RANGE" "opt_constraint (pnm_sod ! i) = Constr_Range (Some percentage_range)"
      "opt_size (pnm_sod ! i) = 4" "opt_type (pnm_sod ! i) \<noteq> SANE_TYPE_STRING"
      using sod_percent [OF 3] by simp_all
    have r: "range_ok percentage_range" by (simp add: range_ok_def percentage_range_def)
    have "sint (opt_size (pnm_sod ! i)) \<le> int (length (value_bytes v))" using assms(2) d by (simp add: fits_set_def)
    moreover have "elem_count (opt_size (pnm_sod ! i)) = 1" "4 \<le> sint (opt_size (pnm_sod ! i))"
      unfolding d(3) by (simp_all add: elem_count_def)
    ultimately obtain v1 info where
      c: "constrain_pnm (pnm_sod ! i) v = Some (SANE_STATUS_GOOD, v1, info)" "1 \<le> length (bytes_words (value_bytes v1))"
        "sint (rng_min percentage_range) \<le> sint (bytes_words (value_bytes v1) ! 0) \<and>
         sint (bytes_words (value_bytes v1) ! 0) \<le> sint (rng_max percentage_range)"
      using constrain_words [OF d(1,2) r] by (metis less_numeral_extra(1))
    then obtain w ws where w: "bytes_words (value_bytes v1) = w # ws" by (cases "bytes_words (value_bytes v1)") auto
    with c(3) have "percent_ok w" by (simp add: percent_ok_def percentage_range_def)
    with assms(1) have "pnm_ok (s\<lparr>pn_bright := w\<rparr>)" "pnm_ok (s\<lparr>pn_contr := w\<rparr>)" by (simp_all add: pnm_ok_def)
    with 3 set_good_word [OF c(1) w, of "\<lambda>w. s\<lparr>pn_bright := w\<rparr>" s info] set_good_word [OF c(1) w, of "\<lambda>w. s\<lparr>pn_contr := w\<rparr>" s info]
    show ?thesis by (auto simp: set_value_pnm_def)
  next
    case 4
    have p: "plain_constraint (pnm_sod ! 10)" by (simp add: plain_constraint_def sod_others)
    obtain v1 where "constrain_pnm (pnm_sod ! 10) v = Some (SANE_STATUS_GOOD, v1, 0)"
      using constrain_plain [OF p] by metis
    with 4 assms(1) show ?thesis
      unfolding set_good_def by (intro exI [of _ SANE_STATUS_GOOD] exI [of _ v1] exI [of _ 0])
        (simp add: set_value_pnm_def pnm_ok_def percent_ok_def)
  next
    case 5
    have d: "opt_constraint_type (pnm_sod ! i) = SANE_CONSTRAINT_RANGE" "opt_constraint (pnm_sod ! i) = Constr_Range (Some gamma_range)"
      "opt_size (pnm_sod ! i) = 1024" "opt_type (pnm_sod ! i) \<noteq> SANE_TYPE_STRING"
      using sod_gamma [OF 5] by simp_all
    have r: "range_ok gamma_range" by (simp add: range_ok_def gamma_range_def)
    have "sint (opt_size (pnm_sod ! i)) \<le> int (length (value_bytes v))" using assms(2) d by (simp add: fits_set_def)
    moreover have "elem_count (opt_size (pnm_sod ! i)) = 256" "4 \<le> sint (opt_size (pnm_sod ! i))"
      unfolding d(3) by (simp_all add: elem_count_def)
    ultimately obtain v1 info where
      c: "constrain_pnm (pnm_sod ! i) v = Some (SANE_STATUS_GOOD, v1, info)" "256 \<le> length (bytes_words (value_bytes v1))"
        "\<forall>k < 256. sint (rng_min gamma_range) \<le> sint (bytes_words (value_bytes v1) ! k) \<and>
         sint (bytes_words (value_bytes v1) ! k) \<le> sint (rng_max gamma_range)"
      using constrain_words [OF d(1,2) r] by blast
    have "gamma_ok ((pn_gamma s)[i - 14 := take 256 (bytes_words (value_bytes v1))])"
      using assms(1) 5 c(2,3) by (intro gamma_ok_set) (auto simp: pnm_ok_def gamma_range_def)
    with 5 assms(1) c(1,2) show ?thesis
      unfolding set_good_def by (intro exI [of _ SANE_STATUS_GOOD] exI [of _ v1] exI [of _ info])
        (simp add: set_value_pnm_def pnm_ok_def)
  qed
qed

lemma gamma_caps_settable: "gamma_caps use gray cap ! i AND 1 = cap ! i AND 1"
proof -
  have c: "(c OR 32) AND 1 = c AND 1" "(c AND - 33) AND 1 = c AND 1" for c :: sane_word
    by (rule bit_word_eqI; auto simp: bit_simps)+
  have u: "cap[k := x] ! i AND 1 = cap ! i AND 1" if "x AND 1 = cap ! k AND 1" for cap :: "sane_word list" and k x
    using that by (cases "i = k \<and> k < length cap") (auto simp: list_update_beyond)
  have n: "cap[k := x] ! j = cap ! j" if "k \<noteq> j" for cap :: "sane_word list" and k j x
    using that by simp
  show ?thesis
    unfolding gamma_caps_def Let_def by (simp add: u c)
qed

lemma settable_options:
  assumes "pnm_ok s" "i < 27" "opt_cap (pnm_descriptor i s) AND SANE_CAP_SOFT_SELECT \<noteq> 0"
  shows "i \<in> {7, 8, 9, 13} \<union> {19..26} \<or> i \<in> {2, 3, 5, 6, 10} \<union> {14..17}"
proof -
  have "list_all (\<lambda>i. [4, 0, 5, 21, 0, 5, 5, 5, 5, 5, 5, 4, 0, 5, 37, 37, 37, 37, 64, 5, 5, 5, 5, 5, 5, 5, 5 :: sane_word] ! i AND 1 = 0 \<or>
      i \<in> set [7, 8, 9, 13, 19, 20, 21, 22, 23, 24, 25, 26, 2, 3, 5, 6, 10, 14, 15, 16, 17]) [0..<27]"
    by code_simp
  moreover have "map opt_cap pnm_sod ! i AND 1 \<noteq> 0"
    using assms(1,3) by (simp add: pnm_descriptor_def pnm_ok_def pnm_caps_def gamma_caps_settable)
  ultimately show ?thesis using assms(2) unfolding sod_caps list_all_iff by auto
qed

lemma set_good_option:
  assumes "pnm_ok s" "i < 27" "opt_cap (pnm_descriptor i s) AND SANE_CAP_SOFT_SELECT \<noteq> 0" "fits_set i v"
  shows "set_good i v s"
  using settable_options [OF assms(1-3)] set_bool_good [OF assms(1,4)] set_other_good [OF assms(1,4)] by blast

lemma fits_automatic:
  assumes "i \<in> {7, 8, 9, 13} \<union> {19..26} \<or> i \<in> {2, 3, 5, 6, 10}"
  shows "fits_set i (Ctl_Words [75])"
proof -
  have b: "length (value_bytes (Ctl_Words [75])) = 4" "c_str (value_bytes (Ctl_Words [75])) \<noteq> None"
    by (simp_all add: word_bytes_def be32_def c_str_def)
  have sz: "opt_size (pnm_sod ! 10) = 0" by (simp add: pnm_sod_def sod_entry_def)
  from assms consider "i \<in> {7, 8, 9, 13} \<union> {19..26}" | "i = 5 \<or> i = 6" | "i = 2" | "i = 3" | "i = 10" by auto
  then show ?thesis
  proof cases
    case 1
    with sod_bool [OF 1] b(1) show ?thesis unfolding fits_set_def by simp
  next
    case 2
    with sod_percent [OF 2] b(1) show ?thesis unfolding fits_set_def by simp
  qed (use sz b sod_others in \<open>simp_all add: fits_set_def\<close>)
qed

lemma store_fits: "length bs \<le> length (value_bytes v) \<Longrightarrow> store_bytes v bs \<noteq> None"
  by (cases v) simp_all

lemma option_bytes_fit:
  assumes "pnm_ok s" "option_bytes i s = Some bs"
  shows "int (length bs) \<le> sint (opt_size (pnm_sod ! i))"
proof -
  have g: "length (pn_gamma s ! (i - 14)) = 256" if "14 \<le> i" "i \<le> 17"
    using assms(1) that by (simp add: pnm_ok_def gamma_ok_def)
  have sz: "opt_size (pnm_sod ! 0) = 4" "opt_size (pnm_sod ! 11) = 4" by (simp_all add: pnm_sod_def sod_entry_def)
  consider "i \<in> {7, 8, 9, 13} \<union> {19..26}" | "i = 0 \<or> i = 3 \<or> i = 5 \<or> i = 6 \<or> i = 11" | "i = 2" | "14 \<le> i" "i \<le> 17"
    using assms(2) by (auto simp: option_bytes_def split: if_splits)
  then show ?thesis
  proof cases
    case 1
    with sod_bool [OF 1] assms(2) show ?thesis by (auto simp: option_bytes_def split: if_splits)
  next
    case 2
    with sod_percent [of i] sz sod_others(3) assms(2) show ?thesis by (auto simp: option_bytes_def split: if_splits)
  next
    case 3
    with assms show ?thesis by (auto simp: option_bytes_def mk_cstr_def pnm_ok_def sod_others)
  next
    case 4
    with sod_gamma [OF 4] g assms(2) show ?thesis by (auto simp: option_bytes_def split: if_splits)
  qed
qed

definition auto_gamma :: "sane_handle \<Rightarrow> sane_word \<Rightarrow> sane_word \<Rightarrow> pnm \<Rightarrow> bool" where
  \<comment> \<open>a call that asks for an automatic value of a gamma table that is active\<close>
  "auto_gamma h option action s \<longleftrightarrow> h = MAGIC \<and> pn_open s \<and> action = SANE_ACTION_SET_AUTO \<and> 14 \<le> sint option \<and> sint option \<le> 17 \<and>
     opt_cap (pnm_descriptor (nat (sint option)) s) AND SANE_CAP_INACTIVE = 0"

lemma gamma_settable:
  assumes "pnm_ok s" "14 \<le> i" "i \<le> 17"
  shows "opt_cap (pnm_descriptor i s) AND SANE_CAP_SOFT_SELECT \<noteq> 0"
proof -
  have "i = 14 \<or> i = 15 \<or> i = 16 \<or> i = 17" using assms(2,3) by linarith
  then have "map opt_cap pnm_sod ! i AND 1 \<noteq> 0" unfolding sod_caps by auto
  with assms(1) show ?thesis by (simp add: pnm_descriptor_def pnm_ok_def pnm_caps_def gamma_caps_settable)
qed

lemma constrain_one_word:
  \<comment> \<open>\<open>sanei_constrain_value\<close> reads 256 words of the variable \<open>v\<close>\<close>
  assumes "14 \<le> i" "i \<le> 17"
  shows "constrain_pnm (pnm_sod ! i) (Ctl_Words [75]) = None"
proof -
  have "constrain_range_loop r [w] 256 info = None" for r w info
    by (simp add: numeral_eq_Suc split: prod.split)
  then show ?thesis
    using sod_gamma [OF assms] by (simp add: constrain_pnm_def sanei_constrain_value_def elem_count_def word_bytes_def be32_def)
qed

lemma automatic_gamma_overruns:
  assumes "pnm_ok s" "auto_gamma h option action s"
  shows "pn_fault (fst (sane_control_option_pnm h option action v s))"
proof -
  define i where "i = nat (sint option)"
  define d where "d = pnm_descriptor i s"
  have i: "14 \<le> i" "i \<le> 17" "\<not> sint option < 0" "\<not> 27 \<le> sint option" "opt_cap d AND SANE_CAP_INACTIVE = 0" "h = MAGIC" "pn_open s"
    "action = SANE_ACTION_SET_AUTO"
    using assms(2) by (auto simp: auto_gamma_def i_def d_def)
  have "constrain_pnm d (Ctl_Words [75]) = None"
    using constrain_one_word [OF i(1,2)] by (simp add: d_def pnm_descriptor_def constrain_pnm_cap)
  moreover have "opt_cap d AND SANE_CAP_SOFT_SELECT \<noteq> 0" using gamma_settable [OF assms(1) i(1,2)] by (simp add: d_def)
  ultimately show ?thesis
    using i by (simp add: sane_control_option_pnm_def Let_def pn_fail_def flip: i_def d_def)
qed

lemma pnm_control_ok:
  assumes "pnm_ok s" "ctl_fits option action v" "\<not> auto_gamma h option action s"
  shows "pnm_ok (fst (sane_control_option_pnm h option action v s))"
proof -
  define i where "i = nat (sint option)"
  define d where "d = pnm_descriptor i s"
  have con: "constrain_pnm d v = constrain_pnm (pnm_sod ! i) v" for v
    by (simp add: d_def pnm_descriptor_def constrain_pnm_cap)
  have cap: "opt_cap d = opt_cap (pnm_descriptor i s)" by (simp add: d_def)
  show ?thesis
  proof (cases "h \<noteq> MAGIC \<or> \<not> pn_open s \<or> sint option < 0 \<or> 27 \<le> sint option \<or> opt_cap d AND SANE_CAP_INACTIVE \<noteq> 0")
    case True
    with assms(1) show ?thesis by (auto simp: sane_control_option_pnm_def Let_def d_def i_def)
  next
    case False
    then have i: "i < 27" "0 \<le> sint option" "sint option < 27" by (auto simp: i_def)
    have "\<not> (14 \<le> i \<and> i \<le> 17)" if "action = SANE_ACTION_SET_AUTO"
      using assms(3) False that i by (auto simp: auto_gamma_def i_def d_def)
    then have fits: "if action = SANE_ACTION_SET_AUTO then \<not> (14 \<le> i \<and> i \<le> 17)
      else if action = SANE_ACTION_SET_VALUE \<and> opt_type (pnm_sod ! i) = SANE_TYPE_STRING then c_str (value_bytes v) \<noteq> None
      else sint (opt_size (pnm_sod ! i)) \<le> int (length (value_bytes v))"
      using assms(2) i(2,3) by (simp add: ctl_fits_def Let_def i_def)
    consider (auto) "action = SANE_ACTION_SET_AUTO" | (set) "action = SANE_ACTION_SET_VALUE" | (get) "action = SANE_ACTION_GET_VALUE"
      | (none) "action \<noteq> SANE_ACTION_SET_AUTO" "action \<noteq> SANE_ACTION_SET_VALUE" "action \<noteq> SANE_ACTION_GET_VALUE"
      by blast
    then show ?thesis
    proof cases
      case auto
      show ?thesis
      proof (cases "opt_cap d AND SANE_CAP_SOFT_SELECT = 0")
        case True
        with auto False assms(1) show ?thesis by (simp add: sane_control_option_pnm_def Let_def flip: i_def d_def)
      next
        case settable: False
        then have "opt_cap (pnm_descriptor i s) AND SANE_CAP_SOFT_SELECT \<noteq> 0" by (simp add: d_def)
        from settable_options [OF assms(1) i(1) this] have "fits_set i (Ctl_Words [75])"
          using fits auto by (intro fits_automatic) auto
        from set_good_option [OF assms(1) i(1) _ this] settable obtain status v1 info where
          "constrain_pnm d (Ctl_Words [75]) = Some (status, v1, info)"
          unfolding set_good_def con cap by blast
        moreover have "pnm_ok (s\<lparr>pn_res := 75\<rparr>)" using assms(1) by (simp add: pnm_ok_def resbit_list_def)
        ultimately show ?thesis
          using auto False settable assms(1) by (simp add: sane_control_option_pnm_def Let_def flip: i_def d_def)
      qed
    next
      case set
      show ?thesis
      proof (cases "opt_cap d AND SANE_CAP_SOFT_SELECT = 0")
        case True
        with set False assms(1) show ?thesis by (simp add: sane_control_option_pnm_def Let_def flip: i_def d_def)
      next
        case settable: False
        have "fits_set i v" using fits set by (simp add: fits_set_def)
        from set_good_option [OF assms(1) i(1) _ this] settable obtain status v1 info where
          "constrain_pnm d v = Some (status, v1, info)" "status = SANE_STATUS_GOOD \<longrightarrow> pnm_ok (fst (set_value_pnm i (value_bytes v1) info s))"
          unfolding set_good_def con cap by blast
        then show ?thesis
          using set False settable assms(1)
          by (auto simp: sane_control_option_pnm_def Let_def split: prod.split simp flip: i_def d_def)
      qed
    next
      case get
      have "store_bytes v bs \<noteq> None" if "option_bytes i s = Some bs" for bs
        using option_bytes_fit [OF assms(1) that] fits get by (intro store_fits) simp
      with get False assms(1) show ?thesis
        by (auto simp: sane_control_option_pnm_def Let_def simp flip: i_def d_def split: option.split)
    next
      case none
      with False assms(1) show ?thesis by (simp add: sane_control_option_pnm_def Let_def flip: i_def d_def)
    qed
  qed
qed

section \<open>Scanning\<close>

definition line_buf :: "byte list \<Rightarrow> bool" where
  "line_buf b \<longleftrightarrow> length b = 1024 \<and> NUL \<in> set b"

lemma file_gets_buf: "line_buf b \<Longrightarrow> file_gets b 1024 f = (b1, f1) \<Longrightarrow> line_buf b1"
  using read_line_length [of 1023 "cf_rest f", THEN conjunct1]
  by (auto simp: file_gets_def line_buf_def blit_def split: prod.splits if_splits)

lemma get_line_buf:
  assumes "get_line buf len f = Some y"
  shows "len = 1024 \<longrightarrow> line_buf buf \<longrightarrow> line_buf (fst y)"
proof (rule get_line.raw_induct [where P = "\<lambda>buf len f y. len = 1024 \<longrightarrow> line_buf buf \<longrightarrow> line_buf (fst y)", OF _ assms], goal_cases)
  case (1 g buf len f y)
  obtain b f1 where b: "file_gets buf len f = (b, f1)" by fastforce
  show ?case
  proof (cases "b ! 0 = 35")
    case True
    with 1(2) b have "g b len f1 = Some y" by simp
    from 1(1) [OF this] b file_gets_buf [of buf f b f1] show ?thesis by auto
  next
    case False
    with 1(2) b have "y = (b, f1)" by simp
    with b file_gets_buf [of buf f b f1] show ?thesis by auto
  qed
qed

lemma skip_comments_buf:
  assumes "skip_comments buf f = Some y"
  shows "line_buf buf \<longrightarrow> line_buf (fst y)"
proof (rule skip_comments.raw_induct [where P = "\<lambda>buf f y. line_buf buf \<longrightarrow> line_buf (fst y)", OF _ assms], goal_cases)
  case (1 g buf f y)
  then obtain b f1 where b: "get_line buf 1024 f = Some (b, f1)" "(if b ! 0 = 35 then g b f1 else Some (b, f1)) = Some y"
    by (auto simp: bind_eq_Some_conv)
  with 1(1) [of b f1 y] get_line_buf [OF b(1)] show ?case by (auto split: if_splits)
qed

definition env_ok :: "pnm_env \<Rightarrow> bool" where
  \<comment> \<open>what a fresh line buffer holds ends somewhere\<close>
  "env_ok env \<longleftrightarrow> line_buf (pe_buf env)"

lemma pnm_ok_unchanged:
  assumes "pnm_ok s" "pn_fault t = pn_fault s" "pn_res t = pn_res s" "pn_bright t = pn_bright s" "pn_contr t = pn_contr s"
    "pn_usegamma t = pn_usegamma s" "pn_test_option t = pn_test_option s" "pn_gamma t = pn_gamma s" "pn_status t = pn_status s"
    "pn_cap t = pn_cap s" "pn_gray t = pn_gray s" "pn_filename t = pn_filename s" "pn_rgb_comp t \<le> 2" "length (pn_left t) \<le> 2"
    "\<forall>n. pn_rgbbuf t = Some n \<longrightarrow> pn_rgblength t \<le> n"
  shows "pnm_ok t"
  using assms by (simp add: pnm_ok_def)

lemma getparm_ok:
  assumes "pnm_ok s" "env_ok env" "getparmfromfile env s = Some (s1, ok)"
  shows "pnm_ok s1"
proof -
  let ?p = "(pn_parms s)\<lparr>par_depth := 8, par_bytes_per_line := 0, par_pixels_per_line := 0, par_lines := 0\<rparr>"
  have p: "pnm_ok (s\<lparr>pn_parms := q\<rparr>)" for q using assms(1) by (simp add: pnm_ok_def)
  have h: "pnm_ok (header_parms ty x y (s\<lparr>pn_parms := q\<rparr>))" for ty x y q
    using assms(1) by (simp add: pnm_ok_def header_parms_def Let_def)
  show ?thesis
  proof (cases "pe_files env (pn_filename s)")
    case None
    with assms(3) p show ?thesis by (auto simp: getparmfromfile_def Let_def)
  next
    case (Some content)
    with assms(3) obtain buf f where b: "skip_comments (pe_buf env) \<lparr>cf_rest = content, cf_eof = False\<rparr> = Some (buf, f)"
      by (auto simp: getparmfromfile_def Let_def bind_eq_Some_conv)
    show ?thesis
    proof (cases "header_type buf")
      case None
      with assms(3) Some b p show ?thesis by (auto simp: getparmfromfile_def Let_def)
    next
      case ty: (Some ty)
      with assms(3) Some b obtain buf1 f1 where b1: "skip_comments buf f = Some (buf1, f1)"
        by (auto simp: getparmfromfile_def Let_def bind_eq_Some_conv)
      have "line_buf buf1" using skip_comments_buf [OF b] skip_comments_buf [OF b1] assms(2) by (simp add: env_ok_def)
      then obtain line where "c_str buf1 = Some line" by (auto simp: line_buf_def c_str_def)
      with assms(3) Some b ty b1 h show ?thesis by (auto simp: getparmfromfile_def Let_def split: prod.splits)
    qed
  qed
qed

lemma start_ok:
  assumes "pnm_ok s0" "env_ok env" "sane_start_pnm env h s0 = Some (s1, status)"
  shows "pnm_ok s1"
proof -
  define s where "s = s0\<lparr>pn_rgb_comp := 0\<rparr>"
  have ok: "pnm_ok (s\<lparr>pn_infile := f\<rparr>)" "pnm_ok (s\<lparr>pn_infile := f, pn_pass := p\<rparr>)" "pnm_ok (s\<lparr>pn_start := t\<rparr>)" "pnm_ok s" for f p t
    using assms(1) by (simp_all add: pnm_ok_def s_def)
  have fin: "pnm_ok (s3\<lparr>pn_infile := Some f\<rparr>)" if "pnm_ok s3" for s3 f
    using that by (simp add: pnm_ok_def)
  define again where "again = (pn_infile s \<noteq> None)"
  define s2 where "s2 = (if again \<and> pn_three_pass s then s\<lparr>pn_infile := None, pn_pass := pn_pass s + 1\<rparr> else s\<lparr>pn_infile := None\<rparr>)"
  have s2: "pnm_ok s2" using ok by (simp add: s2_def)
  show ?thesis
  proof (cases "h \<noteq> MAGIC \<or> \<not> pn_open s \<or> pn_warming_up s \<and> pn_now s - pn_start s \<noteq> 5 \<or> again \<and> (\<not> pn_three_pass s \<or> 3 \<le> pn_pass s2)")
    case True
    then consider "h \<noteq> MAGIC \<or> \<not> pn_open s"
      | "h = MAGIC" "pn_open s" "pn_warming_up s" "5 < pn_now s - pn_start s"
      | "h = MAGIC" "pn_open s" "pn_warming_up s" "pn_now s - pn_start s < 5"
      | "h = MAGIC" "pn_open s" "\<not> (pn_warming_up s \<and> pn_now s - pn_start s \<noteq> 5)" "again" "\<not> pn_three_pass s \<or> 3 \<le> pn_pass s2"
      by linarith
    then show ?thesis
    proof cases
      case 4
      with assms(3) have "s1 = s2"
        by (auto simp: sane_start_pnm_def Let_def s2_def again_def simp flip: s_def split: if_splits)
      with s2 show ?thesis by simp
    qed (use assms(3) ok in \<open>auto simp: sane_start_pnm_def Let_def simp flip: s_def\<close>)
  next
    case False
    with assms(3) obtain s3 b where g: "getparmfromfile env s2 = Some (s3, b)"
      "s1 = s3 \<or> (\<exists>f. s1 = s3\<lparr>pn_infile := Some f\<rparr>)"
      by (auto simp: sane_start_pnm_def Let_def s2_def again_def bind_eq_Some_conv simp flip: s_def split: if_splits option.splits)
    from getparm_ok [OF s2 assms(2) g(1)] fin g(2) show ?thesis by auto
  qed
qed

lemma grow_ok:
  assumes "pnm_ok s" "grow_rgbbuf n s = (s1, ok)"
  shows "pnm_ok s1 \<and> (ok \<longrightarrow> pn_rgblength s1 = n) \<and> pn_left s1 = pn_left s"
proof (cases "pn_rgbbuf s = None \<or> pn_rgblength s < n")
  case True
  with assms show ?thesis
    by (cases "pn_malloc s") (auto simp: grow_rgbbuf_def pn_alloc_def pnm_ok_def split: bool.splits)
next
  case False
  with assms(2) have "s1 = s\<lparr>pn_rgblength := n\<rparr>" by (auto simp: grow_rgbbuf_def)
  moreover have "\<forall>m. pn_rgbbuf s = Some m \<longrightarrow> n \<le> m" using False assms(1) by (auto simp: pnm_ok_def)
  ultimately show ?thesis using assms(1) by (simp add: pnm_ok_def)
qed

lemma shade_ok:
  assumes "pnm_ok s"
  shows "pnm_ok (fst (shade d s))"
proof -
  have "pn_rgb_comp s \<le> 2" using assms by (simp add: pnm_ok_def)
  then obtain band where "shade d s = (s\<lparr>pn_rgb_comp := band\<rparr>, indexed (shade_at s) d)" "band \<le> 2"
    by (rule shade_indexed)
  with assms show ?thesis by (simp add: pnm_ok_def)
qed

lemma leftover_length: "length (drop (length got - length got mod 3) (take (length got) (l @ got))) \<le> 2"
proof -
  have "length (take (length got) (l @ got)) = length got" by simp
  then have "length (drop (length got - length got mod 3) (take (length got) (l @ got))) = length got mod 3"
    by (simp only: length_drop diff_diff_cancel [OF mod_less_eq_dividend])
  then show ?thesis by simp
qed

lemma rgb_read_ok:
  assumes "pnm_ok s"
  shows "pnm_ok (fst (rgb_read n f s))"
proof -
  obtain got f1 where r: "file_read (pn_rgblength s - length (pn_left s)) f = (got, f1)" by fastforce
  define left where "left = drop (length got - length got mod 3) (take (length got) (pn_left s @ got))"
  have "length left \<le> 2" unfolding left_def by (rule leftover_length)
  moreover have "fst (rgb_read n f s) = s\<lparr>pn_infile := Some f1, pn_left := left\<rparr>"
    unfolding rgb_read_def r left_def Let_def by simp
  ultimately show ?thesis using assms by (simp add: pnm_ok_def)
qed

lemma read_ok:
  assumes "pnm_ok s" "0 < n" "3 * n < 2 ^ 31"
  shows "pnm_ok (fst (sane_read_pnm h n s))"
proof (cases "h \<noteq> MAGIC \<or> \<not> pn_open s \<or> pn_infile s = None \<or> cf_eof (the (pn_infile s)) \<or> forced_status s \<noteq> None")
  case True
  with assms(1) show ?thesis by (auto simp: sane_read_pnm_def pnm_read_def split: option.split)
next
  case False
  then obtain f where f: "pn_infile s = Some f" "\<not> cf_eof f" "forced_status s = None" "h = MAGIC" "pn_open s" by auto
  show ?thesis
  proof (cases "pnm_rgb s")
    case rgb: True
    obtain s1 ok where g: "grow_rgbbuf (3 * n) s = (s1, ok)" by fastforce
    obtain s2 d where r: "rgb_read n f s1 = (s2, d)" by fastforce
    have s1: "pnm_ok s1" "ok \<Longrightarrow> pn_rgblength s1 = 3 * n" "length (pn_left s1) \<le> 2"
      using grow_ok [OF assms(1) g] by (auto simp: pnm_ok_def)
    moreover have "pnm_ok s2" using rgb_read_ok [OF s1(1), of n f] r by simp
    moreover have "\<not> 3 * n < length (pn_left s1)" using s1(3) assms(2) by linarith
    ultimately show ?thesis
      using f rgb g r assms(3) shade_ok [of s2 d]
      by (auto simp: sane_read_pnm_def pnm_read_def pnm_rgb_def Let_def split: prod.split)
  next
    case False
    obtain d f1 where r: "file_read n f = (d, f1)" by fastforce
    have "pnm_ok (s\<lparr>pn_infile := Some f1\<rparr>)" using assms(1) by (simp add: pnm_ok_def)
    with f False r shade_ok [of "s\<lparr>pn_infile := Some f1\<rparr>" d] show ?thesis
      by (auto simp: sane_read_pnm_def pnm_read_def pnm_rgb_def Let_def split: prod.split)
  qed
qed

lemma identity_table: "gamma_ok (replicate 4 (map word_of_nat [0..<256]))"
  by (auto simp: gamma_ok_def word_le_nat_alt unat_of_nat)

lemma open_ok:
  assumes "pnm_ok s" "name \<noteq> None \<Longrightarrow> c_str (the name) \<noteq> None"
  shows "pnm_ok (fst (sane_open_pnm name s))"
proof -
  have "pnm_ok (s\<lparr>pn_open := True, pn_gamma := replicate 4 (map word_of_nat [0..<256])\<rparr>)"
    "pnm_ok (s\<lparr>pn_open := True, pn_gamma := replicate 4 (map word_of_nat [0..<256]), pn_warming_up := True, pn_start := 0\<rparr>)"
    using assms(1) identity_table by (simp_all add: pnm_ok_def)
  with assms show ?thesis by (auto simp: sane_open_pnm_def Let_def split: option.split)
qed

section \<open>After a fault\<close>

text \<open>The mark of an access outside of the program's memory is never taken back.\<close>

lemma shade_fault: "pn_fault (fst (shade d s)) = pn_fault s"
  by (simp add: shade_def apply_gamma_def Let_def split: prod.split)

lemma getparm_fault: "getparmfromfile env s = Some (s1, ok) \<Longrightarrow> pn_fault s \<Longrightarrow> pn_fault s1"
  by (auto simp: getparmfromfile_def header_parms_def pn_fail_def Let_def bind_eq_Some_conv split_beta split: option.splits)

lemma control_fault: "pn_fault s \<Longrightarrow> pn_fault (fst (sane_control_option_pnm h option action v s))"
proof -
  assume f: "pn_fault s"
  then have "pn_fault (fst (set_value_pnm i mem info s))" for i mem info
    by (simp add: set_value_pnm_def with_word_def pn_fail_def split: option.split list.split)
  with f show ?thesis
    by (simp add: sane_control_option_pnm_def Let_def pn_fail_def split_beta split: option.split)
qed

lemma read_fault: "pn_fault s \<Longrightarrow> pn_fault (fst (sane_read_pnm h n s))"
proof -
  assume f: "pn_fault s"
  then have "pn_fault (fst (grow_rgbbuf m s))" for m
    by (simp add: grow_rgbbuf_def pn_alloc_def split_beta split: list.split bool.split)
  moreover have "pn_fault (fst (rgb_read m g t)) = pn_fault t" for m g t
    by (simp add: rgb_read_def Let_def split_beta)
  ultimately show ?thesis
    using f by (simp add: sane_read_pnm_def pnm_read_def pn_fail_def shade_fault Let_def split_beta split: option.split)
qed

section \<open>All calls\<close>

inductive pnm_step :: "pnm_env \<Rightarrow> pnm \<Rightarrow> bool \<Rightarrow> pnm \<Rightarrow> bool" for env where
  \<comment> \<open>a call, and whether it asks for an automatic gamma table\<close>
  step_open: "(name \<noteq> None \<Longrightarrow> c_str (the name) \<noteq> None) \<Longrightarrow> pnm_step env s False (fst (sane_open_pnm name s))"
| step_close: "pnm_step env s False (sane_close_pnm h s)"
| step_control: "ctl_fits option action v \<Longrightarrow>
    pnm_step env s (auto_gamma h option action s) (fst (sane_control_option_pnm h option action v s))"
| step_params: "sane_get_parameters_pnm env h s = Some (s1, status, p) \<Longrightarrow> pnm_step env s False s1"
| step_start: "sane_start_pnm env h s = Some (s1, status) \<Longrightarrow> pnm_step env s False s1"
| step_read: "0 < n \<Longrightarrow> 3 * n < 2 ^ 31 \<Longrightarrow> pnm_step env s False (fst (sane_read_pnm h n s))"
| step_cancel: "pnm_step env s False (sane_cancel_pnm h s)"
| step_time: "pnm_step env s False (s\<lparr>pn_now := t\<rparr>)"

inductive pnm_reach :: "pnm_env \<Rightarrow> bool \<Rightarrow> pnm \<Rightarrow> bool" for env where
  \<comment> \<open>the states after any calls from the start of the program, and whether one of them asked for an
      automatic gamma table\<close>
  reach_initial: "pnm_reach env False (pnm_initial now)"
| reach_call: "pnm_reach env g s \<Longrightarrow> pnm_step env s a t \<Longrightarrow> pnm_reach env (g \<or> a) t"

lemma pnm_step_ok:
  assumes "pnm_step env s a t" "env_ok env" "pnm_ok s"
  shows "if a then pn_fault t else pnm_ok t"
  using assms(1)
proof cases
  case (step_open name)
  with open_ok [OF assms(3)] show ?thesis by simp
next
  case (step_close h)
  with assms(3) show ?thesis by (simp add: sane_close_pnm_def pnm_ok_def)
next
  case (step_control option action v h)
  with pnm_control_ok [OF assms(3)] automatic_gamma_overruns [OF assms(3)] show ?thesis by simp
next
  case (step_params h status p)
  with assms(3) getparm_ok [OF assms(3,2)] show ?thesis
    by (auto simp: sane_get_parameters_pnm_def bind_eq_Some_conv split: if_splits)
next
  case (step_start h status)
  with start_ok [OF assms(3,2) step_start(2)] show ?thesis by simp
next
  case (step_read n h)
  with read_ok [OF assms(3)] show ?thesis by simp
next
  case step_cancel
  with assms(3) show ?thesis by (simp add: sane_cancel_pnm_def pnm_ok_def)
next
  case (step_time t)
  with assms(3) show ?thesis by (simp add: pnm_ok_def)
qed

lemma pnm_step_fault: "pnm_step env s a t \<Longrightarrow> pn_fault s \<Longrightarrow> pn_fault t"
proof (induction rule: pnm_step.induct)
  case (step_open name s)
  then show ?case by (simp add: sane_open_pnm_def pn_fail_def Let_def split: option.split)
next
  case (step_params h s s1 status p)
  then show ?case
    using getparm_fault by (auto simp: sane_get_parameters_pnm_def bind_eq_Some_conv split: if_splits)
next
  case (step_start h s s1 status)
  then show ?case
    using getparm_fault by (auto simp: sane_start_pnm_def Let_def bind_eq_Some_conv split: if_splits option.splits)
qed (simp_all add: sane_close_pnm_def sane_cancel_pnm_def control_fault read_fault)

lemma pnm_reach_ok: "pnm_reach env g s \<Longrightarrow> env_ok env \<Longrightarrow> if g then pn_fault s else pnm_ok s"
proof (induction rule: pnm_reach.induct)
  case (reach_call g s a t)
  then show ?case using pnm_step_ok [OF reach_call.hyps(2)] pnm_step_fault [OF reach_call.hyps(2)] by (cases g) auto
qed (simp add: pnm_ok_initial)

text \<open> C12: the PNM backend under every sequence of calls that return, with any handles, options and actions, while
  values have the size of their option, buffers hold at least one and less than \<open>2 ^ 31 / 3\<close> bytes, and the
  uninitialised line buffer has a zero byte somewhere.  An access leaves a variable exactly when one of
  the calls asks for an automatic value of a gamma table that is active; in all other
  states that can be reached brightness, contrast, resolution and gamma
  tables satisfy their constraints, at most one status is forced, the file name fits its buffer, and of
  the gamma options those are active that the next scan uses.\<close>

theorem pnm_invariant:
  assumes "env_ok env" "pnm_reach env g s"
  shows "(pn_fault s \<longleftrightarrow> g) \<and> (\<not> g \<longrightarrow>
    pn_res s \<in> set (tl resbit_list) \<and> percent_ok (pn_bright s) \<and> percent_ok (pn_contr s) \<and>
    gamma_ok (pn_gamma s) \<and> one_flag (pn_status s) \<and> length (pn_filename s) < 4096 \<and>
    (opt_cap (pnm_descriptor 14 s) AND SANE_CAP_INACTIVE = 0 \<longleftrightarrow> pn_usegamma s \<noteq> 0 \<and> pn_gray s) \<and>
    (opt_cap (pnm_descriptor 15 s) AND SANE_CAP_INACTIVE = 0 \<longleftrightarrow> pn_usegamma s \<noteq> 0 \<and> \<not> pn_gray s))"
proof -
  have "if g then pn_fault s else pnm_ok s" by (rule pnm_reach_ok [OF assms(2,1)])
  moreover have "pnm_caps u g ! 14 AND 32 = 0 \<longleftrightarrow> u \<noteq> 0 \<and> g" "pnm_caps u g ! 15 AND 32 = 0 \<longleftrightarrow> u \<noteq> 0 \<and> \<not> g" for u g
    unfolding pnm_caps_def sod_caps by (simp_all add: gamma_caps_def Let_def)
  ultimately show ?thesis by (cases g) (simp_all add: pnm_ok_def pnm_descriptor_def)
qed

definition pn_gamma_on :: pnm where
  \<comment> \<open>device 0 is open, and the custom gamma tables are switched on\<close>
  "pn_gamma_on = fst (sane_control_option_pnm MAGIC 13 SANE_ACTION_SET_VALUE (Ctl_Words [SANE_TRUE])
     (fst (sane_open_pnm (Some (mk_cstr (ascii ''0''))) (pnm_initial 0))))"

lemma pn_gamma_on_reach: "pnm_reach (pn_example_env []) False pn_gamma_on"
proof -
  let ?s = "fst (sane_open_pnm (Some (mk_cstr (ascii ''0''))) (pnm_initial 0))"
  have "c_str (mk_cstr (ascii ''0'')) \<noteq> None" by code_simp
  then have "pnm_step (pn_example_env []) (pnm_initial 0) False ?s" by (intro step_open) simp
  from reach_call [OF reach_initial this] have r: "pnm_reach (pn_example_env []) False ?s" by simp
  have "ctl_fits 13 SANE_ACTION_SET_VALUE (Ctl_Words [SANE_TRUE])"
    using sod_bool [of 13] by (simp add: ctl_fits_def word_bytes_def be32_def)
  from reach_call [OF r step_control [OF this, where h = MAGIC]] show ?thesis by (simp add: pn_gamma_on_def auto_gamma_def)
qed

lemma pn_gamma_on_auto:
  "pnm_reach (pn_example_env []) True (fst (sane_control_option_pnm MAGIC 15 SANE_ACTION_SET_AUTO Ctl_Null pn_gamma_on))"
proof -
  have "ctl_fits 15 SANE_ACTION_SET_AUTO Ctl_Null" by (simp add: ctl_fits_def Let_def)
  from reach_call [OF pn_gamma_on_reach step_control [OF this, where h = MAGIC]]
  have "pnm_reach (pn_example_env []) (auto_gamma MAGIC 15 SANE_ACTION_SET_AUTO pn_gamma_on)
    (fst (sane_control_option_pnm MAGIC 15 SANE_ACTION_SET_AUTO Ctl_Null pn_gamma_on))" by simp
  moreover have "opt_cap (pnm_descriptor 15 pn_gamma_on) AND SANE_CAP_INACTIVE = 0 \<and> pn_open pn_gamma_on"
  proof -
    let ?s = "(pnm_initial 0)\<lparr>pn_open := True, pn_gamma := replicate 4 (map word_of_nat [0..<256])\<rparr>"
    have o: "fst (sane_open_pnm (Some (mk_cstr (ascii ''0''))) (pnm_initial 0)) = ?s"
    proof -
      have "c_str (mk_cstr (ascii ''0'')) = Some (ascii ''0'')" by code_simp
      moreover have "ascii ''0'' \<noteq> ascii ''locked''" "take 6 (ascii ''0'') = ascii ''0''" "ascii ''0'' \<noteq> ascii ''warmup''" by code_simp+
      ultimately show ?thesis by (simp add: sane_open_pnm_def Let_def pnm_initial_def pnm_dev_def pnm_device_def del: map_upt_eqI)
    qed
    have c: "constrain_pnm (pnm_sod ! 13) (Ctl_Words [SANE_TRUE]) = Some (SANE_STATUS_GOOD, Ctl_Words [SANE_TRUE], 0)" by code_simp
    have "constrain_pnm (pnm_descriptor 13 ?s) (Ctl_Words [SANE_TRUE]) = Some (SANE_STATUS_GOOD, Ctl_Words [SANE_TRUE], 0)"
      unfolding pnm_descriptor_def constrain_pnm_cap by (rule c)
    moreover have "opt_cap (pnm_descriptor 13 ?s) = 5" by (simp add: pnm_descriptor_def pnm_initial_def sod_caps)
    moreover have "bytes_words (value_bytes (Ctl_Words [SANE_TRUE])) = [SANE_TRUE]" by code_simp
    ultimately have e: "pn_gamma_on = ?s\<lparr>pn_usegamma := 1, pn_test_option := 100, pn_cap := gamma_caps 1 (pn_gray ?s) (pn_cap ?s)\<rparr>"
      unfolding pn_gamma_on_def o by (simp add: sane_control_option_pnm_def Let_def set_value_pnm_def with_word_def)
    show ?thesis unfolding e by (simp add: pnm_descriptor_def pnm_initial_def sod_caps gamma_caps_def Let_def)
  qed
  ultimately show ?thesis by (simp add: auto_gamma_def)
qed

lemma pnm_invariant_witness:
  "\<not> pn_fault pn_gamma_on \<and> pn_res pn_gamma_on \<in> set (tl resbit_list) \<and> percent_ok (pn_bright pn_gamma_on) \<and>
    percent_ok (pn_contr pn_gamma_on) \<and> gamma_ok (pn_gamma pn_gamma_on) \<and> one_flag (pn_status pn_gamma_on) \<and>
    length (pn_filename pn_gamma_on) < 4096 \<and>
    (opt_cap (pnm_descriptor 15 pn_gamma_on) AND SANE_CAP_INACTIVE = 0 \<longleftrightarrow> pn_usegamma pn_gamma_on \<noteq> 0 \<and> \<not> pn_gray pn_gamma_on) \<and>
    pn_fault (fst (sane_control_option_pnm MAGIC 15 SANE_ACTION_SET_AUTO Ctl_Null pn_gamma_on))"
proof -
  have e: "env_ok (pn_example_env [])" by (simp add: env_ok_def line_buf_def pn_example_env_def)
  from pnm_invariant [OF e pn_gamma_on_reach] pnm_invariant [OF e pn_gamma_on_auto] show ?thesis by blast
qed

end
