(* ===== verification/Pnm_Faults.thy ===== *)
theory Pnm_Faults
  imports Pnm_Image
begin

text \<open>
  Where the PNM backend fails: a file that ends in comments is read for ever, bytes left over from a
  truncated file get into the next image, the device that reports a lock stays open, the one that warms
  up starts at one second only, and an automatic value for a gamma table overruns a variable.
\<close>

section \<open>Comments without an end\<close>

lemma get_line_at_end:
  assumes "buf ! 0 = 35"
  shows "get_line buf len \<lparr>cf_rest = [], cf_eof = e\<rparr> = None"
proof (rule ccontr)
  assume "get_line buf len \<lparr>cf_rest = [], cf_eof = e\<rparr> \<noteq> None"
  then obtain y where y: "get_line buf len \<lparr>cf_rest = [], cf_eof = e\<rparr> = Some y" by auto
  have "buf ! 0 = 35 \<and> cf_rest \<lparr>cf_rest = [], cf_eof = e\<rparr> = [] \<longrightarrow> False"
  proof (rule get_line.raw_induct [where P = "\<lambda>buf len f y. buf ! 0 = 35 \<and> cf_rest f = [] \<longrightarrow> False", OF _ y], goal_cases)
    case (1 g buf len f y)
    have "read_line n [] = ([], [])" for n by (cases n) simp_all
    then have b: "file_gets buf len f = (buf, \<lparr>cf_rest = [], cf_eof = cf_eof f \<or> 0 < len - 1\<rparr>)" if "cf_rest f = []"
      using that by (simp add: file_gets_def)
    show ?case
    proof
      assume a: "buf ! 0 = 35 \<and> cf_rest f = []"
      with 1(2) b have "g buf len \<lparr>cf_rest = [], cf_eof = cf_eof f \<or> 0 < len - 1\<rparr> = Some y" by simp
      from 1(1) [OF this] a show False by simp
    qed
  qed
  with assms show False by simp
qed

lemma get_line_comments:
  assumes "\<forall>c \<in> set cs. comment_line c" "length buf = 1024" "cs \<noteq> [] \<or> buf ! 0 = 35"
  shows "get_line buf 1024 \<lparr>cf_rest = file_text cs, cf_eof = e\<rparr> = None"
  using assms
proof (induction cs arbitrary: buf)
  case Nil
  then show ?case by (simp add: get_line_at_end)
next
  case (Cons c cs)
  let ?b = "blit buf 0 (c @ [10, 0])"
  have c: "10 \<notin> set c" "length c \<le> 1022" "c \<noteq> []" "hd c = 35" using Cons.prems by (auto simp: comment_line_def)
  then have b: "length ?b = 1024" "?b ! 0 = 35" using Cons.prems(2) unfolding blit_front by (cases c; simp)+
  have "file_gets buf 1024 \<lparr>cf_rest = file_text (c # cs), cf_eof = e\<rparr> = (?b, \<lparr>cf_rest = file_text cs, cf_eof = e\<rparr>)"
    using file_gets_line [OF c(1,2), of buf "file_text cs" e] by simp
  with Cons.IH [of ?b] Cons.prems(1) b show ?case by (subst get_line.simps) simp
qed

lemma skip_comments_hang:
  assumes "\<forall>c \<in> set cs. comment_line c" "length buf = 1024" "cs \<noteq> []"
  shows "skip_comments buf \<lparr>cf_rest = file_text cs, cf_eof = e\<rparr> = None"
  using get_line_comments [OF assms(1,2), of e] assms(3) by (subst skip_comments.simps) simp

lemma getparm_hangs:
  assumes "pe_files env (pn_filename s) = Some (file_text (pre @ cs))" "length (pe_buf env) = 1024"
    and "pre = [] \<or> (\<exists>cs1 magic. pre = cs1 @ [magic] \<and> (\<forall>c \<in> set cs1. comment_line c) \<and> data_line magic \<and>
           header_type (magic @ [10, 0]) \<noteq> None)"
    and "cs \<noteq> []" "\<forall>c \<in> set cs. comment_line c"
  shows "getparmfromfile env s = None"
  using assms(3)
proof (elim disjE exE conjE)
  assume "pre = []"
  with assms skip_comments_hang [OF assms(5,2,4)] show ?thesis by (simp add: getparmfromfile_def Let_def)
next
  fix cs1 magic
  assume p: "pre = cs1 @ [magic]" "\<forall>c \<in> set cs1. comment_line c" "data_line magic" "header_type (magic @ [10, 0]) \<noteq> None"
  obtain b where b: "skip_comments (pe_buf env) \<lparr>cf_rest = file_text (cs1 @ [magic]) @ file_text cs, cf_eof = False\<rparr> =
      Some (b, \<lparr>cf_rest = file_text cs, cf_eof = False\<rparr>)" "length b = 1024" "take 2 b = take 2 (magic @ [10, 0])"
    using skip_comments_text [OF p(2,3) assms(2)] by blast
  have "header_type b \<noteq> None" using header_type_take [OF b(3)] p(4) by simp
  moreover have "file_text (pre @ cs) = file_text (cs1 @ [magic]) @ file_text cs" by (simp add: file_text_def p(1))
  ultimately show ?thesis
    using assms(1) b(1) skip_comments_hang [OF assms(5) b(2) assms(4)] by (auto simp: getparmfromfile_def Let_def)
qed

text \<open> C39: a file of comments.  When the file has only comment lines, or only comment lines behind the magic number, the loop
  that skips them never ends, as at the end of the file the buffer still holds the last comment: neither
  \<open>sane_get_parameters\<close> nor \<open>sane_start\<close> returns.\<close>

theorem comments_hang:
  assumes "pe_files env (pn_filename s) = Some (file_text (pre @ cs))" "length (pe_buf env) = 1024"
    and "pre = [] \<or> (\<exists>cs1 magic. pre = cs1 @ [magic] \<and> (\<forall>c \<in> set cs1. comment_line c) \<and> data_line magic \<and>
           header_type (magic @ [10, 0]) \<noteq> None)"
    and "cs \<noteq> []" "\<forall>c \<in> set cs. comment_line c" "pn_open s" "\<not> pn_warming_up s" "pn_infile s = None"
  shows "sane_get_parameters_pnm env MAGIC s = None \<and> sane_start_pnm env MAGIC s = None"
proof -
  have h: "getparmfromfile env t = None" if "pn_filename t = pn_filename s" for t
    using that assms(1) by (intro getparm_hangs [OF _ assms(2-5)]) simp
  show ?thesis
    using assms(6-8) by (simp add: sane_get_parameters_pnm_def sane_start_pnm_def Let_def h)
qed

definition pn_comment_env :: pnm_env where
  \<comment> \<open>a file with the magic number and a comment only\<close>
  "pn_comment_env = (pn_example_env [])\<lparr>pe_files := (\<lambda>path. Some (file_text ([ascii ''P5''] @ [ascii ''# end''])))\<rparr>"

lemma comments_hang_witness:
  "sane_get_parameters_pnm pn_comment_env MAGIC pn_example = None \<and> sane_start_pnm pn_comment_env MAGIC pn_example = None"
proof (rule comments_hang)
  show "pe_files pn_comment_env (pn_filename pn_example) = Some (file_text ([ascii ''P5''] @ [ascii ''# end'']))"
    by (simp add: pn_comment_env_def)
  show "length (pe_buf pn_comment_env) = 1024" by (simp add: pn_comment_env_def pn_example_env_def)
  have "header_type (ascii ''P5'' @ [10, 0]) \<noteq> None" "data_line (ascii ''P5'')" by code_simp+
  then show "[ascii ''P5''] = [] \<or> (\<exists>cs1 magic. [ascii ''P5''] = cs1 @ [magic] \<and> (\<forall>c \<in> set cs1. comment_line c) \<and> data_line magic \<and>
      header_type (magic @ [10, 0]) \<noteq> None)"
    by (intro disjI2 exI [of _ "[]"] exI [of _ "ascii ''P5''"]) simp
  have "comment_line (ascii ''# end'')" by code_simp
  then show "\<forall>c \<in> set [ascii ''# end'']. comment_line c" by simp
qed (simp_all add: pn_example_def pnm_initial_def)

section \<open>Bytes left over\<close>

lemma grow_rgbbuf_left:
  assumes "grow_rgbbuf n s = (s1, ok)" "pn_malloc s = []"
  shows "ok \<and> (\<exists>m. s1 = s\<lparr>pn_rgblength := n, pn_rgbbuf := m\<rparr>)"
proof (cases "pn_rgbbuf s = None \<or> pn_rgblength s < n")
  case True
  with assms show ?thesis by (auto simp: grow_rgbbuf_def pn_alloc_def)
next
  case False
  with assms(1) have "ok" "s1 = s\<lparr>pn_rgblength := n, pn_rgbbuf := pn_rgbbuf s\<rparr>" by (auto simp: grow_rgbbuf_def)
  then show ?thesis by blast
qed

lemma shade_left: "pn_rgb_comp s \<le> 2 \<Longrightarrow> pn_left (fst (shade d s)) = pn_left s"
  by (rule shade_indexed [of s d]) simp_all

lemma truncated_leaves_bytes:
  \<comment> \<open>a read that meets the end of the file leaves the bytes of the incomplete pixel\<close>
  assumes "pnm_reading s body" "pnm_rgb s" "pn_infile s = Some f" "\<not> cf_eof f" "0 < n" "3 * n < 2 ^ 31" "length body < 3 * n"
  shows "pn_left (fst (sane_read_pnm MAGIC n s)) = drop (length body - length body mod 3) body"
proof -
  obtain s1 ok where g: "grow_rgbbuf (3 * n) s = (s1, ok)" by fastforce
  with assms(1) obtain m where s1: "ok" "s1 = s\<lparr>pn_rgblength := 3 * n, pn_rgbbuf := m\<rparr>"
    using grow_rgbbuf_left [OF g] by (auto simp: pnm_reading_def)
  obtain s2 d where r: "rgb_read n f s1 = (s2, d)" by fastforce
  have s2: "pn_left s2 = drop (length body - length body mod 3) body" "pn_rgb_comp s2 \<le> 2"
    using r assms by (auto simp: rgb_read_def file_read_def pnm_reading_def s1(2) Let_def)
  with shade_left [OF s2(2), of d] show ?thesis
    using assms g s1 r by (auto simp: sane_read_pnm_def pnm_read_def pnm_reading_def pnm_rgb_def Let_def split: prod.split)
qed

lemma header_left: "pn_left (header_parms ty x y s) = pn_left s"
  by (simp add: header_parms_def Let_def)

lemma getparm_left: "getparmfromfile env s = Some (s1, ok) \<Longrightarrow> pn_left s1 = pn_left s"
  by (auto simp: getparmfromfile_def header_left pn_fail_def Let_def bind_eq_Some_conv split_beta split: option.splits)

lemma start_left:
  assumes "sane_start_pnm env h s = Some (t, st)"
  shows "pn_left t = pn_left s"
  using assms getparm_left
  by (auto simp: sane_start_pnm_def Let_def bind_eq_Some_conv split: if_splits option.splits)

lemma open_left: "pn_left (fst (sane_open_pnm name s)) = pn_left s"
  by (auto simp: sane_open_pnm_def pn_fail_def Let_def split: option.split)


definition pn_old_byte :: pnm where
  "pn_old_byte = pn_example\<lparr>pn_infile := Some \<lparr>cf_rest = [1, 2, 3, 4, 5, 6], cf_eof = False\<rparr>, pn_left := [9]\<rparr>"


section \<open>Locked and warming up\<close>

lemma c_str_name: "nul_free n \<Longrightarrow> c_str (mk_cstr n) = Some n"
  by simp

text \<open>The device \<open>locked\<close>.  \<open>sane_open\<close> refuses it with \<open>SANE_STATUS_HW_LOCKED\<close> but has marked the backend as open
  before: every later \<open>sane_open\<close> of any of the devices is refused as busy.\<close>

theorem locked_stays_busy:
  assumes "\<not> pn_open s" "dev \<in> {''0'', ''1'', ''locked'', ''warmup''}"
  shows "\<exists>s1 h. sane_open_pnm (Some (mk_cstr (ascii ''locked''))) s = (s1, SANE_STATUS_HW_LOCKED, h) \<and>
    sane_open_pnm (Some (mk_cstr (ascii dev))) s1 = (s1, SANE_STATUS_DEVICE_BUSY, 0)"
proof -
  have n: "nul_free (ascii dev)" "nul_free (ascii ''locked'')" using assms(2) by (auto simp: nul_free_def ascii_def)
  have d: "mk_cstr (ascii x) \<in> set (map (\<lambda>d. the (dev_name d)) pnm_dev)" if "x \<in> {''0'', ''1'', ''locked'', ''warmup''}" for x
    using that by (auto simp: pnm_dev_def pnm_device_def)
  have "sane_open_pnm (Some (mk_cstr (ascii dev))) s1 = (s1, SANE_STATUS_DEVICE_BUSY, 0)" if "pn_open s1" for s1
    using that d [OF assms(2)] c_str_name [OF n(1)] by (simp add: sane_open_pnm_def del: image_eqI set_map)
  moreover have "take 6 (ascii ''locked'') = ascii ''locked''" by (simp add: ascii_def)
  ultimately show ?thesis
    using assms(1) d [of "''locked''"] c_str_name [OF n(2)] by (simp add: sane_open_pnm_def Let_def del: image_eqI set_map)
qed

lemma locked_stays_busy_witness:
  "\<exists>s1 h. sane_open_pnm (Some (mk_cstr (ascii ''locked''))) (pnm_initial 0) = (s1, SANE_STATUS_HW_LOCKED, h) \<and>
    sane_open_pnm (Some (mk_cstr (ascii ''0''))) s1 = (s1, SANE_STATUS_DEVICE_BUSY, 0)"
  by (rule locked_stays_busy) (simp_all add: pnm_initial_def)

theorem warm_up_one_second:
  \<comment> \<open>a frontend gets through only when it asks again in the fifth second\<close>
  assumes "pn_warming_up s" "pn_open s" "pn_now s - pn_start s \<noteq> 5"
  shows "\<exists>t. sane_start_pnm env MAGIC s = Some (t, SANE_STATUS_WARMING_UP) \<and> pn_warming_up t \<and> pn_warming_up (sane_close_pnm h t)"
  using assms by (cases "5 < pn_now s - pn_start s") (auto simp: sane_start_pnm_def sane_close_pnm_def Let_def)

end
