(* ===== verification/Dll.thy ===== *)
theory Dll
  imports Saned_State Config
begin

text \<open>
  The loader of backends, \<^verbatim>\<open>backend/dll.c\<close>: its state, the registry of backends (\<open>add_backend\<close>),
  loading and initializing one (\<open>load\<close>, \<open>init\<close>), and the configuration (\<open>add_alias\<close>, \<open>read_config\<close>,
  \<open>read_dlld\<close>, \<open>read_aliases\<close>, \<open>read_aliases_d\<close>, \<open>sane_init\<close>), in the variant that loads with \<open>dlopen\<close>
  on an ELF system.

  A \<open>struct backend *\<close> is an index into \<open>dl_bes\<close>, which holds every entry there ever was, the preloaded
  ones from the start; \<open>dl_first\<close> is the list that starts at \<open>first_backend\<close>.  A library is what \<open>dlsym\<close>
  finds in it, a function pointer the record of operations it belongs to, and the state all backends
  run on is \<open>dl_world\<close>.  \<open>dl_fault\<close> becomes true when the code uses an invalid pointer or index.
\<close>

section \<open>Operations and libraries\<close>

datatype dll_op =
    OP_INIT | OP_EXIT | OP_GET_DEVS | OP_OPEN | OP_CLOSE | OP_GET_OPTION_DESC | OP_CTL_OPTION | OP_GET_PARAMS
  | OP_START | OP_READ | OP_CANCEL | OP_SET_IO_MODE | OP_GET_SELECT_FD | OP_READ_DUP

fun op_name :: "dll_op \<Rightarrow> byte list" where
  "op_name OP_INIT = ascii ''init''"
| "op_name OP_EXIT = ascii ''exit''"
| "op_name OP_GET_DEVS = ascii ''get_devices''"
| "op_name OP_OPEN = ascii ''open''"
| "op_name OP_CLOSE = ascii ''close''"
| "op_name OP_GET_OPTION_DESC = ascii ''get_option_descriptor''"
| "op_name OP_CTL_OPTION = ascii ''control_option''"
| "op_name OP_GET_PARAMS = ascii ''get_parameters''"
| "op_name OP_START = ascii ''start''"
| "op_name OP_READ = ascii ''read''"
| "op_name OP_CANCEL = ascii ''cancel''"
| "op_name OP_SET_IO_MODE = ascii ''set_io_mode''"
| "op_name OP_GET_SELECT_FD = ascii ''get_select_fd''"
| "op_name OP_READ_DUP = ascii ''read_dup''"

record 'w dll_api = "'w backend" +
  b_read_dup :: "'w \<Rightarrow> sane_handle \<Rightarrow> nat \<Rightarrow> 'w \<times> sane_word \<times> byte list \<times> byte list"

text \<open>The SANE API with the operation for two buffers, which only this file has.\<close>

datatype 'w op_ptr = Op_Null | Op_Unsupported | Op_Fun "'w dll_api"

text \<open>What an entry of \<open>be->op\<close> points to: nothing, \<open>op_unsupported\<close>, or a function of a library.\<close>

type_synonym 'w dll_lib = "byte list \<Rightarrow> 'w dll_api option"

record 'w usb_testing =
  ut_replay :: "'w \<Rightarrow> byte list \<Rightarrow> bool \<Rightarrow> 'w \<times> sane_word"
  ut_backend :: "'w \<Rightarrow> byte list option"
  ut_record :: "'w \<Rightarrow> byte list option \<Rightarrow> byte list option \<Rightarrow> 'w \<times> sane_word"

definition usb_no_testing :: "'w usb_testing" where
  \<comment> \<open>\<open>sanei_usb_testing_enable_replay\<close>, \<open>sanei_usb_testing_get_backend\<close> and
      \<open>sanei_usb_testing_enable_record\<close> without \<open>WITH_USB_RECORD_REPLAY\<close>\<close>
  "usb_no_testing = \<lparr>ut_replay = (\<lambda>w path dev. (w, SANE_STATUS_UNSUPPORTED)), ut_backend = (\<lambda>w. None),
     ut_record = (\<lambda>w path name. (w, SANE_STATUS_UNSUPPORTED))\<rparr>"

record 'w dll_env =
  de_files :: file_system
  de_paths :: "byte list option"
  de_dirs :: "byte list \<Rightarrow> byte list list option"
  de_regular :: "byte list \<Rightarrow> bool"
  de_getenv :: "byte list \<Rightarrow> byte list option"
  de_libdir :: "byte list"
  de_major :: "byte list"
  de_libs :: "byte list \<Rightarrow> 'w dll_lib option option"
  de_version :: "sane_word \<times> sane_word \<times> sane_word"
  de_usb :: "'w usb_testing"

text \<open>
  \<open>de_paths\<close>: what \<open>sanei_config_get_paths\<close> returns; \<open>de_dirs\<close>: what \<open>opendir\<close> and \<open>readdir\<close> find;
  \<open>de_regular\<close>: whether \<open>stat\<close> finds a regular file; \<open>de_major\<close>: \<open>V_MAJOR\<close> in decimal; \<open>de_libs\<close>: whether
  a library can be opened for reading, and then whether \<open>dlopen\<close> loads it; \<open>de_version\<close>: the version
  of the package.
\<close>

section \<open>The state\<close>

record 'w be_entry =
  be_name :: "byte list"
  be_permanent :: bool
  be_loaded :: bool
  be_inited :: bool
  be_freed :: bool
  be_handle :: "'w dll_lib option"
  be_op :: "dll_op \<Rightarrow> 'w op_ptr"

record dll_alias =
  al_old :: "byte list"
  al_new :: "byte list option"

record meta_scanner =
  ms_be :: nat
  ms_handle :: sane_handle

datatype dev_slot = Slot_Junk | Slot_Null | Slot_Dev sane_device | Slot_Freed

text \<open>
  A pointer in \<open>devlist\<close>: not written yet, null, to an entry, or to an entry that was released.
\<close>

record 'w dll =
  dl_bes :: "'w be_entry list"
  dl_first :: "nat list"
  dl_alias :: "dll_alias list"
  dl_list :: "dev_slot list option"
  dl_size :: nat
  dl_len :: nat
  dl_handles :: "(nat \<times> meta_scanner) list"
  dl_next :: nat
  dl_malloc :: "bool list"
  dl_world :: 'w
  dl_fault :: bool

definition dll_fail :: "'w dll \<Rightarrow> 'w dll" where
  "dll_fail s = s\<lparr>dl_fault := True\<rparr>"

definition dll_alloc :: "'w dll \<Rightarrow> 'w dll \<times> bool" where
  "dll_alloc s = (case dl_malloc s of [] \<Rightarrow> (s, True) | b # bs \<Rightarrow> (s\<lparr>dl_malloc := bs\<rparr>, b))"

definition new_entry :: "byte list \<Rightarrow> 'w be_entry" where
  \<comment> \<open>zeroed memory with a name\<close>
  "new_entry name = \<lparr>be_name = name, be_permanent = False, be_loaded = False, be_inited = False, be_freed = False,
     be_handle = None, be_op = (\<lambda>_. Op_Null)\<rparr>"

definition preloaded_entry :: "byte list \<Rightarrow> 'w dll_api \<Rightarrow> 'w be_entry" where
  \<comment> \<open>\<open>PRELOAD_DEFN (name)\<close>\<close>
  "preloaded_entry name f = \<lparr>be_name = name, be_permanent = True, be_loaded = True, be_inited = False,
     be_freed = False, be_handle = None, be_op = (\<lambda>_. Op_Fun f)\<rparr>"

definition dll_start :: "'w be_entry list \<Rightarrow> 'w \<Rightarrow> 'w dll" where
  \<comment> \<open>the static variables at the start of the program\<close>
  "dll_start preloaded w = \<lparr>dl_bes = preloaded, dl_first = [], dl_alias = [], dl_list = None, dl_size = 0, dl_len = 0,
     dl_handles = [], dl_next = 0, dl_malloc = [], dl_world = w, dl_fault = False\<rparr>"

definition get_be :: "'w dll \<Rightarrow> nat \<Rightarrow> 'w be_entry" where
  "get_be s i = (if i < length (dl_bes s) then dl_bes s ! i else (new_entry [])\<lparr>be_freed := True\<rparr>)"

definition upd_be :: "nat \<Rightarrow> ('w be_entry \<Rightarrow> 'w be_entry) \<Rightarrow> 'w dll \<Rightarrow> 'w dll" where
  "upd_be i f s = s\<lparr>dl_bes := (dl_bes s)[i := f (get_be s i)]\<rparr>"

section \<open>The registry\<close>

definition find_backend :: "'w dll \<Rightarrow> byte list \<Rightarrow> nat option" where
  "find_backend s name = List.find (\<lambda>i. be_name (get_be s i) = name) (dl_first s)"

definition add_backend :: "byte list \<Rightarrow> 'w dll \<Rightarrow> 'w dll \<times> sane_word \<times> nat option" where
  \<comment> \<open>the last result is \<open>*bep\<close>, when it is set; a name that is there moves to the front\<close>
  "add_backend name s =
     (if name = ascii ''dll'' then (s, SANE_STATUS_GOOD, None)
      else case find_backend s name of
        Some i \<Rightarrow> (s\<lparr>dl_first := i # remove1 i (dl_first s)\<rparr>, SANE_STATUS_GOOD, Some i)
      | None \<Rightarrow>
          (case dll_alloc s of
             (s1, ok) \<Rightarrow>
               if \<not> ok then (s1, SANE_STATUS_NO_MEM, None)
               else case dll_alloc s1 of
                 (s2, ok2) \<Rightarrow>
                   if \<not> ok2 then (s2, SANE_STATUS_NO_MEM, None)
                   else (s2\<lparr>dl_bes := dl_bes s2 @ [new_entry name], dl_first := length (dl_bes s2) # dl_first s2\<rparr>,
                         SANE_STATUS_GOOD, Some (length (dl_bes s2)))))"

section \<open>Loading\<close>

definition search_path :: "'w dll_env \<Rightarrow> byte list" where
  "search_path env =
     (let path = (case de_getenv env (ascii ''LD_LIBRARY_PATH'') of
                    Some p \<Rightarrow> Some p
                  | None \<Rightarrow> (case de_getenv env (ascii ''SHLIB_PATH'') of
                               Some p \<Rightarrow> Some p
                             | None \<Rightarrow> de_getenv env (ascii ''LIBPATH'')))
      in case path of Some p \<Rightarrow> p @ 58 # de_libdir env | None \<Rightarrow> de_libdir env)"

definition lib_name :: "'w dll_env \<Rightarrow> byte list \<Rightarrow> byte list \<Rightarrow> byte list" where
  \<comment> \<open>\<open>snprintf (libname, sizeof (libname), "%s/libsane-%s.so.%u", dir, be->name, V_MAJOR)\<close>\<close>
  "lib_name env dir name = take (PATH_MAX - 1) (dir @ ascii ''/libsane-'' @ name @ ascii ''.so.'' @ de_major env)"

fun find_lib :: "'w dll_env \<Rightarrow> byte list \<Rightarrow> byte list list \<Rightarrow> 'w dll_lib option option" where
  \<comment> \<open>the first directory where the library can be opened, and what \<open>dlopen\<close> makes of it\<close>
  "find_lib env name [] = None"
| "find_lib env name (dir # dirs) =
     (case de_libs env (lib_name env dir name) of
        Some l \<Rightarrow> Some l
      | None \<Rightarrow> find_lib env name dirs)"

definition op_symbol :: "byte list \<Rightarrow> dll_op \<Rightarrow> byte list" where
  \<comment> \<open>\<open>sprintf (funcname, "_sane_%s_%s", be->name, op_name[i])\<close>\<close>
  "op_symbol name i = ascii ''_sane_'' @ name @ ascii ''_'' @ op_name i"

definition lookup_op :: "'w dll_lib \<Rightarrow> byte list \<Rightarrow> dll_op \<Rightarrow> 'w op_ptr" where
  \<comment> \<open>without the leading underscore first, then with it\<close>
  "lookup_op lib name i =
     (case lib (tl (op_symbol name i)) of
        Some f \<Rightarrow> Op_Fun f
      | None \<Rightarrow> (case lib (op_symbol name i) of Some f \<Rightarrow> Op_Fun f | None \<Rightarrow> Op_Unsupported))"

abbreviation (input) SANE_CURRENT_MAJOR :: sane_word where "SANE_CURRENT_MAJOR \<equiv> 1"

definition load_be :: "'w dll_env \<Rightarrow> nat \<Rightarrow> 'w dll \<Rightarrow> 'w dll \<times> sane_word" where
  "load_be env i s =
     (case dll_alloc (upd_be i (\<lambda>b. b\<lparr>be_loaded := True, be_handle := None, be_op := (\<lambda>_. Op_Unsupported)\<rparr>) s) of
        (s1, ok) \<Rightarrow>
          if \<not> ok then (s1, SANE_STATUS_NO_MEM)
          else case find_lib env (be_name (get_be s1 i)) (strsep_all (search_path env)) of
            None \<Rightarrow> (s1, SANE_STATUS_INVAL)
          | Some None \<Rightarrow> (s1, SANE_STATUS_INVAL)
          | Some (Some lib) \<Rightarrow>
              (upd_be i (\<lambda>b. b\<lparr>be_handle := Some lib, be_op := lookup_op lib (be_name b)\<rparr>) s1, SANE_STATUS_GOOD))"

definition init_be :: "'w dll_env \<Rightarrow> nat \<Rightarrow> 'w dll \<Rightarrow> 'w dll \<times> sane_word" where
  "init_be env i s =
     (case (if be_loaded (get_be s i) then (s, SANE_STATUS_GOOD) else load_be env i s) of
        (s1, status) \<Rightarrow>
          if status \<noteq> SANE_STATUS_GOOD then (s1, status)
          else case be_op (get_be s1 i) OP_INIT of
            Op_Null \<Rightarrow> (dll_fail s1, SANE_STATUS_UNSUPPORTED)
          | Op_Unsupported \<Rightarrow> (s1, SANE_STATUS_UNSUPPORTED)
          | Op_Fun f \<Rightarrow>
              (case b_init f (dl_world s1) of
                 (w, status2, version) \<Rightarrow>
                   let s2 = s1\<lparr>dl_world := w\<rparr>
                   in if status2 \<noteq> SANE_STATUS_GOOD then (s2, status2)
                      else if sane_version_major version \<noteq> SANE_CURRENT_MAJOR then (s2, SANE_STATUS_INVAL)
                      else (upd_be i (\<lambda>b. b\<lparr>be_inited := True\<rparr>) s2, SANE_STATUS_GOOD)))"

section \<open>Aliases\<close>

definition is_blank :: "byte \<Rightarrow> bool" where
  "is_blank b \<longleftrightarrow> b = 32 \<or> b = 9"

definition c_strpbrk :: "byte list \<Rightarrow> (byte \<Rightarrow> bool) \<Rightarrow> (byte list \<times> byte list) option" where
  \<comment> \<open>what is before the first character of a set, and what is after it\<close>
  "c_strpbrk s p =
     (case dropWhile (\<lambda>b. \<not> p b) s of [] \<Rightarrow> None | c # r \<Rightarrow> Some (takeWhile (\<lambda>b. \<not> p b) s, r))"

definition alias_old :: "byte list option \<Rightarrow> byte list \<Rightarrow> (byte list \<times> byte list option) option" where
  "alias_old newname line =
     (let oldname = sanei_config_skip_whitespace line
      in if oldname = [] then None else Some (takeWhile (\<lambda>b. \<not> is_blank b) oldname, newname))"

definition alias_line :: "byte list \<Rightarrow> (byte list \<times> byte list option) option" where
  \<comment> \<open>the old name and the new one, \<open>None\<close> for a name to hide\<close>
  "alias_line line_param =
     (let command = takeWhile (\<lambda>b. b \<noteq> 35) (sanei_config_skip_whitespace line_param)
      in case c_strpbrk command is_blank of
           None \<Rightarrow> None
         | Some (cmd, line) \<Rightarrow>
             if cmd = ascii ''alias'' then
               (case sanei_config_skip_whitespace line of
                  [] \<Rightarrow> None
                | c # cs \<Rightarrow>
                    (case (if c = 34 then c_strpbrk cs (\<lambda>b. b = 34) else c_strpbrk (c # cs) is_blank) of
                       None \<Rightarrow> None
                     | Some (newname, rest) \<Rightarrow> alias_old (Some newname) rest))
             else if cmd = ascii ''hide'' then alias_old None line
             else None)"

definition add_alias :: "byte list \<Rightarrow> 'w dll \<Rightarrow> 'w dll" where
  "add_alias line s =
     (case alias_line line of
        None \<Rightarrow> s
      | Some (old, new) \<Rightarrow>
          (case dll_alloc s of
             (s1, ok) \<Rightarrow>
               if \<not> ok then s1
               else case dll_alloc s1 of
                 (s2, ok2) \<Rightarrow> if \<not> ok2 then s2 else s2\<lparr>dl_alias := \<lparr>al_old = old, al_new = new\<rparr> # dl_alias s2\<rparr>))"

section \<open>Configuration files\<close>

fun config_loop :: "nat \<Rightarrow> (byte list \<Rightarrow> 'w dll \<Rightarrow> 'w dll) \<Rightarrow> byte list \<Rightarrow> byte list \<Rightarrow> 'w dll \<Rightarrow> 'w dll" where
  \<comment> \<open>\<open>while (sanei_config_read (config_line, sizeof (config_line), fp))\<close>; a turn consumes at least a byte\<close>
  "config_loop 0 body buf stream s = dll_fail s"
| "config_loop (Suc n) body buf stream s =
     (case sanei_config_read buf PATH_MAX stream of
        Cfg_Eof \<Rightarrow> s
      | Cfg_Fault \<Rightarrow> dll_fail s
      | Cfg_Line b rest \<Rightarrow>
          (case c_str b of
             None \<Rightarrow> dll_fail s
           | Some line \<Rightarrow> config_loop n body b rest (body line s)))"

definition config_file :: "'w dll_env \<Rightarrow> (byte list \<Rightarrow> 'w dll \<Rightarrow> 'w dll) \<Rightarrow> byte list \<Rightarrow> 'w dll \<Rightarrow> 'w dll" where
  \<comment> \<open>open a file on the search path, if it is there, and go through its lines\<close>
  "config_file env body name s =
     (case Option.bind (de_paths env) (\<lambda>paths. sanei_config_open (de_files env) paths name) of
        None \<Rightarrow> s
      | Some stream \<Rightarrow> config_loop (Suc (length stream)) body (replicate PATH_MAX 0) stream s)"

definition backend_line :: "byte list \<Rightarrow> 'w dll \<Rightarrow> 'w dll" where
  \<comment> \<open>a line of \<^verbatim>\<open>dll.conf\<close>\<close>
  "backend_line line s =
     (case sanei_config_get_string line of
        (cp, None) \<Rightarrow> s
      | (cp, Some backend_name) \<Rightarrow>
          (case dll_alloc s of
             (s1, ok) \<Rightarrow>
               if \<not> ok \<or> cp = line then s1
               else if backend_name \<noteq> [] \<and> hd backend_name = 35 then s1
               else fst (add_backend (takeWhile (\<lambda>b. b \<noteq> 35) backend_name) s1)))"

definition read_config :: "'w dll_env \<Rightarrow> byte list \<Rightarrow> 'w dll \<Rightarrow> 'w dll" where
  "read_config env = config_file env backend_line"

definition read_aliases :: "'w dll_env \<Rightarrow> byte list \<Rightarrow> 'w dll \<Rightarrow> 'w dll" where
  "read_aliases env = config_file env (\<lambda>line s. if line = [] \<or> hd line = 35 then s else add_alias line s)"

abbreviation (input) NAME_MAX :: nat where "NAME_MAX \<equiv> 255"

fun open_dir :: "'w dll_env \<Rightarrow> byte list \<Rightarrow> byte list list \<Rightarrow> (byte list \<times> nat \<times> byte list list) option" where
  \<comment> \<open>the first directory of the search path with the subdirectory: its path, \<open>plen\<close>, and its entries\<close>
  "open_dir env sub [] = None"
| "open_dir env sub (dir # dirs) =
     (let dlldir = take (PATH_MAX - 1) (dir @ sub)
      in case de_dirs env dlldir of
           Some names \<Rightarrow> Some (dlldir, length dir + 1, names)
         | None \<Rightarrow> open_dir env sub dirs)"

definition dir_entry :: "'w dll_env \<Rightarrow> (byte list \<Rightarrow> 'w dll \<Rightarrow> 'w dll) \<Rightarrow> byte list \<Rightarrow> nat \<Rightarrow> byte list \<Rightarrow> 'w dll \<Rightarrow> 'w dll" where
  \<comment> \<open>the body of the loop over \<open>readdir\<close>: hidden and backup files, and what is not a file, are skipped\<close>
  "dir_entry env reader dlldir plen d_name s =
     (if d_name = [] then dll_fail s
      else if hd d_name = 46 \<or> last d_name = 126 \<or> last d_name = 35 then s
      else
        let conffile = take (PATH_MAX + 1 + NAME_MAX - 1) (dlldir @ 47 # d_name)
        in if \<not> de_regular env conffile then s
           else if plen \<le> length conffile then reader (drop plen conffile) s
           else dll_fail s)"

definition config_dir :: "'w dll_env \<Rightarrow> byte list \<Rightarrow> (byte list \<Rightarrow> 'w dll \<Rightarrow> 'w dll) \<Rightarrow> 'w dll \<Rightarrow> 'w dll" where
  \<comment> \<open>without memory for the copy of the search path the directory pointer is never set\<close>
  "config_dir env sub reader s =
     (case de_paths env of
        None \<Rightarrow> s
      | Some dir_list \<Rightarrow>
          (case dll_alloc s of
             (s1, ok) \<Rightarrow>
               if \<not> ok then dll_fail s1
               else case open_dir env sub (strsep_all dir_list) of
                 None \<Rightarrow> s1
               | Some (dlldir, plen, names) \<Rightarrow> fold (dir_entry env reader dlldir plen) names s1))"

definition read_dlld :: "'w dll_env \<Rightarrow> 'w dll \<Rightarrow> 'w dll" where
  "read_dlld env = config_dir env (ascii ''/dll.d'') (read_config env)"

definition read_aliases_d :: "'w dll_env \<Rightarrow> 'w dll \<Rightarrow> 'w dll" where
  "read_aliases_d env = config_dir env (ascii ''/dll.aliases.d'') (read_aliases env)"

section \<open>sane_init\<close>

definition chain_preloaded :: "nat \<Rightarrow> 'w dll \<Rightarrow> 'w dll" where
  \<comment> \<open>an entry that is in the list already makes the list cyclic\<close>
  "chain_preloaded i s = (if i \<in> set (dl_first s) then dll_fail s else s\<lparr>dl_first := i # dl_first s\<rparr>)"

definition sane_init_dll :: "'w dll_env \<Rightarrow> 'w dll \<Rightarrow> 'w dll \<times> sane_word" where
  \<comment> \<open>the version code; the status is always \<open>SANE_STATUS_GOOD\<close>\<close>
  "sane_init_dll env s =
     (let s1 = fold chain_preloaded (filter (\<lambda>i. be_permanent (get_be s i)) [0..<length (dl_bes s)]) s;
          s2 = read_config env (ascii ''dll.conf'') (read_dlld env s1);
          s3 = read_aliases_d env (read_aliases env (ascii ''dll.aliases'') s2);
          (major, minor, build) = de_version env
      in (s3, sane_version_code major minor build))"

end
