(* ===== verification/Dll_Ops.thy ===== *)
theory Dll_Ops
  imports Dll
begin

text \<open>
  The operations of the loader, \<^verbatim>\<open>backend/dll.c\<close>: \<open>sane_exit\<close>, \<open>sane_get_devices\<close>, \<open>sane_open\<close>, and
  the operations on a handle, which call the function of the handle's backend.  An operation that may
  call back for authorization is a tree of such calls, as in the daemon's model of a backend.
\<close>

section \<open>sane_exit\<close>

definition exit_backend :: "nat \<Rightarrow> 'w dll \<Rightarrow> 'w dll" where
  \<comment> \<open>the exit function of an initialized backend; then the entry is released, unless it is preloaded\<close>
  "exit_backend i s =
     (let b = get_be s i;
          s1 = (if be_loaded b \<and> be_inited b then
                  (case be_op b OP_EXIT of
                     Op_Null \<Rightarrow> dll_fail s
                   | Op_Unsupported \<Rightarrow> s
                   | Op_Fun f \<Rightarrow> s\<lparr>dl_world := b_exit f (dl_world s)\<rparr>)
                else s)
      in if be_permanent b then upd_be i (\<lambda>b. b\<lparr>be_inited := False\<rparr>) s1
         else upd_be i (\<lambda>b. b\<lparr>be_freed := True\<rparr>) s1)"

fun walk_devlist :: "dev_slot list \<Rightarrow> bool" where
  \<comment> \<open>\<open>while (devlist[i]) free (devlist[i++]);\<close> and whether each pointer it meets is a live entry\<close>
  "walk_devlist [] = False"
| "walk_devlist (Slot_Null # l) = True"
| "walk_devlist (Slot_Dev d # l) = walk_devlist l"
| "walk_devlist (Slot_Junk # l) = False"
| "walk_devlist (Slot_Freed # l) = False"

definition sane_exit_dll :: "'w dll \<Rightarrow> 'w dll" where
  "sane_exit_dll s =
     (let s1 = (fold exit_backend (dl_first s) s)\<lparr>dl_first := [], dl_alias := []\<rparr>
      in case dl_list s1 of
           None \<Rightarrow> s1
         | Some l \<Rightarrow>
             (if walk_devlist l then s1 else dll_fail s1)\<lparr>dl_list := None, dl_size := 0, dl_len := 0\<rparr>)"

section \<open>sane_get_devices\<close>

definition free_entries :: "'w dll \<Rightarrow> 'w dll" where
  \<comment> \<open>\<open>if (devlist) for (i = 0; i < devlist_len; ++i) free (devlist[i]); devlist_len = 0;\<close>\<close>
  "free_entries s =
     (case dl_list s of
        None \<Rightarrow> s\<lparr>dl_len := 0\<rparr>
      | Some l \<Rightarrow>
          let old = take (dl_len s) l;
              s1 = (if dl_len s \<le> length l \<and> Slot_Junk \<notin> set old \<and> Slot_Freed \<notin> set old then s else dll_fail s)
          in s1\<lparr>dl_list := Some (map (\<lambda>x. case x of Slot_Dev d \<Rightarrow> Slot_Freed | _ \<Rightarrow> x) old @ drop (dl_len s) l),
                dl_len := 0\<rparr>)"

definition dll_assert_space :: "nat \<Rightarrow> 'w dll \<Rightarrow> 'w dll \<times> bool" where
  \<comment> \<open>\<open>ASSERT_SPACE (n)\<close>, and whether there was memory\<close>
  "dll_assert_space n s =
     (if dl_size s < dl_len s + n then
        let size = dl_size s + (n + 15)
        in case dll_alloc s of
             (s1, ok) \<Rightarrow>
               if ok then
                 (s1\<lparr>dl_list := Some (case dl_list s1 of
                       None \<Rightarrow> replicate size Slot_Junk
                     | Some l \<Rightarrow> take size l @ replicate (size - length l) Slot_Junk),
                     dl_size := size\<rparr>, True)
               else (s1\<lparr>dl_list := None, dl_size := size\<rparr>, False)
      else (s, True))"

definition push_slot :: "dev_slot \<Rightarrow> 'w dll \<Rightarrow> 'w dll" where
  \<comment> \<open>\<open>devlist[devlist_len++] = dev\<close>\<close>
  "push_slot x s =
     (case dl_list s of
        None \<Rightarrow> dll_fail s
      | Some l \<Rightarrow>
          if dl_len s < length l then s\<lparr>dl_list := Some (l[dl_len s := x]), dl_len := dl_len s + 1\<rparr>
          else dll_fail s)"

definition alias_matches :: "byte list \<Rightarrow> byte list \<Rightarrow> dll_alias \<Rightarrow> bool" where
  \<comment> \<open>the old name is that of the backend, a colon, and that of the device\<close>
  "alias_matches name dev a \<longleftrightarrow>
     length name < length (al_old a) \<and> take (length name) (al_old a) = name \<and>
     al_old a ! length name = 58 \<and> drop (Suc (length name)) (al_old a) = dev"

definition shown_name :: "dll_alias list \<Rightarrow> byte list \<Rightarrow> byte list \<Rightarrow> byte list option" where
  \<comment> \<open>the name a device is listed under, \<open>None\<close> when it is hidden\<close>
  "shown_name aliases name dev =
     (case List.find (alias_matches name dev) aliases of
        Some a \<Rightarrow> al_new a
      | None \<Rightarrow> Some (name @ 58 # dev))"

fun list_devices :: "byte list \<Rightarrow> sane_device list \<Rightarrow> 'w dll \<Rightarrow> 'w dll \<times> bool" where
  \<comment> \<open>the loop over the devices of one backend; the result is false when memory runs out\<close>
  "list_devices name [] s = (s, True)"
| "list_devices name (d # ds) s =
     (case Option.bind (dev_name d) c_str of
        None \<Rightarrow> (dll_fail s, True)
      | Some n \<Rightarrow>
          (case shown_name (dl_alias s) name n of
             None \<Rightarrow> list_devices name ds s
           | Some shown \<Rightarrow>
               (case dll_alloc s of
                  (s1, ok) \<Rightarrow>
                    if \<not> ok then (s1, False)
                    else list_devices name ds (push_slot (Slot_Dev (d\<lparr>dev_name := Some (mk_cstr shown)\<rparr>)) s1))))"

definition backend_devices :: "'w dll_env \<Rightarrow> bool \<Rightarrow> nat \<Rightarrow> 'w dll \<Rightarrow> 'w dll \<times> bool" where
  \<comment> \<open>one turn of the loop over \<open>first_backend\<close>\<close>
  "backend_devices env local_only i s =
     (case (if be_inited (get_be s i) then (s, SANE_STATUS_GOOD) else init_be env i s) of
        (s1, status) \<Rightarrow>
          if status \<noteq> SANE_STATUS_GOOD then (s1, True)
          else case be_op (get_be s1 i) OP_GET_DEVS of
            Op_Null \<Rightarrow> (dll_fail s1, True)
          | Op_Unsupported \<Rightarrow> (s1, True)
          | Op_Fun f \<Rightarrow>
              (case b_get_devices f (dl_world s1) local_only of
                 (w, status2, be_list) \<Rightarrow>
                   let s2 = s1\<lparr>dl_world := w\<rparr>
                   in if status2 \<noteq> SANE_STATUS_GOOD then (s2, True)
                      else case be_list of
                        None \<Rightarrow> (s2, True)
                      | Some l \<Rightarrow>
                          if None \<notin> set l then (dll_fail s2, True)
                          else
                            let ds = map the (takeWhile (\<lambda>d. d \<noteq> None) l)
                            in case dll_assert_space (length ds) s2 of
                                 (s3, ok) \<Rightarrow>
                                   if ok then list_devices (be_name (get_be s3 i)) ds s3 else (s3, False)))"

fun backends_devices :: "'w dll_env \<Rightarrow> bool \<Rightarrow> nat list \<Rightarrow> 'w dll \<Rightarrow> 'w dll \<times> bool" where
  "backends_devices env local_only [] s = (s, True)"
| "backends_devices env local_only (i # is) s =
     (case backend_devices env local_only i s of
        (s1, ok) \<Rightarrow> if ok then backends_devices env local_only is s1 else (s1, False))"

definition sane_get_devices_dll :: "'w dll_env \<Rightarrow> bool \<Rightarrow> 'w dll \<Rightarrow> 'w dll \<times> sane_word \<times> dev_slot list option" where
  \<comment> \<open>the last result is the block \<open>*device_list\<close> points to, when it is set\<close>
  "sane_get_devices_dll env local_only s0 =
     (let s = free_entries s0
      in case backends_devices env local_only (dl_first s) s of
           (s1, ok) \<Rightarrow>
             if \<not> ok then (s1, SANE_STATUS_NO_MEM, None)
             else case dll_assert_space 1 s1 of
               (s2, ok2) \<Rightarrow>
                 if \<not> ok2 then (s2, SANE_STATUS_NO_MEM, None)
                 else let s3 = push_slot Slot_Null s2 in (s3, SANE_STATUS_GOOD, dl_list s3))"

section \<open>sane_open\<close>

definition resolve_alias :: "dll_alias list \<Rightarrow> byte list \<Rightarrow> byte list" where
  "resolve_alias aliases full_name =
     (case List.find (\<lambda>a. al_new a = Some full_name) aliases of
        Some a \<Rightarrow> al_old a
      | None \<Rightarrow> full_name)"

definition split_backend :: "byte list \<Rightarrow> byte list \<times> byte list" where
  \<comment> \<open>the name of the backend, and that of the device, which is empty without a colon\<close>
  "split_backend full_name =
     (case strchr_idx full_name 58 of
        Some k \<Rightarrow> (take k full_name, drop (Suc k) full_name)
      | None \<Rightarrow> (full_name, []))"

definition has_prefix :: "byte list \<Rightarrow> byte list \<Rightarrow> bool" where
  \<comment> \<open>what is before the first colon is the given name\<close>
  "has_prefix name full_name \<longleftrightarrow> strchr_idx full_name 58 = Some (length name) \<and> take (length name) full_name = name"

definition open_name :: "byte list \<Rightarrow> 'w dll \<Rightarrow> 'w dll \<times> (byte list option \<times> byte list)" where
  \<comment> \<open>the copy of the name of the backend, when there was memory, and the name of the device\<close>
  "open_name full_name s =
     (case split_backend full_name of
        (name, dev) \<Rightarrow> (case dll_alloc s of (s1, ok) \<Rightarrow> (s1, if ok then Some name else None, dev)))"

definition open_target :: "'w dll_env \<Rightarrow> byte list \<Rightarrow> 'w dll \<Rightarrow> 'w dll \<times> (sane_word + byte list option \<times> byte list)" where
  \<comment> \<open>\<open>be_name\<close> and \<open>dev_name\<close> for a name behind its aliases, or the status to return\<close>
  "open_target env full_name s =
     (if has_prefix (ascii ''fakeusb'') full_name \<or> has_prefix (ascii ''fakeusbdev'') full_name then
        let dev_name = snd (split_backend full_name)
        in case ut_replay (de_usb env) (dl_world s) dev_name (has_prefix (ascii ''fakeusbdev'') full_name) of
             (w, status) \<Rightarrow>
               let s1 = s\<lparr>dl_world := w\<rparr>
               in if status \<noteq> SANE_STATUS_GOOD then (s1, Inl status)
                  else case ut_backend (de_usb env) (dl_world s1) of
                    None \<Rightarrow> (s1, Inl SANE_STATUS_ACCESS_DENIED)
                  | Some name \<Rightarrow> (s1, Inr (Some name, dev_name))
      else if has_prefix (ascii ''fakeusbout'') full_name then
        (case strchr_idx (snd (split_backend full_name)) 58 of
           None \<Rightarrow> (s, Inl SANE_STATUS_INVAL)
         | Some k \<Rightarrow>
             (case dll_alloc s of
                (s1, ok) \<Rightarrow>
                  let rest = snd (split_backend full_name);
                      path = (if ok then Some (take k rest) else None)
                  in case open_name (drop (Suc k) rest) s1 of
                       (s2, name, dev) \<Rightarrow>
                         (case ut_record (de_usb env) (dl_world s2) path name of
                            (w, status) \<Rightarrow>
                              let s3 = s2\<lparr>dl_world := w\<rparr>
                              in if status \<noteq> SANE_STATUS_GOOD then (s3, Inl status) else (s3, Inr (name, dev)))))
      else (case open_name full_name s of (s1, r) \<Rightarrow> (s1, Inr r)))"

definition pick_backend :: "byte list \<Rightarrow> 'w dll \<Rightarrow> 'w dll \<times> sane_word \<times> nat option" where
  \<comment> \<open>the pointer \<open>be\<close>, \<open>None\<close> when it is null; the first backend for an empty name\<close>
  "pick_backend name s =
     (case (if name = [] then (case dl_first s of [] \<Rightarrow> None | i # is \<Rightarrow> Some i) else find_backend s name) of
        Some i \<Rightarrow> (s, SANE_STATUS_GOOD, Some i)
      | None \<Rightarrow> add_backend name s)"

definition opened :: "nat \<Rightarrow> 'w dll \<Rightarrow> 'w \<times> sane_word \<times> sane_handle \<Rightarrow> 'w dll \<times> sane_word \<times> nat option" where
  \<comment> \<open>after the backend's \<open>sane_open\<close>\<close>
  "opened i s = (\<lambda>(w, status, handle).
     let s1 = s\<lparr>dl_world := w\<rparr>
     in if status \<noteq> SANE_STATUS_GOOD then (s1, status, None)
        else case dll_alloc s1 of
          (s2, ok) \<Rightarrow>
            if \<not> ok then (s2, SANE_STATUS_NO_MEM, None)
            else (s2\<lparr>dl_handles := (dl_next s2, \<lparr>ms_be = i, ms_handle = handle\<rparr>) # dl_handles s2,
                     dl_next := Suc (dl_next s2)\<rparr>, SANE_STATUS_GOOD, Some (dl_next s2)))"

definition open_backend :: "'w dll_env \<Rightarrow> nat \<Rightarrow> byte list \<Rightarrow> 'w dll \<Rightarrow> ('w dll \<times> sane_word \<times> nat option) call" where
  \<comment> \<open>initialize the backend if need be, and call its \<open>sane_open\<close>\<close>
  "open_backend env i dev s =
     (case (if be_inited (get_be s i) then (s, SANE_STATUS_GOOD) else init_be env i s) of
        (s1, status) \<Rightarrow>
          if status \<noteq> SANE_STATUS_GOOD then Ret (s1, status, None)
          else case be_op (get_be s1 i) OP_OPEN of
            Op_Null \<Rightarrow> Ret (dll_fail s1, SANE_STATUS_UNSUPPORTED, None)
          | Op_Unsupported \<Rightarrow> Ret (s1, SANE_STATUS_UNSUPPORTED, None)
          | Op_Fun f \<Rightarrow> map_call (opened i s1) (b_open f (dl_world s1) (Some (mk_cstr dev))))"

definition sane_open_dll :: "'w dll_env \<Rightarrow> byte list \<Rightarrow> 'w dll \<Rightarrow> ('w dll \<times> sane_word \<times> nat option) call" where
  \<comment> \<open>the last result is the address of the \<open>meta_scanner\<close>\<close>
  "sane_open_dll env full_name s =
     (case open_target env (resolve_alias (dl_alias s) full_name) s of
        (s1, Inl status) \<Rightarrow> Ret (s1, status, None)
      | (s1, Inr (None, dev)) \<Rightarrow> Ret (s1, SANE_STATUS_NO_MEM, None)
      | (s1, Inr (Some name, dev)) \<Rightarrow>
          (case pick_backend name s1 of
             (s2, status, p) \<Rightarrow>
               if status \<noteq> SANE_STATUS_GOOD then Ret (s2, status, None)
               else case p of
                 None \<Rightarrow> Ret (dll_fail s2, SANE_STATUS_UNSUPPORTED, None)
               | Some i \<Rightarrow> open_backend env i dev s2))"

section \<open>The operations on a handle\<close>

definition get_meta :: "'w dll \<Rightarrow> nat \<Rightarrow> meta_scanner option" where
  "get_meta s h = map_of (dl_handles s) h"

definition meta_op :: "'w dll \<Rightarrow> nat \<Rightarrow> dll_op \<Rightarrow> 'w op_ptr \<times> sane_handle" where
  \<comment> \<open>\<open>s->be->op[i]\<close> and \<open>s->handle\<close>; the null pointer for a handle or a backend that is not there\<close>
  "meta_op s h i =
     (case get_meta s h of
        None \<Rightarrow> (Op_Null, 0)
      | Some m \<Rightarrow>
          if be_freed (get_be s (ms_be m)) then (Op_Null, 0)
          else (be_op (get_be s (ms_be m)) i, ms_handle m))"

definition meta_void :: "dll_op \<Rightarrow> ('w dll_api \<Rightarrow> 'w \<Rightarrow> sane_handle \<Rightarrow> 'w) \<Rightarrow> nat \<Rightarrow> 'w dll \<Rightarrow> 'w dll" where
  \<comment> \<open>a call without a result\<close>
  "meta_void i op h s =
     (case meta_op s h i of
        (Op_Null, k) \<Rightarrow> dll_fail s
      | (Op_Unsupported, k) \<Rightarrow> s
      | (Op_Fun f, k) \<Rightarrow> s\<lparr>dl_world := op f (dl_world s) k\<rparr>)"

definition meta_call :: "dll_op \<Rightarrow> ('w dll_api \<Rightarrow> 'w \<Rightarrow> sane_handle \<Rightarrow> 'w \<times> sane_word \<times> 'r) \<Rightarrow> nat \<Rightarrow> 'w dll \<Rightarrow>
    'w dll \<times> sane_word \<times> 'r option" where
  \<comment> \<open>a call with a status; what the function writes through pointers is there when it is called\<close>
  "meta_call i op h s =
     (case meta_op s h i of
        (Op_Null, k) \<Rightarrow> (dll_fail s, SANE_STATUS_UNSUPPORTED, None)
      | (Op_Unsupported, k) \<Rightarrow> (s, SANE_STATUS_UNSUPPORTED, None)
      | (Op_Fun f, k) \<Rightarrow> (case op f (dl_world s) k of (w, status, r) \<Rightarrow> (s\<lparr>dl_world := w\<rparr>, status, Some r)))"

definition sane_close_dll :: "nat \<Rightarrow> 'w dll \<Rightarrow> 'w dll" where
  "sane_close_dll h s =
     (let s1 = meta_void OP_CLOSE (\<lambda>f. b_close f) h s
      in s1\<lparr>dl_handles := filter (\<lambda>(k, m). k \<noteq> h) (dl_handles s1)\<rparr>)"

datatype desc_ptr = Desc_Null | Desc sane_option_descriptor | Desc_Invalid

text \<open>The pointer \<open>sane_get_option_descriptor\<close> returns; \<open>Desc_Invalid\<close> is the address 1.\<close>

definition sane_get_option_descriptor_dll :: "nat \<Rightarrow> nat \<Rightarrow> 'w dll \<Rightarrow> 'w dll \<times> desc_ptr" where
  \<comment> \<open>\<open>op_unsupported\<close> returns its status code as a pointer\<close>
  "sane_get_option_descriptor_dll h option s =
     (case meta_op s h OP_GET_OPTION_DESC of
        (Op_Null, k) \<Rightarrow> (dll_fail s, Desc_Null)
      | (Op_Unsupported, k) \<Rightarrow> (s, Desc_Invalid)
      | (Op_Fun f, k) \<Rightarrow>
          (s, case b_descriptor f (dl_world s) k option of Some d \<Rightarrow> Desc d | None \<Rightarrow> Desc_Null))"

definition sane_control_option_dll :: "nat \<Rightarrow> sane_word \<Rightarrow> sane_word \<Rightarrow> ctl_value \<Rightarrow> 'w dll \<Rightarrow>
    ('w dll \<times> sane_word \<times> (ctl_value \<times> sane_word) option) call" where
  "sane_control_option_dll h option action v s =
     (case meta_op s h OP_CTL_OPTION of
        (Op_Null, k) \<Rightarrow> Ret (dll_fail s, SANE_STATUS_UNSUPPORTED, None)
      | (Op_Unsupported, k) \<Rightarrow> Ret (s, SANE_STATUS_UNSUPPORTED, None)
      | (Op_Fun f, k) \<Rightarrow>
          map_call (\<lambda>(w, status, r). (s\<lparr>dl_world := w\<rparr>, status, Some r)) (b_control f (dl_world s) k option action v))"

definition sane_get_parameters_dll :: "nat \<Rightarrow> 'w dll \<Rightarrow> 'w dll \<times> sane_word \<times> sane_parameters option" where
  "sane_get_parameters_dll = meta_call OP_GET_PARAMS (\<lambda>f. b_params f)"

definition sane_start_dll :: "nat \<Rightarrow> 'w dll \<Rightarrow> ('w dll \<times> sane_word) call" where
  "sane_start_dll h s =
     (case meta_op s h OP_START of
        (Op_Null, k) \<Rightarrow> Ret (dll_fail s, SANE_STATUS_UNSUPPORTED)
      | (Op_Unsupported, k) \<Rightarrow> Ret (s, SANE_STATUS_UNSUPPORTED)
      | (Op_Fun f, k) \<Rightarrow> map_call (\<lambda>(w, status). (s\<lparr>dl_world := w\<rparr>, status)) (b_start f (dl_world s) k))"

definition sane_read_dll :: "nat \<Rightarrow> nat \<Rightarrow> 'w dll \<Rightarrow> 'w dll \<times> sane_word \<times> byte list option" where
  "sane_read_dll h max_length = meta_call OP_READ (\<lambda>f w k. b_read f w k max_length) h"

definition sane_cancel_dll :: "nat \<Rightarrow> 'w dll \<Rightarrow> 'w dll" where
  "sane_cancel_dll = meta_void OP_CANCEL (\<lambda>f. b_cancel f)"

definition sane_set_io_mode_dll :: "nat \<Rightarrow> bool \<Rightarrow> 'w dll \<Rightarrow> 'w dll \<times> sane_word" where
  "sane_set_io_mode_dll h non_blocking s =
     (case meta_call OP_SET_IO_MODE (\<lambda>f w k. case b_set_io_mode f w k non_blocking of (w1, status) \<Rightarrow> (w1, status, ())) h s of
        (s1, status, _) \<Rightarrow> (s1, status))"

definition sane_get_select_fd_dll :: "nat \<Rightarrow> 'w dll \<Rightarrow> 'w dll \<times> sane_word \<times> sane_word option" where
  "sane_get_select_fd_dll = meta_call OP_GET_SELECT_FD (\<lambda>f. b_select_fd f)"

definition sane_read_dup_dll :: "nat \<Rightarrow> nat \<Rightarrow> 'w dll \<Rightarrow> 'w dll \<times> sane_word \<times> (byte list \<times> byte list) option" where
  \<comment> \<open>the test for \<open>op_unsupported\<close> gives what its call would\<close>
  "sane_read_dup_dll h max_len = meta_call OP_READ_DUP (\<lambda>f w k. b_read_dup f w k max_len) h"

end
