(* ===== verification/Dll_Config.thy ===== *)
theory Dll_Config
  imports Dll_Ops Config_Props
begin

text \<open>
  The configuration of the backend loader: a text file is read line by line, each line trimmed; the
  backends of \<^verbatim>\<open>dll.conf\<close> end up in the reverse order of their last mention; the lines of
  \<^verbatim>\<open>dll.aliases\<close> are parsed back into the aliases they were written from.
\<close>

section \<open>The lines of a text file\<close>

lemma config_loop_text:
  "text_lines ls \<Longrightarrow> length buf = PATH_MAX \<Longrightarrow> length ls < n \<Longrightarrow>
    config_loop n body buf (file_text ls) s = fold (\<lambda>l. body (trim l)) ls s"
proof (induction ls arbitrary: n buf s)
  case Nil
  then obtain m where "n = Suc m" by (cases n) auto
  with Nil show ?case using read_conf_end by simp
next
  case (Cons l ls)
  then obtain m where m: "n = Suc m" "length ls < m" by (cases n) auto
  obtain b where b: "sanei_config_read buf PATH_MAX (file_text (l # ls)) = Cfg_Line b (file_text ls)"
    "c_str b = Some (trim l)" "length b = PATH_MAX"
    using Cons.prems by (elim read_conf_line)
  with Cons m show ?case by (simp del: file_text_Cons)
qed

lemma config_file_text:
  assumes "de_paths env = Some paths" "sanei_config_open (de_files env) paths name = Some (file_text ls)" "text_lines ls"
  shows "config_file env body name s = fold (\<lambda>l. body (trim l)) ls s"
proof -
  have "config_loop (Suc (length (file_text ls))) body (replicate PATH_MAX 0) (file_text ls) s = fold (\<lambda>l. body (trim l)) ls s"
    using file_text_length [of ls] by (intro config_loop_text assms(3)) simp_all
  with assms(1,2) show ?thesis by (simp add: config_file_def del: config_loop.simps)
qed

section \<open>The order of the backends\<close>

definition be_names :: "'w dll \<Rightarrow> byte list list" where
  "be_names s = map (\<lambda>i. be_name (get_be s i)) (dl_first s)"

definition registry :: "'w dll \<Rightarrow> bool" where
  \<comment> \<open>the list of backends has no cycle, no released entry, and no name twice\<close>
  "registry s \<longleftrightarrow> distinct (dl_first s) \<and> distinct (be_names s) \<and>
     (\<forall>i \<in> set (dl_first s). i < length (dl_bes s) \<and> \<not> be_freed (dl_bes s ! i))"

lemma get_be_simps [simp]:
  "get_be (s\<lparr>dl_first := is\<rparr>) i = get_be s i" "get_be (s\<lparr>dl_alias := as\<rparr>) i = get_be s i"
  "get_be (s\<lparr>dl_list := l\<rparr>) i = get_be s i" "get_be (s\<lparr>dl_size := n\<rparr>) i = get_be s i"
  "get_be (s\<lparr>dl_len := n\<rparr>) i = get_be s i" "get_be (s\<lparr>dl_handles := hs\<rparr>) i = get_be s i"
  "get_be (s\<lparr>dl_next := n\<rparr>) i = get_be s i" "get_be (s\<lparr>dl_malloc := bs\<rparr>) i = get_be s i"
  "get_be (s\<lparr>dl_world := w\<rparr>) i = get_be s i" "get_be (s\<lparr>dl_fault := b\<rparr>) i = get_be s i"
  by (simp_all add: get_be_def)

lemma find_backend_Some:
  "find_backend s name = Some i \<Longrightarrow> i \<in> set (dl_first s) \<and> be_name (get_be s i) = name"
  by (auto simp: find_backend_def find_Some_iff)

lemma find_backend_None: "find_backend s name = None \<longleftrightarrow> name \<notin> set (be_names s)"
  by (auto simp: find_backend_def find_None_iff be_names_def)

lemma find_backend_in:
  assumes "registry s" "i \<in> set (dl_first s)"
  shows "find_backend s (be_name (get_be s i)) = Some i"
proof -
  have "be_name (get_be s i) \<in> set (be_names s)" using assms(2) by (auto simp: be_names_def)
  then obtain j where j: "find_backend s (be_name (get_be s i)) = Some j"
    using find_backend_None by (metis not_Some_eq)
  with find_backend_Some have "j \<in> set (dl_first s)" "be_name (get_be s j) = be_name (get_be s i)" by blast+
  moreover have "inj_on (\<lambda>i. be_name (get_be s i)) (set (dl_first s))"
    using assms(1) by (simp add: registry_def be_names_def distinct_map)
  ultimately have "j = i" using assms(2) by (simp add: inj_on_def)
  with j show ?thesis by simp
qed

lemma move_front_names:
  assumes "registry s" "i \<in> set (dl_first s)"
  shows "be_names (s\<lparr>dl_first := i # remove1 i (dl_first s)\<rparr>) =
    be_name (get_be s i) # filter (\<lambda>n. n \<noteq> be_name (get_be s i)) (be_names s)"
proof -
  let ?f = "\<lambda>i. be_name (get_be s i)"
  have inj: "inj_on ?f (set (dl_first s))" and d: "distinct (dl_first s)"
    using assms(1) by (simp_all add: registry_def be_names_def distinct_map)
  have "map ?f (filter (\<lambda>j. j \<noteq> i) (dl_first s)) = filter (\<lambda>n. n \<noteq> ?f i) (map ?f (dl_first s))"
    using inj assms(2) by (auto simp: filter_map o_def inj_on_def intro!: arg_cong [where f = "map ?f"] filter_cong)
  with d show ?thesis
    by (simp add: be_names_def distinct_remove1_removeAll removeAll_filter_not_eq neq_commute)
qed

lemma add_backend_names:
  assumes "registry s" "dl_malloc s = []" "name \<noteq> ascii ''dll''"
  shows "be_names (fst (add_backend name s)) = name # filter (\<lambda>n. n \<noteq> name) (be_names s)"
proof (cases "find_backend s name")
  case None
  then have "name \<notin> set (be_names s)" by (simp add: find_backend_None)
  then have "filter (\<lambda>n. n \<noteq> name) (be_names s) = be_names s" by (auto simp: filter_id_conv)
  moreover have "map (\<lambda>i. be_name (get_be (s\<lparr>dl_bes := dl_bes s @ [new_entry name], dl_first := is\<rparr>) i)) (dl_first s) = be_names s" for "is"
    using assms(1) by (auto simp: be_names_def registry_def get_be_def nth_append)
  ultimately show ?thesis
    using None assms(2,3) by (simp add: add_backend_def dll_alloc_def be_names_def get_be_def new_entry_def)
next
  case (Some i)
  with find_backend_Some [OF Some] move_front_names [OF assms(1), of i] assms show ?thesis
    by (auto simp: add_backend_def)
qed

lemma registry_add:
  assumes "registry s" "name \<notin> set (be_names s)"
  shows "registry (s\<lparr>dl_bes := dl_bes s @ [new_entry name], dl_first := length (dl_bes s) # dl_first s\<rparr>)"
proof -
  have "map (\<lambda>i. be_name (get_be (s\<lparr>dl_bes := dl_bes s @ [new_entry name], dl_first := is\<rparr>) i)) (dl_first s) = be_names s" for "is"
    using assms(1) by (auto simp: be_names_def registry_def get_be_def nth_append)
  with assms show ?thesis
    by (auto simp: registry_def be_names_def [of "s\<lparr>dl_bes := _, dl_first := _\<rparr>"] get_be_def new_entry_def nth_append)
qed

lemma registry_move:
  assumes "registry s" "i \<in> set (dl_first s)"
  shows "registry (s\<lparr>dl_first := i # remove1 i (dl_first s)\<rparr>)"
proof -
  have "distinct (be_names (s\<lparr>dl_first := i # remove1 i (dl_first s)\<rparr>))"
    using assms(1) by (simp add: move_front_names [OF assms] registry_def)
  with assms show ?thesis by (auto simp: registry_def dest: notin_set_remove1)
qed

lemma be_names_simps [simp]:
  "be_names (s\<lparr>dl_malloc := bs\<rparr>) = be_names s" "be_names (s\<lparr>dl_world := w\<rparr>) = be_names s"
  "be_names (s\<lparr>dl_alias := as\<rparr>) = be_names s" "be_names (s\<lparr>dl_fault := b\<rparr>) = be_names s"
  by (simp_all add: be_names_def)

lemma registry_simps [simp]:
  "registry (s\<lparr>dl_malloc := bs\<rparr>) = registry s" "registry (s\<lparr>dl_world := w\<rparr>) = registry s"
  "registry (s\<lparr>dl_alias := as\<rparr>) = registry s" "registry (s\<lparr>dl_fault := b\<rparr>) = registry s"
  by (simp_all add: registry_def)

lemma dll_alloc_result: "dll_alloc s = (s1, ok) \<Longrightarrow> \<exists>bs. s1 = s\<lparr>dl_malloc := bs\<rparr>"
  by (cases "dl_malloc s") (auto simp: dll_alloc_def intro: exI [of _ "[]"])

lemma dll_alloc_ok [simp]: "dl_malloc s = [] \<Longrightarrow> dll_alloc s = (s, True)"
  by (simp add: dll_alloc_def)

lemma add_backend_registry: "registry s \<Longrightarrow> registry (fst (add_backend name s))"
proof (cases "find_backend s name")
  case (Some i)
  assume "registry s"
  with Some find_backend_Some [OF Some] show ?thesis by (simp add: add_backend_def registry_move)
next
  case None
  assume s: "registry s"
  obtain s1 ok1 s2 ok2 where a: "dll_alloc s = (s1, ok1)" "dll_alloc s1 = (s2, ok2)" by fastforce
  then obtain bs cs where "s1 = s\<lparr>dl_malloc := bs\<rparr>" "s2 = s1\<lparr>dl_malloc := cs\<rparr>"
    using dll_alloc_result by blast
  with s have "registry s1" "registry s2" "name \<notin> set (be_names s2)"
    using None by (simp_all add: find_backend_None)
  with a s None show ?thesis by (auto simp: add_backend_def registry_add)
qed

section \<open>The lines of dll.conf\<close>

datatype conf_item =
    Conf_Blank "byte list"
  | Conf_Comment "byte list"
  | Conf_Backend "byte list" "byte list"

fun conf_text :: "conf_item \<Rightarrow> byte list" where
  "conf_text (Conf_Blank t) = t"
| "conf_text (Conf_Comment t) = 35 # t"
| "conf_text (Conf_Backend n t) = n @ t"

fun conf_item_ok :: "conf_item \<Rightarrow> bool" where
  \<comment> \<open>white space; a comment; a name, and what follows it after a blank or a hash mark\<close>
  "conf_item_ok (Conf_Blank t) \<longleftrightarrow> (\<forall>c \<in> set t. is_space c)"
| "conf_item_ok (Conf_Comment t) \<longleftrightarrow> True"
| "conf_item_ok (Conf_Backend n t) \<longleftrightarrow> n \<noteq> [] \<and> hd n \<noteq> 34 \<and> (\<forall>c \<in> set n. \<not> is_space c \<and> c \<noteq> 35) \<and>
     (t = [] \<or> hd t = 35 \<or> is_space (hd t))"

fun conf_names :: "conf_item list \<Rightarrow> byte list list" where
  "conf_names [] = []"
| "conf_names (Conf_Backend n t # is) = n # conf_names is"
| "conf_names (_ # is) = conf_names is"

lemma trim_append:
  assumes "n \<noteq> []" "\<forall>c \<in> set n. \<not> is_space c"
  shows "trim (n @ t) = n @ rev (dropWhile is_space (rev t))"
proof -
  have n: "hd (rev n) \<in> set n" "dropWhile is_space (rev n) = rev n"
    using assms by (simp_all add: dropWhile_eq_self_iff hd_rev)
  have "dropWhile is_space (rev t @ rev n) = dropWhile is_space (rev t) @ rev n"
  proof (cases "\<forall>c \<in> set t. is_space c")
    case True
    then have "dropWhile is_space (rev t) = []" by simp
    moreover have "dropWhile is_space (rev t @ rev n) = dropWhile is_space (rev n)"
      using True by (intro dropWhile_append2) simp
    ultimately show ?thesis using n by simp
  next
    case False
    then show ?thesis by (auto simp: dropWhile_append1)
  qed
  moreover have "dropWhile is_space (n @ r) = n @ r" for r
    using assms by (cases n) auto
  ultimately show ?thesis by (simp add: trim_def)
qed

lemma trim_comment: "trim (35 # t) = 35 # rev (dropWhile is_space (rev t))"
  using trim_append [of "[35]" t] by (simp add: is_space_def)

lemma trim_spaces:
  assumes "\<forall>c \<in> set t. is_space c"
  shows "trim t = []"
proof -
  have "dropWhile is_space (rev t) = []" using assms by simp
  then show ?thesis by (simp only: trim_def) simp
qed

lemma get_string_word:
  assumes "n \<noteq> []" "hd n \<noteq> 34" "\<forall>c \<in> set n. \<not> is_space c"
  shows "sanei_config_get_string (n @ t) = (dropWhile (\<lambda>b. \<not> is_space b) t, Some (n @ takeWhile (\<lambda>b. \<not> is_space b) t))"
proof -
  obtain c cs where n: "n = c # cs" "c \<noteq> 34" using assms(1,2) by (cases n) auto
  have "dropWhile (\<lambda>b. \<not> is_space b) (n @ t) = dropWhile (\<lambda>b. \<not> is_space b) t"
    "takeWhile (\<lambda>b. \<not> is_space b) (n @ t) = n @ takeWhile (\<lambda>b. \<not> is_space b) t"
    using assms(3) by (simp_all add: dropWhile_append2 takeWhile_append2)
  with n assms(3) show ?thesis by (simp add: sanei_config_get_string_def Let_def)
qed

lemma stripped_head:
  assumes "t = [] \<or> P (hd t)"
  shows "rev (dropWhile is_space (rev t)) = [] \<or> P (hd (rev (dropWhile is_space (rev t))))"
proof -
  obtain r where r: "t = rev (dropWhile is_space (rev t)) @ r"
    by (metis rev_append rev_rev_ident takeWhile_dropWhile_id)
  show ?thesis
  proof (cases "rev (dropWhile is_space (rev t)) = []")
    case False
    then have "hd t = hd (rev (dropWhile is_space (rev t)))" by (metis r hd_append2)
    moreover have "t \<noteq> []" using False by auto
    ultimately show ?thesis using assms by simp
  qed simp
qed

lemma backend_line_item:
  assumes "conf_item_ok item" "dl_malloc s = []"
  shows "backend_line (trim (conf_text item)) s =
    (case item of Conf_Backend n t \<Rightarrow> fst (add_backend n s) | _ \<Rightarrow> s)"
proof (cases item)
  case (Conf_Blank t)
  with assms show ?thesis by (simp add: trim_spaces backend_line_def sanei_config_get_string_def)
next
  case (Conf_Comment t)
  then show ?thesis
    using get_string_word [of "[35]" "rev (dropWhile is_space (rev t))"] assms(2)
    by (simp add: trim_comment backend_line_def is_space_def)
next
  case (Conf_Backend n t)
  define r where "r = rev (dropWhile is_space (rev t))"
  have n: "n \<noteq> []" "hd n \<noteq> 34" "\<forall>c \<in> set n. \<not> is_space c" "\<forall>c \<in> set n. c \<noteq> 35"
    using assms(1) Conf_Backend by auto
  have line: "trim (conf_text item) = n @ r" using trim_append [OF n(1,3)] by (simp add: Conf_Backend r_def)
  have "r = [] \<or> hd r = 35 \<or> is_space (hd r)"
    unfolding r_def using assms(1) Conf_Backend by (intro stripped_head) simp
  then have "takeWhile (\<lambda>b. b \<noteq> 35) (takeWhile (\<lambda>b. \<not> is_space b) r) = []" by (cases r) auto
  with n have cut: "takeWhile (\<lambda>b. b \<noteq> 35) (n @ takeWhile (\<lambda>b. \<not> is_space b) r) = n"
    by (simp add: takeWhile_append2)
  have "length (dropWhile (\<lambda>b. \<not> is_space b) r) \<le> length r" by (rule length_dropWhile_le)
  with n(1) have "length (dropWhile (\<lambda>b. \<not> is_space b) r) < length (n @ r)" by (cases n) auto
  then have "dropWhile (\<lambda>b. \<not> is_space b) r \<noteq> n @ r" by (metis less_irrefl)
  moreover have "hd (n @ takeWhile (\<lambda>b. \<not> is_space b) r) \<noteq> 35" using n(1,4) by simp
  ultimately show ?thesis
    unfolding line using get_string_word [OF n(1-3), of r] n(1) assms(2) cut
    by (simp add: backend_line_def Conf_Backend)
qed

lemma remdups_snoc: "remdups (xs @ [x]) = filter (\<lambda>y. y \<noteq> x) (remdups xs) @ [x]"
  by (induction xs) auto

lemma add_backend_malloc: "dl_malloc s = [] \<Longrightarrow> dl_malloc (fst (add_backend n s)) = []"
  by (simp add: add_backend_def split: option.split)

lemma conf_lines_names:
  assumes "registry s" "dl_malloc s = []" "list_all conf_item_ok items"
  shows "be_names (fold (\<lambda>l. backend_line (trim l)) (map conf_text items) s) =
    rev (remdups (rev (be_names s) @ filter (\<lambda>n. n \<noteq> ascii ''dll'') (conf_names items)))"
  using assms
proof (induction items arbitrary: s)
  case Nil
  then have "distinct (rev (be_names s))" by (simp add: registry_def)
  then show ?case by (simp add: distinct_remdups_id)
next
  case (Cons item items)
  show ?case
  proof (cases "\<exists>n t. item = Conf_Backend n t \<and> n \<noteq> ascii ''dll''")
    case False
    then have "backend_line (trim (conf_text item)) s = s"
      using Cons.prems backend_line_item [of item s] by (cases item) (auto simp: add_backend_def)
    with Cons False show ?thesis by (cases item) auto
  next
    case True
    then obtain n t where n: "item = Conf_Backend n t" "n \<noteq> ascii ''dll''" by blast
    let ?s = "fst (add_backend n s)"
    have "distinct (rev (be_names s))" using Cons.prems(1) by (simp add: registry_def)
    then have "remdups (rev (be_names s) @ [n]) = rev (be_names ?s)"
      using add_backend_names [OF Cons.prems(1,2) n(2)] by (simp add: remdups_snoc distinct_remdups_id rev_filter)
    moreover have "remdups (xs @ ys) = remdups (remdups xs @ ys)" for xs ys :: "byte list list"
      by (induction xs) auto
    ultimately have "remdups ((rev (be_names s) @ [n]) @ ys) = remdups (rev (be_names ?s) @ ys)" for ys
      by metis
    moreover have "be_names (fold (\<lambda>l. backend_line (trim l)) (map conf_text items) ?s) =
        rev (remdups (rev (be_names ?s) @ filter (\<lambda>n. n \<noteq> ascii ''dll'') (conf_names items)))"
      using Cons by (intro Cons.IH) (simp_all add: add_backend_registry add_backend_malloc)
    ultimately show ?thesis
      using Cons.prems backend_line_item [of item s] n by simp
  qed
qed

text \<open> C10: the order of the backends.  Reading \<^verbatim>\<open>dll.conf\<close> leaves the list of backends in the reverse order
  of their last mention, those known before counting as mentioned first: a backend named
  again moves to the front, comments and blank lines add nothing, and the name \<open>dll\<close> is left out.\<close>

theorem backends_last_first:
  assumes "de_paths env = Some paths"
    and "sanei_config_open (de_files env) paths name = Some (file_text (map conf_text items))"
    and "text_lines (map conf_text items)" "list_all conf_item_ok items"
    and "registry s" "dl_malloc s = []"
  shows "be_names (read_config env name s) =
    rev (remdups (rev (be_names s) @ filter (\<lambda>n. n \<noteq> ascii ''dll'') (conf_names items)))"
  using config_file_text [OF assms(1-3)] conf_lines_names [OF assms(5,6,4)] by (simp add: read_config_def)

section \<open>The lines of dll.aliases\<close>

definition alias_text :: "dll_alias \<Rightarrow> byte list" where
  "alias_text a = (case al_new a of
     Some new \<Rightarrow> ascii ''alias '' @ 34 # new @ 34 # 32 # al_old a
   | None \<Rightarrow> ascii ''hide '' @ al_old a)"

definition alias_ok :: "dll_alias \<Rightarrow> bool" where
  "alias_ok a \<longleftrightarrow> al_old a \<noteq> [] \<and> (\<forall>c \<in> set (al_old a). \<not> is_space c \<and> c \<noteq> 35) \<and>
     (case al_new a of Some new \<Rightarrow> 34 \<notin> set new \<and> 35 \<notin> set new | None \<Rightarrow> True)"

lemma c_strpbrk_hit: "\<forall>c \<in> set s. \<not> p c \<Longrightarrow> p d \<Longrightarrow> c_strpbrk (s @ d # r) p = Some (s, r)"
  by (simp add: c_strpbrk_def dropWhile_append2 takeWhile_append2)

lemma alias_old_word:
  assumes "w \<noteq> []" "\<forall>c \<in> set w. \<not> is_space c"
  shows "alias_old new (32 # w) = Some (w, new)" "alias_old new w = Some (w, new)"
proof -
  have "is_space 32" by (simp add: is_space_def)
  moreover have "\<forall>c \<in> set w. \<not> is_blank c" using assms(2) by (auto simp: is_blank_def is_space_def)
  then have "takeWhile (\<lambda>b. \<not> is_blank b) w = w" by (simp add: takeWhile_eq_all_conv)
  moreover have "sanei_config_skip_whitespace w = w" using assms by (cases w) auto
  ultimately show "alias_old new (32 # w) = Some (w, new)" "alias_old new w = Some (w, new)"
    using assms(1) by (simp_all add: alias_old_def)
qed

lemma alias_line_text:
  assumes "alias_ok a"
  shows "alias_line (alias_text a) = Some (al_old a, al_new a)"
proof -
  have w: "al_old a \<noteq> []" "\<forall>c \<in> set (al_old a). \<not> is_space c" "35 \<notin> set (al_old a)"
    using assms by (auto simp: alias_ok_def)
  have cut: "takeWhile (\<lambda>b. b \<noteq> 35) t = t" if "35 \<notin> set t" for t :: "byte list"
    using that by (auto simp: takeWhile_eq_all_conv)
  show ?thesis
  proof (cases "al_new a")
    case None
    have "alias_text a = ascii ''hide'' @ 32 # al_old a" by (simp add: alias_text_def None ascii_def)
    moreover have "sanei_config_skip_whitespace (ascii ''hide'' @ r) = ascii ''hide'' @ r" for r
      by (simp add: ascii_def is_space_def)
    moreover have "35 \<notin> set (ascii ''hide'' @ 32 # al_old a)" using w(3) by (simp add: ascii_def)
    moreover have "c_strpbrk (ascii ''hide'' @ 32 # al_old a) is_blank = Some (ascii ''hide'', al_old a)"
      by (intro c_strpbrk_hit) (simp_all add: ascii_def is_blank_def)
    moreover have "ascii ''hide'' \<noteq> ascii ''alias''" by (simp add: ascii_def)
    ultimately show ?thesis
      using alias_old_word(2) [OF w(1,2)] None by (simp add: alias_line_def cut)
  next
    case (Some new)
    then have n: "34 \<notin> set new" "35 \<notin> set new" using assms by (auto simp: alias_ok_def)
    let ?r = "34 # new @ 34 # 32 # al_old a"
    have "alias_text a = ascii ''alias'' @ 32 # ?r" by (simp add: alias_text_def Some ascii_def)
    moreover have "sanei_config_skip_whitespace (ascii ''alias'' @ r) = ascii ''alias'' @ r" for r
      by (simp add: ascii_def is_space_def)
    moreover have "35 \<notin> set (ascii ''alias'' @ 32 # ?r)" using w(3) n(2) by (simp add: ascii_def)
    moreover have "c_strpbrk (ascii ''alias'' @ 32 # ?r) is_blank = Some (ascii ''alias'', ?r)"
      by (intro c_strpbrk_hit) (simp_all add: ascii_def is_blank_def)
    moreover have "sanei_config_skip_whitespace ?r = ?r" by (simp add: is_space_def)
    moreover have "c_strpbrk (new @ 34 # 32 # al_old a) (\<lambda>b. b = 34) = Some (new, 32 # al_old a)"
      using n(1) by (intro c_strpbrk_hit) auto
    ultimately show ?thesis
      using alias_old_word(1) [OF w(1,2)] Some by (simp add: alias_line_def cut)
  qed
qed

lemma add_alias_text:
  assumes "alias_ok a" "dl_malloc s = []"
  shows "add_alias (trim (alias_text a)) s = s\<lparr>dl_alias := a # dl_alias s\<rparr>"
proof -
  have w: "al_old a \<noteq> []" "\<not> is_space (last (al_old a))" using assms(1) by (auto simp: alias_ok_def)
  have "trim (alias_text a) = alias_text a"
    using w by (intro trim_word) (auto simp: alias_text_def ascii_def is_space_def split: option.split)
  with assms show ?thesis by (simp add: add_alias_def alias_line_text)
qed

lemma alias_lines:
  assumes "list_all alias_ok as" "dl_malloc s = []"
  shows "fold (\<lambda>l s. if trim l = [] \<or> hd (trim l) = 35 then s else add_alias (trim l) s) (map alias_text as) s =
    s\<lparr>dl_alias := rev as @ dl_alias s\<rparr>"
  using assms
proof (induction as arbitrary: s)
  case (Cons a as)
  have w: "al_old a \<noteq> []" "\<not> is_space (last (al_old a))" using Cons.prems(1) by (auto simp: alias_ok_def)
  have "trim (alias_text a) = alias_text a"
    using w by (intro trim_word) (auto simp: alias_text_def ascii_def is_space_def split: option.split)
  moreover have "alias_text a \<noteq> [] \<and> hd (alias_text a) \<noteq> 35"
    by (simp add: alias_text_def ascii_def split: option.split)
  ultimately show ?case
    using Cons add_alias_text [of a s] by simp
qed simp

text \<open> The file of aliases.  \<open>read_aliases\<close> recovers from the lines \<^verbatim>\<open>alias "new" old\<close> and \<^verbatim>\<open>hide old\<close>
  exactly the aliases they were written from, the last line first, for new names without quotes and
  hash marks and old names without white space and hash marks.\<close>

theorem aliases_read_back:
  assumes "de_paths env = Some paths"
    and "sanei_config_open (de_files env) paths name = Some (file_text (map alias_text as))"
    and "text_lines (map alias_text as)" "list_all alias_ok as" "dl_malloc s = []"
  shows "read_aliases env name s = s\<lparr>dl_alias := rev as @ dl_alias s\<rparr>"
  using config_file_text [OF assms(1-3)] alias_lines [OF assms(4,5)] by (simp add: read_aliases_def)

end
