(* ===== verification/Dll_Inv.thy ===== *)
theory Dll_Inv
  imports Dll_Config
begin

text \<open>
  What the operations of the backend loader keep: the list of backends has no cycle and no name
  twice, a loaded backend has a function for each operation, a handle names a loaded backend, and the
  list of devices is a terminated list in a block of the size noted.
\<close>

section \<open>The state of the backends\<close>

definition lists_ok :: "'w dll_api \<Rightarrow> bool" where
  \<comment> \<open>a list of devices a backend returns is terminated, and its names can be read\<close>
  "lists_ok f \<longleftrightarrow> (\<forall>w local_only w1 l. b_get_devices f w local_only = (w1, SANE_STATUS_GOOD, Some l) \<longrightarrow>
     None \<in> set l \<and> (\<forall>d. Some d \<in> set l \<longrightarrow> Option.bind (dev_name d) c_str \<noteq> None))"

definition entry_ok :: "'w be_entry \<Rightarrow> bool" where
  "entry_ok b \<longleftrightarrow> (be_inited b \<longrightarrow> be_loaded b) \<and> (be_loaded b \<longrightarrow> (\<forall>i. be_op b i \<noteq> Op_Null)) \<and>
     (be_permanent b \<longrightarrow> be_loaded b \<and> \<not> be_freed b) \<and> (\<forall>i f. be_op b i = Op_Fun f \<longrightarrow> lists_ok f)"

definition meta_ok :: "'w dll \<Rightarrow> meta_scanner \<Rightarrow> bool" where
  "meta_ok s m \<longleftrightarrow> ms_be m < length (dl_bes s) \<and> be_loaded (dl_bes s ! ms_be m)"

definition backends_ok :: "'w dll \<Rightarrow> bool" where
  \<comment> \<open>the invariant of everything but the list of devices, while there is memory\<close>
  "backends_ok s \<longleftrightarrow> registry s \<and> (\<forall>b \<in> set (dl_bes s). entry_ok b) \<and> (\<forall>(h, m) \<in> set (dl_handles s). meta_ok s m) \<and>
     dl_malloc s = [] \<and> \<not> dl_fault s"

definition libs_ok :: "'w dll_env \<Rightarrow> bool" where
  "libs_ok env \<longleftrightarrow> (\<forall>path lib name f. de_libs env path = Some (Some lib) \<longrightarrow> lib name = Some f \<longrightarrow> lists_ok f)"

lemma table_entry: "backends_ok s \<Longrightarrow> i < length (dl_bes s) \<Longrightarrow> entry_ok (get_be s i)"
  by (simp add: backends_ok_def get_be_def)

lemma table_first: "backends_ok s \<Longrightarrow> i \<in> set (dl_first s) \<Longrightarrow> i < length (dl_bes s)"
  by (simp add: backends_ok_def registry_def)

lemma table_simps [simp]:
  "backends_ok (s\<lparr>dl_world := w\<rparr>) = backends_ok s" "backends_ok (s\<lparr>dl_alias := as\<rparr>) = backends_ok s"
  by (simp_all add: backends_ok_def meta_ok_def)

lemma upd_be_simps [simp]:
  "dl_first (upd_be i f s) = dl_first s" "dl_alias (upd_be i f s) = dl_alias s" "dl_list (upd_be i f s) = dl_list s"
  "dl_size (upd_be i f s) = dl_size s" "dl_len (upd_be i f s) = dl_len s" "dl_handles (upd_be i f s) = dl_handles s"
  "dl_next (upd_be i f s) = dl_next s" "dl_malloc (upd_be i f s) = dl_malloc s" "dl_world (upd_be i f s) = dl_world s"
  "dl_fault (upd_be i f s) = dl_fault s" "length (dl_bes (upd_be i f s)) = length (dl_bes s)"
  by (simp_all add: upd_be_def)

lemma get_upd_be: "get_be (upd_be i f s) j = (if i = j \<and> i < length (dl_bes s) then f (get_be s i) else get_be s j)"
  by (auto simp: upd_be_def get_be_def)

lemma nth_upd_be: "j < length (dl_bes s) \<Longrightarrow> dl_bes (upd_be i f s) ! j = (if i = j then f (dl_bes s ! i) else dl_bes s ! j)"
  by (auto simp: upd_be_def get_be_def)

lemma table_upd:
  assumes "backends_ok s" "entry_ok (f (get_be s i))" "be_name (f (get_be s i)) = be_name (get_be s i)"
    and "be_freed (f (get_be s i)) = be_freed (get_be s i)" "be_loaded (get_be s i) \<Longrightarrow> be_loaded (f (get_be s i))"
  shows "backends_ok (upd_be i f s)"
proof -
  have "be_names (upd_be i f s) = be_names s"
    using assms(3) by (auto simp: be_names_def get_upd_be)
  moreover have "be_freed (dl_bes (upd_be i f s) ! j) = be_freed (dl_bes s ! j)" if "j < length (dl_bes s)" for j
    using assms(4) that by (auto simp: nth_upd_be get_be_def)
  ultimately have "registry (upd_be i f s)"
    using assms(1) by (auto simp: backends_ok_def registry_def)
  moreover have "\<forall>b \<in> set (dl_bes (upd_be i f s)). entry_ok b"
    using assms(1,2) unfolding upd_be_def backends_ok_def by (auto dest!: set_update_subset_insert [THEN subsetD])
  moreover have "meta_ok (upd_be i f s) m" if "meta_ok s m" for m
    using that assms(5) by (auto simp: meta_ok_def nth_upd_be get_be_def split: if_splits)
  ultimately show ?thesis using assms(1) by (auto simp: backends_ok_def)
qed

lemma entry_init: "entry_ok b \<Longrightarrow> be_loaded b \<Longrightarrow> entry_ok (b\<lparr>be_inited := True\<rparr>)"
  by (simp add: entry_ok_def)

lemma entry_unsupported: "entry_ok b \<Longrightarrow> entry_ok (b\<lparr>be_loaded := True, be_handle := l, be_op := (\<lambda>_. Op_Unsupported)\<rparr>)"
  by (simp add: entry_ok_def)

lemma find_lib_env: "find_lib env name dirs = Some l \<Longrightarrow> \<exists>path. de_libs env path = Some l"
  by (induction env name dirs rule: find_lib.induct) (auto split: option.splits)

lemma lookup_op_ok:
  assumes "\<And>name f. lib name = Some f \<Longrightarrow> lists_ok f"
  shows "lookup_op lib name i \<noteq> Op_Null" "lookup_op lib name i = Op_Fun f \<Longrightarrow> lists_ok f"
  using assms by (auto simp: lookup_op_def split: option.splits)

lemma load_be_ok:
  assumes "backends_ok s" "libs_ok env" "i < length (dl_bes s)" "load_be env i s = (s1, status)"
  shows "backends_ok s1 \<and> be_loaded (get_be s1 i)"
proof -
  let ?s = "upd_be i (\<lambda>b. b\<lparr>be_loaded := True, be_handle := None, be_op := (\<lambda>_. Op_Unsupported)\<rparr>) s"
  have s: "backends_ok ?s"
    using assms(1,3) by (intro table_upd) (simp_all add: entry_unsupported table_entry)
  have b: "be_loaded (get_be ?s i)" using assms(3) by (simp add: get_upd_be)
  show ?thesis
  proof (cases "\<exists>lib. find_lib env (be_name (get_be ?s i)) (strsep_all (search_path env)) = Some (Some lib)")
    case True
    then obtain lib where l: "find_lib env (be_name (get_be ?s i)) (strsep_all (search_path env)) = Some (Some lib)" by blast
    then obtain path where "de_libs env path = Some (Some lib)" using find_lib_env by blast
    then have lib: "lib name = Some f \<Longrightarrow> lists_ok f" for name f using assms(2) unfolding libs_ok_def by blast
    let ?f = "\<lambda>b. b\<lparr>be_handle := Some lib, be_op := lookup_op lib (be_name b)\<rparr>"
    have "entry_ok (?f (get_be ?s i))"
      using table_entry [OF s, of i] assms(3) b lookup_op_ok [of lib, OF lib] by (simp add: entry_ok_def)
    then have "backends_ok (upd_be i ?f ?s)" using s b by (intro table_upd [where f = ?f]) (simp_all)
    moreover have "s1 = upd_be i ?f ?s" using assms(1,4) l by (simp add: load_be_def backends_ok_def)
    moreover have "be_loaded (get_be (upd_be i ?f ?s) i)" using b assms(3) by (simp add: get_upd_be)
    ultimately show ?thesis by simp
  next
    case False
    then have "s1 = ?s" using assms(1,4) by (auto simp: load_be_def backends_ok_def split: option.splits)
    with s b show ?thesis by simp
  qed
qed

lemma init_be_ok:
  assumes "backends_ok s" "libs_ok env" "i < length (dl_bes s)" "init_be env i s = (s1, status)"
  shows "backends_ok s1 \<and> be_loaded (get_be s1 i)"
proof -
  obtain s0 status0 where l: "(if be_loaded (get_be s i) then (s, SANE_STATUS_GOOD) else load_be env i s) = (s0, status0)"
    by fastforce
  then have s0: "backends_ok s0" "be_loaded (get_be s0 i)"
    using assms(1) load_be_ok [OF assms(1-3)] by (auto split: if_splits)
  then have i: "i < length (dl_bes s0)" by (auto simp: get_be_def new_entry_def split: if_splits)
  have up: "backends_ok (upd_be i (\<lambda>b. b\<lparr>be_inited := True\<rparr>) (s0\<lparr>dl_world := w\<rparr>))" for w
    using s0 i by (intro table_upd) (simp_all add: entry_init table_entry)
  have n: "be_op (get_be s0 i) OP_INIT \<noteq> Op_Null"
    using table_entry [OF s0(1) i] s0(2) by (simp add: entry_ok_def)
  show ?thesis
    using assms(4) l s0 up n i
    by (auto simp: init_be_def get_upd_be Let_def split: if_splits op_ptr.splits prod.splits)
qed

section \<open>The list of devices\<close>

definition set_slots :: "dev_slot list option \<Rightarrow> nat \<Rightarrow> nat \<Rightarrow> 'w dll \<Rightarrow> 'w dll" where
  "set_slots l n k s = s\<lparr>dl_list := l, dl_size := n, dl_len := k\<rparr>"

lemma set_slots_simps [simp]:
  "dl_bes (set_slots l n k s) = dl_bes s" "dl_first (set_slots l n k s) = dl_first s"
  "dl_alias (set_slots l n k s) = dl_alias s" "dl_handles (set_slots l n k s) = dl_handles s"
  "dl_next (set_slots l n k s) = dl_next s" "dl_malloc (set_slots l n k s) = dl_malloc s"
  "dl_world (set_slots l n k s) = dl_world s" "dl_fault (set_slots l n k s) = dl_fault s"
  "dl_list (set_slots l n k s) = l" "dl_size (set_slots l n k s) = n" "dl_len (set_slots l n k s) = k"
  "get_be (set_slots l n k s) i = get_be s i" "set_slots l n k (set_slots l2 n2 k2 s) = set_slots l n k s"
  "set_slots l n k (s\<lparr>dl_world := w\<rparr>) = (set_slots l n k s)\<lparr>dl_world := w\<rparr>"
  by (simp_all add: set_slots_def get_be_def)

lemma set_slots_id: "set_slots (dl_list s) (dl_size s) (dl_len s) s = s"
  by (simp add: set_slots_def)

lemma table_slots [simp]: "backends_ok (set_slots l n k s) = backends_ok s"
  by (simp add: backends_ok_def registry_def be_names_def meta_ok_def)

lemma upd_slots: "upd_be i f (set_slots l n k s) = set_slots l n k (upd_be i f s)"
  by (simp add: upd_be_def set_slots_def get_be_def)

lemma alloc_slots: "dll_alloc (set_slots l n k s) = (case dll_alloc s of (s1, ok) \<Rightarrow> (set_slots l n k s1, ok))"
  by (simp add: dll_alloc_def set_slots_def split: list.split)

lemma load_slots: "load_be env i (set_slots l n k s) = (case load_be env i s of (s1, st) \<Rightarrow> (set_slots l n k s1, st))"
  by (simp add: load_be_def upd_slots alloc_slots split: prod.split option.split)

lemma init_slots: "init_be env i (set_slots l n k s) = (case init_be env i s of (s1, st) \<Rightarrow> (set_slots l n k s1, st))"
proof -
  have fail: "dll_fail (set_slots l n k t) = set_slots l n k (dll_fail t)" for t :: "'a dll"
    by (simp add: dll_fail_def set_slots_def)
  have w: "(set_slots l n k t)\<lparr>dl_world := w\<rparr> = set_slots l n k (t\<lparr>dl_world := w\<rparr>)" for t :: "'a dll" and w
    by simp
  show ?thesis
    unfolding init_be_def
    by (simp add: load_slots fail Let_def split: prod.split op_ptr.split del: set_slots_simps(14))
      (auto simp: w upd_slots simp del: set_slots_simps(14))
qed

section \<open>What initializing a backend leaves\<close>

definition be_frame :: "'w dll \<Rightarrow> 'w dll \<Rightarrow> bool" where
  \<comment> \<open>everything but the entries, the state of the backends, the allocator and the fault is kept\<close>
  "be_frame s s1 \<longleftrightarrow> dl_first s1 = dl_first s \<and> dl_alias s1 = dl_alias s \<and> dl_list s1 = dl_list s \<and>
     dl_size s1 = dl_size s \<and> dl_len s1 = dl_len s \<and> dl_handles s1 = dl_handles s \<and> dl_next s1 = dl_next s \<and>
     length (dl_bes s1) = length (dl_bes s)"

lemma be_frame_refl [simp]: "be_frame s s"
  by (simp add: be_frame_def)

lemma be_frame_trans: "be_frame s s1 \<Longrightarrow> be_frame s1 s2 \<Longrightarrow> be_frame s s2"
  by (simp add: be_frame_def)

lemma be_frame_simps [simp]:
  "be_frame s (upd_be i f s1) = be_frame s s1" "be_frame s (s1\<lparr>dl_world := w\<rparr>) = be_frame s s1" "be_frame s (dll_fail s1) = be_frame s s1"
  "be_frame s (s1\<lparr>dl_malloc := bs\<rparr>) = be_frame s s1"
  by (simp_all add: be_frame_def dll_fail_def)

lemma alloc_frame: "dll_alloc s1 = (s2, ok) \<Longrightarrow> be_frame s s2 = be_frame s s1"
  using dll_alloc_result by fastforce

lemma load_frame: "load_be env i s = (s1, st) \<Longrightarrow> be_frame s s1"
  by (auto simp: load_be_def alloc_frame split: prod.splits if_splits option.splits)

lemma init_frame:
  assumes "init_be env i s = (s1, st)"
  shows "be_frame s s1"
proof -
  obtain s0 status0 where l: "(if be_loaded (get_be s i) then (s, SANE_STATUS_GOOD) else load_be env i s) = (s0, status0)"
    by fastforce
  then have "be_frame s s0" using load_frame [of env i s s0 status0] by (auto split: if_splits)
  then show ?thesis
    using assms l by (auto simp: init_be_def Let_def split: if_splits op_ptr.splits prod.splits)
qed

definition ready_be :: "'w dll_env \<Rightarrow> nat \<Rightarrow> 'w dll \<Rightarrow> 'w dll \<times> sane_word" where
  \<comment> \<open>\<open>if (!be->inited) status = init (be);\<close>\<close>
  "ready_be env i s = (if be_inited (get_be s i) then (s, SANE_STATUS_GOOD) else init_be env i s)"

lemma ready_be_ok:
  assumes "backends_ok s" "libs_ok env" "i < length (dl_bes s)" "ready_be env i s = (s1, st)"
  shows "backends_ok s1 \<and> be_loaded (get_be s1 i) \<and> entry_ok (get_be s1 i)"
proof -
  have s1: "backends_ok s1 \<and> be_loaded (get_be s1 i)"
    using assms(1,4) init_be_ok [OF assms(1-3)] table_entry [OF assms(1,3)]
    by (auto simp: ready_be_def entry_ok_def split: if_splits)
  then have "i < length (dl_bes s1)" by (auto simp: get_be_def new_entry_def split: if_splits)
  with s1 show ?thesis using table_entry by blast
qed

lemma ready_frame: "ready_be env i s = (s1, st) \<Longrightarrow> be_frame s s1"
  using init_frame by (cases "be_inited (get_be s i)") (auto simp: ready_be_def)

lemma ready_slots:
  "ready_be env i (set_slots l n k s) = (case ready_be env i s of (s1, st) \<Rightarrow> (set_slots l n k s1, st))"
  by (simp add: ready_be_def init_slots)

end
