(* ===== verification/Dll_Devices.thy ===== *)
theory Dll_Devices
  imports Dll_Inv
begin

text \<open>
  The list of devices.  \<open>device_listing\<close> is what \<open>sane_get_devices\<close> is to list: the devices of
  each backend that can be initialized and answers, in order, renamed, without the hidden ones.
  The block in \<open>devlist\<close> and its growth implement it.
\<close>

section \<open>The specification\<close>

definition listed_device :: "dll_alias list \<Rightarrow> byte list \<Rightarrow> sane_device \<Rightarrow> sane_device option" where
  "listed_device aliases name d =
     Option.bind (Option.bind (dev_name d) c_str) (\<lambda>n.
       map_option (\<lambda>shown. d\<lparr>dev_name := Some (mk_cstr shown)\<rparr>) (shown_name aliases name n))"

definition backend_listing :: "'w dll_env \<Rightarrow> bool \<Rightarrow> nat \<Rightarrow> 'w dll \<Rightarrow> sane_device list \<times> 'w dll" where
  \<comment> \<open>what one backend contributes, and the state in which the next one is asked\<close>
  "backend_listing env local_only i s =
     (case (if be_inited (get_be s i) then (s, SANE_STATUS_GOOD) else init_be env i s) of
        (s1, status) \<Rightarrow>
          if status \<noteq> SANE_STATUS_GOOD then ([], s1)
          else case be_op (get_be s1 i) OP_GET_DEVS of
            Op_Fun f \<Rightarrow>
              (case b_get_devices f (dl_world s1) local_only of
                 (w, status2, l) \<Rightarrow>
                   (if status2 = SANE_STATUS_GOOD then
                      List.map_filter (listed_device (dl_alias s1) (be_name (get_be s1 i)))
                        (map the (takeWhile (\<lambda>d. d \<noteq> None) (case l of None \<Rightarrow> [] | Some ds \<Rightarrow> ds)))
                    else [],
                    s1\<lparr>dl_world := w\<rparr>))
          | _ \<Rightarrow> ([], s1))"

fun device_listing :: "'w dll_env \<Rightarrow> bool \<Rightarrow> nat list \<Rightarrow> 'w dll \<Rightarrow> sane_device list \<times> 'w dll" where
  "device_listing env local_only [] s = ([], s)"
| "device_listing env local_only (i # is) s =
     (case backend_listing env local_only i s of
        (ds, s1) \<Rightarrow> (case device_listing env local_only is s1 of (es, s2) \<Rightarrow> (ds @ es, s2)))"

section \<open>The block\<close>

definition holds :: "sane_device list \<Rightarrow> 'w dll \<Rightarrow> bool" where
  \<comment> \<open>while the list is built\<close>
  "holds ds s \<longleftrightarrow> dl_len s = length ds \<and>
     (case dl_list s of
        None \<Rightarrow> ds = [] \<and> dl_size s = 0
      | Some l \<Rightarrow> dl_size s = length l \<and> length ds \<le> length l \<and> take (length ds) l = map Slot_Dev ds)"

definition devlist_ok :: "'w dll \<Rightarrow> bool" where
  \<comment> \<open>between calls: no block, or a terminated list\<close>
  "devlist_ok s \<longleftrightarrow>
     (case dl_list s of
        None \<Rightarrow> dl_size s = 0 \<and> dl_len s = 0
      | Some l \<Rightarrow> dl_size s = length l \<and>
          (\<exists>ds rest. l = map Slot_Dev ds @ Slot_Null # rest \<and> dl_len s = Suc (length ds)))"

lemma holds_world [simp]: "holds ds (s\<lparr>dl_world := w\<rparr>) = holds ds s"
  by (cases "dl_list s") (simp_all add: holds_def)

lemma slots_eq: "s1 = set_slots l n k s \<Longrightarrow> s1 = set_slots (dl_list s1) (dl_size s1) (dl_len s1) s"
  by (simp add: set_slots_def)

lemma free_entries_holds:
  assumes "devlist_ok s"
  shows "\<exists>l n. free_entries s = set_slots l n 0 s \<and> holds [] (free_entries s)"
proof (cases "dl_list s")
  case None
  then have "free_entries s = set_slots None (dl_size s) 0 s" by (simp add: free_entries_def set_slots_def)
  then show ?thesis using None assms by (auto simp: holds_def devlist_ok_def)
next
  case (Some l)
  then obtain ds rest where l: "l = map Slot_Dev ds @ Slot_Null # rest" "dl_len s = Suc (length ds)" "dl_size s = length l"
    using assms by (auto simp: devlist_ok_def)
  then have t: "take (dl_len s) l = map Slot_Dev ds @ [Slot_Null]" by simp
  have "Slot_Junk \<notin> set (take (dl_len s) l)" "Slot_Freed \<notin> set (take (dl_len s) l)" unfolding t by auto
  then have f: "free_entries s = set_slots (Some (map (\<lambda>x. case x of Slot_Dev d \<Rightarrow> Slot_Freed | _ \<Rightarrow> x) (take (dl_len s) l) @
      drop (dl_len s) l)) (dl_size s) 0 s"
    using Some l(1,2) by (simp add: free_entries_def set_slots_def)
  then show ?thesis using l by (auto simp: holds_def)
qed

lemma assert_space_holds:
  assumes "holds ds s" "dl_malloc s = []" "dll_assert_space n s = (s1, ok)"
  shows "ok \<and> holds ds s1 \<and> length ds + n \<le> dl_size s1 \<and> s1 = set_slots (dl_list s1) (dl_size s1) (dl_len s1) s"
proof (cases "dl_size s < dl_len s + n")
  case False
  with assms show ?thesis by (auto simp: dll_assert_space_def set_slots_id holds_def)
next
  case True
  have d: "dl_len s = length ds" using assms(1) by (simp add: holds_def)
  define l1 where "l1 = (case dl_list s of None \<Rightarrow> replicate (dl_size s + (n + 15)) Slot_Junk
      | Some l \<Rightarrow> take (dl_size s + (n + 15)) l @ replicate (dl_size s + (n + 15) - length l) Slot_Junk)"
  have "dll_assert_space n s = (set_slots (Some l1) (dl_size s + (n + 15)) (dl_len s) s, True)"
    using True assms(2) by (simp add: dll_assert_space_def set_slots_def Let_def l1_def)
  with assms(3) have s1: "s1 = set_slots (Some l1) (dl_size s + (n + 15)) (dl_len s) s" and "ok" by simp_all
  from s1 have "holds ds s1"
    using assms(1) d by (auto simp: holds_def l1_def split: option.splits)
  moreover have "length ds \<le> dl_size s" using assms(1) by (auto simp: holds_def split: option.splits)
  ultimately show ?thesis using s1 \<open>ok\<close> by simp
qed

lemma push_holds:
  assumes "holds ds s" "length ds < dl_size s"
  shows "holds (ds @ [d]) (push_slot (Slot_Dev d) s)" "dl_size (push_slot (Slot_Dev d) s) = dl_size s"
    "push_slot (Slot_Dev d) s =
       set_slots (dl_list (push_slot (Slot_Dev d) s)) (dl_size (push_slot (Slot_Dev d) s)) (dl_len (push_slot (Slot_Dev d) s)) s"
proof -
  obtain l where l: "dl_list s = Some l" "dl_size s = length l" "take (length ds) l = map Slot_Dev ds" "dl_len s = length ds"
    using assms by (auto simp: holds_def split: option.splits)
  then have p: "push_slot (Slot_Dev d) s = set_slots (Some (l[length ds := Slot_Dev d])) (dl_size s) (Suc (length ds)) s"
    using assms(2) by (simp add: push_slot_def set_slots_def)
  have "take (Suc (length ds)) (l[length ds := Slot_Dev d]) = map Slot_Dev ds @ [Slot_Dev d]"
    using l assms(2) by (simp add: take_Suc_conv_app_nth)
  with p l assms(2) show "holds (ds @ [d]) (push_slot (Slot_Dev d) s)" "dl_size (push_slot (Slot_Dev d) s) = dl_size s"
    "push_slot (Slot_Dev d) s =
       set_slots (dl_list (push_slot (Slot_Dev d) s)) (dl_size (push_slot (Slot_Dev d) s)) (dl_len (push_slot (Slot_Dev d) s)) s"
    by (simp_all add: holds_def)
qed

lemma list_devices_holds:
  assumes "holds ds s" "dl_malloc s = []" "length ds + length es \<le> dl_size s"
    and "\<forall>e \<in> set es. Option.bind (dev_name e) c_str \<noteq> None"
  shows "\<exists>l n k. list_devices name es s = (set_slots l n k s, True) \<and>
    holds (ds @ List.map_filter (listed_device (dl_alias s) name) es) (set_slots l n k s)"
  using assms
proof (induction es arbitrary: ds s)
  case Nil
  then show ?case
    by (intro exI [of _ "dl_list s"] exI [of _ "dl_size s"] exI [of _ "dl_len s"]) (simp add: set_slots_id map_filter_simps)
next
  case (Cons e es)
  obtain n where n: "Option.bind (dev_name e) c_str = Some n" using Cons.prems(4) by auto
  show ?case
  proof (cases "shown_name (dl_alias s) name n")
    case None
    then have "listed_device (dl_alias s) name e = None" using n by (simp add: listed_device_def)
    with None n Cons show ?thesis by (simp add: map_filter_simps)
  next
    case (Some shown)
    let ?d = "e\<lparr>dev_name := Some (mk_cstr shown)\<rparr>"
    let ?s = "push_slot (Slot_Dev ?d) s"
    have e: "listed_device (dl_alias s) name e = Some ?d" using n Some by (simp add: listed_device_def)
    have "length ds < dl_size s" using Cons.prems(3) by simp
    note p = push_holds [OF Cons.prems(1) this, of ?d]
    have al: "dl_alias ?s = dl_alias s" "dl_malloc ?s = []" using Cons.prems(2) by (subst p(3), simp)+
    obtain l n' k where l: "list_devices name es ?s = (set_slots l n' k ?s, True)"
      "holds ((ds @ [?d]) @ List.map_filter (listed_device (dl_alias s) name) es) (set_slots l n' k ?s)"
      using Cons.IH [OF p(1) al(2)] Cons.prems(3,4) p(2) al(1) by auto
    moreover have "set_slots l n' k ?s = set_slots l n' k s" by (subst p(3)) simp
    ultimately show ?thesis
      using n Some e Cons.prems(2) by (auto simp: map_filter_simps)
  qed
qed

lemma backend_listing_ready:
  "backend_listing env local_only i s =
     (case ready_be env i s of
        (s1, status) \<Rightarrow>
          if status \<noteq> SANE_STATUS_GOOD then ([], s1)
          else case be_op (get_be s1 i) OP_GET_DEVS of
            Op_Fun f \<Rightarrow>
              (case b_get_devices f (dl_world s1) local_only of
                 (w, status2, l) \<Rightarrow>
                   (if status2 = SANE_STATUS_GOOD then
                      List.map_filter (listed_device (dl_alias s1) (be_name (get_be s1 i)))
                        (map the (takeWhile (\<lambda>d. d \<noteq> None) (case l of None \<Rightarrow> [] | Some ds \<Rightarrow> ds)))
                    else [],
                    s1\<lparr>dl_world := w\<rparr>))
          | _ \<Rightarrow> ([], s1))"
  by (simp add: backend_listing_def ready_be_def)

lemma backend_listing_slots:
  "backend_listing env local_only i (set_slots l n k s) =
     (case backend_listing env local_only i s of (ds, s1) \<Rightarrow> (ds, set_slots l n k s1))"
  by (auto simp: backend_listing_ready ready_slots split: prod.split op_ptr.split)

lemma device_listing_slots:
  "device_listing env local_only is (set_slots l n k s) =
     (case device_listing env local_only is s of (ds, s1) \<Rightarrow> (ds, set_slots l n k s1))"
  by (induction "is" arbitrary: s) (auto simp: backend_listing_slots split: prod.split)

lemma backend_listing_ok:
  assumes "backends_ok s" "libs_ok env" "i < length (dl_bes s)" "backend_listing env local_only i s = (ds, s1)"
  shows "backends_ok s1 \<and> length (dl_bes s1) = length (dl_bes s) \<and> dl_first s1 = dl_first s \<and> dl_alias s1 = dl_alias s \<and>
    dl_handles s1 = dl_handles s \<and> dl_next s1 = dl_next s"
proof -
  obtain s0 st where r: "ready_be env i s = (s0, st)" by fastforce
  show ?thesis
    using assms(4) ready_be_ok [OF assms(1-3) r] ready_frame [OF r]
    by (auto simp: backend_listing_ready r be_frame_def split: if_splits op_ptr.splits prod.splits)
qed

lemma device_listing_ok:
  assumes "backends_ok s" "libs_ok env" "\<forall>i \<in> set is. i < length (dl_bes s)" "device_listing env local_only is s = (ds, s1)"
  shows "backends_ok s1 \<and> length (dl_bes s1) = length (dl_bes s) \<and> dl_first s1 = dl_first s \<and> dl_alias s1 = dl_alias s \<and>
    dl_handles s1 = dl_handles s \<and> dl_next s1 = dl_next s"
  using assms
proof (induction "is" arbitrary: s ds)
  case (Cons i "is")
  obtain es s0 where e: "backend_listing env local_only i s = (es, s0)" by fastforce
  with Cons.prems obtain fs where f: "device_listing env local_only is s0 = (fs, s1)"
    by (auto split: prod.splits)
  have "i < length (dl_bes s)" using Cons.prems(3) by simp
  note b = backend_listing_ok [OF Cons.prems(1,2) this e]
  from Cons.IH [OF _ Cons.prems(2) _ f] b Cons.prems(3) show ?case by auto
qed auto

lemma takeWhile_some: "e \<in> set (map the (takeWhile (\<lambda>d. d \<noteq> None) l)) \<Longrightarrow> Some e \<in> set l"
  by (induction l) (auto split: if_splits)

lemma lists_ok_readable:
  assumes "lists_ok f" "b_get_devices f w local_only = (w1, SANE_STATUS_GOOD, Some l)"
  shows "None \<in> set l" "\<forall>e \<in> set (map the (takeWhile (\<lambda>d. d \<noteq> None) l)). Option.bind (dev_name e) c_str \<noteq> None"
proof -
  have "Some e \<in> set l" if "e \<in> set (map the (takeWhile (\<lambda>d. d \<noteq> None) l))" for e
    using that by (rule takeWhile_some)
  with assms show "None \<in> set l" "\<forall>e \<in> set (map the (takeWhile (\<lambda>d. d \<noteq> None) l)). Option.bind (dev_name e) c_str \<noteq> None"
    unfolding lists_ok_def by blast+
qed

lemma holds_cong: "dl_list s = dl_list t \<Longrightarrow> dl_size s = dl_size t \<Longrightarrow> dl_len s = dl_len t \<Longrightarrow> holds ds s = holds ds t"
  by (cases "dl_list t") (simp_all add: holds_def)

lemma backend_devices_holds:
  assumes "backends_ok s" "libs_ok env" "i < length (dl_bes s)" "holds ds s"
    and "backend_listing env local_only i s = (es, s2)"
  shows "\<exists>l n k. backend_devices env local_only i s = (set_slots l n k s2, True) \<and> holds (ds @ es) (set_slots l n k s2)"
proof -
  obtain s1 st where r: "ready_be env i s = (s1, st)" by fastforce
  note ok = ready_be_ok [OF assms(1-3) r] and keeps = ready_frame [OF r]
  have h: "holds ds s1" using assms(4) keeps holds_cong [of s s1] by (simp add: be_frame_def)
  have def: "backend_devices env local_only i s =
     (if st \<noteq> SANE_STATUS_GOOD then (s1, True)
      else case be_op (get_be s1 i) OP_GET_DEVS of
        Op_Null \<Rightarrow> (dll_fail s1, True) | Op_Unsupported \<Rightarrow> (s1, True)
      | Op_Fun f \<Rightarrow>
          (case b_get_devices f (dl_world s1) local_only of
             (w, status2, be_list) \<Rightarrow>
               let s2 = s1\<lparr>dl_world := w\<rparr>
               in if status2 \<noteq> SANE_STATUS_GOOD then (s2, True)
                  else case be_list of
                    None \<Rightarrow> (s2, True)
                  | Some l \<Rightarrow>
                      if None \<notin> set l then (dll_fail s2, True)
                      else
                        let ds = map the (takeWhile (\<lambda>d. d \<noteq> None) l)
                        in case dll_assert_space (length ds) s2 of
                             (s3, ok) \<Rightarrow> if ok then list_devices (be_name (get_be s3 i)) ds s3 else (s3, False)))"
    using r by (simp add: backend_devices_def ready_be_def)
  show ?thesis
  proof (cases "st = SANE_STATUS_GOOD \<and> (\<exists>f. be_op (get_be s1 i) OP_GET_DEVS = Op_Fun f)")
    case False
    have "be_op (get_be s1 i) OP_GET_DEVS \<noteq> Op_Null" using ok by (simp add: entry_ok_def)
    with False have "backend_devices env local_only i s = (s1, True)" "es = [] \<and> s2 = s1"
      using assms(5) def r by (auto simp: backend_listing_ready split: op_ptr.splits if_splits)
    with h show ?thesis
      by (intro exI [of _ "dl_list s1"] exI [of _ "dl_size s1"] exI [of _ "dl_len s1"]) (simp add: set_slots_id)
  next
    case True
    then obtain f where f: "st = SANE_STATUS_GOOD" "be_op (get_be s1 i) OP_GET_DEVS = Op_Fun f" by blast
    then have lf: "lists_ok f" using ok by (simp add: entry_ok_def)
    obtain w st2 be_list where g: "b_get_devices f (dl_world s1) local_only = (w, st2, be_list)" by (metis prod_cases3)
    show ?thesis
    proof (cases "st2 = SANE_STATUS_GOOD \<and> be_list \<noteq> None")
      case False
      then have "backend_devices env local_only i s = (s1\<lparr>dl_world := w\<rparr>, True)" "es = [] \<and> s2 = s1\<lparr>dl_world := w\<rparr>"
        using assms(5) def r f g by (auto simp: backend_listing_ready Let_def split: option.splits if_splits)
      with h show ?thesis
        by (intro exI [of _ "dl_list s1"] exI [of _ "dl_size s1"] exI [of _ "dl_len s1"]) (simp add: set_slots_id)
    next
      case True
      then obtain l where l: "st2 = SANE_STATUS_GOOD" "be_list = Some l" by blast
      define xs where "xs = map the (takeWhile (\<lambda>d. d \<noteq> None) l)"
      have rd: "None \<in> set l" "\<forall>e \<in> set xs. Option.bind (dev_name e) c_str \<noteq> None"
        using lists_ok_readable [OF lf] g l unfolding xs_def by blast+
      let ?s = "s1\<lparr>dl_world := w\<rparr>"
      obtain s3 ok3 where a: "dll_assert_space (length xs) ?s = (s3, ok3)" by fastforce
      have m: "dl_malloc ?s = []" using ok by (simp add: backends_ok_def)
      have h2: "holds ds ?s" using h by simp
      note space = assert_space_holds [OF h2 m a]
      then obtain l3 n3 k3 where s3: "s3 = set_slots l3 n3 k3 ?s" by blast
      have "dl_malloc s3 = []" using m s3 by simp
      then obtain l' n' k' where d: "list_devices (be_name (get_be s3 i)) xs s3 = (set_slots l' n' k' s3, True)"
        "holds (ds @ List.map_filter (listed_device (dl_alias s3) (be_name (get_be s3 i))) xs) (set_slots l' n' k' s3)"
        using list_devices_holds [of ds s3 xs "be_name (get_be s3 i)"] space rd(2) by auto
      have "es = List.map_filter (listed_device (dl_alias s1) (be_name (get_be s1 i))) xs" "s2 = ?s"
        using assms(5) r f g l by (auto simp: backend_listing_ready xs_def)
      moreover have "backend_devices env local_only i s = (set_slots l' n' k' s3, True)"
        using f g l rd(1) a space d(1) unfolding def xs_def Let_def by simp
      ultimately show ?thesis using d(2) s3 by auto
    qed
  qed
qed

lemma backends_devices_holds:
  assumes "backends_ok s" "libs_ok env" "\<forall>i \<in> set is. i < length (dl_bes s)" "holds ds s"
    and "device_listing env local_only is s = (es, s2)"
  shows "\<exists>l n k. backends_devices env local_only is s = (set_slots l n k s2, True) \<and> holds (ds @ es) (set_slots l n k s2)"
  using assms
proof (induction "is" arbitrary: s ds es s2)
  case Nil
  then show ?case
    by (intro exI [of _ "dl_list s"] exI [of _ "dl_size s"] exI [of _ "dl_len s"]) (simp add: set_slots_id)
next
  case (Cons i "is")
  obtain xs s1 where x: "backend_listing env local_only i s = (xs, s1)" by fastforce
  with Cons.prems(5) obtain ys where y: "device_listing env local_only is s1 = (ys, s2)" "es = xs @ ys"
    by (auto split: prod.splits)
  have i: "i < length (dl_bes s)" using Cons.prems(3) by simp
  obtain l n k where b: "backend_devices env local_only i s = (set_slots l n k s1, True)" "holds (ds @ xs) (set_slots l n k s1)"
    using backend_devices_holds [OF Cons.prems(1,2) i Cons.prems(4) x] by blast
  note ok = backend_listing_ok [OF Cons.prems(1,2) i x]
  have "device_listing env local_only is (set_slots l n k s1) = (ys, set_slots l n k s2)"
    by (simp add: device_listing_slots y(1))
  from Cons.IH [OF _ Cons.prems(2) _ b(2) this] ok Cons.prems(3) obtain l' n' k'
    where "backends_devices env local_only is (set_slots l n k s1) = (set_slots l' n' k' (set_slots l n k s2), True)"
      "holds ((ds @ xs) @ ys) (set_slots l' n' k' (set_slots l n k s2))" by auto
  with b(1) y(2) show ?case by auto
qed

text \<open>The invariant between calls, while there is memory.\<close>

definition dll_ok :: "'w dll \<Rightarrow> bool" where
  "dll_ok s \<longleftrightarrow> backends_ok s \<and> devlist_ok s"

lemma get_devices_listing:
  assumes "dll_ok s" "libs_ok env" "device_listing env local_only (dl_first s) s = (ds, s2)"
  shows "\<exists>rest n k. sane_get_devices_dll env local_only s =
      (set_slots (Some (map Slot_Dev ds @ Slot_Null # rest)) n k s2, SANE_STATUS_GOOD, Some (map Slot_Dev ds @ Slot_Null # rest)) \<and>
    devlist_ok (set_slots (Some (map Slot_Dev ds @ Slot_Null # rest)) n k s2)"
proof -
  obtain l n where f: "free_entries s = set_slots l n 0 s" "holds [] (free_entries s)"
    using free_entries_holds assms(1) dll_ok_def by blast
  have "\<forall>i \<in> set (dl_first s). i < length (dl_bes s)"
    using assms(1) table_first by (auto simp: dll_ok_def)
  moreover have "device_listing env local_only (dl_first s) (set_slots l n 0 s) = (ds, set_slots l n 0 s2)"
    by (simp add: device_listing_slots assms(3))
  ultimately obtain l1 n1 k1 where b: "backends_devices env local_only (dl_first s) (set_slots l n 0 s) = (set_slots l1 n1 k1 s2, True)"
    "holds ds (set_slots l1 n1 k1 s2)"
    using backends_devices_holds [of "set_slots l n 0 s" env "dl_first s" "[]" local_only ds] f assms(1,2)
    by (auto simp: dll_ok_def)
  obtain s3 ok3 where a: "dll_assert_space 1 (set_slots l1 n1 k1 s2) = (s3, ok3)" by fastforce
  have "dl_malloc s2 = []"
    using device_listing_ok [OF _ assms(2) \<open>\<forall>i \<in> set (dl_first s). i < length (dl_bes s)\<close> assms(3)] assms(1)
    by (simp add: dll_ok_def backends_ok_def)
  then have sp: "ok3" "holds ds s3" "length ds + 1 \<le> dl_size s3"
    and s3: "s3 = set_slots (dl_list s3) (dl_size s3) (dl_len s3) s2"
    using assert_space_holds [OF b(2) _ a] by auto
  obtain blk where blk: "dl_list s3 = Some blk" "dl_size s3 = length blk" "take (length ds) blk = map Slot_Dev ds" "dl_len s3 = length ds"
    using sp(2,3) by (auto simp: holds_def split: option.splits)
  define rest where "rest = drop (Suc (length ds)) blk"
  have "blk = take (length ds) blk @ blk ! length ds # rest"
    using sp(3) blk(2) by (simp add: rest_def id_take_nth_drop)
  then have blk2: "blk = map Slot_Dev ds @ blk ! length ds # rest" using blk(3) by simp
  have "blk[length ds := Slot_Null] = map Slot_Dev ds @ Slot_Null # rest"
    by (subst blk2) (simp add: list_update_append)
  then have p: "push_slot Slot_Null s3 = set_slots (Some (map Slot_Dev ds @ Slot_Null # rest)) (dl_size s3) (Suc (length ds)) s2"
    using blk sp(3) by (subst s3) (simp add: push_slot_def set_slots_def)
  have "dl_size s3 = length (map Slot_Dev ds @ Slot_Null # rest)" using blk2 blk(2) by (metis length_append list.size(4))
  then have "devlist_ok (push_slot Slot_Null s3)" unfolding p by (auto simp: devlist_ok_def)
  moreover have "sane_get_devices_dll env local_only s =
      (push_slot Slot_Null s3, SANE_STATUS_GOOD, dl_list (push_slot Slot_Null s3))"
    using f(1) b(1) a sp(1) by (simp add: sane_get_devices_dll_def Let_def)
  ultimately show ?thesis unfolding p by auto
qed

lemma get_devices_ok:
  assumes "dll_ok s" "libs_ok env" "sane_get_devices_dll env local_only s = (s1, st, l)"
  shows "dll_ok s1"
proof -
  obtain ds s2 where d: "device_listing env local_only (dl_first s) s = (ds, s2)" by fastforce
  have "\<forall>i \<in> set (dl_first s). i < length (dl_bes s)"
    using assms(1) table_first by (auto simp: dll_ok_def)
  then have "backends_ok s2" using device_listing_ok [OF _ assms(2) _ d] assms(1) by (simp add: dll_ok_def)
  with get_devices_listing [OF assms(1,2) d] assms(3) show ?thesis by (auto simp: dll_ok_def)
qed

text \<open> C8: the list of devices.  While there is memory, \<open>sane_get_devices\<close> returns a null terminated list of
  exactly the devices of the backends that can be initialized and whose own list arrives, in the
  order of the backends, under the names the aliases give them and without the hidden ones; a
  backend that fails contributes nothing and does not stop the others.\<close>

theorem devices_listed:
  assumes "dll_ok s" "libs_ok env"
  shows "\<exists>s1 rest. sane_get_devices_dll env local_only s =
    (s1, SANE_STATUS_GOOD, Some (map Slot_Dev (fst (device_listing env local_only (dl_first s) s)) @ Slot_Null # rest))"
  using get_devices_listing [OF assms, of local_only] by (metis prod.collapse)

end
