(* ===== verification/Dll_Open.thy ===== *)
theory Dll_Open
  imports Dll_Devices
begin

text \<open>
  Opening a device: the name a device is listed under leads back to it through the aliases, a name
  without a colon is that of a backend, and what a failing load leaves.
\<close>

section \<open>Names\<close>

lemma alias_matches_old: "alias_matches name dev a \<longleftrightarrow> al_old a = name @ 58 # dev"
proof
  assume a: "alias_matches name dev a"
  then have "length name < length (al_old a)" by (simp add: alias_matches_def)
  then have "al_old a = take (length name) (al_old a) @ al_old a ! length name # drop (Suc (length name)) (al_old a)"
    by (rule id_take_nth_drop)
  with a show "al_old a = name @ 58 # dev" by (simp add: alias_matches_def)
qed (simp add: alias_matches_def)

definition new_names_unique :: "dll_alias list \<Rightarrow> bool" where
  \<comment> \<open>no two aliases give the same new name\<close>
  "new_names_unique aliases \<longleftrightarrow> (\<forall>a \<in> set aliases. \<forall>b \<in> set aliases. al_new a \<noteq> None \<longrightarrow> al_new a = al_new b \<longrightarrow> a = b)"

definition no_new_name :: "byte list \<Rightarrow> dll_alias list \<Rightarrow> bool" where
  "no_new_name n aliases \<longleftrightarrow> (\<forall>a \<in> set aliases. al_new a \<noteq> Some n)"

lemma resolve_full: "no_new_name n aliases \<Longrightarrow> resolve_alias aliases n = n"
  by (simp add: resolve_alias_def no_new_name_def find_None_iff [THEN iffD2])

lemma resolve_shown:
  assumes "new_names_unique aliases" "no_new_name (name @ 58 # dev) aliases"
    and "shown_name aliases name dev = Some shown"
  shows "resolve_alias aliases shown = name @ 58 # dev"
proof (cases "List.find (alias_matches name dev) aliases")
  case None
  then have "shown = name @ 58 # dev" using assms(3) by (simp add: shown_name_def)
  then show ?thesis using resolve_full [OF assms(2)] by simp
next
  case (Some a)
  then have "al_new a = Some shown" using assms(3) by (simp add: shown_name_def)
  moreover from Some have "a \<in> set aliases" "al_old a = name @ 58 # dev"
    by (auto simp: find_Some_iff alias_matches_old)
  ultimately have a: "a \<in> set aliases" "al_old a = name @ 58 # dev" "al_new a = Some shown" by simp_all
  then obtain b where b: "List.find (\<lambda>a. al_new a = Some shown) aliases = Some b"
    by (metis (mono_tags, lifting) find_None_iff2 not_Some_eq)
  then have "b \<in> set aliases" "al_new b = Some shown" by (auto simp: find_Some_iff)
  then have "b = a" using assms(1) a by (simp add: new_names_unique_def)
  with a b show ?thesis by (simp add: resolve_alias_def)
qed

definition plain_backend :: "byte list \<Rightarrow> bool" where
  \<comment> \<open>a name of a backend that stands for itself in front of a colon\<close>
  "plain_backend name \<longleftrightarrow> name \<noteq> [] \<and> 58 \<notin> set name \<and> name \<noteq> ascii ''fakeusb'' \<and> name \<noteq> ascii ''fakeusbdev'' \<and>
     name \<noteq> ascii ''fakeusbout''"

lemma has_prefix_full: "58 \<notin> set name \<Longrightarrow> has_prefix p (name @ 58 # dev) \<longleftrightarrow> p = name"
  by (auto simp: has_prefix_def strchr_idx_append)

lemma open_target_full:
  assumes "plain_backend name" "dl_malloc s = []"
  shows "open_target env (name @ 58 # dev) s = (s, Inr (Some name, dev))"
  using assms by (auto simp: open_target_def open_name_def plain_backend_def has_prefix_full split_backend_def strchr_idx_append)

lemma open_full_name:
  assumes "resolve_alias (dl_alias s) shown = be_name (get_be s i) @ 58 # dev" "registry s" "dl_malloc s = []"
    and "i \<in> set (dl_first s)" "plain_backend (be_name (get_be s i))"
  shows "sane_open_dll env shown s = open_backend env i dev s"
  using assms open_target_full [OF assms(5,3)] find_backend_in [OF assms(2,4)]
  by (simp add: sane_open_dll_def pick_backend_def plain_backend_def)

lemma open_backend_inited:
  assumes "be_inited (get_be s i)" "be_op (get_be s i) OP_OPEN = Op_Fun f"
  shows "open_backend env i dev s = map_call (opened i s) (b_open f (dl_world s) (Some (mk_cstr dev)))"
  using assms by (simp add: open_backend_def)

text \<open> C9: opening what is listed.  The name \<open>sane_get_devices\<close> gives to a device of an initialized backend leads
  \<open>sane_open\<close> back to that backend and that device, through the aliases if they renamed it; the full
  name still works, also for a device that is hidden.  The new names have to be different from each
  other and from the full name.\<close>

theorem listed_device_opens:
  assumes "backends_ok s" "i \<in> set (dl_first s)" "be_inited (get_be s i)" "be_op (get_be s i) OP_OPEN = Op_Fun f"
    and "be_name (get_be s i) = name" "plain_backend name"
    and "new_names_unique (dl_alias s)" "no_new_name (name @ 58 # dev) (dl_alias s)"
  shows "\<forall>shown. shown_name (dl_alias s) name dev = Some shown \<or> shown = name @ 58 # dev \<longrightarrow>
    sane_open_dll env shown s = map_call (opened i s) (b_open f (dl_world s) (Some (mk_cstr dev)))"
proof (intro allI impI)
  fix shown
  assume "shown_name (dl_alias s) name dev = Some shown \<or> shown = name @ 58 # dev"
  then have "resolve_alias (dl_alias s) shown = be_name (get_be s i) @ 58 # dev"
    using resolve_shown [OF assms(7,8)] resolve_full [OF assms(8)] assms(5) by auto
  moreover have "registry s" "dl_malloc s = []" using assms(1) by (simp_all add: backends_ok_def)
  ultimately have "sane_open_dll env shown s = open_backend env i dev s"
    using assms(2,5,6) by (intro open_full_name) simp_all
  with open_backend_inited [OF assms(3,4)] show
    "sane_open_dll env shown s = map_call (opened i s) (b_open f (dl_world s) (Some (mk_cstr dev)))" by simp
qed

end
