(* ===== verification/Dll_Reach.thy ===== *)
theory Dll_Reach
  imports Dll_Open
begin

text \<open>
  Every sequence of operations of the backend loader: a relation of steps, one for each function of
  the API, and the invariant of the states it reaches.  A configuration file is a reader's business:
  the locale \<open>dll_reader\<close> has what a loop over lines keeps, whatever it does with a line.
\<close>

section \<open>Reading the configuration\<close>

definition conf_env_ok :: "'w dll_env \<Rightarrow> bool" where
  \<comment> \<open>text files whose lines fit the buffer, a search path that fits, and no directory entry without a name\<close>
  "conf_env_ok env \<longleftrightarrow>
     (\<forall>path stream. de_files env path = Some stream \<longrightarrow> (\<exists>ls. stream = file_text ls \<and> text_lines ls)) \<and>
     (\<forall>path names. de_dirs env path = Some names \<longrightarrow> [] \<notin> set names) \<and>
     (\<forall>paths. de_paths env = Some paths \<longrightarrow> length paths < PATH_MAX)"

lemma strsep_all_length: "dir \<in> set (strsep_all p) \<Longrightarrow> length dir \<le> length p"
  by (induction p arbitrary: dir) (auto split: if_splits list.splits, fastforce+)

lemma open_first_files: "open_first fs name dirs = Some stream \<Longrightarrow> \<exists>path. fs path = Some stream"
  by (induction dirs) (auto split: option.splits)

lemma open_dir_some:
  "open_dir env sub dirs = Some (dlldir, plen, names) \<Longrightarrow>
    \<exists>dir \<in> set dirs. dlldir = take (PATH_MAX - 1) (dir @ sub) \<and> plen = length dir + 1 \<and> de_dirs env dlldir = Some names"
  by (induction env sub dirs rule: open_dir.induct) (auto simp: Let_def split: option.splits)

locale dll_reader =
  fixes good :: "'w dll \<Rightarrow> bool"
    and body :: "byte list \<Rightarrow> 'w dll \<Rightarrow> 'w dll"
  assumes body: "good s \<Longrightarrow> good (body line s)"
    and memory: "good s \<Longrightarrow> dl_malloc s = []"
begin

lemma lines_keep: "good s \<Longrightarrow> good (fold (\<lambda>l. body (trim l)) ls s)"
  by (induction ls arbitrary: s) (simp_all add: body)

lemma file_keeps:
  assumes "conf_env_ok env" "good s"
  shows "good (config_file env body name s)"
proof (cases "Option.bind (de_paths env) (\<lambda>paths. sanei_config_open (de_files env) paths name)")
  case None
  with assms(2) show ?thesis by (simp add: config_file_def)
next
  case (Some stream)
  then obtain paths where p: "de_paths env = Some paths" "sanei_config_open (de_files env) paths name = Some stream"
    by (cases "de_paths env") auto
  then obtain ls where "stream = file_text ls" "text_lines ls"
    using assms(1) open_first_files unfolding conf_env_ok_def sanei_config_open_def by metis
  with p config_file_text [of env paths name ls body s] lines_keep [OF assms(2), of ls] show ?thesis by simp
qed

lemma entry_keeps:
  assumes "conf_env_ok env" "good s" "d_name \<noteq> []" "length dir < PATH_MAX" "dlldir = take (PATH_MAX - 1) (dir @ sub)"
  shows "good (dir_entry env (config_file env body) dlldir (length dir + 1) d_name s)"
proof -
  have "length dir + 1 \<le> length (take (PATH_MAX + 1 + NAME_MAX - 1) (dlldir @ 47 # d_name))"
    using assms(4,5) by simp
  with assms(1-3) file_keeps show ?thesis by (simp add: dir_entry_def Let_def)
qed

lemma dir_keeps:
  assumes "conf_env_ok env" "good s"
  shows "good (config_dir env sub (config_file env body) s)"
proof (cases "Option.bind (de_paths env) (\<lambda>p. open_dir env sub (strsep_all p))")
  case None
  with assms(2) memory show ?thesis by (auto simp: config_dir_def split: option.splits)
next
  case (Some r)
  obtain dlldir plen names where r: "r = (dlldir, plen, names)" by (metis prod_cases3)
  with Some obtain p where p: "de_paths env = Some p" "open_dir env sub (strsep_all p) = Some (dlldir, plen, names)"
    by (cases "de_paths env") auto
  from open_dir_some [OF p(2)] obtain dir where d: "dir \<in> set (strsep_all p)" "dlldir = take (PATH_MAX - 1) (dir @ sub)"
    "plen = length dir + 1" "de_dirs env dlldir = Some names" by blast
  have l: "length dir < PATH_MAX" using strsep_all_length [OF d(1)] assms(1) p(1) by (fastforce simp: conf_env_ok_def)
  have "[] \<notin> set names" using assms(1) d(4) unfolding conf_env_ok_def by blast
  then have "good s \<Longrightarrow> good (fold (dir_entry env (config_file env body) dlldir plen) names s)" for s
    using entry_keeps [OF assms(1) _ _ l d(2)] d(3) by (induction names arbitrary: s) auto
  with p assms(2) memory show ?thesis by (simp add: config_dir_def)
qed

end

lemma dll_ok_memory [simp]: "dll_ok s \<Longrightarrow> dl_malloc s = []"
  by (simp add: dll_ok_def backends_ok_def)

lemma dll_ok_alias: "dll_ok (s\<lparr>dl_alias := as\<rparr>) = dll_ok s"
  by (cases "dl_list s") (simp_all add: dll_ok_def devlist_ok_def)

lemma entry_new: "entry_ok (new_entry name)"
  by (simp add: entry_ok_def new_entry_def)

lemma dll_ok_first:
  assumes "dll_ok s" "registry (s\<lparr>dl_first := is\<rparr>)"
  shows "dll_ok (s\<lparr>dl_first := is\<rparr>)"
  using assms by (cases "dl_list s") (auto simp: dll_ok_def backends_ok_def devlist_ok_def meta_ok_def)

lemma add_backend_ok:
  assumes "dll_ok s"
  shows "dll_ok (fst (add_backend name s))"
proof (cases "name = ascii ''dll''")
  case False
  show ?thesis
  proof (cases "find_backend s name")
    case (Some i)
    have "registry s" using assms by (simp add: dll_ok_def backends_ok_def)
    then have "registry (s\<lparr>dl_first := i # remove1 i (dl_first s)\<rparr>)"
      using find_backend_Some [OF Some] by (intro registry_move) simp_all
    with Some False assms show ?thesis by (simp add: add_backend_def dll_ok_first)
  next
    case None
    let ?s = "s\<lparr>dl_bes := dl_bes s @ [new_entry name], dl_first := length (dl_bes s) # dl_first s\<rparr>"
    have "registry s" using assms by (simp add: dll_ok_def backends_ok_def)
    then have "registry ?s" using None by (intro registry_add) (simp_all add: find_backend_None)
    moreover have "meta_ok ?s m" if "meta_ok s m" for m
      using that by (auto simp: meta_ok_def nth_append)
    ultimately have "backends_ok ?s" using assms entry_new [of name] by (auto simp: dll_ok_def backends_ok_def)
    moreover have "devlist_ok ?s" using assms by (cases "dl_list s") (simp_all add: dll_ok_def devlist_ok_def)
    ultimately show ?thesis using None False assms by (simp add: add_backend_def dll_ok_def)
  qed
qed (simp add: add_backend_def assms)

interpretation backend_reader: dll_reader dll_ok backend_line
proof
  show "dll_ok (backend_line line s)" if "dll_ok s" for line :: "byte list" and s :: "'a dll"
    using that by (simp add: backend_line_def add_backend_ok split: prod.split option.split)
qed simp

interpretation alias_reader: dll_reader dll_ok "\<lambda>line s. if line = [] \<or> hd line = 35 then s else add_alias line s"
proof
  show "dll_ok (if line = [] \<or> hd line = 35 then s else add_alias line s)" if "dll_ok s" for line and s :: "'a dll"
    using that by (simp add: add_alias_def dll_ok_alias split: prod.split option.split)
qed simp

definition preload_ok :: "'w dll \<Rightarrow> bool" where
  \<comment> \<open>no two preloaded backends have the same name\<close>
  "preload_ok s \<longleftrightarrow> distinct (map (\<lambda>i. be_name (get_be s i)) (filter (\<lambda>i. be_permanent (get_be s i)) [0..<length (dl_bes s)]))"

lemma chain_ok:
  assumes "dll_ok s" "distinct (be_names s @ map (\<lambda>i. be_name (get_be s i)) is)" "\<forall>i \<in> set is. i < length (dl_bes s) \<and> be_permanent (get_be s i)"
  shows "dll_ok (fold chain_preloaded is s)"
  using assms
proof (induction "is" arbitrary: s)
  case (Cons i "is")
  let ?s = "s\<lparr>dl_first := i # dl_first s\<rparr>"
  have n: "i \<notin> set (dl_first s)" using Cons.prems(2) by (auto simp: be_names_def)
  have b: "be_names ?s = be_name (get_be s i) # be_names s" by (simp add: be_names_def)
  have i: "i < length (dl_bes s)" "be_permanent (get_be s i)" using Cons.prems(3) by simp_all
  then have "\<not> be_freed (dl_bes s ! i)"
    using table_entry [of s i] Cons.prems(1) by (simp add: dll_ok_def entry_ok_def get_be_def)
  then have "registry ?s"
    using Cons.prems(1,2) i(1) n b by (auto simp: registry_def dll_ok_def backends_ok_def)
  then have "dll_ok ?s" using Cons.prems(1) by (simp add: dll_ok_first)
  then have "dll_ok (fold chain_preloaded is ?s)"
    using Cons.prems b by (intro Cons.IH) (auto simp: registry_def)
  moreover have "chain_preloaded i s = ?s" using n by (simp add: chain_preloaded_def)
  ultimately show ?case by simp
qed simp

lemma init_dll_ok:
  assumes "dll_ok s" "conf_env_ok env" "preload_ok s" "dl_first s = []"
  shows "dll_ok (fst (sane_init_dll env s))"
proof -
  have "dll_ok (fold chain_preloaded (filter (\<lambda>i. be_permanent (get_be s i)) [0..<length (dl_bes s)]) s)"
    using assms(1,3,4) by (intro chain_ok) (simp_all add: be_names_def preload_ok_def)
  then show ?thesis
    by (simp add: sane_init_dll_def Let_def read_dlld_def read_config_def read_aliases_d_def read_aliases_def
        backend_reader.file_keeps backend_reader.dir_keeps alias_reader.file_keeps alias_reader.dir_keeps assms(2)
        split: prod.split)
qed

section \<open>sane_exit\<close>

definition tidy :: "'w dll \<Rightarrow> bool" where
  \<comment> \<open>the invariant but for the list of backends, which is taken down\<close>
  "tidy s \<longleftrightarrow> (\<forall>b \<in> set (dl_bes s). entry_ok b) \<and> (\<forall>(h, m) \<in> set (dl_handles s). meta_ok s m) \<and>
     dl_malloc s = [] \<and> \<not> dl_fault s \<and> devlist_ok s"

lemma tidy_world [simp]: "tidy (s\<lparr>dl_world := w\<rparr>) = tidy s"
  by (cases "dl_list s") (simp_all add: tidy_def meta_ok_def devlist_ok_def)

lemma tidy_upd:
  assumes "tidy s" "i < length (dl_bes s)" "entry_ok (f (get_be s i))" "be_loaded (f (get_be s i)) = be_loaded (get_be s i)"
  shows "tidy (upd_be i f s)"
proof -
  have "\<forall>b \<in> set (dl_bes (upd_be i f s)). entry_ok b"
    using assms(1,3) unfolding upd_be_def tidy_def by (auto dest!: set_update_subset_insert [THEN subsetD])
  moreover have "meta_ok (upd_be i f s) m" if "meta_ok s m" for m
    using that assms(2,4) by (auto simp: meta_ok_def nth_upd_be get_be_def)
  moreover have "devlist_ok (upd_be i f s)" using assms(1) by (cases "dl_list s") (simp_all add: tidy_def devlist_ok_def upd_be_def)
  ultimately show ?thesis using assms(1) by (auto simp: tidy_def)
qed

lemma exit_backend_tidy:
  assumes "tidy s" "i < length (dl_bes s)"
  shows "tidy (exit_backend i s) \<and> length (dl_bes (exit_backend i s)) = length (dl_bes s)"
proof -
  have e: "entry_ok (get_be s i)" using assms by (simp add: tidy_def get_be_def)
  define s1 where "s1 = (if be_loaded (get_be s i) \<and> be_inited (get_be s i) then
      (case be_op (get_be s i) OP_EXIT of
         Op_Null \<Rightarrow> dll_fail s | Op_Unsupported \<Rightarrow> s | Op_Fun f \<Rightarrow> s\<lparr>dl_world := b_exit f (dl_world s)\<rparr>) else s)"
  have s1: "tidy s1" "get_be s1 i = get_be s i" "length (dl_bes s1) = length (dl_bes s)"
    using e assms(1) by (auto simp: s1_def entry_ok_def split: op_ptr.split)
  have "entry_ok (get_be s i\<lparr>be_inited := False\<rparr>)" "\<not> be_permanent (get_be s i) \<Longrightarrow> entry_ok (get_be s i\<lparr>be_freed := True\<rparr>)"
    using e by (simp_all add: entry_ok_def)
  then have "be_permanent (get_be s i) \<Longrightarrow> tidy (upd_be i (\<lambda>b. b\<lparr>be_inited := False\<rparr>) s1)"
    "\<not> be_permanent (get_be s i) \<Longrightarrow> tidy (upd_be i (\<lambda>b. b\<lparr>be_freed := True\<rparr>) s1)"
    using s1 assms(2) by (auto intro!: tidy_upd)
  then show ?thesis using s1(3) by (simp add: exit_backend_def Let_def flip: s1_def)
qed

lemma exit_backends_tidy:
  "tidy s \<Longrightarrow> \<forall>i \<in> set is. i < length (dl_bes s) \<Longrightarrow> tidy (fold exit_backend is s)"
  by (induction "is" arbitrary: s) (simp_all add: exit_backend_tidy)

lemma walk_devlist_terminated: "walk_devlist (map Slot_Dev ds @ Slot_Null # rest)"
  by (induction ds) simp_all

lemma exit_dll_ok:
  assumes "dll_ok s"
  shows "dll_ok (sane_exit_dll s)"
proof -
  define s1 where "s1 = (fold exit_backend (dl_first s) s)\<lparr>dl_first := [], dl_alias := []\<rparr>"
  have "tidy s" using assms by (simp add: dll_ok_def backends_ok_def tidy_def)
  moreover have "\<forall>i \<in> set (dl_first s). i < length (dl_bes s)" using assms table_first by (auto simp: dll_ok_def)
  ultimately have c: "tidy (fold exit_backend (dl_first s) s)" by (rule exit_backends_tidy)
  then have t: "backends_ok s1" "devlist_ok s1"
    by (cases "dl_list (fold exit_backend (dl_first s) s)";
        auto simp: s1_def tidy_def backends_ok_def registry_def be_names_def meta_ok_def devlist_ok_def)+
  show ?thesis
  proof (cases "dl_list s1")
    case None
    with t show ?thesis by (simp add: sane_exit_dll_def Let_def dll_ok_def flip: s1_def)
  next
    case (Some l)
    then have "walk_devlist l" using t(2) walk_devlist_terminated by (auto simp: devlist_ok_def)
    then have "sane_exit_dll s = set_slots None 0 0 s1"
      using Some by (simp add: sane_exit_dll_def Let_def set_slots_def flip: s1_def)
    with t show ?thesis by (simp add: dll_ok_def devlist_ok_def)
  qed
qed

section \<open>sane_open and the operations on a handle\<close>

lemma dll_ok_world [simp]: "dll_ok (s\<lparr>dl_world := w\<rparr>) = dll_ok s"
  by (cases "dl_list s") (simp_all add: dll_ok_def devlist_ok_def)

lemma dll_ok_handles:
  assumes "dll_ok s" "\<forall>(h, m) \<in> set hs. meta_ok s m"
  shows "dll_ok (s\<lparr>dl_handles := hs, dl_next := n\<rparr>)"
proof -
  have "registry (s\<lparr>dl_handles := hs, dl_next := n\<rparr>)"
    using assms(1) by (simp add: dll_ok_def backends_ok_def registry_def be_names_def)
  with assms show ?thesis
    by (cases "dl_list s") (auto simp: dll_ok_def backends_ok_def devlist_ok_def meta_ok_def)
qed

lemma ready_dll_ok:
  assumes "dll_ok s" "libs_ok env" "i < length (dl_bes s)" "ready_be env i s = (s1, st)"
  shows "dll_ok s1 \<and> be_loaded (get_be s1 i) \<and> entry_ok (get_be s1 i) \<and> i < length (dl_bes s1)"
proof -
  have "devlist_ok s1" using assms(1) ready_frame [OF assms(4)]
    by (cases "dl_list s") (auto simp: dll_ok_def devlist_ok_def be_frame_def)
  then show ?thesis
    using ready_be_ok [OF _ assms(2-4)] ready_frame [OF assms(4)] assms(1,3) by (auto simp: dll_ok_def be_frame_def)
qed

lemma open_backend_ready:
  "open_backend env i dev s =
     (case ready_be env i s of
        (s1, status) \<Rightarrow>
          if status \<noteq> SANE_STATUS_GOOD then Ret (s1, status, None)
          else case be_op (get_be s1 i) OP_OPEN of
            Op_Null \<Rightarrow> Ret (dll_fail s1, SANE_STATUS_UNSUPPORTED, None)
          | Op_Unsupported \<Rightarrow> Ret (s1, SANE_STATUS_UNSUPPORTED, None)
          | Op_Fun f \<Rightarrow> map_call (opened i s1) (b_open f (dl_world s1) (Some (mk_cstr dev))))"
  by (simp add: open_backend_def ready_be_def)

lemma opened_ok:
  assumes "dll_ok s" "be_loaded (get_be s i)" "i < length (dl_bes s)" "opened i s r = (s1, st, h)"
  shows "dll_ok s1"
proof -
  obtain w status k where r: "r = (w, status, k)" by (metis prod_cases3)
  have m: "\<forall>(h, m) \<in> set ((dl_next s, \<lparr>ms_be = i, ms_handle = k\<rparr>) # dl_handles s). meta_ok (s\<lparr>dl_world := w\<rparr>) m"
    using assms(1-3) by (auto simp: dll_ok_def backends_ok_def meta_ok_def get_be_def)
  have "dll_ok (s\<lparr>dl_world := w\<rparr>)" using assms(1) by simp
  from dll_ok_handles [OF this m, of "Suc (dl_next s)"] assms(1,4) r show ?thesis
    by (auto simp: opened_def Let_def split: if_splits)
qed

lemma open_backend_ok:
  assumes "dll_ok s" "libs_ok env" "i < length (dl_bes s)" "(s1, st, h) \<in> set_call (open_backend env i dev s)"
  shows "dll_ok s1"
proof -
  obtain s0 st0 where r: "ready_be env i s = (s0, st0)" by fastforce
  note ok = ready_dll_ok [OF assms(1-3) r]
  then have "be_op (get_be s0 i) OP_OPEN \<noteq> Op_Null" by (simp add: entry_ok_def)
  then show ?thesis
    using assms(4) ok opened_ok [of s0 i] r
    by (auto simp: open_backend_ready call.set_map split: if_splits op_ptr.splits) metis
qed

lemma open_target_ok:
  assumes "dll_ok s" "open_target env n s = (s1, r)"
  shows "dll_ok s1"
  using assms
  by (auto simp: open_target_def open_name_def Let_def split: if_splits prod.splits option.splits)

definition names_a_backend :: "'w dll_env \<Rightarrow> byte list \<Rightarrow> 'w dll \<Rightarrow> bool" where
  \<comment> \<open>the name does not lead to the loader itself\<close>
  "names_a_backend env name s \<longleftrightarrow>
     (\<forall>s1 dev. open_target env (resolve_alias (dl_alias s) name) s \<noteq> (s1, Inr (Some (ascii ''dll''), dev)))"

lemma pick_backend_ok:
  assumes "dll_ok s" "name \<noteq> ascii ''dll''" "pick_backend name s = (s1, st, p)"
  shows "dll_ok s1 \<and> (st = SANE_STATUS_GOOD \<longrightarrow> (\<exists>i. p = Some i \<and> i < length (dl_bes s1)))"
proof (cases "if name = [] then (case dl_first s of [] \<Rightarrow> None | i # is \<Rightarrow> Some i) else find_backend s name")
  case (Some i)
  then have "i \<in> set (dl_first s)"
    using find_backend_Some [of s name i] by (auto split: if_splits list.splits)
  then have "i < length (dl_bes s)" using assms(1) table_first by (auto simp: dll_ok_def)
  moreover have "pick_backend name s = (s, SANE_STATUS_GOOD, Some i)" unfolding pick_backend_def Some by simp
  ultimately show ?thesis using assms(1,3) by simp
next
  case None
  then have p: "add_backend name s = (s1, st, p)" using assms(3) by (simp add: pick_backend_def)
  then have "dll_ok s1" using add_backend_ok [OF assms(1), of name] by simp
  moreover have "\<exists>i. p = Some i \<and> i < length (dl_bes s1)"
  proof (cases "find_backend s name")
    case (Some i)
    have "i < length (dl_bes s)" using find_backend_Some [OF Some] assms(1) table_first by (auto simp: dll_ok_def)
    moreover have "p = Some i" "dl_bes s1 = dl_bes s"
      using p Some assms(2) unfolding add_backend_def by (simp_all split: if_splits) auto
    ultimately show ?thesis by simp
  next
    case None
    with assms(1,2) p show ?thesis by (auto simp: add_backend_def)
  qed
  ultimately show ?thesis by simp
qed

lemma open_dll_ok:
  assumes "dll_ok s" "libs_ok env" "names_a_backend env name s" "(s1, st, h) \<in> set_call (sane_open_dll env name s)"
  shows "dll_ok s1"
proof -
  obtain s2 r where t: "open_target env (resolve_alias (dl_alias s) name) s = (s2, r)" by fastforce
  then have ok: "dll_ok s2" using open_target_ok assms(1) by blast
  show ?thesis
  proof (cases "\<exists>n dev. r = Inr (Some n, dev)")
    case False
    with assms(4) ok t show ?thesis by (auto simp: sane_open_dll_def split: sum.splits option.splits prod.splits)
  next
    case True
    then obtain n dev where n: "r = Inr (Some n, dev)" by blast
    with assms(3) t have "n \<noteq> ascii ''dll''" by (auto simp: names_a_backend_def)
    moreover obtain s3 st3 p where p: "pick_backend n s2 = (s3, st3, p)" by (metis prod_cases3)
    ultimately have k: "dll_ok s3" "st3 = SANE_STATUS_GOOD \<longrightarrow> (\<exists>i. p = Some i \<and> i < length (dl_bes s3))"
      using pick_backend_ok [OF ok] by blast+
    with assms(2,4) t n p open_backend_ok show ?thesis by (auto simp: sane_open_dll_def split: if_splits)
  qed
qed

definition handle_live :: "'w dll \<Rightarrow> nat \<Rightarrow> bool" where
  \<comment> \<open>a handle that was opened, not closed, and whose backend was not released\<close>
  "handle_live s h \<longleftrightarrow> (\<exists>m. get_meta s h = Some m \<and> \<not> be_freed (get_be s (ms_be m)))"

lemma handle_live_op:
  assumes "dll_ok s" "handle_live s h"
  shows "fst (meta_op s h i) \<noteq> Op_Null"
proof -
  obtain m where m: "get_meta s h = Some m" "\<not> be_freed (get_be s (ms_be m))" using assms(2) by (auto simp: handle_live_def)
  then have "(h, m) \<in> set (dl_handles s)" by (simp add: get_meta_def map_of_SomeD)
  then have "meta_ok s m" using assms(1) by (auto simp: dll_ok_def backends_ok_def)
  then have "ms_be m < length (dl_bes s)" "be_loaded (get_be s (ms_be m))" by (simp_all add: meta_ok_def get_be_def)
  then have "be_op (get_be s (ms_be m)) i \<noteq> Op_Null"
    using assms(1) table_entry [of s "ms_be m"] by (simp add: dll_ok_def entry_ok_def)
  with m show ?thesis by (simp add: meta_op_def)
qed

lemma meta_void_ok: "dll_ok s \<Longrightarrow> handle_live s h \<Longrightarrow> dll_ok (meta_void i op h s)"
  using handle_live_op [of s h i] by (auto simp: meta_void_def split: prod.split op_ptr.split)

lemma meta_call_ok: "dll_ok s \<Longrightarrow> handle_live s h \<Longrightarrow> meta_call i op h s = (s1, st, r) \<Longrightarrow> dll_ok s1"
  using handle_live_op [of s h i] by (auto simp: meta_call_def split: prod.splits op_ptr.splits)

lemma close_dll_ok:
  assumes "dll_ok s" "handle_live s h"
  shows "dll_ok (sane_close_dll h s)"
proof -
  let ?s = "meta_void OP_CLOSE (\<lambda>f. b_close f) h s"
  have "dll_ok ?s" using assms by (rule meta_void_ok)
  moreover from this have "\<forall>(h, m) \<in> set (filter (\<lambda>(k, m). k \<noteq> h) (dl_handles ?s)). meta_ok ?s m"
    by (auto simp: dll_ok_def backends_ok_def)
  ultimately have "dll_ok (?s\<lparr>dl_handles := filter (\<lambda>(k, m). k \<noteq> h) (dl_handles ?s), dl_next := dl_next ?s\<rparr>)"
    by (rule dll_ok_handles)
  then show ?thesis by (simp add: sane_close_dll_def Let_def)
qed

section \<open>Steps\<close>

inductive dll_step :: "'w dll_env \<Rightarrow> 'w dll \<Rightarrow> 'w dll \<Rightarrow> bool" for env where
  init: "dl_first s = [] \<Longrightarrow> preload_ok s \<Longrightarrow> dll_step env s (fst (sane_init_dll env s))"
| exit: "dll_step env s (sane_exit_dll s)"
| devices: "dll_step env s (fst (sane_get_devices_dll env local_only s))"
| opens: "names_a_backend env name s \<Longrightarrow> (s1, st, h) \<in> set_call (sane_open_dll env name s) \<Longrightarrow> dll_step env s s1"
| close: "handle_live s h \<Longrightarrow> dll_step env s (sane_close_dll h s)"
| descriptor: "handle_live s h \<Longrightarrow> dll_step env s (fst (sane_get_option_descriptor_dll h option s))"
| control: "handle_live s h \<Longrightarrow> (s1, st, r) \<in> set_call (sane_control_option_dll h option action v s) \<Longrightarrow> dll_step env s s1"
| parameters: "handle_live s h \<Longrightarrow> dll_step env s (fst (sane_get_parameters_dll h s))"
| start: "handle_live s h \<Longrightarrow> (s1, st) \<in> set_call (sane_start_dll h s) \<Longrightarrow> dll_step env s s1"
| read: "handle_live s h \<Longrightarrow> dll_step env s (fst (sane_read_dll h max_length s))"
| cancel: "handle_live s h \<Longrightarrow> dll_step env s (sane_cancel_dll h s)"
| io_mode: "handle_live s h \<Longrightarrow> dll_step env s (fst (sane_set_io_mode_dll h non_blocking s))"
| select_fd: "handle_live s h \<Longrightarrow> dll_step env s (fst (sane_get_select_fd_dll h s))"
| read_dup: "handle_live s h \<Longrightarrow> dll_step env s (fst (sane_read_dup_dll h max_len s))"

inductive dll_reach :: "'w dll_env \<Rightarrow> 'w dll \<Rightarrow> 'w dll \<Rightarrow> bool" for env s0 where
  start: "dll_reach env s0 s0"
| step: "dll_reach env s0 s \<Longrightarrow> dll_step env s s1 \<Longrightarrow> dll_reach env s0 s1"

lemma dll_step_ok:
  assumes "dll_step env s s1" "dll_ok s" "libs_ok env" "conf_env_ok env"
  shows "dll_ok s1"
  using assms(1)
proof cases
  case init
  with assms show ?thesis by (simp add: init_dll_ok)
next
  case exit
  with assms show ?thesis by (simp add: exit_dll_ok)
next
  case (devices local_only)
  with assms get_devices_ok show ?thesis by (metis prod.collapse)
next
  case (opens name st h)
  with assms open_dll_ok show ?thesis by blast
next
  case (close h)
  with assms show ?thesis by (simp add: close_dll_ok)
next
  case (descriptor h option)
  with assms handle_live_op [of s h OP_GET_OPTION_DESC] show ?thesis
    by (auto simp: sane_get_option_descriptor_dll_def split: prod.split op_ptr.split)
next
  case (control h st r option action v)
  with assms handle_live_op [of s h OP_CTL_OPTION] show ?thesis
    by (auto simp: sane_control_option_dll_def call.set_map split: prod.splits op_ptr.splits)
next
  case (parameters h)
  with assms meta_call_ok show ?thesis by (metis prod.collapse sane_get_parameters_dll_def)
next
  case (start h st)
  with assms handle_live_op [of s h OP_START] show ?thesis
    by (auto simp: sane_start_dll_def call.set_map split: prod.splits op_ptr.splits)
next
  case (read h max_length)
  with assms meta_call_ok show ?thesis by (metis prod.collapse sane_read_dll_def)
next
  case (cancel h)
  with assms show ?thesis by (simp add: sane_cancel_dll_def meta_void_ok)
next
  case (io_mode h non_blocking)
  with assms meta_call_ok show ?thesis by (auto simp: sane_set_io_mode_dll_def split: prod.split)
next
  case (select_fd h)
  with assms meta_call_ok show ?thesis by (metis prod.collapse sane_get_select_fd_dll_def)
next
  case (read_dup h max_len)
  with assms meta_call_ok show ?thesis by (metis prod.collapse sane_read_dup_dll_def)
qed

lemma dll_start_ok:
  assumes "list_all (\<lambda>(name, f). lists_ok f) preloaded"
  shows "dll_ok (dll_start (map (\<lambda>(name, f). preloaded_entry name f) preloaded) w)"
  using assms
  by (auto simp: dll_ok_def backends_ok_def devlist_ok_def dll_start_def registry_def be_names_def entry_ok_def
      preloaded_entry_def list_all_iff)

text \<open> C7: the loader uses no invalid pointer as long as it is called properly and memory lasts.  Properly means:
  \<open>sane_init\<close> is not called twice without \<open>sane_exit\<close> between, calls name live handles, and no name to open leads to the
  loader itself (\<open>opening_the_loader_faults\<close> shows what happens otherwise, and
  \<open>lost_device_list_faults\<close> what happens without memory).  Then, with configuration files of text lines
  that fit the line buffer and with backends that terminate their lists of devices, every sequence of calls of the API from
  the start of the program keeps the list of backends free of cycles and of equal names, every handle tied to
  a loaded backend and the list of devices terminated, and no call faults.\<close>

theorem dll_never_faults:
  assumes "dll_reach env (dll_start (map (\<lambda>(name, f). preloaded_entry name f) preloaded) w) s"
    and "list_all (\<lambda>(name, f). lists_ok f) preloaded" "libs_ok env" "conf_env_ok env"
  shows "dll_ok s \<and> \<not> dl_fault s"
proof -
  have "dll_ok s"
    using assms(1)
  proof induction
    case start
    show ?case by (rule dll_start_ok [OF assms(2)])
  next
    case (step s s1)
    then show ?case using dll_step_ok assms(3,4) by blast
  qed
  then show ?thesis by (simp add: dll_ok_def backends_ok_def)
qed

end
