(* ===== verification/Dll_Faults.thy ===== *)
theory Dll_Faults
  imports Dll_Reach
begin

text \<open>
  Where the backend loader departs from its documentation or uses an invalid pointer: a name without
  a colon, a name that leads to the loader, a load that fails, and a list of devices lost for want of
  memory.  Last, a small installation on which the properties of the loader are instantiated.
\<close>

section \<open>Names without a device\<close>

lemma open_target_bare:
  assumes "58 \<notin> set name" "dl_malloc s = []"
  shows "open_target env name s = (s, Inr (Some name, []))"
  using assms by (simp add: open_target_def open_name_def has_prefix_def split_backend_def strchr_idx_def)

lemma open_target_default: "dl_malloc s = [] \<Longrightarrow> open_target env (58 # dev) s = (s, Inr (Some [], dev))"
  by (simp add: open_target_def open_name_def has_prefix_def split_backend_def strchr_idx_def ascii_def)

text \<open> C27: a name without a colon is the name of a backend, not, as the manual page has it, that of a device of the
  default backend: \<open>sane_open\<close> asks the backend of that name for its first device.  The default
  backend, the first of the list, is reached by a name that starts with a colon.\<close>

theorem name_without_colon:
  assumes "registry s" "dl_malloc s = []" "i \<in> set (dl_first s)" "be_name (get_be s i) = name" "name \<noteq> []" "58 \<notin> set name"
    and "no_new_name name (dl_alias s)" "dl_first s = j # js" "no_new_name (58 # dev) (dl_alias s)"
  shows "sane_open_dll env name s = open_backend env i [] s \<and> sane_open_dll env (58 # dev) s = open_backend env j dev s"
  using assms open_target_bare [OF assms(6,2)] open_target_default [OF assms(2)] find_backend_in [OF assms(1,3)]
  by (simp add: sane_open_dll_def resolve_full pick_backend_def)

text \<open>Opening the loader.  \<open>add_backend\<close> answers \<open>SANE_STATUS_GOOD\<close> to the name \<open>dll\<close> and leaves the pointer null, so
  that \<open>sane_open\<close> of \<open>dll\<close> or of any device of \<open>dll\<close> reads through a null pointer.\<close>

theorem opening_the_loader_faults:
  assumes "name = ascii ''dll'' \<or> name = ascii ''dll'' @ 58 # dev" "resolve_alias (dl_alias s) shown = name"
    and "ascii ''dll'' \<notin> set (be_names s)" "dl_malloc s = []"
  shows "\<exists>st. sane_open_dll env shown s = Ret (dll_fail s, st, None)"
proof -
  have p: "plain_backend (ascii ''dll'')" by (simp add: plain_backend_def ascii_def)
  have "\<exists>dev. open_target env name s = (s, Inr (Some (ascii ''dll''), dev))"
    using assms(1,4) open_target_full [OF p, of s env dev] open_target_bare [of "ascii ''dll''" s env] by (auto simp: ascii_def)
  moreover have "ascii ''dll'' \<noteq> []" by (simp add: ascii_def)
  then have "pick_backend (ascii ''dll'') s = (s, SANE_STATUS_GOOD, None)"
    using assms(3) find_backend_None [of s "ascii ''dll''"] by (simp add: pick_backend_def add_backend_def)
  ultimately show ?thesis using assms(2) by (auto simp: sane_open_dll_def)
qed

section \<open>Loading that fails\<close>

text \<open> A backend that cannot be loaded.  The first attempt to initialize it reports \<open>SANE_STATUS_INVAL\<close>; the attempt marks it as
  loaded with no operations, so every later one reports \<open>SANE_STATUS_UNSUPPORTED\<close> without looking for
  the library again, even if it is there by then.\<close>

theorem failed_load_is_final:
  assumes "\<not> be_loaded (get_be s i)" "i < length (dl_bes s)" "dl_malloc s = []"
    and "find_lib env (be_name (get_be s i)) (strsep_all (search_path env)) \<in> {None, Some None}"
  shows "\<exists>s1. init_be env i s = (s1, SANE_STATUS_INVAL) \<and> (\<forall>env2. init_be env2 i s1 = (s1, SANE_STATUS_UNSUPPORTED))"
proof -
  let ?s = "upd_be i (\<lambda>b. b\<lparr>be_loaded := True, be_handle := None, be_op := (\<lambda>_. Op_Unsupported)\<rparr>) s"
  have b: "be_loaded (get_be ?s i)" "be_op (get_be ?s i) OP_INIT = Op_Unsupported" "be_name (get_be ?s i) = be_name (get_be s i)"
    using assms(2) by (simp_all add: get_upd_be)
  have "load_be env i s = (?s, SANE_STATUS_INVAL)"
    using assms(3,4) b(3) by (auto simp: load_be_def)
  then have "init_be env i s = (?s, SANE_STATUS_INVAL)" using assms(1) by (simp add: init_be_def)
  moreover have "init_be env2 i ?s = (?s, SANE_STATUS_UNSUPPORTED)" for env2 using b by (simp add: init_be_def)
  ultimately show ?thesis by blast
qed

section \<open>A lost list of devices\<close>

lemma fault_alloc: "dll_alloc s = (s1, ok) \<Longrightarrow> dl_fault s1 = dl_fault s"
  by (auto simp: dll_alloc_def split: list.splits)

lemma fault_upd [simp]: "dl_fault (upd_be i f s) = dl_fault s"
  by (simp add: upd_be_def)

lemma fault_load: "load_be env i s = (s1, st) \<Longrightarrow> dl_fault s1 = dl_fault s"
  by (auto simp: load_be_def dest!: fault_alloc split: prod.splits if_splits option.splits)

lemma fault_init: "init_be env i s = (s1, st) \<Longrightarrow> dl_fault s \<Longrightarrow> dl_fault s1"
  using fault_load [of env i s]
  by (auto simp: init_be_def dll_fail_def Let_def split: if_splits prod.splits op_ptr.splits)

lemma fault_space: "dll_assert_space n s = (s1, ok) \<Longrightarrow> dl_fault s1 = dl_fault s"
  by (auto simp: dll_assert_space_def Let_def dest!: fault_alloc split: if_splits prod.splits)

lemma fault_push: "dl_fault s \<Longrightarrow> dl_fault (push_slot x s)"
  by (simp add: push_slot_def dll_fail_def split: option.split)

lemma fault_list: "dl_fault s \<Longrightarrow> dl_fault (fst (list_devices name ds s))"
proof (induction name ds s rule: list_devices.induct)
  case (2 name d ds s)
  then show ?case
    by (auto simp: dll_fail_def fault_push fault_alloc split: option.split prod.split)
qed simp

lemma fault_backend:
  assumes "dl_fault s"
  shows "dl_fault (fst (backend_devices env local_only i s))"
proof -
  obtain s1 st where r: "(if be_inited (get_be s i) then (s, SANE_STATUS_GOOD) else init_be env i s) = (s1, st)" by fastforce
  then have "dl_fault s1" using assms fault_init [of env i s] by (auto split: if_splits)
  then show ?thesis
    using r by (auto simp: backend_devices_def dll_fail_def Let_def fault_list fault_space split: op_ptr.split prod.split option.split)
qed

lemma fault_backends: "dl_fault s \<Longrightarrow> dl_fault (fst (backends_devices env local_only is s))"
proof (induction "is" arbitrary: s)
  case (Cons i "is")
  then show ?case using fault_backend [of s env local_only i] by (auto split: prod.split)
qed simp

lemma free_entries_first: "dl_first (free_entries s) = dl_first s"
  by (simp add: free_entries_def dll_fail_def Let_def split: option.split)

lemma fault_devices:
  "dl_fault (fst (backends_devices env local_only (dl_first s) (free_entries s))) \<Longrightarrow>
    dl_fault (fst (sane_get_devices_dll env local_only s))"
  using free_entries_first [of s]
  by (auto simp: sane_get_devices_dll_def Let_def fault_push fault_space split: prod.split)

lemma lost_space: "dll_assert_space k s = (s1, False) \<Longrightarrow> dl_list s1 = None \<and> k \<le> dl_size s1"
  by (auto simp: dll_assert_space_def Let_def split: if_splits prod.splits)

text \<open>A list of devices lost.  When there is no memory to enlarge \<open>devlist\<close>, the pointer becomes null while the room noted for it
  has grown; \<open>sane_get_devices\<close> returns \<open>SANE_STATUS_NO_MEM\<close>, but the next call, with memory again,
  finds enough room noted and stores the first device through the null pointer.\<close>

theorem lost_device_list_faults:
  assumes "dll_assert_space k s0 = (s, False)" "dl_malloc s = []"
    and "dl_first s = i # is" "be_inited (get_be s i)" "be_op (get_be s i) OP_GET_DEVS = Op_Fun f"
    and "b_get_devices f (dl_world s) local_only = (w, SANE_STATUS_GOOD, Some (Some d # l))" "None \<in> set l"
    and "Option.bind (dev_name d) c_str = Some n" "shown_name (dl_alias s) (be_name (get_be s i)) n \<noteq> None"
    and "length l \<le> k"
  shows "dl_fault (fst (sane_get_devices_dll env local_only s))"
proof (rule fault_devices)
  note lost = lost_space [OF assms(1)]
  then have f: "free_entries s = s\<lparr>dl_len := 0\<rparr>" by (simp add: free_entries_def)
  let ?s = "s\<lparr>dl_len := 0, dl_world := w\<rparr>"
  define ds where "ds = map the (takeWhile (\<lambda>d. d \<noteq> None) l)"
  have "length (takeWhile (\<lambda>d. d \<noteq> None) l) < length l"
    using assms(7) by (induction l) auto
  then have "Suc (length ds) \<le> dl_size s" using assms(10) lost by (simp add: ds_def)
  then have a: "dll_assert_space (length (d # ds)) ?s = (?s, True)" by (simp add: dll_assert_space_def)
  have "dl_fault (fst (list_devices (be_name (get_be ?s i)) (d # ds) ?s))"
    using assms(2,8,9) lost by (auto simp: push_slot_def dll_fail_def intro!: fault_list)
  moreover have "backend_devices env local_only i (s\<lparr>dl_len := 0\<rparr>) = list_devices (be_name (get_be ?s i)) (d # ds) ?s"
    using assms(4-7) a by (simp add: backend_devices_def Let_def ds_def)
  ultimately have "dl_fault (fst (backend_devices env local_only i (s\<lparr>dl_len := 0\<rparr>)))" by simp
  moreover obtain t ok where t: "backend_devices env local_only i (s\<lparr>dl_len := 0\<rparr>) = (t, ok)" by fastforce
  ultimately have "dl_fault t" by simp
  then show "dl_fault (fst (backends_devices env local_only (dl_first s) (free_entries s)))"
    unfolding f assms(3) using fault_backends [of t] by (simp add: t)
qed

end
