(* ===== verification/Dll_Examples.thy ===== *)
theory Dll_Examples
  imports Dll_Faults
begin

text \<open>
  A small installation: the backend \<open>flat\<close> with two devices, one of them renamed and the other hidden, a
  backend \<open>net\<close> whose library is missing, and the configuration that names them.
\<close>

definition ex_sheet :: "string \<Rightarrow> sane_device" where
  "ex_sheet n = \<lparr>dev_name = Some (mk_cstr (ascii n)), dev_vendor = None, dev_model = None, dev_type = None\<rparr>"

definition ex_flat :: "nat dll_api" where
  "ex_flat = \<lparr>b_init = (\<lambda>w. (w, 0, sane_version_code 1 0 3)),
     b_get_devices = (\<lambda>w l. (Suc w, 0, Some [Some (ex_sheet ''a''), Some (ex_sheet ''b''), None])),
     b_open = (\<lambda>w n. Ret (Suc w, 0, 7)), b_close = (\<lambda>w h. w), b_descriptor = (\<lambda>w h i. None),
     b_control = (\<lambda>w h i a v. Ret (w, 0, v, 0)), b_params = (\<lambda>w h. (w, 0, undefined)),
     b_start = (\<lambda>w h. Ret (w, 0)), b_read = (\<lambda>w h n. (w, 5, [])), b_cancel = (\<lambda>w h. w),
     b_set_io_mode = (\<lambda>w h m. (w, 0)), b_select_fd = (\<lambda>w h. (w, 1, 0)), b_exit = (\<lambda>w. w),
     b_authorize = (\<lambda>r. Ret 0), b_read_dup = (\<lambda>w h n. (w, 5, [], []))\<rparr>"

definition ex_conf :: "conf_item list" where
  "ex_conf = [Conf_Comment (ascii '' local''), Conf_Backend (ascii ''flat'') [], Conf_Blank [],
     Conf_Backend (ascii ''dll'') [], Conf_Backend (ascii ''net'') (ascii '' # away''), Conf_Backend (ascii ''flat'') (ascii ''#again'')]"

definition ex_aliases :: "dll_alias list" where
  "ex_aliases = [\<lparr>al_old = ascii ''flat:a'', al_new = Some (ascii ''My desk'')\<rparr>, \<lparr>al_old = ascii ''flat:b'', al_new = None\<rparr>]"

definition ex_dll_env :: "nat dll_env" where
  "ex_dll_env = \<lparr>de_files = (\<lambda>path. if path = ascii ''/c/dll.conf'' then Some (file_text (map conf_text ex_conf))
       else if path = ascii ''/c/dll.aliases'' then Some (file_text (map alias_text ex_aliases)) else None),
     de_paths = Some (ascii ''/c''), de_dirs = (\<lambda>path. None), de_regular = (\<lambda>path. True), de_getenv = (\<lambda>name. None),
     de_libdir = ascii ''/l'', de_major = ascii ''1'',
     de_libs = (\<lambda>path. if path = ascii ''/l/libsane-flat.so.1'' then Some (Some (\<lambda>symbol. Some ex_flat)) else None),
     de_version = (1, 0, 3), de_usb = usb_no_testing\<rparr>"

definition ex_loaded :: "bool \<Rightarrow> nat dll" where
  \<comment> \<open>with \<open>flat\<close> in the list, initialized or not\<close>
  "ex_loaded inited = (dll_start [(preloaded_entry (ascii ''flat'') ex_flat)\<lparr>be_inited := inited\<rparr>] 0)
     \<lparr>dl_first := [0], dl_alias := ex_aliases\<rparr>"

lemma ex_flat_lists: "lists_ok ex_flat"
  by (auto simp: lists_ok_def ex_flat_def ex_sheet_def mk_cstr_def c_str_def ascii_def)

lemma ex_libs: "libs_ok ex_dll_env"
  by (simp add: libs_ok_def ex_dll_env_def ex_flat_lists)

lemma ex_text: "text_lines (map conf_text ex_conf)" "text_lines (map alias_text ex_aliases)"
  by (simp_all add: text_lines_def ex_conf_def ex_aliases_def alias_text_def ascii_def)

lemma ex_conf_env: "conf_env_ok ex_dll_env"
  using ex_text by (auto simp: conf_env_ok_def ex_dll_env_def ascii_def split: if_splits)

lemma ex_entry: "entry_ok ((preloaded_entry (ascii ''flat'') ex_flat)\<lparr>be_inited := inited\<rparr>)"
  by (simp add: entry_ok_def preloaded_entry_def ex_flat_lists)

lemma ex_loaded_ok: "dll_ok (ex_loaded inited)"
  using ex_entry [of inited]
  by (simp add: dll_ok_def backends_ok_def devlist_ok_def ex_loaded_def dll_start_def registry_def be_names_def preloaded_entry_def)

lemma ex_start: "registry (dll_start [] w)" "dl_malloc (dll_start [] w) = []" "be_names (dll_start [] w) = []"
  by (simp_all add: registry_def be_names_def dll_start_def)

section \<open>The properties at work\<close>

lemma ex_open_file:
  "sanei_config_open (de_files ex_dll_env) (ascii ''/c'') (ascii ''dll.conf'') = Some (file_text (map conf_text ex_conf))"
  "sanei_config_open (de_files ex_dll_env) (ascii ''/c'') (ascii ''dll.aliases'') = Some (file_text (map alias_text ex_aliases))"
  by (simp_all add: sanei_config_open_def ex_dll_env_def config_path_def ascii_def)

lemma backends_last_first_witness:
  "be_names (read_config ex_dll_env (ascii ''dll.conf'') (dll_start [] 0)) = [ascii ''flat'', ascii ''net'']"
proof -
  have "de_paths ex_dll_env = Some (ascii ''/c'')" by (simp add: ex_dll_env_def)
  moreover have "list_all conf_item_ok ex_conf" by (simp add: ex_conf_def ascii_def is_space_def)
  ultimately have "be_names (read_config ex_dll_env (ascii ''dll.conf'') (dll_start [] 0)) =
      rev (remdups (rev (be_names (dll_start [] (0 :: nat))) @ filter (\<lambda>n. n \<noteq> ascii ''dll'') (conf_names ex_conf)))"
    using ex_open_file(1) ex_text(1) ex_start by (intro backends_last_first)
  then show ?thesis by (simp add: ex_start ex_conf_def ascii_def)
qed

lemma aliases_read_back_witness:
  "dl_alias (read_aliases ex_dll_env (ascii ''dll.aliases'') (dll_start [] 0)) = rev ex_aliases"
proof -
  have "de_paths ex_dll_env = Some (ascii ''/c'')" by (simp add: ex_dll_env_def)
  moreover have "list_all alias_ok ex_aliases" by (simp add: ex_aliases_def alias_ok_def ascii_def is_space_def)
  ultimately have "read_aliases ex_dll_env (ascii ''dll.aliases'') (dll_start [] 0) =
      (dll_start [] 0)\<lparr>dl_alias := rev ex_aliases @ dl_alias (dll_start [] (0 :: nat))\<rparr>"
    using ex_open_file(2) ex_text(2) ex_start by (intro aliases_read_back)
  then show ?thesis by (simp add: dll_start_def)
qed

lemma ex_listing:
  "fst (device_listing ex_dll_env False (dl_first (ex_loaded False)) (ex_loaded False)) =
     [(ex_sheet ''a'')\<lparr>dev_name := Some (mk_cstr (ascii ''My desk''))\<rparr>]"
  by code_simp

lemma devices_listed_witness:
  "\<exists>s1 rest. sane_get_devices_dll ex_dll_env False (ex_loaded False) =
     (s1, SANE_STATUS_GOOD, Some (Slot_Dev ((ex_sheet ''a'')\<lparr>dev_name := Some (mk_cstr (ascii ''My desk''))\<rparr>) # Slot_Null # rest))"
  using devices_listed [OF ex_loaded_ok [of False] ex_libs, of False] by (simp add: ex_listing)

lemma listed_device_opens_witness:
  "sane_open_dll ex_dll_env (ascii ''My desk'') (ex_loaded True) =
     map_call (opened 0 (ex_loaded True)) (Ret (1, 0, 7))"
proof -
  have s: "backends_ok (ex_loaded True)" using ex_loaded_ok by (simp add: dll_ok_def)
  have b: "0 \<in> set (dl_first (ex_loaded True))" "be_inited (get_be (ex_loaded True) 0)"
    "be_op (get_be (ex_loaded True) 0) OP_OPEN = Op_Fun ex_flat" "be_name (get_be (ex_loaded True) 0) = ascii ''flat''"
    by (simp_all add: ex_loaded_def dll_start_def get_be_def preloaded_entry_def)
  have a: "plain_backend (ascii ''flat'')" "new_names_unique (dl_alias (ex_loaded True))"
    "no_new_name (ascii ''flat'' @ 58 # ascii ''a'') (dl_alias (ex_loaded True))"
    "shown_name (dl_alias (ex_loaded True)) (ascii ''flat'') (ascii ''a'') = Some (ascii ''My desk'')"
    by (simp_all add: plain_backend_def new_names_unique_def no_new_name_def shown_name_def alias_matches_def
        ex_loaded_def ex_aliases_def ascii_def)
  have "sane_open_dll ex_dll_env (ascii ''My desk'') (ex_loaded True) =
      map_call (opened 0 (ex_loaded True)) (b_open ex_flat (dl_world (ex_loaded True)) (Some (mk_cstr (ascii ''a''))))"
    using listed_device_opens [OF s b a(1-3), of ex_dll_env] a(4) by blast
  then show ?thesis by (simp add: ex_flat_def ex_loaded_def dll_start_def)
qed

lemma dll_never_faults_witness:
  "dll_ok (fst (sane_get_devices_dll ex_dll_env False (fst (sane_init_dll ex_dll_env
     (dll_start [preloaded_entry (ascii ''flat'') ex_flat] 0)))))"
proof -
  let ?p = "[(ascii ''flat'', ex_flat)]"
  let ?s = "dll_start (map (\<lambda>(name, f). preloaded_entry name f) ?p) (0 :: nat)"
  have "preload_ok ?s" "dl_first ?s = []" by (simp_all add: preload_ok_def dll_start_def)
  then have "dll_reach ex_dll_env ?s (fst (sane_init_dll ex_dll_env ?s))"
    by (intro dll_reach.step [OF dll_reach.start] dll_step.init)
  then have "dll_reach ex_dll_env ?s (fst (sane_get_devices_dll ex_dll_env False (fst (sane_init_dll ex_dll_env ?s))))"
    by (rule dll_reach.step) (rule dll_step.devices)
  from dll_never_faults [OF this _ ex_libs ex_conf_env] show ?thesis by (simp add: ex_flat_lists)
qed

lemma name_without_colon_witness:
  "sane_open_dll ex_dll_env (ascii ''flat'') (ex_loaded True) = sane_open_dll ex_dll_env (ascii '':'') (ex_loaded True)"
proof -
  have r: "registry (ex_loaded True)" "dl_malloc (ex_loaded True) = []"
    using ex_loaded_ok by (simp_all add: dll_ok_def backends_ok_def)
  have "sane_open_dll ex_dll_env (ascii ''flat'') (ex_loaded True) = open_backend ex_dll_env 0 [] (ex_loaded True) \<and>
      sane_open_dll ex_dll_env (58 # []) (ex_loaded True) = open_backend ex_dll_env 0 [] (ex_loaded True)"
    by (rule name_without_colon [OF r])
      (simp_all add: ex_loaded_def dll_start_def get_be_def preloaded_entry_def no_new_name_def ex_aliases_def ascii_def)
  then show ?thesis by (simp add: ascii_def)
qed

lemma opening_the_loader_faults_witness:
  "\<exists>st. sane_open_dll ex_dll_env (ascii ''dll:x'') (ex_loaded True) = Ret (dll_fail (ex_loaded True), st, None)"
  by (rule opening_the_loader_faults [where name = "ascii ''dll:x''" and dev = "ascii ''x''"])
    (simp_all add: ex_loaded_def dll_start_def get_be_def be_names_def preloaded_entry_def resolve_alias_def ex_aliases_def ascii_def)

lemma failed_load_is_final_witness:
  "\<exists>s1. init_be ex_dll_env 0 (fst (add_backend (ascii ''net'') (dll_start [] 0))) = (s1, SANE_STATUS_INVAL) \<and>
     (\<forall>env2. init_be env2 0 s1 = (s1, SANE_STATUS_UNSUPPORTED))"
  by (rule failed_load_is_final)
    (simp_all add: add_backend_def find_backend_def dll_start_def new_entry_def get_be_def ex_dll_env_def search_path_def
      lib_name_def ascii_def)

lemma ex_lost: "dll_assert_space 3 ((ex_loaded True)\<lparr>dl_malloc := [False]\<rparr>) = ((ex_loaded True)\<lparr>dl_size := 18\<rparr>, False)"
  by (simp add: dll_assert_space_def dll_alloc_def ex_loaded_def dll_start_def Let_def)

lemma lost_device_list_faults_witness:
  "dl_fault (fst (sane_get_devices_dll ex_dll_env False (fst (dll_assert_space 3 ((ex_loaded True)\<lparr>dl_malloc := [False]\<rparr>)))))"
  unfolding ex_lost fst_conv
  by (rule lost_device_list_faults [OF ex_lost, where i = 0 and f = ex_flat and d = "ex_sheet ''a''" and n = "ascii ''a''"
        and l = "[Some (ex_sheet ''b''), None]"])
    (simp_all add: ex_loaded_def dll_start_def get_be_def preloaded_entry_def ex_flat_def ex_sheet_def mk_cstr_def
      c_str_def shown_name_def alias_matches_def ex_aliases_def ascii_def)

end
