(* ===== verification/Config_Attach.thy ===== *)
theory Config_Attach
  imports Config Constrain
begin

text \<open>
  \<open>sanei_configure_attach\<close> of \<^verbatim>\<open>sanei/sanei_config.c\<close>: a driver's configuration file sets options, whose
  values are checked against their descriptors, and names devices, for which a function of the
  driver is called.  The calls are noted, each with the values of the options at that time.  A number
  with a fraction is converted by the argument \<open>fix\<close>, which stands for \<open>SANE_FIX (strtod (s, NULL))\<close>.
  \<open>at_fault\<close> becomes true when the code uses an invalid pointer or uninitialised memory; memory for
  a token or a value is always there.
\<close>

section \<open>Numbers\<close>

definition digit_of :: "byte \<Rightarrow> nat option" where
  \<comment> \<open>the value of a digit or letter, as \<open>strtol\<close> takes it\<close>
  "digit_of c =
     (if 48 \<le> c \<and> c \<le> 57 then Some (unat (c - 48))
      else if 97 \<le> c \<and> c \<le> 122 then Some (unat (c - 87))
      else if 65 \<le> c \<and> c \<le> 90 then Some (unat (c - 55))
      else None)"

fun read_digits :: "nat \<Rightarrow> int \<Rightarrow> byte list \<Rightarrow> int" where
  "read_digits base acc [] = acc"
| "read_digits base acc (c # cs) =
     (case digit_of c of
        Some d \<Rightarrow> if d < base then read_digits base (int base * acc + int d) cs else acc
      | None \<Rightarrow> acc)"

definition c_strtol0 :: "byte list \<Rightarrow> int" where
  \<comment> \<open>\<open>strtol (s, NULL, 0)\<close>: hexadecimal after \<open>0x\<close>, octal after \<open>0\<close>, else decimal\<close>
  "c_strtol0 s =
     (let t = dropWhile is_space s;
          neg = (t \<noteq> [] \<and> hd t = 45);
          u = (if t \<noteq> [] \<and> (hd t = 45 \<or> hd t = 43) then tl t else t);
          v = (case u of
                 c0 # c1 # c2 # cs \<Rightarrow>
                   if c0 = 48 \<and> (c1 = 120 \<or> c1 = 88) \<and> (case digit_of c2 of Some d \<Rightarrow> d < 16 | None \<Rightarrow> False)
                   then read_digits 16 0 (c2 # cs)
                   else read_digits (if c0 = 48 then 8 else 10) 0 u
               | c0 # cs \<Rightarrow> read_digits (if c0 = 48 then 8 else 10) 0 u
               | [] \<Rightarrow> 0)
      in clamp_long (if neg then - v else v))"

section \<open>The value of an option\<close>

definition word_token :: "byte list \<Rightarrow> sane_word option" where
  "word_token s = Some (word_of_int (c_strtol0 s))"

definition bool_token :: "byte list \<Rightarrow> sane_word option" where
  "bool_token s =
     (if s = ascii ''1'' \<or> s = ascii ''true'' then Some SANE_TRUE
      else if s = ascii ''0'' \<or> s = ascii ''false'' then Some SANE_FALSE
      else None)"

fun parse_words :: "(byte list \<Rightarrow> sane_word option) \<Rightarrow> nat \<Rightarrow> byte list \<Rightarrow> sane_word list option" where
  \<comment> \<open>\<open>count\<close> tokens; \<open>None\<close> when a closing quote is missing or a token is no value\<close>
  "parse_words conv 0 lp = Some []"
| "parse_words conv (Suc count) lp =
     (case sanei_config_get_string lp of
        (lp1, None) \<Rightarrow> None
      | (lp1, Some s) \<Rightarrow>
          (case conv s of
             None \<Rightarrow> None
           | Some w \<Rightarrow> map_option (\<lambda>ws. w # ws) (parse_words conv count lp1)))"

datatype parsed = Parse_Fault | Parse_Inval | Parsed int "opt_value option"

text \<open>\<open>Parsed size value\<close>: the variables \<open>size\<close> and \<open>value\<close>, where \<open>None\<close> is the null pointer.\<close>

definition parse_array :: "(byte list \<Rightarrow> sane_word option) \<Rightarrow> sane_option_descriptor \<Rightarrow> byte list \<Rightarrow> parsed" where
  \<comment> \<open>an allocation of a negative size fails, no token is read, and the null pointer is checked or copied\<close>
  "parse_array conv d lp =
     (if sint (opt_size d) < 0 then Parse_Fault
      else case parse_words conv (nat (sint (opt_size d)) div 4) lp of
        None \<Rightarrow> Parse_Inval
      | Some ws \<Rightarrow> Parsed (sint (opt_size d)) (Some (Val_Words ws)))"

definition parse_string :: "sane_option_descriptor \<Rightarrow> byte list \<Rightarrow> parsed" where
  \<comment> \<open>a string that does not fit is cut\<close>
  "parse_string d lp =
     (case snd (sanei_config_get_string lp) of
        None \<Rightarrow> Parse_Inval
      | Some s \<Rightarrow>
          if sint (opt_size d) < int (length s) + 1 then
            (if sint (opt_size d) < 1 then Parse_Fault
             else Parsed (sint (opt_size d) - 1) (Some (Val_Bytes ((mk_cstr s)[nat (sint (opt_size d) - 1) := NUL]))))
          else Parsed (int (length s) + 1) (Some (Val_Bytes (mk_cstr s))))"

definition parse_option :: "(byte list \<Rightarrow> sane_word) \<Rightarrow> int \<Rightarrow> sane_option_descriptor \<Rightarrow> byte list \<Rightarrow> parsed" where
  \<comment> \<open>for another type \<open>size\<close> keeps the value it has from an earlier line\<close>
  "parse_option fix sz d lp =
     (if opt_type d = SANE_TYPE_INT then parse_array word_token d lp
      else if opt_type d = SANE_TYPE_BOOL then parse_array bool_token d lp
      else if opt_type d = SANE_TYPE_FIXED then parse_array (\<lambda>s. Some (fix s)) d lp
      else if opt_type d = SANE_TYPE_STRING then parse_string d lp
      else Parsed sz None)"

definition copy_value :: "int \<Rightarrow> opt_value option \<Rightarrow> opt_value \<Rightarrow> opt_value option" where
  \<comment> \<open>\<open>memcpy (config->values[i], value, size)\<close>; \<open>None\<close> when it leaves a block, and when the size is not
      that of whole words, as the rest of the block is not initialised\<close>
  "copy_value sz value old =
     (case (value, old) of
        (None, _) \<Rightarrow> if sz = 0 then Some old else None
      | (Some (Val_Words ws), Val_Words os) \<Rightarrow>
          let n = nat sz div 4
          in if 0 \<le> sz \<and> sz mod 4 = 0 \<and> n \<le> length ws \<and> n \<le> length os
             then Some (Val_Words (take n ws @ drop n os)) else None
      | (Some (Val_Bytes b), Val_Bytes ob) \<Rightarrow>
          if 0 \<le> sz \<and> nat sz \<le> length b \<and> nat sz \<le> length ob
          then Some (Val_Bytes (take (nat sz) b @ drop (nat sz) ob)) else None
      | _ \<Rightarrow> None)"

section \<open>The lines\<close>

record attach_state =
  at_values :: "opt_value list"
  at_size :: int
  at_calls :: "(byte list \<times> opt_value list) list"
  at_fault :: bool

definition at_fail :: "attach_state \<Rightarrow> attach_state" where
  "at_fail s = s\<lparr>at_fault := True\<rparr>"

fun find_option :: "sane_option_descriptor list \<Rightarrow> byte list \<Rightarrow> nat \<Rightarrow> (nat \<times> sane_option_descriptor) option option" where
  \<comment> \<open>the descriptor of a name, from index \<open>i\<close>; \<open>None\<close> when a name cannot be read\<close>
  "find_option [] token i = Some None"
| "find_option (d # ds) token i =
     (case Option.bind (opt_name d) c_str of
        None \<Rightarrow> None
      | Some n \<Rightarrow> if n = token then Some (Some (i, d)) else find_option ds token (Suc i))"

definition set_option :: "(byte list \<Rightarrow> sane_word) \<Rightarrow> nat \<Rightarrow> sane_option_descriptor \<Rightarrow> byte list \<Rightarrow> attach_state \<Rightarrow>
    attach_state \<times> sane_word" where
  \<comment> \<open>parse the value, check it, and copy it when it is good; the null pointer is checked as a block without
      a word, any use of which is invalid\<close>
  "set_option fix i d lp s =
     (case parse_option fix (at_size s) d lp of
        Parse_Fault \<Rightarrow> (at_fail s, SANE_STATUS_INVAL)
      | Parse_Inval \<Rightarrow> (s, SANE_STATUS_INVAL)
      | Parsed sz v \<Rightarrow>
          (let s1 = s\<lparr>at_size := sz\<rparr>
           in case sanei_check_value d (case v of Some x \<Rightarrow> x | None \<Rightarrow> Val_Words []) of
                None \<Rightarrow> (at_fail s1, SANE_STATUS_INVAL)
              | Some status \<Rightarrow>
                  if status \<noteq> SANE_STATUS_GOOD then (s1, status)
                  else if i < length (at_values s1) then
                    (case copy_value sz v (at_values s1 ! i) of
                       None \<Rightarrow> (at_fail s1, SANE_STATUS_GOOD)
                     | Some x \<Rightarrow> (s1\<lparr>at_values := (at_values s1)[i := x]\<rparr>, SANE_STATUS_GOOD))
                  else (at_fail s1, SANE_STATUS_GOOD)))"

definition option_token :: "byte list \<Rightarrow> (byte list \<times> byte list option) option" where
  \<comment> \<open>the rest of the line and the token that may name an option, behind a word that starts with
      \<open>option\<close>; \<open>None\<close> when the line has no first token\<close>
  "option_token lp =
     (case sanei_config_get_string lp of
        (lp1, None) \<Rightarrow> None
      | (lp1, Some token) \<Rightarrow>
          Some (if take 6 token = ascii ''option'' then sanei_config_get_string lp1 else (lp1, Some token)))"

definition attach_line :: "(byte list \<Rightarrow> sane_word) \<Rightarrow> sane_option_descriptor list option \<Rightarrow> bool \<Rightarrow> byte list \<Rightarrow> attach_state \<Rightarrow>
    attach_state \<times> sane_word" where
  \<comment> \<open>the body of the loop: a configuration (or none), and whether there is a function to attach\<close>
  "attach_line fix config attach line s =
     (let lp2 = sanei_config_skip_whitespace line
      in if lp2 = [] \<or> hd line = 35 then (s, SANE_STATUS_GOOD)
         else case option_token lp2 of
           None \<Rightarrow> (s, SANE_STATUS_GOOD)
         | Some (lp, token) \<Rightarrow>
             (let ds = (case config of None \<Rightarrow> [] | Some ds \<Rightarrow> ds)
              in case (case token of
                         Some t \<Rightarrow> find_option ds t 0
                       | None \<Rightarrow> if ds = [] then Some None else None) of
                   None \<Rightarrow> (at_fail s, SANE_STATUS_INVAL)
                 | Some (Some (i, d)) \<Rightarrow> set_option fix i d lp s
                 | Some None \<Rightarrow>
                     (if attach then s\<lparr>at_calls := at_calls s @ [(lp2, at_values s)]\<rparr> else s, SANE_STATUS_GOOD)))"

fun attach_loop :: "nat \<Rightarrow> (byte list \<Rightarrow> attach_state \<Rightarrow> attach_state \<times> sane_word) \<Rightarrow> byte list \<Rightarrow> byte list \<Rightarrow>
    attach_state \<Rightarrow> attach_state \<times> sane_word" where
  \<comment> \<open>\<open>while (sanei_config_read (line, PATH_MAX, fp) && status == SANE_STATUS_GOOD)\<close>; a turn consumes at least
      a byte\<close>
  "attach_loop 0 body buf stream s = (at_fail s, SANE_STATUS_INVAL)"
| "attach_loop (Suc n) body buf stream s =
     (case sanei_config_read buf PATH_MAX stream of
        Cfg_Eof \<Rightarrow> (s, SANE_STATUS_GOOD)
      | Cfg_Fault \<Rightarrow> (at_fail s, SANE_STATUS_INVAL)
      | Cfg_Line b rest \<Rightarrow>
          (case c_str b of
             None \<Rightarrow> (at_fail s, SANE_STATUS_INVAL)
           | Some line \<Rightarrow>
               (case body line s of
                  (s1, status) \<Rightarrow>
                    if status \<noteq> SANE_STATUS_GOOD then (s1, status) else attach_loop n body b rest s1)))"

definition sanei_configure_attach :: "file_system \<Rightarrow> byte list \<Rightarrow> byte list \<Rightarrow> (byte list \<Rightarrow> sane_word) \<Rightarrow>
    sane_option_descriptor list option \<Rightarrow> bool \<Rightarrow> attach_state \<Rightarrow> attach_state \<times> sane_word" where
  \<comment> \<open>arguments: the files, the search path, the name, the conversion of fractions, the descriptors,
      whether there is a function to attach, and the values of the options\<close>
  "sanei_configure_attach fs paths config_file fix config attach s =
     (case sanei_config_open fs paths config_file of
        None \<Rightarrow> (s, SANE_STATUS_ACCESS_DENIED)
      | Some stream \<Rightarrow>
          attach_loop (Suc (length stream)) (attach_line fix config attach) (replicate PATH_MAX 0) stream (s\<lparr>at_size := 0\<rparr>))"

end
