(* ===== verification/Config_Attach_Props.thy ===== *)
theory Config_Attach_Props
  imports Config_Attach Config_Props
begin

text \<open>
  The configuration file of a driver: whatever a text file says, the values of the options satisfy
  their descriptors, also at the time a device is attached; a line without its closing quote is the
  exception.
\<close>

section \<open>Lines with a status\<close>

fun run_lines :: "(byte list \<Rightarrow> 's \<Rightarrow> 's \<times> sane_word) \<Rightarrow> byte list list \<Rightarrow> 's \<Rightarrow> 's \<times> sane_word" where
  \<comment> \<open>the lines one by one, up to the first that fails\<close>
  "run_lines body [] s = (s, SANE_STATUS_GOOD)"
| "run_lines body (l # ls) s =
     (case body (trim l) s of
        (s1, status) \<Rightarrow> if status \<noteq> SANE_STATUS_GOOD then (s1, status) else run_lines body ls s1)"

lemma attach_loop_text:
  "text_lines ls \<Longrightarrow> length buf = PATH_MAX \<Longrightarrow> length ls < n \<Longrightarrow>
    attach_loop n body buf (file_text ls) s = run_lines body ls s"
proof (induction ls arbitrary: n buf s)
  case Nil
  then obtain m where "n = Suc m" by (cases n) auto
  with Nil show ?case using read_conf_end by simp
next
  case (Cons l ls)
  then obtain m where m: "n = Suc m" "length ls < m" by (cases n) auto
  obtain b where b: "sanei_config_read buf PATH_MAX (file_text (l # ls)) = Cfg_Line b (file_text ls)"
    "c_str b = Some (trim l)" "length b = PATH_MAX"
    using Cons.prems by (elim read_conf_line)
  with Cons m show ?case by (simp del: file_text_Cons split: prod.split)
qed

lemma configure_attach_text:
  assumes "sanei_config_open fs paths name = Some (file_text ls)" "text_lines ls"
  shows "sanei_configure_attach fs paths name fix config attach s =
    run_lines (attach_line fix config attach) ls (s\<lparr>at_size := 0\<rparr>)"
  using assms attach_loop_text [OF assms(2)] file_text_length [of ls]
  by (simp add: sanei_configure_attach_def del: attach_loop.simps)

section \<open>Values that satisfy their descriptors\<close>

definition cell_ok :: "sane_option_descriptor \<Rightarrow> opt_value \<Rightarrow> bool" where
  \<comment> \<open>memory of the size of the option: words, or bytes of which the last ends every string\<close>
  "cell_ok d v \<longleftrightarrow>
     (case v of
        Val_Words ws \<Rightarrow> opt_type d \<in> {SANE_TYPE_INT, SANE_TYPE_BOOL, SANE_TYPE_FIXED} \<and> sint (opt_size d) = 4 * int (length ws)
      | Val_Bytes b \<Rightarrow> opt_type d = SANE_TYPE_STRING \<and> b \<noteq> [] \<and> sint (opt_size d) = int (length b) \<and> last b = NUL)"

definition value_good :: "sane_option_descriptor \<Rightarrow> opt_value \<Rightarrow> bool" where
  "value_good d v \<longleftrightarrow> cell_ok d v \<and> sanei_check_value d v = Some SANE_STATUS_GOOD"

definition desc_ok :: "sane_option_descriptor \<Rightarrow> bool" where
  \<comment> \<open>the name can be read, and the check of a value of the right size uses no invalid pointer\<close>
  "desc_ok d \<longleftrightarrow> Option.bind (opt_name d) c_str \<noteq> None \<and> (\<forall>v. cell_ok d v \<longrightarrow> sanei_check_value d v \<noteq> None)"

definition attach_ok :: "sane_option_descriptor list \<Rightarrow> attach_state \<Rightarrow> bool" where
  "attach_ok ds s \<longleftrightarrow> \<not> at_fault s \<and> list_all2 value_good ds (at_values s) \<and>
     (\<forall>(dev, vs) \<in> set (at_calls s). list_all2 value_good ds vs)"

definition unclosed_option :: "byte list \<Rightarrow> bool" where
  \<comment> \<open>a word that starts with \<open>option\<close>, and then a quote that is not closed\<close>
  "unclosed_option line \<longleftrightarrow> line \<noteq> [] \<and> hd line \<noteq> 35 \<and> 
     (case option_token (sanei_config_skip_whitespace line) of Some (lp, None) \<Rightarrow> True | _ \<Rightarrow> False)"

lemma unclosed_option_iff:
  "unclosed_option line \<longleftrightarrow> line \<noteq> [] \<and> hd line \<noteq> 35 \<and>
     (\<exists>lp. option_token (sanei_config_skip_whitespace line) = Some (lp, None))"
  by (auto simp: unclosed_option_def split: option.splits prod.splits)

lemma skip_whitespace_set: "set (sanei_config_skip_whitespace s) \<subseteq> set s"
  by (induction s) auto

lemma get_string_set:
  assumes "sanei_config_get_string s = (r, t)"
  shows "set r \<subseteq> set s" "t = Some w \<Longrightarrow> set w \<subseteq> set s"
proof -
  have "set r \<subseteq> set s \<and> (t = Some w \<longrightarrow> set w \<subseteq> set s)"
  proof (cases "sanei_config_skip_whitespace s")
    case Nil
    with assms show ?thesis by (auto simp: sanei_config_get_string_def)
  next
    case (Cons c cs)
    then have cs: "set (c # cs) \<subseteq> set s" using skip_whitespace_set by metis
    have tw: "set (takeWhile P l) \<subseteq> set l" "set (dropWhile P l) \<subseteq> set l" for P and l :: "byte list"
      by (auto dest: set_takeWhileD set_dropWhileD)
    show ?thesis
    proof (cases "c = 34")
      case False
      then have "r = dropWhile (\<lambda>b. \<not> is_space b) (c # cs)" "t = Some (takeWhile (\<lambda>b. \<not> is_space b) (c # cs))"
        using assms Cons by (auto simp: sanei_config_get_string_def)
      with tw cs show ?thesis by blast
    next
      case True
      show ?thesis
      proof (cases "dropWhile (\<lambda>b. b \<noteq> 34) cs")
        case Nil
        with True assms Cons show ?thesis by (auto simp: sanei_config_get_string_def simp del: dropWhile_eq_Nil_conv)
      next
        case (Cons q after)
        with True assms \<open>sanei_config_skip_whitespace s = c # cs\<close>
        have "r = after" "t = Some (takeWhile (\<lambda>b. b \<noteq> 34) cs)" by (auto simp: sanei_config_get_string_def)
        moreover have "set after \<subseteq> set cs" using Cons tw(2) [of "\<lambda>b. b \<noteq> 34" cs] by auto
        moreover have "set cs \<subseteq> set s" using cs by auto
        ultimately show ?thesis using tw(1) by blast
      qed
    qed
  qed
  then show "set r \<subseteq> set s" "t = Some w \<Longrightarrow> set w \<subseteq> set s" by blast+
qed

lemma parse_words_length: "parse_words conv n lp = Some ws \<Longrightarrow> length ws = n"
  by (induction n arbitrary: lp ws) (auto split: prod.splits option.splits)

lemma check_value_cong:
  assumes "c_str b = c_str b2"
  shows "sanei_check_value d (Val_Bytes b) = sanei_check_value d (Val_Bytes b2)"
  using assms by (simp add: sanei_check_value_def)

lemma parse_array_cell:
  assumes "parse_array conv d lp = Parsed sz v" "opt_type d \<in> {SANE_TYPE_INT, SANE_TYPE_BOOL, SANE_TYPE_FIXED}"
    and "cell_ok d (Val_Words old)"
  shows "\<exists>ws. v = Some (Val_Words ws) \<and> cell_ok d (Val_Words ws) \<and> copy_value sz v (Val_Words old) = Some (Val_Words ws)"
proof -
  have o: "sint (opt_size d) = 4 * int (length old)" using assms(3) by (simp add: cell_ok_def)
  then obtain ws where ws: "parse_words conv (length old) lp = Some ws" "sz = 4 * int (length old)" "v = Some (Val_Words ws)"
    using assms(1) by (auto simp: parse_array_def nat_mult_distrib split: if_splits option.splits)
  then have "length ws = length old" using parse_words_length by blast
  with ws o assms(2) show ?thesis by (simp add: cell_ok_def copy_value_def nat_mult_distrib)
qed

lemma parse_string_cell:
  assumes "parse_string d lp = Parsed sz v" "cell_ok d (Val_Bytes old)" "NUL \<notin> set lp"
  shows "\<exists>b new. v = Some (Val_Bytes b) \<and> copy_value sz v (Val_Bytes old) = Some (Val_Bytes new) \<and>
    cell_ok d (Val_Bytes new) \<and> c_str b = c_str new"
proof -
  have o: "opt_type d = SANE_TYPE_STRING" "old \<noteq> []" "sint (opt_size d) = int (length old)" "last old = NUL"
    using assms(2) by (auto simp: cell_ok_def)
  obtain r t where g: "sanei_config_get_string lp = (r, t)" by fastforce
  with assms(1) obtain w where t: "t = Some w" by (auto simp: parse_string_def split: option.splits)
  then have w: "NUL \<notin> set w" using get_string_set(2) [OF g] assms(3) by blast
  show ?thesis
  proof (cases "length old \<le> length w")
    case True
    define n where "n = length old - 1"
    have "length old \<noteq> 0" using o(2) by simp
    with True have n: "n < length w" "length old = Suc n" "nat (int (length old) - 1) = n"
      unfolding n_def by linarith+
    have v: "sz = int n" "v = Some (Val_Bytes ((mk_cstr w)[n := NUL]))"
      using assms(1) g t o n by (auto simp: parse_string_def)
    have b: "(mk_cstr w)[n := NUL] = take n w @ NUL # drop (Suc n) (mk_cstr w)"
      using n(1) by (simp add: mk_cstr_def upd_conv_take_nth_drop)
    have old: "old = butlast old @ [NUL]" using o(2,4) append_butlast_last_id by metis
    have "copy_value sz v (Val_Bytes old) = Some (Val_Bytes (take n w @ [NUL]))"
      using v b n old by (simp add: copy_value_def) (metis append_eq_conv_conj butlast_conv_take diff_Suc_1 length_butlast)
    moreover have "cell_ok d (Val_Bytes (take n w @ [NUL]))" using o n by (simp add: cell_ok_def)
    moreover have "NUL \<notin> set (take n w)" using w by (meson in_set_takeD)
    ultimately show ?thesis using v(2) b c_str_prefix_NUL by metis
  next
    case False
    have v: "sz = int (length w) + 1" "v = Some (Val_Bytes (mk_cstr w))"
      using assms(1) g t o False by (auto simp: parse_string_def)
    let ?new = "w @ NUL # drop (Suc (length w)) old"
    have "copy_value sz v (Val_Bytes old) = Some (Val_Bytes ?new)"
      using v False by (simp add: copy_value_def mk_cstr_def nat_add_distrib)
    moreover have "cell_ok d (Val_Bytes ?new)"
      using o False by (auto simp: cell_ok_def last_drop)
    ultimately show ?thesis using v(2) w c_str_prefix_NUL [of w] by (metis mk_cstr_def)
  qed
qed

lemma cell_cases:
  "cell_ok d v \<Longrightarrow> (\<exists>ws. v = Val_Words ws \<and> opt_type d \<in> {SANE_TYPE_INT, SANE_TYPE_BOOL, SANE_TYPE_FIXED}) \<or>
    (\<exists>b. v = Val_Bytes b \<and> opt_type d = SANE_TYPE_STRING)"
  by (cases v) (auto simp: cell_ok_def)

lemma parse_option_cell:
  assumes "parse_option fix sz0 d lp = Parsed sz v" "cell_ok d old" "NUL \<notin> set lp"
  shows "\<exists>x new. v = Some x \<and> copy_value sz v old = Some new \<and> cell_ok d new \<and> sanei_check_value d x = sanei_check_value d new"
  using cell_cases [OF assms(2)]
proof (elim disjE exE conjE)
  fix ws
  assume ws: "old = Val_Words ws" "opt_type d \<in> {SANE_TYPE_INT, SANE_TYPE_BOOL, SANE_TYPE_FIXED}"
  then obtain conv where "parse_array conv d lp = Parsed sz v"
    using assms(1) by (auto simp: parse_option_def split: if_splits)
  with parse_array_cell [OF this ws(2)] assms(2) ws(1) show ?thesis by (metis option.inject)
next
  fix b
  assume b: "old = Val_Bytes b" "opt_type d = SANE_TYPE_STRING"
  then have "parse_string d lp = Parsed sz v" using assms(1) by (simp add: parse_option_def)
  from parse_string_cell [OF this _ assms(3)] assms(2) b(1) check_value_cong show ?thesis by metis
qed

lemma parse_option_no_fault:
  assumes "cell_ok d old"
  shows "parse_option fix sz d lp \<noteq> Parse_Fault"
  using assms cell_cases [OF assms]
  by (auto simp: parse_option_def parse_array_def parse_string_def cell_ok_def split: option.splits)

lemma attach_ok_values: "attach_ok ds (s\<lparr>at_values := vs, at_size := sz\<rparr>) \<longleftrightarrow>
    \<not> at_fault s \<and> list_all2 value_good ds vs \<and> (\<forall>(dev, vs) \<in> set (at_calls s). list_all2 value_good ds vs)"
  by (simp add: attach_ok_def)

lemma set_option_ok:
  assumes "attach_ok ds s" "i < length ds" "ds ! i = d" "desc_ok d" "NUL \<notin> set lp"
  shows "attach_ok ds (fst (set_option fix i d lp s))"
proof -
  have i: "i < length (at_values s)" "value_good d (at_values s ! i)"
    using assms(1-3) by (auto simp: attach_ok_def list_all2_conv_all_nth)
  then have c: "cell_ok d (at_values s ! i)" by (simp add: value_good_def)
  have sz: "attach_ok ds (s\<lparr>at_size := n\<rparr>)" for n using assms(1) by (simp add: attach_ok_def)
  show ?thesis
  proof (cases "parse_option fix (at_size s) d lp")
    case Parse_Fault
    with parse_option_no_fault [OF c] show ?thesis by blast
  next
    case Parse_Inval
    then show ?thesis using assms(1) by (simp add: set_option_def)
  next
    case (Parsed sz' v)
    from parse_option_cell [OF this c assms(5)] obtain x new where
      x: "v = Some x" "copy_value sz' v (at_values s ! i) = Some new" "cell_ok d new" "sanei_check_value d x = sanei_check_value d new"
      by blast
    moreover obtain st where st: "sanei_check_value d new = Some st" using assms(4) x(3) by (auto simp: desc_ok_def)
    moreover have "attach_ok ds (s\<lparr>at_size := sz', at_values := (at_values s)[i := new]\<rparr>)" if "st = SANE_STATUS_GOOD"
    proof -
      have "value_good d new" using that x(3) st by (simp add: value_good_def)
      then show ?thesis using assms(1-3) by (auto simp: attach_ok_def list_all2_conv_all_nth nth_list_update)
    qed
    ultimately show ?thesis using Parsed i(1) sz by (simp add: set_option_def Let_def)
  qed
qed

lemma find_option_some: "find_option ds t k = Some (Some (i, d)) \<Longrightarrow> k \<le> i \<and> i - k < length ds \<and> ds ! (i - k) = d"
  by (induction ds t k rule: find_option.induct) (auto split: option.splits if_splits simp: Suc_diff_le nth_Cons')

lemma find_option_readable: "\<forall>d \<in> set ds. desc_ok d \<Longrightarrow> find_option ds t k \<noteq> None"
  by (induction ds t k rule: find_option.induct) (auto simp: desc_ok_def split: option.split)

lemma attach_line_ok:
  assumes "attach_ok ds s" "\<forall>d \<in> set ds. desc_ok d" "\<not> unclosed_option line" "NUL \<notin> set line"
  shows "attach_ok ds (fst (attach_line fix (Some ds) attach line s))"
proof -
  let ?lp = "sanei_config_skip_whitespace line"
  have lp: "NUL \<notin> set ?lp" using assms(4) skip_whitespace_set by blast
  show ?thesis
  proof (cases "?lp = [] \<or> hd line = 35 \<or> option_token ?lp = None")
    case True
    then have "fst (attach_line fix (Some ds) attach line s) = s"
      by (elim disjE) (simp_all add: attach_line_def Let_def)
    with assms(1) show ?thesis by simp
  next
    case False
    then obtain r t where t: "option_token ?lp = Some (r, Some t)"
      using assms(3) by (cases line) (auto simp: unclosed_option_iff)
    have r: "NUL \<notin> set r"
      using t lp get_string_set(1) unfolding option_token_def by (auto split: prod.splits option.splits if_splits; blast)
    obtain f where f: "find_option ds t 0 = Some f" using find_option_readable [OF assms(2)] by blast
    show ?thesis
    proof (cases f)
      case None
      with False t f assms(1) show ?thesis by (auto simp: attach_line_def attach_ok_def)
    next
      case (Some p)
      then obtain i d where p: "p = (i, d)" by (cases p)
      with f Some find_option_some [of ds t 0 i d] have d: "i < length ds" "ds ! i = d" by auto
      then have "desc_ok d" using assms(2) by (metis nth_mem)
      from set_option_ok [OF assms(1) d this r] False t f Some p show ?thesis by (simp add: attach_line_def)
    qed
  qed
qed

lemma run_lines_ok:
  assumes "attach_ok ds s" "\<forall>d \<in> set ds. desc_ok d" "\<forall>l \<in> set ls. NUL \<notin> set l \<and> \<not> unclosed_option (trim l)"
  shows "attach_ok ds (fst (run_lines (attach_line fix (Some ds) attach) ls s))"
  using assms
proof (induction ls arbitrary: s)
  case (Cons l ls)
  have "NUL \<notin> set (trim l)" using Cons.prems(3) trim_set by fastforce
  then have "attach_ok ds (fst (attach_line fix (Some ds) attach (trim l) s))"
    using Cons.prems by (intro attach_line_ok) simp_all
  then show ?case using Cons by (auto split: prod.split)
qed simp

text \<open> C25: a driver's configuration file.  Whatever a text file says, \<open>sanei_configure_attach\<close> uses no invalid pointer, and
  when it returns, with whatever status, the value of every option has the size of the option and
  passes \<open>sanei_check_value\<close>, a string that was too long being cut and ended; so it was each time a device
  was attached.  The one exception is a line with a quote that is not closed behind the word \<open>option\<close>.\<close>

theorem config_values_valid:
  assumes "sanei_config_open fs paths name = Some (file_text ls)" "text_lines ls"
    and "\<forall>l \<in> set ls. \<not> unclosed_option (trim l)" "\<forall>d \<in> set ds. desc_ok d" "attach_ok ds s"
  shows "attach_ok ds (fst (sanei_configure_attach fs paths name fix (Some ds) attach s))"
  proof -
  have "attach_ok ds (s\<lparr>at_size := 0\<rparr>)" using assms(5) by (simp add: attach_ok_def)
  from run_lines_ok [OF this assms(4)] configure_attach_text [OF assms(1,2)] assms(2,3) show ?thesis
    by (simp add: text_lines_def)
qed

text \<open> C26: a line of a driver's configuration file whose first word starts with \<open>option\<close> and whose second has a quote that
  is not closed makes \<open>sanei_configure_attach\<close> compare the names of the options with a null pointer.\<close>

theorem unclosed_option_faults:
  assumes "sanei_config_open fs paths name = Some (file_text (l # ls))" "text_lines (l # ls)"
    and "unclosed_option (trim l)" "ds \<noteq> []"
  shows "at_fault (fst (sanei_configure_attach fs paths name fix (Some ds) attach s))"
proof -
  have "sanei_config_skip_whitespace (trim l) \<noteq> []"
    using assms(3) by (auto simp: unclosed_option_iff option_token_def sanei_config_get_string_def ascii_def split: if_splits)
  then have "attach_line fix (Some ds) attach (trim l) s1 = (at_fail s1, SANE_STATUS_INVAL)" for s1
    using assms(3,4) by (auto simp: unclosed_option_iff attach_line_def Let_def)
  then show ?thesis using configure_attach_text [OF assms(1,2)] by (simp add: at_fail_def)
qed

section \<open>An example\<close>

definition at_depth :: sane_option_descriptor where
  "at_depth = zero_descriptor\<lparr>opt_name := Some (mk_cstr (ascii ''depth'')), opt_type := SANE_TYPE_INT, opt_size := 4,
     opt_constraint_type := SANE_CONSTRAINT_RANGE,
     opt_constraint := Constr_Range (Some \<lparr>rng_min = 1, rng_max = 16, rng_quant = 0\<rparr>)\<rparr>"

definition at_mode :: sane_option_descriptor where
  "at_mode = zero_descriptor\<lparr>opt_name := Some (mk_cstr (ascii ''mode'')), opt_type := SANE_TYPE_STRING, opt_size := 5\<rparr>"

definition at_file :: "byte list list" where
  "at_file = map ascii [''# defaults'', ''option depth 0x8'', ''mode grayscale'', ''/dev/x'', ''depth 17'', ''/dev/y'']"

definition at_fs :: "byte list list \<Rightarrow> file_system" where
  "at_fs ls = (\<lambda>path. if path = ascii ''/c/x.conf'' then Some (file_text ls) else None)"

definition at_start :: attach_state where
  "at_start = \<lparr>at_values = [Val_Words [1], Val_Bytes (replicate 5 0)], at_size = 0, at_calls = [], at_fault = False\<rparr>"

lemma at_descriptors: "desc_ok at_depth" "desc_ok at_mode"
proof -
  have range: "length ws = n \<Longrightarrow> check_range_loop r ws n \<noteq> None" for r n and ws :: "sane_word list"
    by (induction ws arbitrary: n) auto
  have "sanei_check_value at_depth v \<noteq> None" if "cell_ok at_depth v" for v
    using cell_cases [OF that] that range [of _ 1]
    by (auto simp: cell_ok_def at_depth_def zero_descriptor_def sanei_check_value_def elem_count_def)
  then show "desc_ok at_depth"
    by (simp add: desc_ok_def at_depth_def mk_cstr_def c_str_def)
  show "desc_ok at_mode"
    by (auto simp: desc_ok_def at_mode_def zero_descriptor_def sanei_check_value_def mk_cstr_def c_str_def)
qed

lemma at_start_ok: "attach_ok [at_depth, at_mode] at_start"
  by code_simp

lemma at_open: "sanei_config_open (at_fs ls) (ascii ''/c'') (ascii ''x.conf'') = Some (file_text ls)"
  by (simp add: at_fs_def sanei_config_open_def) code_simp

lemma config_values_valid_witness:
  "attach_ok [at_depth, at_mode] (fst (sanei_configure_attach (at_fs at_file) (ascii ''/c'') (ascii ''x.conf'') (\<lambda>s. 0)
     (Some [at_depth, at_mode]) True at_start))"
proof (rule config_values_valid [OF at_open])
  show "\<forall>l \<in> set at_file. \<not> unclosed_option (trim l)" by code_simp
qed (use at_descriptors at_start_ok in \<open>auto simp: text_lines_def at_file_def ascii_def\<close>)

lemma at_result:
  "run_lines (attach_line (\<lambda>s. 0) (Some [at_depth, at_mode]) True) at_file at_start =
     (\<lparr>at_values = [Val_Words [8], Val_Bytes (mk_cstr (ascii ''gray''))], at_size = 4,
       at_calls = [(ascii ''/dev/x'', [Val_Words [8], Val_Bytes (mk_cstr (ascii ''gray''))])], at_fault = False\<rparr>,
      SANE_STATUS_INVAL)"
  by code_simp

lemma unclosed_option_faults_witness:
  "at_fault (fst (sanei_configure_attach (at_fs [ascii ''option '' @ [34] @ ascii ''depth 4'']) (ascii ''/c'') (ascii ''x.conf'') (\<lambda>s. 0)
     (Some [at_depth, at_mode]) True at_start))"
  by (rule unclosed_option_faults [OF at_open]) (code_simp, code_simp, simp)

end
