(* ===== verification/Wire_Codecs.thy ===== *)
theory Wire_Codecs
  imports Wire_Laws Wire_Struct
begin

text \<open>
  The interface \<open>wire_codec\<close>: the codec functions that encode, decode and release the values of
  a type.  From one codec it derives those of arrays (\<open>sanei_w_array\<close>) and of pointers
  (\<open>sanei_w_ptr\<close>).  It is interpreted on the words, bytes, strings, ranges and devices of
  \<^verbatim>\<open>sanei/sanei_wire.c\<close>.
\<close>

unbundle bit_operations_syntax

section \<open>The codec interface\<close>

text \<open>Values of pointer type: null or the value pointed at.\<close>

definition opt_valid :: "('a \<Rightarrow> bool) \<Rightarrow> 'a option \<Rightarrow> bool" where
  "opt_valid valid v = (case v of None \<Rightarrow> True | Some x \<Rightarrow> valid x)"

definition opt_ser :: "('a \<Rightarrow> byte list) \<Rightarrow> 'a option \<Rightarrow> byte list" where
  "opt_ser ser v = (case v of None \<Rightarrow> be32 1 | Some x \<Rightarrow> be32 0 @ ser x)"

definition opt_cost :: "nat \<Rightarrow> ('a \<Rightarrow> nat) \<Rightarrow> 'a option \<Rightarrow> nat" where
  "opt_cost vsize cost v = (case v of None \<Rightarrow> 0 | Some x \<Rightarrow> vsize + cost x)"

definition arr_ser :: "('a \<Rightarrow> byte list) \<Rightarrow> 'a list \<Rightarrow> byte list" where
  "arr_ser ser xs = be32 (word_of_nat (length xs)) @ concat (map ser xs)"

definition arr_cost :: "nat \<Rightarrow> ('a \<Rightarrow> nat) \<Rightarrow> 'a list \<Rightarrow> nat" where
  "arr_cost esize cost xs = length xs * esize + sum_list (map cost xs)"

definition alist_valid :: "('a \<Rightarrow> bool) \<Rightarrow> 'a list option \<Rightarrow> bool" where
  \<comment> \<open>an array passed by pointer: null, or at least one element\<close>
  "alist_valid ok v = (case v of None \<Rightarrow> True
     | Some xs \<Rightarrow> xs \<noteq> [] \<and> list_all ok xs \<and> length xs \<le> MAX_MEM)"

definition alist_len :: "'a list option \<Rightarrow> sane_word" where
  "alist_len v = (case v of None \<Rightarrow> 0 | Some xs \<Rightarrow> word_of_nat (length xs))"

definition alist_ser :: "('a \<Rightarrow> byte list) \<Rightarrow> 'a list option \<Rightarrow> byte list" where
  "alist_ser ser v = (case v of None \<Rightarrow> be32 0 | Some xs \<Rightarrow> arr_ser ser xs)"

definition alist_cost :: "nat \<Rightarrow> ('a \<Rightarrow> nat) \<Rightarrow> 'a list option \<Rightarrow> nat" where
  "alist_cost esize cost v = (case v of None \<Rightarrow> 0 | Some xs \<Rightarrow> arr_cost esize cost xs)"

locale wire_codec =
  fixes ver :: int
    and codec :: "wire \<Rightarrow> 'a \<Rightarrow> wire \<times> 'a"
    and init :: "'a \<Rightarrow> bool"
    and valid :: "'a \<Rightarrow> bool"
    and ser :: "'a \<Rightarrow> byte list"
    and cost :: "'a \<Rightarrow> nat"
  assumes encode: "valid v \<Longrightarrow> enc_ok ver codec v (ser v)"
    and decode: "init v0 \<Longrightarrow> valid v \<Longrightarrow> dec_ok ver codec v0 v (ser v) (cost v)"
    and release: "valid v \<Longrightarrow> free_ok ver codec v (cost v)"
begin

lemma array_loop_enc:
  "list_all valid xs \<Longrightarrow> enc_at w ver al out \<Longrightarrow>
    \<exists>w'. array_loop codec True (length xs) w xs = (w', xs) \<and> enc_at w' ver al (out @ concat (map ser xs))"
proof (induction xs arbitrary: w out)
  case (Cons x xs)
  then obtain w1 where w1: "codec w x = (w1, x)" "enc_at w1 ver al (out @ ser x)"
    using encode [of x] unfolding enc_ok_def by fastforce
  with Cons.IH [OF _ w1(2)] Cons.prems show ?case
    by (auto simp: enc_at_status split: prod.splits)
qed simp

lemma array_loop_dec:
  "init z \<Longrightarrow> list_all valid xs \<Longrightarrow> dec_at w ver al (concat (map ser xs) @ rest) \<Longrightarrow>
    unat al + sum_list (map cost xs) \<le> MAX_MEM \<Longrightarrow>
    \<exists>w'. array_loop codec True (length xs) w (replicate (length xs) z) = (w', xs) \<and>
      dec_at w' ver (al + word_of_nat (sum_list (map cost xs))) rest"
proof (induction xs arbitrary: w al)
  case (Cons x xs)
  then have "dec_ok ver codec z x (ser x) (cost x)" by (simp add: decode)
  with Cons.prems obtain w1 where w1: "codec w z = (w1, x)"
    "dec_at w1 ver (al + word_of_nat (cost x)) (concat (map ser xs) @ rest)"
    unfolding dec_ok_def by fastforce
  have "unat (al + word_of_nat (cost x)) + sum_list (map cost xs) \<le> MAX_MEM"
    using Cons.prems by (subst unat_add_le_MAX) auto
  from Cons.IH [OF Cons.prems(1) _ w1(2) this] Cons.prems(2) w1 show ?case
    by (auto simp: dec_at_status add.assoc split: prod.splits)
qed simp

lemma array_loop_free:
  "list_all valid xs \<Longrightarrow> w_direction w = WIRE_FREE \<Longrightarrow> w_codec w = Codec_Bin \<Longrightarrow> w_version w = ver \<Longrightarrow>
    array_loop codec False (length xs) w xs =
      (w\<lparr>w_allocated := w_allocated w - word_of_nat (sum_list (map cost xs))\<rparr>, xs)"
proof (induction xs arbitrary: w)
  case (Cons x xs)
  from Cons.prems have "codec w x = (w\<lparr>w_allocated := w_allocated w - word_of_nat (cost x)\<rparr>, x)"
    by (intro free_at [where ver = ver] release) auto
  with Cons show ?case
    by (simp add: algebra_simps)
qed simp

lemma array_enc:
  assumes "list_all valid xs" "length xs \<le> MAX_MEM" "enc_at w ver al out"
  shows "\<exists>w'. sanei_w_array z e codec w (word_of_nat (length xs)) (Some xs) = (w', word_of_nat (length xs), Some xs) \<and>
    enc_at w' ver al (out @ arr_ser ser xs)"
proof -
  obtain w1 where w1: "sanei_w_word w (word_of_nat (length xs)) = (w1, word_of_nat (length xs))"
      "enc_at w1 ver al (out @ be32 (word_of_nat (length xs)))"
    using word_enc assms(3) unfolding enc_ok_def by blast
  then show ?thesis
    using array_loop_enc [OF assms(1) w1(2)] assms enc_at_status [OF w1(2)] enc_at_status [OF assms(3)]
    by (auto simp: sanei_w_array_def array_loop_ptr_def arr_ser_def)
qed

lemma array_dec:
  assumes z: "init z" and valid: "list_all valid xs" and n: "length xs \<le> MAX_MEM"
    and d: "dec_at w ver al (arr_ser ser xs @ rest)"
    and mem: "unat al + arr_cost (unat e) cost xs \<le> MAX_MEM"
  shows "\<exists>w'. sanei_w_array z e codec w len v = (w', word_of_nat (length xs), if xs = [] then None else Some xs) \<and>
    dec_at w' ver (al + word_of_nat (arr_cost (unat e) cost xs)) rest"
proof -
  let ?n = "word_of_nat (length xs) :: sane_word"
  obtain w1 where w1: "sanei_w_word w (w_junk w) = (w1, ?n)" "dec_at w1 ver al (concat (map ser xs) @ rest)"
    using word_dec [of ver "w_junk w" ?n] d mem unfolding dec_ok_def arr_ser_def by fastforce
  show ?thesis
  proof (cases "xs = []")
    case True
    with w1 show ?thesis
      using dec_at_status [OF w1(2)] dec_at_status [OF d]
      by (simp add: sanei_w_array_def array_loop_ptr_def arr_cost_def loop_count_def)
  next
    case False
    then have nz: "?n \<noteq> 0"
      using n by (rule word_length_nonzero)
    have lim: "\<not> array_limit w1 ?n e"
      using n mem dec_at_status [OF w1(2)] by (intro array_limit_ok) (auto simp: arr_cost_def)
    obtain w2 where w2: "wmalloc w1 = (w2, True)" "dec_at w2 ver al (concat (map ser xs) @ rest)"
      using w1(2) by (cases "w_malloc w1") (auto simp: wmalloc_def dec_at_def buf_ok_def in_stream_def)
    define w3 where "w3 = w2\<lparr>w_allocated := w_allocated w2 + ucast ((scast ?n :: size_t) * e)\<rparr>"
    have w3: "dec_at w3 ver (al + word_of_nat (length xs * unat e)) (concat (map ser xs) @ rest)"
      using w2(2) n array_charge [of "length xs" e] by (simp add: w3_def dec_at_def buf_ok_def in_stream_def)
    have m3: "unat (al + word_of_nat (length xs * unat e)) + sum_list (map cost xs) \<le> MAX_MEM"
      using mem by (subst unat_add_le_MAX) (auto simp: arr_cost_def)
    from array_loop_dec [OF z valid w3 m3] obtain w4 where
      "array_loop codec True (length xs) w3 (replicate (length xs) z) = (w4, xs)"
      "dec_at w4 ver (al + word_of_nat (arr_cost (unat e) cost xs)) rest"
      by (auto simp: arr_cost_def add.assoc)
    moreover have "unat ?n = length xs" "loop_count ?n = length xs"
      using n by (auto simp: unat_of_nat_small)
    ultimately show ?thesis
      using w1 w2 nz lim False dec_at_status [OF w1(2)] dec_at_status [OF d]
      by (simp add: sanei_w_array_def array_loop_ptr_def w3_def)
  qed
qed

lemma array_free:
  assumes "list_all valid xs" "length xs \<le> MAX_MEM" "xs \<noteq> []"
    and "w_direction w = WIRE_FREE" "w_codec w = Codec_Bin" "w_version w = ver"
  shows "sanei_w_array z e codec w (word_of_nat (length xs)) (Some xs) =
    (w\<lparr>w_allocated := w_allocated w - word_of_nat (arr_cost (unat e) cost xs)\<rparr>, word_of_nat (length xs), Some xs)"
proof -
  have "(word_of_nat (length xs) :: sane_word) \<noteq> 0"
    using assms(3,2) by (rule word_length_nonzero)
  moreover have "loop_count (word_of_nat (length xs)) = length xs"
    using assms by simp
  ultimately show ?thesis
    using array_loop_free [OF assms(1,4-6)] assms array_charge [of "length xs" e]
    by (simp add: sanei_w_array_def array_loop_ptr_def arr_cost_def algebra_simps)
qed

lemma alist_enc:
  assumes "alist_valid valid v" "enc_at w ver al out" "len = alist_len v"
  shows "\<exists>w'. sanei_w_array z e codec w len v = (w', len, v) \<and> enc_at w' ver al (out @ alist_ser ser v)"
proof (cases v)
  case None
  obtain w1 where w1: "sanei_w_word w 0 = (w1, 0)" "enc_at w1 ver al (out @ be32 0)"
    using word_enc assms(2) unfolding enc_ok_def by blast
  with None assms show ?thesis
    using enc_at_status [OF assms(2)] enc_at_status [OF w1(2)]
    by (simp add: sanei_w_array_def array_loop_ptr_def loop_count_def alist_len_def alist_ser_def)
next
  case (Some xs)
  with assms show ?thesis
    using array_enc [of xs w al out z e] by (auto simp: alist_valid_def alist_len_def alist_ser_def)
qed

lemma alist_dec:
  assumes z: "init z" and v: "alist_valid valid v" and d: "dec_at w ver al (alist_ser ser v @ rest)"
    and mem: "unat al + alist_cost (unat e) cost v \<le> MAX_MEM"
  shows "\<exists>w'. sanei_w_array z e codec w len v0 = (w', alist_len v, v) \<and>
    dec_at w' ver (al + word_of_nat (alist_cost (unat e) cost v)) rest"
proof -
  define xs where "xs = (case v of None \<Rightarrow> [] | Some xs \<Rightarrow> xs)"
  have "list_all valid xs" "length xs \<le> MAX_MEM" "alist_ser ser v = arr_ser ser xs"
    "alist_cost (unat e) cost v = arr_cost (unat e) cost xs" "v = (if xs = [] then None else Some xs)"
    "alist_len v = word_of_nat (length xs)"
    using v by (auto simp: xs_def alist_valid_def alist_ser_def alist_cost_def alist_len_def arr_ser_def
        arr_cost_def split: option.splits)
  with array_dec [OF z, of xs w al rest e len v0] d mem show ?thesis by simp
qed

lemma alist_free:
  assumes "alist_valid valid v" "w_direction w = WIRE_FREE" "w_codec w = Codec_Bin" "w_version w = ver"
  shows "sanei_w_array z e codec w (alist_len v) v =
    (w\<lparr>w_allocated := w_allocated w - word_of_nat (alist_cost (unat e) cost v)\<rparr>, alist_len v, v)"
proof (cases v)
  case None
  with assms show ?thesis by (simp add: sanei_w_array_def alist_len_def alist_cost_def)
next
  case (Some xs)
  with assms show ?thesis
    using array_free [of xs w z e] by (simp add: alist_valid_def alist_len_def alist_cost_def)
qed

lemma ptr_codec:
  assumes z: "init z" and e: "e \<noteq> 0" "unat e \<le> MAX_MEM"
  shows "wire_codec ver (sanei_w_ptr z e codec) (\<lambda>_. True) (opt_valid valid) (opt_ser ser) (opt_cost (unat e) cost)"
proof
  fix v assume v: "opt_valid valid v"
  show "enc_ok ver (sanei_w_ptr z e codec) v (opt_ser ser v)"
    unfolding enc_ok_def
  proof (intro allI impI)
    fix w al out assume w: "enc_at w ver al out"
    define nul where "nul = (if v = None then SANE_TRUE else SANE_FALSE)"
    obtain w1 where w1: "sanei_w_word w nul = (w1, nul)" "enc_at w1 ver al (out @ be32 nul)"
      using word_enc w unfolding enc_ok_def by blast
    show "\<exists>w'. sanei_w_ptr z e codec w v = (w', v) \<and> enc_at w' ver al (out @ opt_ser ser v)"
    proof (cases v)
      case None
      with w1 show ?thesis
        using enc_at_status [OF w] enc_at_status [OF w1(2)]
        by (auto simp: sanei_w_ptr_def opt_ser_def nul_def)
    next
      case (Some x)
      with v have "enc_ok ver codec x (ser x)" by (simp add: opt_valid_def encode)
      with w1(2) obtain w2 where "codec w1 x = (w2, x)" "enc_at w2 ver al (out @ be32 nul @ ser x)"
        unfolding enc_ok_def by fastforce
      with w1 Some show ?thesis
        using enc_at_status [OF w] enc_at_status [OF w1(2)]
        by (auto simp: sanei_w_ptr_def opt_ser_def nul_def)
    qed
  qed
next
  fix v0 v assume v: "opt_valid valid v"
  show "dec_ok ver (sanei_w_ptr z e codec) v0 v (opt_ser ser v) (opt_cost (unat e) cost v)"
    unfolding dec_ok_def
  proof (intro allI impI)
    fix w al rest assume w: "dec_at w ver al (opt_ser ser v @ rest)"
      and mem: "unat al + opt_cost (unat e) cost v \<le> MAX_MEM"
    show "\<exists>w'. sanei_w_ptr z e codec w v0 = (w', v) \<and> dec_at w' ver (al + word_of_nat (opt_cost (unat e) cost v)) rest"
    proof (cases v)
      case None
      then obtain w1 where w1: "sanei_w_word w (w_junk w) = (w1, 1)" "dec_at w1 ver al rest"
        using word_dec [of ver "w_junk w" 1] w mem unfolding dec_ok_def opt_ser_def by fastforce
      with None show ?thesis
        using dec_at_status [OF w] dec_at_status [OF w1(2)]
        by (auto simp: sanei_w_ptr_def opt_cost_def)
    next
      case (Some x)
      then obtain w1 where w1: "sanei_w_word w (w_junk w) = (w1, 0)" "dec_at w1 ver al (ser x @ rest)"
        using word_dec [of ver "w_junk w" 0] w mem unfolding dec_ok_def opt_ser_def by fastforce
      obtain w2 where w2: "wmalloc w1 = (w2, True)" "dec_at w2 ver al (ser x @ rest)"
        using w1(2) by (cases "w_malloc w1") (auto simp: wmalloc_def dec_at_def buf_ok_def in_stream_def)
      have ue: "(ucast e :: sane_word) = word_of_nat (unat e)"
        by (rule ucast_unat)
      define w3 where "w3 = w2\<lparr>w_allocated := w_allocated w2 + ucast e\<rparr>"
      have w3: "dec_at w3 ver (al + word_of_nat (unat e)) (ser x @ rest)"
        using w2(2) unfolding w3_def ue by (simp add: dec_at_def buf_ok_def in_stream_def)
      have "dec_ok ver codec z x (ser x) (cost x)"
        using v Some z by (simp add: opt_valid_def decode)
      moreover have "unat (al + word_of_nat (unat e)) + cost x \<le> MAX_MEM"
        using mem Some by (subst unat_add_le_MAX) (auto simp: opt_cost_def)
      ultimately obtain w4 where "codec w3 z = (w4, x)" "dec_at w4 ver (al + word_of_nat (unat e + cost x)) rest"
        using w3 unfolding dec_ok_def by (fastforce simp: add.assoc)
      moreover have "\<not> 1048576 < e"
        using e by (simp add: word_less_nat_alt)
      ultimately show ?thesis
        using dec_at_status [OF w] dec_at_status [OF w1(2)] w1 w2 Some
        by (auto simp: sanei_w_ptr_def opt_cost_def w3_def)
    qed
  qed
next
  fix v assume v: "opt_valid valid v"
  have ue: "(ucast e :: sane_word) = word_of_nat (unat e)"
    by (rule ucast_unat)
  show "free_ok ver (sanei_w_ptr z e codec) v (opt_cost (unat e) cost v)"
  proof (cases v)
    case None
    then show ?thesis by (simp add: free_ok_def sanei_w_ptr_def opt_cost_def)
  next
    case (Some x)
    with v have "free_ok ver codec x (cost x)" by (simp add: opt_valid_def release)
    note c = free_at [OF this]
    have cost_eq: "al - word_of_nat (cost x) - ucast e = al - word_of_nat (unat e + cost x)" for al :: sane_word
      unfolding ue of_nat_add by (rule diff_diff_eq [THEN trans]) (simp only: add.commute)
    show ?thesis
      unfolding free_ok_def opt_cost_def Some option.case cost_eq [symmetric]
      using e(1) by (simp add: sanei_w_ptr_def c)
  qed
qed

end

interpretation word_codec: wire_codec ver sanei_w_word "\<lambda>_. True" "\<lambda>_. True" be32 "\<lambda>_. 0" for ver
  by unfold_locales (auto intro: word_enc word_dec word_free)

interpretation byte_codec: wire_codec ver sanei_w_byte "\<lambda>_. True" "\<lambda>_. True" "\<lambda>b. [b]" "\<lambda>_. 0" for ver
  by unfold_locales (auto intro: byte_enc byte_dec byte_free)

section \<open>Strings\<close>

definition str_valid :: "c_string \<Rightarrow> bool" where
  \<comment> \<open>null, or a block that is exactly a string and its terminator\<close>
  "str_valid s = (case s of None \<Rightarrow> True
     | Some b \<Rightarrow> b \<noteq> [] \<and> last b = NUL \<and> NUL \<notin> set (butlast b) \<and> length b \<le> MAX_MEM)"

definition str_ser :: "c_string \<Rightarrow> byte list" where
  "str_ser s = (case s of None \<Rightarrow> be32 0 | Some b \<Rightarrow> arr_ser (\<lambda>c. [c]) b)"

definition str_cost :: "c_string \<Rightarrow> nat" where
  "str_cost s = (case s of None \<Rightarrow> 0 | Some b \<Rightarrow> length b)"

lemma c_strlen_block:
  "b \<noteq> [] \<Longrightarrow> last b = NUL \<Longrightarrow> NUL \<notin> set (butlast b) \<Longrightarrow> c_strlen b = Some (length b - 1)"
proof -
  assume b: "b \<noteq> []" "last b = NUL" "NUL \<notin> set (butlast b)"
  then have "b = mk_cstr (butlast b)"
    by (metis append_butlast_last_id mk_cstr_def)
  moreover have "nul_free (butlast b)"
    using b by (simp add: nul_free_def)
  ultimately have "c_str b = Some (butlast b)"
    using c_str_mk_cstr by metis
  then show ?thesis by (simp add: c_strlen_def)
qed

lemma cstr_len_valid:
  "str_valid (Some b) \<Longrightarrow> cstr_len w (Some b) = (w, word_of_nat (length b))"
  using c_strlen_block [of b] by (auto simp: str_valid_def cstr_len_def simp flip: of_nat_Suc)

lemma array_null_enc:
  "enc_at w ver al out \<Longrightarrow> \<exists>w'. sanei_w_array z e f w 0 None = (w', 0, None) \<and> enc_at w' ver al (out @ be32 0)"
proof -
  assume w: "enc_at w ver al out"
  then obtain w1 where w1: "sanei_w_word w 0 = (w1, 0)" "enc_at w1 ver al (out @ be32 0)"
    using word_enc unfolding enc_ok_def by blast
  then show ?thesis
    using enc_at_status [OF w] enc_at_status [OF w1(2)]
    by (simp add: sanei_w_array_def array_loop_ptr_def loop_count_def)
qed

lemma sum_list_zeros [simp]: "sum_list (map (\<lambda>_. 0 :: nat) xs) = 0"
  by (induction xs) auto

lemma concat_singletons [simp]: "concat (map (\<lambda>c. [c]) b) = b"
  by (induction b) auto

lemma string_enc: "str_valid s \<Longrightarrow> enc_ok ver sanei_w_string s (str_ser s)"
  unfolding enc_ok_def
proof (intro allI impI)
  fix w al out assume s: "str_valid s" and w: "enc_at w ver al out"
  show "\<exists>w'. sanei_w_string w s = (w', s) \<and> enc_at w' ver al (out @ str_ser s)"
  proof (cases s)
    case None
    with array_null_enc [OF w, of 0 1 sanei_w_byte] enc_at_status [OF w] show ?thesis
      by (auto simp: sanei_w_string_def bin_w_string_def cstr_len_def str_ser_def dest: enc_at_status)
  next
    case (Some b)
    with s have "length b \<le> MAX_MEM" by (simp add: str_valid_def)
    with byte_codec.array_enc [of b w ver al out 0 1] w obtain w' where
      "sanei_w_array 0 1 sanei_w_byte w (word_of_nat (length b)) (Some b) = (w', word_of_nat (length b), Some b)"
      "enc_at w' ver al (out @ str_ser s)"
      using Some by (auto simp: str_ser_def list_all_iff)
    with enc_at_status [OF w] cstr_len_valid [of b w] s Some show ?thesis
      by (auto simp: sanei_w_string_def bin_w_string_def dest: enc_at_status)
  qed
qed

lemma string_dec: "str_valid s \<Longrightarrow> dec_ok ver sanei_w_string s0 s (str_ser s) (str_cost s)"
  unfolding dec_ok_def
proof (intro allI impI)
  fix w al rest assume s: "str_valid s" and w: "dec_at w ver al (str_ser s @ rest)"
    and mem: "unat al + str_cost s \<le> MAX_MEM"
  define b where "b = (case s of None \<Rightarrow> [] | Some b \<Rightarrow> b)"
  have b: "str_ser s = arr_ser (\<lambda>c. [c]) b" "str_cost s = length b" "length b \<le> MAX_MEM"
    "s = (if b = [] then None else Some b)"
    using s by (auto simp: b_def str_ser_def str_cost_def str_valid_def arr_ser_def split: option.splits)
  have "\<exists>w'. sanei_w_array 0 1 sanei_w_byte w (w_junk w) s0 =
      (w', word_of_nat (length b), if b = [] then None else Some b) \<and>
      dec_at w' ver (al + word_of_nat (length b)) rest"
    using byte_codec.array_dec [where z = 0 and xs = b and w = w and al = al and e = 1 and len = "w_junk w" and v = s0] w mem b
    by (simp add: list_all_iff arr_cost_def)
  then obtain w' where w': "sanei_w_array 0 1 sanei_w_byte w (w_junk w) s0 =
      (w', word_of_nat (length b), if b = [] then None else Some b)"
      "dec_at w' ver (al + word_of_nat (length b)) rest" by blast
  have fin: "blk_set b (nat (sint (word_of_nat (length b) :: sane_word) - 1)) NUL = Some b" if "b \<noteq> []"
  proof -
    have "nat (sint (word_of_nat (length b) :: sane_word) - 1) = length b - 1"
      using b(3) by (subst sint_of_nat_small) auto
    moreover have "b ! (length b - 1) = NUL"
      using s that unfolding b_def by (auto simp: str_valid_def last_conv_nth split: option.splits)
    then have "b[length b - 1 := NUL] = b"
      by (metis list_update_id)
    ultimately show ?thesis using that by (simp add: blk_set_def)
  qed
  have "b \<noteq> [] \<Longrightarrow> (word_of_nat (length b) :: sane_word) \<noteq> 0"
    using word_length_nonzero [OF _ b(3)] by blast
  with w' fin dec_at_status [OF w] dec_at_status [OF w'(2)] b
  show "\<exists>w'. sanei_w_string w s0 = (w', s) \<and> dec_at w' ver (al + word_of_nat (str_cost s)) rest"
    by (auto simp: sanei_w_string_def bin_w_string_def Let_def)
qed

lemma string_free: "str_valid s \<Longrightarrow> free_ok ver sanei_w_string s (str_cost s)"
proof (cases s)
  case None
  then show ?thesis
    by (simp add: free_ok_def sanei_w_string_def bin_w_string_def cstr_len_def sanei_w_array_def str_cost_def)
next
  case (Some b)
  assume s: "str_valid s"
  then have b: "length b \<le> MAX_MEM" "b \<noteq> []"
    using Some by (auto simp: str_valid_def)
  have "sanei_w_array 0 1 sanei_w_byte w (word_of_nat (length b)) (Some b) =
      (w\<lparr>w_allocated := w_allocated w - word_of_nat (length b)\<rparr>, word_of_nat (length b), Some b)"
    if "w_direction w = WIRE_FREE" "w_codec w = Codec_Bin" for w
    using byte_codec.array_free [of b w "w_version w" 0 1] that b by (simp add: list_all_iff arr_cost_def)
  then show ?thesis
    using s cstr_len_valid [of b] Some
    by (simp add: free_ok_def sanei_w_string_def bin_w_string_def str_cost_def)
qed

interpretation string_codec: wire_codec ver sanei_w_string "\<lambda>_. True" str_valid str_ser str_cost for ver
  by unfold_locales (auto intro: string_enc string_dec string_free)

section \<open>Enumerations\<close>

lemma copy_enc: "enc_ok ver w_word_copy v (be32 v)"
  unfolding enc_ok_def
proof (intro allI impI)
  fix w al out assume "enc_at w ver al out"
  then obtain w1 where "sanei_w_word w v = (w1, v)" "enc_at w1 ver al (out @ be32 v)"
    using word_enc unfolding enc_ok_def by blast
  then show "\<exists>w'. w_word_copy w v = (w', v) \<and> enc_at w' ver al (out @ be32 v)"
    by (simp add: w_word_copy_def)
qed

lemma copy_dec: "dec_ok ver w_word_copy v0 v (be32 v) 0"
  unfolding dec_ok_def
proof (intro allI impI)
  fix w al rest assume "dec_at w ver al (be32 v @ rest)" "unat al + 0 \<le> MAX_MEM"
  then obtain w1 where "sanei_w_word w v0 = (w1, v)" "dec_at w1 ver al rest"
    using word_dec [of ver v0 v] unfolding dec_ok_def by fastforce
  then show "\<exists>w'. w_word_copy w v0 = (w', v) \<and> dec_at w' ver (al + word_of_nat 0) rest"
    using dec_at_status by (simp add: w_word_copy_def)
qed

lemma copy_free: "free_ok ver w_word_copy v 0"
  by (simp add: free_ok_def w_word_copy_def free_at [OF word_free])

lemmas copy_defs = sanei_w_status_def sanei_w_bool_def sanei_w_constraint_type_def
  sanei_w_value_type_def sanei_w_unit_def sanei_w_action_def sanei_w_frame_def

interpretation copy_codec: wire_codec ver w_word_copy "\<lambda>_. True" "\<lambda>_. True" be32 "\<lambda>_. 0" for ver
  by unfold_locales (auto intro: copy_enc copy_dec copy_free)

section \<open>Structures\<close>

lemma sane_range_eta [simp]: "\<lparr>rng_min = rng_min v, rng_max = rng_max v, rng_quant = rng_quant v\<rparr> = v"
  by (cases v) simp

lemma sane_device_eta [simp]:
  "\<lparr>dev_name = dev_name v, dev_vendor = dev_vendor v, dev_model = dev_model v, dev_type = dev_type v\<rparr> = v"
  by (cases v) simp

definition range_ser :: "sane_range \<Rightarrow> byte list" where
  "range_ser v = be32 (rng_min v) @ be32 (rng_max v) @ be32 (rng_quant v)"

lemmas enc_seq = enc_bind [OF word_enc] enc_bind [OF copy_enc] enc_bind [OF string_enc]
lemmas enc_end = enc_bind_last [OF word_enc] enc_bind_last [OF copy_enc] enc_bind_last [OF string_enc]
lemmas dec_seq = dec_bind0 [OF word_dec] dec_bind0 [OF copy_dec] dec_bind [OF string_dec]
lemmas dec_end = dec_bind_last [OF word_dec] dec_bind_last [OF copy_dec] dec_bind_last [OF string_dec]
lemmas free_steps = free_at [OF word_free] free_at [OF copy_free] free_at [OF string_free]

interpretation range_codec: wire_codec ver sanei_w_range "\<lambda>_. True" "\<lambda>_. True" range_ser "\<lambda>_. 0" for ver
proof unfold_locales
  fix v :: sane_range
  show "enc_ok ver sanei_w_range v (range_ser v)"
    unfolding enc_ok_def sanei_w_range_def range_ser_def
    by (intro allI impI) ((rule enc_seq, assumption)+, rule enc_end, assumption, simp)
  show "free_ok ver sanei_w_range v 0"
    by (simp add: free_ok_def sanei_w_range_def free_steps)
next
  fix v0 v :: sane_range
  show "dec_ok ver sanei_w_range v0 v (range_ser v) 0"
    unfolding dec_ok_def sanei_w_range_def range_ser_def append_assoc
    by (intro allI impI) ((rule dec_seq, assumption, assumption)+, simp)
qed

definition device_valid :: "sane_device \<Rightarrow> bool" where
  "device_valid v \<longleftrightarrow> str_valid (dev_name v) \<and> str_valid (dev_vendor v) \<and> str_valid (dev_model v) \<and> str_valid (dev_type v)"

definition device_ser :: "sane_device \<Rightarrow> byte list" where
  "device_ser v = str_ser (dev_name v) @ str_ser (dev_vendor v) @ str_ser (dev_model v) @ str_ser (dev_type v)"

definition device_cost :: "sane_device \<Rightarrow> nat" where
  "device_cost v = str_cost (dev_name v) + (str_cost (dev_vendor v) + (str_cost (dev_model v) + str_cost (dev_type v)))"

interpretation device_codec: wire_codec ver sanei_w_device "\<lambda>_. True" device_valid device_ser device_cost for ver
proof unfold_locales
  fix v assume v: "device_valid v"
  then show "enc_ok ver sanei_w_device v (device_ser v)"
    unfolding enc_ok_def sanei_w_device_def device_ser_def device_valid_def
    by (intro allI impI) ((rule enc_seq, simp, assumption)+, rule enc_end, simp, assumption, simp)
  from v show "free_ok ver sanei_w_device v (device_cost v)"
    by (simp add: free_ok_def sanei_w_device_def free_steps device_valid_def device_cost_def algebra_simps)
next
  fix v0 v assume "device_valid v"
  then show "dec_ok ver sanei_w_device v0 v (device_ser v) (device_cost v)"
    unfolding dec_ok_def sanei_w_device_def device_ser_def device_valid_def device_cost_def append_assoc
    by (intro allI impI) ((rule dec_seq, simp, assumption, assumption)+, rule dec_end, simp, assumption, assumption, simp)
qed

end
