(* ===== verification/Wire_Option.thy ===== *)
theory Wire_Option
  imports Wire_Codecs Net_Msg
begin

text \<open>
  The codec of option descriptors, whose constraint is a union: the well-formed constraints are
  those whose arm matches the constraint type, with a word list that counts itself and a
  string list that ends in a null pointer.  The remaining composite values follow: scan
  parameters, and the typed value of a control-option message.
\<close>

unbundle bit_operations_syntax

section \<open>Option descriptors\<close>

interpretation device_ptr_codec: wire_codec ver sanei_w_device_ptr "\<lambda>_. True" "opt_valid device_valid"
    "opt_ser device_ser" "opt_cost 32 device_cost" for ver
  using device_codec.ptr_codec [where z = zero_device and e = 32] by (simp add: sanei_w_device_ptr_def)

interpretation range_ptr_codec: wire_codec ver "sanei_w_ptr zero_range 12 sanei_w_range" "\<lambda>_. True"
    "opt_valid (\<lambda>_. True)" "opt_ser range_ser" "opt_cost 12 (\<lambda>_. 0)" for ver
  using range_codec.ptr_codec [where z = zero_range and e = 12] by simp

definition word_list_valid :: "sane_word list option \<Rightarrow> bool" where
  \<comment> \<open>the first word counts the others\<close>
  "word_list_valid ws = (case ws of None \<Rightarrow> False
     | Some l \<Rightarrow> l \<noteq> [] \<and> length l \<le> MAX_MEM \<and> l ! 0 = word_of_nat (length l - 1))"

definition null_terminated :: "'a option list option \<Rightarrow> bool" where
  "null_terminated ps = (case ps of None \<Rightarrow> False
     | Some l \<Rightarrow> l \<noteq> [] \<and> last l = None \<and> None \<notin> set (butlast l))"

fun constr_valid :: "sane_word \<Rightarrow> sane_constraint \<Rightarrow> bool" where
  "constr_valid ct Constr_Unset \<longleftrightarrow> ct \<notin> {SANE_CONSTRAINT_RANGE, SANE_CONSTRAINT_WORD_LIST, SANE_CONSTRAINT_STRING_LIST}"
| "constr_valid ct (Constr_Range r) \<longleftrightarrow> ct = SANE_CONSTRAINT_RANGE"
| "constr_valid ct (Constr_Words ws) \<longleftrightarrow> ct = SANE_CONSTRAINT_WORD_LIST \<and> word_list_valid ws"
| "constr_valid ct (Constr_Strings ss) \<longleftrightarrow> ct = SANE_CONSTRAINT_STRING_LIST \<and>
     null_terminated ss \<and> alist_valid str_valid ss"

fun constr_ser :: "sane_constraint \<Rightarrow> byte list" where
  "constr_ser Constr_Unset = []"
| "constr_ser (Constr_Range r) = opt_ser range_ser r"
| "constr_ser (Constr_Words ws) = alist_ser be32 ws"
| "constr_ser (Constr_Strings ss) = alist_ser str_ser ss"

fun constr_cost :: "sane_constraint \<Rightarrow> nat" where
  "constr_cost Constr_Unset = 0"
| "constr_cost (Constr_Range r) = opt_cost 12 (\<lambda>_. 0) r"
| "constr_cost (Constr_Words ws) = alist_cost 4 (\<lambda>_. 0) ws"
| "constr_cost (Constr_Strings ss) = alist_cost 8 str_cost ss"

lemma takeWhile_null_terminated:
  "l \<noteq> [] \<Longrightarrow> last l = None \<Longrightarrow> None \<notin> set (butlast l) \<Longrightarrow>
    None \<in> set l \<and> length (takeWhile (\<lambda>s. s \<noteq> None) l) + 1 = length l"
proof -
  assume l: "l \<noteq> []" "last l = None" "None \<notin> set (butlast l)"
  then have eq: "l = butlast l @ [None]"
    by (metis append_butlast_last_id)
  have "takeWhile (\<lambda>s. s \<noteq> None) (butlast l @ [None]) = butlast l"
    using l(3) by (subst takeWhile_append2) (metis, simp)
  with eq have "takeWhile (\<lambda>s. s \<noteq> None) l = butlast l" by simp
  with l show ?thesis
    using last_in_set [of l] by simp
qed

lemma string_list_len_valid:
  "null_terminated ss \<Longrightarrow> string_list_len w ss = (w, alist_len ss)"
  using takeWhile_null_terminated [of "the ss"]
  by (cases ss) (simp_all add: null_terminated_def string_list_len_def alist_len_def flip: of_nat_Suc)

lemma device_list_len_valid:
  "ds = None \<or> null_terminated ds \<Longrightarrow> device_list_len w ds = (w, alist_len ds)"
  using takeWhile_null_terminated [of "the ds"]
  by (cases ds) (simp_all add: null_terminated_def device_list_len_def alist_len_def flip: of_nat_Suc)

lemma word_list_len_valid:
  "word_list_valid ws \<Longrightarrow> word_list_len w ws = (w, alist_len ws)"
proof (cases ws)
  case (Some l)
  assume "word_list_valid ws"
  with Some have l: "l \<noteq> []" "l ! 0 = word_of_nat (length l - 1)"
    by (auto simp: word_list_valid_def)
  then have "l ! 0 + 1 = word_of_nat (length l)"
    by (cases l) auto
  with Some l show ?thesis
    by (simp add: word_list_len_def alist_len_def blk_get_def)
qed (simp add: word_list_valid_def)

lemma word_list_valid_alist: "word_list_valid ws \<Longrightarrow> alist_valid (\<lambda>_. True) ws"
  by (cases ws) (auto simp: word_list_valid_def alist_valid_def list_all_iff)

interpretation constraint_codec: wire_codec ver "\<lambda>w. w_constraint w ct" "\<lambda>c. c = Constr_Unset"
    "constr_valid ct" constr_ser constr_cost for ver ct
proof unfold_locales
  fix v assume v: "constr_valid ct v"
  show "enc_ok ver (\<lambda>w. w_constraint w ct) v (constr_ser v)"
    unfolding enc_ok_def
  proof (intro allI impI)
    fix w al out assume w: "enc_at w ver al out"
    show "\<exists>w'. w_constraint w ct v = (w', v) \<and> enc_at w' ver al (out @ constr_ser v)"
    proof (cases v)
      case Constr_Unset
      with v w show ?thesis by (simp add: w_constraint_def)
    next
      case (Constr_Range r)
      with v w range_ptr_codec.encode [where v = r] show ?thesis
        unfolding enc_ok_def by (fastforce simp: w_constraint_def opt_valid_def split: option.splits)
    next
      case (Constr_Words ws)
      with v have "word_list_valid ws" by simp
      with v Constr_Words word_codec.alist_enc [OF word_list_valid_alist w refl, of ws 0 4] enc_at_status [OF w]
      show ?thesis by (auto simp: w_constraint_def word_list_len_valid)
    next
      case (Constr_Strings ss)
      with v string_codec.alist_enc [OF _ w refl, of ss None 8] enc_at_status [OF w]
      show ?thesis by (auto simp: w_constraint_def string_list_len_valid)
    qed
  qed
  show "free_ok ver (\<lambda>w. w_constraint w ct) v (constr_cost v)"
  proof (cases v)
    case Constr_Unset
    with v show ?thesis by (simp add: free_ok_def w_constraint_def)
  next
    case (Constr_Range r)
    with v free_at [OF range_ptr_codec.release [where v = r]] show ?thesis
      by (simp add: free_ok_def w_constraint_def opt_valid_def split: option.splits)
  next
    case (Constr_Words ws)
    with v have "word_list_valid ws" by simp
    with v Constr_Words word_codec.alist_free [OF word_list_valid_alist, of ws] show ?thesis
      by (simp add: free_ok_def w_constraint_def word_list_len_valid)
  next
    case (Constr_Strings ss)
    with v string_codec.alist_free [of ss] show ?thesis
      by (simp add: free_ok_def w_constraint_def string_list_len_valid)
  qed
next
  fix v0 v assume v0: "v0 = Constr_Unset" and v: "constr_valid ct v"
  show "dec_ok ver (\<lambda>w. w_constraint w ct) v0 v (constr_ser v) (constr_cost v)"
    unfolding dec_ok_def
  proof (intro allI impI)
    fix w al rest assume w: "dec_at w ver al (constr_ser v @ rest)" and mem: "unat al + constr_cost v \<le> MAX_MEM"
    show "\<exists>w'. w_constraint w ct v0 = (w', v) \<and> dec_at w' ver (al + word_of_nat (constr_cost v)) rest"
    proof (cases v)
      case Constr_Unset
      with v v0 w show ?thesis by (simp add: w_constraint_def)
    next
      case (Constr_Range r)
      with v w mem range_ptr_codec.decode [where ?v0.0 = None and v = r] show ?thesis
        unfolding dec_ok_def v0 by (fastforce simp: w_constraint_def opt_valid_def split: option.splits)
    next
      case (Constr_Words ws)
      with v have "alist_valid (\<lambda>_. True) ws" by (simp add: word_list_valid_alist)
      with v v0 w mem Constr_Words dec_at_status [OF w]
        word_codec.alist_dec [where v = ws and w = w and e = 4 and z = 0 and al = al and rest = rest
            and len = "w_junk w" and ?v0.0 = None and ver = ver]
      show ?thesis by (auto simp: w_constraint_def)
    next
      case (Constr_Strings ss)
      with v v0 w mem dec_at_status [OF w]
        string_codec.alist_dec [where v = ss and w = w and e = 8 and z = None and al = al and rest = rest
            and len = "w_junk w" and ?v0.0 = None and ver = ver]
      show ?thesis by (auto simp: w_constraint_def)
    qed
  qed
qed

section \<open>Descriptors and parameters\<close>

lemma descriptor_eta [simp]:
  "\<lparr>opt_name = opt_name v, opt_title = opt_title v, opt_desc = opt_desc v, opt_type = opt_type v,
    opt_unit = opt_unit v, opt_size = opt_size v, opt_cap = opt_cap v,
    opt_constraint_type = opt_constraint_type v, opt_constraint = opt_constraint v\<rparr> = v"
  by (cases v) simp

lemma parameters_eta [simp]:
  "\<lparr>par_format = par_format v, par_last_frame = par_last_frame v, par_bytes_per_line = par_bytes_per_line v,
    par_pixels_per_line = par_pixels_per_line v, par_lines = par_lines v, par_depth = par_depth v\<rparr> = v"
  by (cases v) simp

definition descr_valid :: "sane_option_descriptor \<Rightarrow> bool" where
  "descr_valid v \<longleftrightarrow> str_valid (opt_name v) \<and> str_valid (opt_title v) \<and> str_valid (opt_desc v) \<and>
     constr_valid (opt_constraint_type v) (opt_constraint v)"

definition descr_ser :: "sane_option_descriptor \<Rightarrow> byte list" where
  "descr_ser v = str_ser (opt_name v) @ str_ser (opt_title v) @ str_ser (opt_desc v) @ be32 (opt_type v) @
     be32 (opt_unit v) @ be32 (opt_size v) @ be32 (opt_cap v) @ be32 (opt_constraint_type v) @
     constr_ser (opt_constraint v)"

definition descr_cost :: "sane_option_descriptor \<Rightarrow> nat" where
  "descr_cost v = str_cost (opt_name v) + (str_cost (opt_title v) + (str_cost (opt_desc v) +
     constr_cost (opt_constraint v)))"

interpretation descr_codec: wire_codec ver sanei_w_option_descriptor "\<lambda>v. opt_constraint v = Constr_Unset"
    descr_valid descr_ser descr_cost for ver
proof unfold_locales
  fix v assume v: "descr_valid v"
  then show "enc_ok ver sanei_w_option_descriptor v (descr_ser v)"
    unfolding enc_ok_def sanei_w_option_descriptor_def descr_ser_def descr_valid_def copy_defs
    by (intro allI impI)
      ((rule enc_seq, (assumption | simp, assumption))+, rule enc_bind_last [OF constraint_codec.encode], simp, assumption, simp)
  from v show "free_ok ver sanei_w_option_descriptor v (descr_cost v)"
    by (simp add: free_ok_def sanei_w_option_descriptor_def copy_defs free_steps
        free_at [OF constraint_codec.release] descr_valid_def descr_cost_def algebra_simps)
next
  fix v0 v :: sane_option_descriptor assume "opt_constraint v0 = Constr_Unset" "descr_valid v"
  then show "dec_ok ver sanei_w_option_descriptor v0 v (descr_ser v) (descr_cost v)"
    unfolding dec_ok_def sanei_w_option_descriptor_def descr_ser_def descr_valid_def descr_cost_def copy_defs append_assoc
    by (intro allI impI)
      ((rule dec_seq, (assumption, assumption | simp, assumption, assumption))+,
       rule dec_bind_last [OF constraint_codec.decode], simp, simp, assumption, assumption, simp)
qed

interpretation descr_ptr_codec: wire_codec ver sanei_w_option_descriptor_ptr "\<lambda>_. True" "opt_valid descr_valid"
    "opt_ser descr_ser" "opt_cost 56 descr_cost" for ver
  using descr_codec.ptr_codec [where z = zero_descriptor and e = 56]
  by (simp add: sanei_w_option_descriptor_ptr_def zero_descriptor_def)

definition params_ser :: "sane_parameters \<Rightarrow> byte list" where
  "params_ser v = be32 (par_format v) @ be32 (par_last_frame v) @ be32 (par_bytes_per_line v) @
     be32 (par_pixels_per_line v) @ be32 (par_lines v) @ be32 (par_depth v)"

interpretation params_codec: wire_codec ver sanei_w_parameters "\<lambda>_. True" "\<lambda>_. True" params_ser "\<lambda>_. 0" for ver
proof unfold_locales
  fix v :: sane_parameters
  show "enc_ok ver sanei_w_parameters v (params_ser v)"
    unfolding enc_ok_def sanei_w_parameters_def params_ser_def copy_defs
    by (intro allI impI) ((rule enc_seq, assumption)+, rule enc_end, assumption, simp)
  show "free_ok ver sanei_w_parameters v 0"
    by (simp add: free_ok_def sanei_w_parameters_def copy_defs free_steps)
next
  fix v0 v :: sane_parameters
  show "dec_ok ver sanei_w_parameters v0 v (params_ser v) 0"
    unfolding dec_ok_def sanei_w_parameters_def params_ser_def copy_defs append_assoc
    by (intro allI impI) ((rule dec_seq, assumption, assumption)+, simp)
qed

section \<open>Option values\<close>

lemma char_byte: "w_codec w = Codec_Bin \<Longrightarrow> sanei_w_char w b = sanei_w_byte w b"
  by (simp add: sanei_w_char_def sanei_w_byte_def)

interpretation char_codec: wire_codec ver sanei_w_char "\<lambda>_. True" "\<lambda>_. True" "\<lambda>b. [b]" "\<lambda>_. 0" for ver
  using byte_enc byte_dec byte_free
  by unfold_locales
    (auto simp: enc_ok_def dec_ok_def free_ok_def char_byte enc_at_status dec_at_status)

interpretation void_codec: wire_codec ver sanei_w_void "\<lambda>_. True" "\<lambda>_. True" "\<lambda>_. []" "\<lambda>_. 0" for ver
  by unfold_locales (auto simp: enc_ok_def dec_ok_def free_ok_def sanei_w_void_def)

definition is_word_type :: "sane_word \<Rightarrow> bool" where
  "is_word_type ty \<longleftrightarrow> ty = SANE_TYPE_BOOL \<or> ty = SANE_TYPE_INT \<or> ty = SANE_TYPE_FIXED"

fun ctl_valid :: "sane_word \<Rightarrow> sane_word \<Rightarrow> ctl_value \<Rightarrow> bool" where
  \<comment> \<open>the value fits its type, and the size counts its bytes\<close>
  "ctl_valid ty sz Ctl_Null \<longleftrightarrow> (if ty = SANE_TYPE_BUTTON \<or> ty = SANE_TYPE_GROUP then True
     else (is_word_type ty \<or> ty = SANE_TYPE_STRING) \<and> sz = 0)"
| "ctl_valid ty sz (Ctl_Words ws) \<longleftrightarrow> is_word_type ty \<and> ws \<noteq> [] \<and> length ws \<le> MAX_MEM \<and>
     sz = word_of_nat (4 * length ws)"
| "ctl_valid ty sz (Ctl_Chars b) \<longleftrightarrow> ty = SANE_TYPE_STRING \<and> b \<noteq> [] \<and> length b \<le> MAX_MEM \<and>
     sz = word_of_nat (length b)"
| "ctl_valid ty sz (Ctl_Void u) \<longleftrightarrow> False"

fun ctl_ser :: "ctl_value \<Rightarrow> byte list" where
  "ctl_ser (Ctl_Words ws) = alist_ser be32 (Some ws)"
| "ctl_ser (Ctl_Chars b) = alist_ser (\<lambda>c. [c]) (Some b)"
| "ctl_ser _ = be32 0"

fun ctl_cost :: "ctl_value \<Rightarrow> nat" where
  "ctl_cost (Ctl_Words ws) = alist_cost 4 (\<lambda>_. 0) (Some ws)"
| "ctl_cost (Ctl_Chars b) = alist_cost 1 (\<lambda>_. 0) (Some b)"
| "ctl_cost _ = 0"

lemma word_count:
  "n \<le> MAX_MEM \<Longrightarrow> (word_of_int (c_div (sint (word_of_nat (4 * n) :: sane_word)) 4) :: sane_word) = word_of_nat n"
  by (subst sint_of_nat_small) (auto simp: c_div_def sgn_if)

lemma word_count_0 [simp]: "(word_of_int (c_div (sint (0 :: sane_word)) 4) :: sane_word) = 0"
  by (simp add: c_div_def)

lemma w_option_value_valid:
  assumes "ctl_valid ty sz v"
  shows "w_option_value w ty sz u =
    (if is_word_type ty
     then (case sanei_w_array 0 4 sanei_w_word w (alist_len (ctl_words v)) (ctl_words u) of (w1, _, ws) \<Rightarrow> (w1, of_words ws))
     else if ty = SANE_TYPE_STRING
     then (case sanei_w_array 0 1 sanei_w_char w (alist_len (ctl_chars v)) (ctl_chars u) of (w1, _, b) \<Rightarrow> (w1, of_chars b))
     else (case sanei_w_array () 0 sanei_w_void w (alist_len (ctl_void v)) (ctl_void u) of (w1, _, u) \<Rightarrow> (w1, of_void u)))"
  using assms
  by (cases v) (auto simp: w_option_value_def is_word_type_def alist_len_def word_count simp del: of_nat_mult)

lemma ctl_of [simp]:
  "ctl_words (of_words ws) = ws" "ctl_chars (of_chars b) = b" "ctl_void (of_void u) = u"
  by (simp_all add: of_words_def of_chars_def of_void_def split: option.splits)

lemma ctl_valid_cases:
  assumes "ctl_valid ty sz v"
  obtains (words) ws where "is_word_type ty" "v = of_words ws" "alist_valid (\<lambda>_. True) ws"
      "ctl_ser v = alist_ser be32 ws" "ctl_cost v = alist_cost 4 (\<lambda>_. 0) ws"
  | (chars) b where "\<not> is_word_type ty" "ty = SANE_TYPE_STRING" "v = of_chars b" "alist_valid (\<lambda>_. True) b"
      "ctl_ser v = alist_ser (\<lambda>c. [c]) b" "ctl_cost v = alist_cost 1 (\<lambda>_. 0) b"
  | (void) u where "\<not> is_word_type ty" "ty \<noteq> SANE_TYPE_STRING" "v = of_void u" "alist_valid (\<lambda>_. True) u"
      "ctl_ser v = alist_ser (\<lambda>_. []) u" "ctl_cost v = alist_cost 0 (\<lambda>_. 0) u"
proof (cases v)
  case Ctl_Null
  show ?thesis
  proof (cases "is_word_type ty"; cases "ty = SANE_TYPE_STRING")
    show ?thesis if "is_word_type ty"
      by (rule words [of None]) (use that Ctl_Null in \<open>simp_all add: of_words_def alist_valid_def alist_ser_def alist_cost_def\<close>)
    then show ?thesis if "is_word_type ty" using that by simp
    show ?thesis if "\<not> is_word_type ty" "ty = SANE_TYPE_STRING"
      by (rule chars [of None]) (use that Ctl_Null in \<open>simp_all add: of_chars_def alist_valid_def alist_ser_def alist_cost_def\<close>)
    show ?thesis if "\<not> is_word_type ty" "ty \<noteq> SANE_TYPE_STRING"
      by (rule void [of None]) (use that Ctl_Null in \<open>simp_all add: of_void_def alist_valid_def alist_ser_def alist_cost_def\<close>)
  qed
next
  case (Ctl_Words ws)
  with assms show ?thesis
    by (intro words [of "Some ws"]) (auto simp: of_words_def alist_valid_def list_all_iff)
next
  case (Ctl_Chars b)
  with assms show ?thesis
    by (intro chars [of "Some b"]) (auto simp: of_chars_def alist_valid_def list_all_iff is_word_type_def)
next
  case (Ctl_Void u)
  with assms show ?thesis by simp
qed

interpretation value_codec: wire_codec ver "\<lambda>w. w_option_value w ty sz" "\<lambda>_. True" "ctl_valid ty sz" ctl_ser ctl_cost
  for ver ty sz
proof unfold_locales
  fix v assume v: "ctl_valid ty sz v"
  note val = w_option_value_valid [OF v]
  show "enc_ok ver (\<lambda>w. w_option_value w ty sz) v (ctl_ser v)"
    unfolding enc_ok_def
  proof (intro allI impI)
    fix w al out assume w: "enc_at w ver al out"
    from v show "\<exists>w'. w_option_value w ty sz v = (w', v) \<and> enc_at w' ver al (out @ ctl_ser v)"
    proof (cases rule: ctl_valid_cases)
      case (words ws)
      from words word_codec.alist_enc [OF words(3) w refl, of 0 4] show ?thesis unfolding val by auto
    next
      case (chars b)
      from chars char_codec.alist_enc [OF chars(4) w refl, of 0 1] show ?thesis unfolding val by auto
    next
      case (void u)
      from void void_codec.alist_enc [OF void(4) w refl, of "()" 0] show ?thesis unfolding val by auto
    qed
  qed
  from v show "free_ok ver (\<lambda>w. w_option_value w ty sz) v (ctl_cost v)"
  proof (cases rule: ctl_valid_cases)
    case (words ws)
    from words word_codec.alist_free [OF words(3)] show ?thesis unfolding free_ok_def val by simp
  next
    case (chars b)
    from chars char_codec.alist_free [OF chars(4)] show ?thesis unfolding free_ok_def val by simp
  next
    case (void u)
    from void void_codec.alist_free [OF void(4)] show ?thesis unfolding free_ok_def val by simp
  qed
next
  fix v0 v assume v: "ctl_valid ty sz v"
  note val = w_option_value_valid [OF v]
  show "dec_ok ver (\<lambda>w. w_option_value w ty sz) v0 v (ctl_ser v) (ctl_cost v)"
    unfolding dec_ok_def
  proof (intro allI impI)
    fix w al rest assume w: "dec_at w ver al (ctl_ser v @ rest)" and mem: "unat al + ctl_cost v \<le> MAX_MEM"
    from v show "\<exists>w'. w_option_value w ty sz v0 = (w', v) \<and> dec_at w' ver (al + word_of_nat (ctl_cost v)) rest"
    proof (cases rule: ctl_valid_cases)
      case (words ws)
      from words word_codec.alist_dec [OF TrueI words(3), of w ver al rest 4 0 "alist_len ws" "ctl_words v0"] w mem
      show ?thesis unfolding val by auto
    next
      case (chars b)
      from chars char_codec.alist_dec [OF TrueI chars(4), of w ver al rest 1 0 "alist_len b" "ctl_chars v0"] w mem
      show ?thesis unfolding val by auto
    next
      case (void u)
      from void void_codec.alist_dec [OF TrueI void(4), of w ver al rest 0 "()" "alist_len u" "ctl_void v0"] w mem
      show ?thesis unfolding val by auto
    qed
  qed
qed

end
