(* ===== verification/Wire_Safe.thy ===== *)
theory Wire_Safe
  imports Wire_Option
begin

text \<open>
  The second contract of the codec functions, \<open>dec_safe\<close>: decoding keeps the buffer invariant on
  every input, hostile or truncated, and under every failure of an allocation.  The interface
  \<open>wire_decoder\<close> derives it for arrays and pointers; it is interpreted on the codecs of
  \<^verbatim>\<open>sanei/sanei_wire.c\<close> and proved for every message of \<^verbatim>\<open>sanei/sanei_net.c\<close>.
\<close>

section \<open>Decoding is safe on any input\<close>

text \<open>
  What holds of a decoding wire whatever the peer sends and whichever allocation fails: the
  buffer invariant stays, nothing outside a memory block is touched, and nothing is written.
  The only assumption on the system is that a failed \<open>read\<close> sets a non-zero \<open>errno\<close>.
\<close>

definition reading :: "wire \<Rightarrow> bool" where
  "reading w \<longleftrightarrow> buf_ok w \<and> w_direction w = WIRE_DECODE \<and> RError 0 \<notin> set (w_rd w)"

definition kept :: "wire \<Rightarrow> wire \<Rightarrow> bool" where
  "kept w w' \<longleftrightarrow> reading w' \<and> w_sent w' = w_sent w \<and> w_wr w' = w_wr w \<and> w_version w' = w_version w \<and>
     w_size w' = w_size w"

definition dec_safe :: "(wire \<Rightarrow> 'a \<Rightarrow> wire \<times> 'a) \<Rightarrow> bool" where
  "dec_safe f \<longleftrightarrow> (\<forall>w v. reading w \<longrightarrow> kept w (fst (f w v)))"

lemma kept_refl [simp]: "kept w w \<longleftrightarrow> reading w"
  by (simp add: kept_def)

lemma kept_trans: "kept w0 w1 \<Longrightarrow> kept w1 w2 \<Longrightarrow> kept w0 w2"
  by (auto simp: kept_def)

lemma kept_reading: "kept w0 w \<Longrightarrow> reading w"
  by (simp add: kept_def)

lemma reading_codec: "reading w \<Longrightarrow> w_codec w = Codec_Bin \<and> w_direction w = WIRE_DECODE"
  by (simp add: reading_def buf_ok_def)

lemma dec_safeI: "(\<And>w v. reading w \<Longrightarrow> kept w (fst (f w v))) \<Longrightarrow> dec_safe f"
  by (simp add: dec_safe_def)

lemma safe_step: "dec_safe f \<Longrightarrow> kept w0 w \<Longrightarrow> kept w0 (fst (f w v))"
  using kept_trans unfolding dec_safe_def by (blast dest: kept_reading)

lemma safe_bind:
  assumes "dec_safe f" "kept w0 w" "\<And>w1 x. kept w0 w1 \<Longrightarrow> kept w0 (fst (k w1 x))"
  shows "kept w0 (fst (case f w v of (w1, x) \<Rightarrow> k w1 x))"
  using assms safe_step [of f w0 w v] by (auto split: prod.split)

lemma safe_end: "kept w0 w \<Longrightarrow> kept w0 (fst (w, x))"
  by simp

lemma io_read_no_zero: "io_read n evs = (r, evs') \<Longrightarrow> RError 0 \<notin> set evs \<Longrightarrow> RError 0 \<notin> set evs' \<and> r \<noteq> Inl 0"
  by (cases "(n, evs)" rule: io_read.cases) (auto split: if_splits)

lemma io_recv_no_zero:
  "io_recv sz howmuch evs got = (err, evs', got') \<Longrightarrow> RError 0 \<notin> set evs \<Longrightarrow> RError 0 \<notin> set evs' \<and> err \<noteq> Some 0"
proof (induction sz howmuch evs got rule: io_recv.induct)
  case (1 sz howmuch evs got)
  obtain r evs1 where r: "io_read (sz - length got) evs = (r, evs1)" by fastforce
  with io_read_no_zero [OF r] 1 show ?case
    by (subst (asm) (2) io_recv.simps) (fastforce split: sum.splits if_splits)
qed

lemma space_safe:
  assumes "reading w"
  shows "kept w (sanei_w_space w n) \<and>
    (w_status (sanei_w_space w n) = 0 \<longrightarrow> w_curr (sanei_w_space w n) + n \<le> w_end (sanei_w_space w n))"
proof (cases "w_status w = 0 \<and> w_end w < w_curr w + n")
  case False
  with assms show ?thesis by (auto simp: sanei_w_space_def)
next
  case True
  let ?got = "slice (w_curr w) (w_end w) (w_mem w)"
  have w: "w_curr w \<le> w_end w" "w_end w \<le> w_size w" "length (w_mem w) = w_size w" "length ?got \<le> w_size w"
    using assms by (auto simp: reading_def buf_ok_def)
  obtain err evs got where r: "io_recv (w_size w) n (w_rd w) ?got = (err, evs, got)"
    by (cases "io_recv (w_size w) n (w_rd w) ?got") auto
  have l: "length got \<le> w_size w" "err = None \<longrightarrow> n \<le> length got"
    using io_recv_length [OF w(4) r] by auto
  have z: "RError 0 \<notin> set evs" "err \<noteq> Some 0"
    using io_recv_no_zero [OF r] assms by (auto simp: reading_def)
  have eq: "sanei_w_space w n = w\<lparr>w_mem := blit (w_mem w) 0 got, w_curr := 0, w_end := length got, w_rd := evs,
      w_status := (case err of Some e \<Rightarrow> e | None \<Rightarrow> w_status w)\<rparr>"
    using True w r l assms by (simp add: sanei_w_space_def space_decode_def reading_def)
  show ?thesis
    using l z w assms unfolding eq
    by (auto simp: kept_def reading_def buf_ok_def split: option.splits)
qed

lemma get_safe:
  assumes "kept w0 w" "w_curr w < w_end w"
  shows "\<exists>b. wget w = (wskip w, b)" "kept w0 (wskip w)" "w_curr (wskip w) = Suc (w_curr w)" "w_end (wskip w) = w_end w"
  using assms
  by (auto simp: wget_def wpeek_def blk_get_def wskip_def kept_def reading_def buf_ok_def)

lemma byte_safe: "dec_safe sanei_w_byte"
proof (rule dec_safeI)
  fix w v assume w: "reading w"
  note s = space_safe [OF w, of 1]
  have r: "reading (sanei_w_space w 1)" using s kept_reading by blast
  show "kept w (fst (sanei_w_byte w v))"
    using s get_safe [of w "sanei_w_space w 1"] reading_codec [OF w] reading_codec [OF r]
    by (auto simp: sanei_w_byte_def bin_w_byte_def Let_def)
qed

lemma char_safe: "dec_safe sanei_w_char"
  using byte_safe char_byte reading_codec by (simp add: dec_safe_def)

lemma void_safe: "dec_safe sanei_w_void"
  by (simp add: dec_safe_def sanei_w_void_def)

lemma word_safe: "dec_safe sanei_w_word"
proof (rule dec_safeI)
  fix w v assume w: "reading w"
  define w1 where "w1 = sanei_w_space w 4"
  have s: "kept w w1" "w_status w1 = 0 \<Longrightarrow> w_curr w1 + 4 \<le> w_end w1"
    using space_safe [OF w, of 4] by (auto simp: w1_def)
  show "kept w (fst (sanei_w_word w v))"
  proof (cases "w_status w1 = 0")
    case False
    with s reading_codec [OF w] show ?thesis by (simp add: sanei_w_word_def bin_w_word_def w1_def)
  next
    case True
    then have c: "w_curr w1 + 4 \<le> w_end w1" by (rule s)
    have "w_curr w1 < w_end w1" using c by simp
    note g1 = get_safe [OF s(1) this]
    have "w_curr (wskip w1) < w_end (wskip w1)" using c g1 by simp
    note g2 = get_safe [OF g1(2) this]
    have "w_curr (wskip (wskip w1)) < w_end (wskip (wskip w1))" using c g1 g2 by simp
    note g3 = get_safe [OF g2(2) this]
    have "w_curr (wskip (wskip (wskip w1))) < w_end (wskip (wskip (wskip w1)))" using c g1 g2 g3 by simp
    note g4 = get_safe [OF g3(2) this]
    obtain a b d e where "wget w1 = (wskip w1, a)" "wget (wskip w1) = (wskip (wskip w1), b)"
      "wget (wskip (wskip w1)) = (wskip (wskip (wskip w1)), d)"
      "wget (wskip (wskip (wskip w1))) = (wskip (wskip (wskip (wskip w1))), e)"
      using g1(1) g2(1) g3(1) g4(1) by blast
    with True g4(2) reading_codec [OF w] reading_codec [OF kept_reading [OF s(1)]] show ?thesis
      by (simp add: sanei_w_word_def bin_w_word_def w1_def [symmetric])
  qed
qed

definition array_result :: "wire \<Rightarrow> sane_word \<Rightarrow> 'a list option \<Rightarrow> bool" where
  "array_result w n v \<longleftrightarrow> w_status w \<noteq> 0 \<or> n = 0 \<or>
     (\<exists>xs. v = Some xs \<and> length xs = unat n \<and> 0 < unat n \<and> unat n \<le> MAX_MEM)"

locale wire_decoder =
  fixes codec :: "wire \<Rightarrow> 'a \<Rightarrow> wire \<times> 'a"
  assumes safe: "dec_safe codec"
begin

lemma loop_safe:
  "kept w0 w \<Longrightarrow> n \<le> length xs \<Longrightarrow>
    kept w0 (fst (array_loop codec stop n w xs)) \<and> length (snd (array_loop codec stop n w xs)) = length xs"
proof (induction n arbitrary: w xs)
  case (Suc n)
  from Suc.prems obtain x ys where xs: "xs = x # ys" by (cases xs) auto
  have "kept w0 (fst (codec w x))" using safe Suc.prems(1) by (rule safe_step)
  with Suc.IH [of "fst (codec w x)" ys] Suc.prems(2) xs show ?case
    by (auto split: prod.splits)
qed simp

lemma array_safe:
  assumes "kept w0 w"
  shows "kept w0 (fst (sanei_w_array z e codec w len v)) \<and>
    (case sanei_w_array z e codec w len v of (w', n, v') \<Rightarrow> array_result w' n v')"
proof -
  note r = reading_codec [OF kept_reading [OF assms]]
  obtain w1 n where w1: "sanei_w_word w (w_junk w) = (w1, n)" by fastforce
  with safe_step [OF word_safe assms, of "w_junk w"] have k1: "kept w0 w1" by simp
  note r1 = reading_codec [OF kept_reading [OF k1]]
  show ?thesis
  proof (cases "w_status w1 \<noteq> 0 \<or> n = 0 \<or> array_limit w1 n e")
    case True
    with r r1 w1 k1 show ?thesis
      by (auto simp: sanei_w_array_def array_result_def kept_def reading_def buf_ok_def)
  next
    case False
    then have n: "unat n \<le> MAX_MEM" "0 < unat n" "loop_count n = unat n"
      using sint_of_nat_small [of "unat n"]
      by (auto simp: array_limit_def word_less_nat_alt unat_gt_0 loop_count_def not_less)
    obtain w2 ok where w2: "wmalloc w1 = (w2, ok)" by fastforce
    then have k2: "kept w0 (w2\<lparr>w_allocated := a\<rparr>)" "kept w0 (w2\<lparr>w_status := st\<rparr>)" for a st
      using k1 by (auto simp: wmalloc_def kept_def reading_def buf_ok_def split: list.splits)
    let ?w3 = "w2\<lparr>w_allocated := w_allocated w2 + ucast (scast n * e)\<rparr>"
    from loop_safe [OF k2(1), of "unat n" "replicate (unat n) z" True "w_allocated w2 + ucast (scast n * e)"]
    show ?thesis
      using False r r1 w1 w2 n k2(2)
      by (auto simp: sanei_w_array_def array_loop_ptr_def array_result_def split: prod.splits)
  qed
qed

lemma array_bind:
  assumes "kept w0 w" "\<And>w1 n v1. kept w0 w1 \<Longrightarrow> array_result w1 n v1 \<Longrightarrow> kept w0 (fst (k w1 n v1))"
  shows "kept w0 (fst (case sanei_w_array z e codec w len v of (w1, n, v1) \<Rightarrow> k w1 n v1))"
  using array_safe [OF assms(1), of z e len v] assms(2) by (auto split: prod.splits)

lemma ptr_safe: "dec_safe (sanei_w_ptr z e codec)"
proof (rule dec_safeI)
  fix w v assume w: "reading w"
  note r = reading_codec [OF w]
  obtain w1 n where w1: "sanei_w_word w (w_junk w) = (w1, n)" by fastforce
  with safe_step [OF word_safe, of w w "w_junk w"] w have k1: "kept w w1" by simp
  note r1 = reading_codec [OF kept_reading [OF k1]]
  obtain w2 ok where w2: "wmalloc w1 = (w2, ok)" by fastforce
  then have k2: "kept w (w2\<lparr>w_allocated := a\<rparr>)" "kept w (w2\<lparr>w_status := st\<rparr>)" "kept w (w1\<lparr>w_status := st\<rparr>)" for a st
    using k1 by (auto simp: wmalloc_def kept_def reading_def buf_ok_def split: list.splits)
  from safe_step [OF safe k2(1), of "w_allocated w2 + ucast e" z]
  show "kept w (fst (sanei_w_ptr z e codec w v))"
    using r r1 w1 w2 k1 k2 by (auto simp: sanei_w_ptr_def split: prod.splits)
qed

end

interpretation byte_reader: wire_decoder sanei_w_byte by unfold_locales (rule byte_safe)
interpretation char_reader: wire_decoder sanei_w_char by unfold_locales (rule char_safe)
interpretation void_reader: wire_decoder sanei_w_void by unfold_locales (rule void_safe)
interpretation word_reader: wire_decoder sanei_w_word by unfold_locales (rule word_safe)

lemma copy_safe: "dec_safe w_word_copy"
  using word_safe by (auto simp: dec_safe_def w_word_copy_def split: prod.split) (metis fst_conv)

lemma string_safe: "dec_safe sanei_w_string"
proof (rule dec_safeI)
  fix w s assume w: "reading w"
  note r = reading_codec [OF w]
  obtain w2 n s2 where a: "sanei_w_array 0 1 sanei_w_byte w (w_junk w) s = (w2, n, s2)"
    by (cases "sanei_w_array 0 1 sanei_w_byte w (w_junk w) s") auto
  have k: "kept w w2" "array_result w2 n s2"
    using byte_reader.array_safe [of w w 0 1 "w_junk w" s] a w by auto
  note r2 = reading_codec [OF kept_reading [OF k(1)]]
  show "kept w (fst (sanei_w_string w s))"
  proof (cases "n = 0 \<or> w_status w2 \<noteq> 0")
    case True
    with a k r r2 show ?thesis
      by (auto simp: sanei_w_string_def bin_w_string_def)
  next
    case False
    with k(2) obtain b where b: "s2 = Some b" "length b = unat n" "0 < unat n" "unat n \<le> MAX_MEM"
      by (auto simp: array_result_def)
    have "sint n = int (unat n)"
      using sint_of_nat_small [of "unat n"] b(4) by simp
    then have "nat (sint n - 1) < length b"
      using b(2,3) by linarith
    with a b k r r2 False show ?thesis
      by (simp add: sanei_w_string_def bin_w_string_def blk_set_def)
  qed
qed

lemmas safe_seq = safe_bind [OF word_safe] safe_bind [OF copy_safe] safe_bind [OF string_safe]

lemma range_safe: "dec_safe sanei_w_range"
  unfolding sanei_w_range_def by (rule dec_safeI) ((rule safe_seq, simp)+, simp)

lemma device_safe: "dec_safe sanei_w_device"
  unfolding sanei_w_device_def by (rule dec_safeI) ((rule safe_seq, simp)+, simp)

interpretation string_reader: wire_decoder sanei_w_string by unfold_locales (rule string_safe)
interpretation range_reader: wire_decoder sanei_w_range by unfold_locales (rule range_safe)
interpretation device_reader: wire_decoder sanei_w_device by unfold_locales (rule device_safe)
interpretation device_ptr_reader: wire_decoder sanei_w_device_ptr
  by unfold_locales (simp add: sanei_w_device_ptr_def device_reader.ptr_safe)

lemma constraint_safe: "dec_safe (\<lambda>w. w_constraint w ct)"
  unfolding w_constraint_def
  by (rule dec_safeI)
    (auto simp: reading_codec intro!: safe_bind [OF range_reader.ptr_safe]
       word_reader.array_bind string_reader.array_bind)

lemma descr_safe: "dec_safe sanei_w_option_descriptor"
  unfolding sanei_w_option_descriptor_def copy_defs
  by (rule dec_safeI) ((rule safe_seq, simp)+, rule safe_bind [OF constraint_safe], simp, simp)

interpretation descr_reader: wire_decoder sanei_w_option_descriptor by unfold_locales (rule descr_safe)
interpretation descr_ptr_reader: wire_decoder sanei_w_option_descriptor_ptr
  by unfold_locales (simp add: sanei_w_option_descriptor_ptr_def descr_reader.ptr_safe)

lemma params_safe: "dec_safe sanei_w_parameters"
  unfolding sanei_w_parameters_def copy_defs by (rule dec_safeI) ((rule safe_seq, simp)+, simp)

lemma value_safe: "dec_safe (\<lambda>w. w_option_value w ty sz)"
proof (rule dec_safeI)
  fix w v assume w: "reading w"
  then have "kept w (w\<lparr>w_status := EINVAL\<rparr>)"
    by (simp add: kept_def reading_def buf_ok_def)
  with w show "kept w (fst (w_option_value w ty sz v))"
    unfolding w_option_value_def
    by (auto intro!: word_reader.array_bind char_reader.array_bind void_reader.array_bind)
qed

section \<open>The messages\<close>

lemmas message_defs = sanei_w_init_req_def sanei_w_init_reply_def sanei_w_open_reply_def
  sanei_w_start_reply_def sanei_w_authorization_req_def

lemma simple_messages_safe:
  "dec_safe sanei_w_init_req" "dec_safe sanei_w_init_reply" "dec_safe sanei_w_open_reply"
  "dec_safe sanei_w_start_reply" "dec_safe sanei_w_authorization_req"
  unfolding message_defs copy_defs by ((rule dec_safeI, (rule safe_seq, simp)+, simp)+)

lemma get_params_safe: "dec_safe sanei_w_get_parameters_reply"
  unfolding sanei_w_get_parameters_reply_def copy_defs
  by (rule dec_safeI) (rule safe_seq, simp, rule safe_bind [OF params_safe], simp, simp)

lemma get_devices_safe: "dec_safe sanei_w_get_devices_reply"
  unfolding sanei_w_get_devices_reply_def copy_defs
  by (rule dec_safeI)
    (simp add: reading_codec, rule safe_seq, simp, rule device_ptr_reader.array_bind, simp, simp)

lemma descr_array_safe: "dec_safe sanei_w_option_descriptor_array"
  unfolding sanei_w_option_descriptor_array_def
  by (rule dec_safeI) (rule descr_ptr_reader.array_bind, simp, simp)

lemma ctl_req_safe: "dec_safe sanei_w_control_option_req"
  unfolding sanei_w_control_option_req_def Let_def
  by (rule dec_safeI)
    ((rule safe_seq, simp)+, auto intro!: safe_seq safe_bind [OF value_safe])

lemma ctl_reply_safe: "dec_safe sanei_w_control_option_reply"
  unfolding sanei_w_control_option_reply_def copy_defs
  by (rule dec_safeI) ((rule safe_seq, simp)+, rule safe_bind [OF value_safe], simp, rule safe_seq, simp, simp)

end
