(* ===== verification/Net_Laws.thy ===== *)
theory Net_Laws
  imports Wire_Safe
begin

text \<open>
  The codecs of the protocol messages of \<^verbatim>\<open>sanei/sanei_net.c\<close> keep the codec contract, and what
  that means for a whole exchange: a reply sent with \<open>sanei_w_reply\<close> is decoded as the value that
  was sent, and a remote call with \<open>sanei_w_call\<close> sends its argument and returns the reply.  The
  interface \<open>wire_rpc\<close> joins an argument codec and a reply codec.
\<close>

section \<open>Messages of the protocol\<close>

definition init_req_valid :: "init_req \<Rightarrow> bool" where
  "init_req_valid v \<longleftrightarrow> str_valid (irq_username v)"

definition init_req_ser :: "init_req \<Rightarrow> byte list" where
  "init_req_ser v = be32 (irq_version_code v) @ str_ser (irq_username v)"

lemma init_req_eta [simp]: "\<lparr>irq_version_code = irq_version_code v, irq_username = irq_username v\<rparr> = v"
  by (cases v) simp

interpretation init_req_codec: wire_codec ver sanei_w_init_req "\<lambda>_. True" init_req_valid init_req_ser
    "\<lambda>v. str_cost (irq_username v)" for ver
proof unfold_locales
  fix v assume v: "init_req_valid v"
  then show "enc_ok ver sanei_w_init_req v (init_req_ser v)"
    unfolding enc_ok_def sanei_w_init_req_def init_req_ser_def init_req_valid_def
    by (intro allI impI) (rule enc_seq, assumption, rule enc_end, simp, assumption, simp)
  from v show "free_ok ver sanei_w_init_req v (str_cost (irq_username v))"
    by (simp add: free_ok_def sanei_w_init_req_def free_steps init_req_valid_def)
next
  fix v0 v :: init_req assume "init_req_valid v"
  then show "dec_ok ver sanei_w_init_req v0 v (init_req_ser v) (str_cost (irq_username v))"
    unfolding dec_ok_def sanei_w_init_req_def init_req_ser_def init_req_valid_def append_assoc
    by (intro allI impI) (rule dec_seq, assumption, assumption, rule dec_end, simp, assumption, assumption, simp)
qed

definition init_reply_ser :: "init_reply \<Rightarrow> byte list" where
  "init_reply_ser v = be32 (irp_status v) @ be32 (irp_version_code v)"

lemma init_reply_eta [simp]: "\<lparr>irp_status = irp_status v, irp_version_code = irp_version_code v\<rparr> = v"
  by (cases v) simp

interpretation init_reply_codec: wire_codec ver sanei_w_init_reply "\<lambda>_. True" "\<lambda>_. True" init_reply_ser "\<lambda>_. 0" for ver
proof unfold_locales
  fix v :: init_reply
  show "enc_ok ver sanei_w_init_reply v (init_reply_ser v)"
    unfolding enc_ok_def sanei_w_init_reply_def init_reply_ser_def copy_defs
    by (intro allI impI) ((rule enc_seq, assumption)+, rule enc_end, assumption, simp)
  show "free_ok ver sanei_w_init_reply v 0"
    by (simp add: free_ok_def sanei_w_init_reply_def copy_defs free_steps)
next
  fix v0 v :: init_reply
  show "dec_ok ver sanei_w_init_reply v0 v (init_reply_ser v) 0"
    unfolding dec_ok_def sanei_w_init_reply_def init_reply_ser_def copy_defs append_assoc
    by (intro allI impI) ((rule dec_seq, assumption, assumption)+, simp)
qed

definition open_reply_valid :: "open_reply \<Rightarrow> bool" where
  "open_reply_valid v \<longleftrightarrow> str_valid (orp_resource v)"

definition open_reply_ser :: "open_reply \<Rightarrow> byte list" where
  "open_reply_ser v = be32 (orp_status v) @ be32 (orp_handle v) @ str_ser (orp_resource v)"

lemma open_reply_eta [simp]:
  "\<lparr>orp_status = orp_status v, orp_handle = orp_handle v, orp_resource = orp_resource v\<rparr> = v"
  by (cases v) simp

interpretation open_reply_codec: wire_codec ver sanei_w_open_reply "\<lambda>_. True" open_reply_valid open_reply_ser
    "\<lambda>v. str_cost (orp_resource v)" for ver
proof unfold_locales
  fix v assume v: "open_reply_valid v"
  then show "enc_ok ver sanei_w_open_reply v (open_reply_ser v)"
    unfolding enc_ok_def sanei_w_open_reply_def open_reply_ser_def open_reply_valid_def copy_defs
    by (intro allI impI) ((rule enc_seq, assumption)+, rule enc_end, simp, assumption, simp)
  from v show "free_ok ver sanei_w_open_reply v (str_cost (orp_resource v))"
    by (simp add: free_ok_def sanei_w_open_reply_def copy_defs free_steps open_reply_valid_def)
next
  fix v0 v :: open_reply assume "open_reply_valid v"
  then show "dec_ok ver sanei_w_open_reply v0 v (open_reply_ser v) (str_cost (orp_resource v))"
    unfolding dec_ok_def sanei_w_open_reply_def open_reply_ser_def open_reply_valid_def copy_defs append_assoc
    by (intro allI impI)
      ((rule dec_seq, assumption, assumption)+, rule dec_end, simp, assumption, assumption, simp)
qed

definition start_reply_valid :: "start_reply \<Rightarrow> bool" where
  "start_reply_valid v \<longleftrightarrow> str_valid (srp_resource v)"

definition start_reply_ser :: "start_reply \<Rightarrow> byte list" where
  "start_reply_ser v = be32 (srp_status v) @ be32 (srp_port v) @ be32 (srp_byte_order v) @ str_ser (srp_resource v)"

lemma start_reply_eta [simp]:
  "\<lparr>srp_status = srp_status v, srp_port = srp_port v, srp_byte_order = srp_byte_order v,
    srp_resource = srp_resource v\<rparr> = v"
  by (cases v) simp

interpretation start_reply_codec: wire_codec ver sanei_w_start_reply "\<lambda>_. True" start_reply_valid start_reply_ser
    "\<lambda>v. str_cost (srp_resource v)" for ver
proof unfold_locales
  fix v assume v: "start_reply_valid v"
  then show "enc_ok ver sanei_w_start_reply v (start_reply_ser v)"
    unfolding enc_ok_def sanei_w_start_reply_def start_reply_ser_def start_reply_valid_def copy_defs
    by (intro allI impI) ((rule enc_seq, assumption)+, rule enc_end, simp, assumption, simp)
  from v show "free_ok ver sanei_w_start_reply v (str_cost (srp_resource v))"
    by (simp add: free_ok_def sanei_w_start_reply_def copy_defs free_steps start_reply_valid_def)
next
  fix v0 v :: start_reply assume "start_reply_valid v"
  then show "dec_ok ver sanei_w_start_reply v0 v (start_reply_ser v) (str_cost (srp_resource v))"
    unfolding dec_ok_def sanei_w_start_reply_def start_reply_ser_def start_reply_valid_def copy_defs append_assoc
    by (intro allI impI)
      ((rule dec_seq, assumption, assumption)+, rule dec_end, simp, assumption, assumption, simp)
qed

definition auth_req_valid :: "authorization_req \<Rightarrow> bool" where
  "auth_req_valid v \<longleftrightarrow> str_valid (arq_resource v) \<and> str_valid (arq_username v) \<and> str_valid (arq_password v)"

definition auth_req_ser :: "authorization_req \<Rightarrow> byte list" where
  "auth_req_ser v = str_ser (arq_resource v) @ str_ser (arq_username v) @ str_ser (arq_password v)"

definition auth_req_cost :: "authorization_req \<Rightarrow> nat" where
  "auth_req_cost v = str_cost (arq_resource v) + (str_cost (arq_username v) + str_cost (arq_password v))"

lemma auth_req_eta [simp]:
  "\<lparr>arq_resource = arq_resource v, arq_username = arq_username v, arq_password = arq_password v\<rparr> = v"
  by (cases v) simp

interpretation auth_req_codec: wire_codec ver sanei_w_authorization_req "\<lambda>_. True" auth_req_valid auth_req_ser
    auth_req_cost for ver
proof unfold_locales
  fix v assume v: "auth_req_valid v"
  then show "enc_ok ver sanei_w_authorization_req v (auth_req_ser v)"
    unfolding enc_ok_def sanei_w_authorization_req_def auth_req_ser_def auth_req_valid_def
    by (intro allI impI) ((rule enc_seq, simp, assumption)+, rule enc_end, simp, assumption, simp)
  from v show "free_ok ver sanei_w_authorization_req v (auth_req_cost v)"
    by (simp add: free_ok_def sanei_w_authorization_req_def free_steps auth_req_valid_def auth_req_cost_def algebra_simps)
next
  fix v0 v :: authorization_req assume "auth_req_valid v"
  then show "dec_ok ver sanei_w_authorization_req v0 v (auth_req_ser v) (auth_req_cost v)"
    unfolding dec_ok_def sanei_w_authorization_req_def auth_req_ser_def auth_req_valid_def auth_req_cost_def append_assoc
    by (intro allI impI)
      ((rule dec_seq, simp, assumption, assumption)+, rule dec_end, simp, assumption, assumption, simp)
qed

definition get_params_ser :: "get_parameters_reply \<Rightarrow> byte list" where
  "get_params_ser v = be32 (gpr_status v) @ params_ser (gpr_params v)"

lemma get_params_eta [simp]: "\<lparr>gpr_status = gpr_status v, gpr_params = gpr_params v\<rparr> = v"
  by (cases v) simp

interpretation get_params_codec: wire_codec ver sanei_w_get_parameters_reply "\<lambda>_. True" "\<lambda>_. True" get_params_ser
    "\<lambda>_. 0" for ver
proof unfold_locales
  fix v :: get_parameters_reply
  show "enc_ok ver sanei_w_get_parameters_reply v (get_params_ser v)"
    unfolding enc_ok_def sanei_w_get_parameters_reply_def get_params_ser_def copy_defs
    by (intro allI impI)
      (rule enc_seq, assumption, rule enc_bind_last [OF params_codec.encode], simp, assumption, simp)
  show "free_ok ver sanei_w_get_parameters_reply v 0"
    by (simp add: free_ok_def sanei_w_get_parameters_reply_def copy_defs free_steps free_at [OF params_codec.release])
next
  fix v0 v :: get_parameters_reply
  show "dec_ok ver sanei_w_get_parameters_reply v0 v (get_params_ser v) 0"
    unfolding dec_ok_def sanei_w_get_parameters_reply_def get_params_ser_def copy_defs append_assoc
    by (intro allI impI)
      (rule dec_seq, assumption, assumption,
       rule dec_bind_last [OF params_codec.decode], simp, simp, assumption, assumption, simp)
qed

definition get_devices_valid :: "get_devices_reply \<Rightarrow> bool" where
  "get_devices_valid v \<longleftrightarrow> (gdr_device_list v = None \<or> null_terminated (gdr_device_list v)) \<and>
     alist_valid (opt_valid device_valid) (gdr_device_list v)"

definition get_devices_ser :: "get_devices_reply \<Rightarrow> byte list" where
  "get_devices_ser v = be32 (gdr_status v) @ alist_ser (opt_ser device_ser) (gdr_device_list v)"

definition get_devices_cost :: "get_devices_reply \<Rightarrow> nat" where
  "get_devices_cost v = alist_cost 8 (opt_cost 32 device_cost) (gdr_device_list v)"

lemma get_devices_eta [simp]: "\<lparr>gdr_status = gdr_status v, gdr_device_list = gdr_device_list v\<rparr> = v"
  by (cases v) simp

interpretation get_devices_codec: wire_codec ver sanei_w_get_devices_reply "\<lambda>_. True" get_devices_valid
    get_devices_ser get_devices_cost for ver
proof unfold_locales
  fix v assume v: "get_devices_valid v"
  then have l: "alist_valid (opt_valid device_valid) (gdr_device_list v)"
    "\<And>w. device_list_len w (gdr_device_list v) = (w, alist_len (gdr_device_list v))"
    by (auto simp: get_devices_valid_def device_list_len_valid)
  show "enc_ok ver sanei_w_get_devices_reply v (get_devices_ser v)"
    unfolding enc_ok_def
  proof (intro allI impI)
    fix w al out assume w: "enc_at w ver al out"
    obtain w1 where w1: "sanei_w_status w (gdr_status v) = (w1, gdr_status v)"
      "enc_at w1 ver al (out @ be32 (gdr_status v))"
      using copy_enc [of ver "gdr_status v"] w unfolding enc_ok_def sanei_w_status_def by blast
    from device_ptr_codec.alist_enc [OF l(1) w1(2) refl, of None 8] w1(1) l(2) enc_at_status [OF w]
    show "\<exists>w'. sanei_w_get_devices_reply w v = (w', v) \<and> enc_at w' ver al (out @ get_devices_ser v)"
      by (auto simp: sanei_w_get_devices_reply_def get_devices_ser_def)
  qed
  show "free_ok ver sanei_w_get_devices_reply v (get_devices_cost v)"
    using device_ptr_codec.alist_free [OF l(1)] l(2)
    by (simp add: free_ok_def sanei_w_get_devices_reply_def copy_defs free_steps get_devices_cost_def)
next
  fix v0 v assume v: "get_devices_valid v"
  then have l: "alist_valid (opt_valid device_valid) (gdr_device_list v)"
    by (simp add: get_devices_valid_def)
  show "dec_ok ver sanei_w_get_devices_reply v0 v (get_devices_ser v) (get_devices_cost v)"
    unfolding dec_ok_def
  proof (intro allI impI)
    fix w al rest assume w: "dec_at w ver al (get_devices_ser v @ rest)" and mem: "unat al + get_devices_cost v \<le> MAX_MEM"
    obtain w1 where w1: "sanei_w_status w (gdr_status v0) = (w1, gdr_status v)"
      "dec_at w1 ver al (alist_ser (opt_ser device_ser) (gdr_device_list v) @ rest)"
      using copy_dec [of ver "gdr_status v0" "gdr_status v"] w mem
      unfolding dec_ok_def sanei_w_status_def get_devices_ser_def by fastforce
    from device_ptr_codec.alist_dec [OF TrueI l w1(2), of 8 None "w_junk w" "gdr_device_list v0"] mem
      w1(1) dec_at_status [OF w]
    show "\<exists>w'. sanei_w_get_devices_reply w v0 = (w', v) \<and> dec_at w' ver (al + word_of_nat (get_devices_cost v)) rest"
      by (auto simp: sanei_w_get_devices_reply_def get_devices_cost_def)
  qed
qed

definition descr_array_valid :: "option_descriptor_array \<Rightarrow> bool" where
  "descr_array_valid v \<longleftrightarrow> alist_valid (opt_valid descr_valid) (oda_desc v) \<and>
     oda_num_options v = alist_len (oda_desc v)"

definition descr_array_ser :: "option_descriptor_array \<Rightarrow> byte list" where
  "descr_array_ser v = alist_ser (opt_ser descr_ser) (oda_desc v)"

definition descr_array_cost :: "option_descriptor_array \<Rightarrow> nat" where
  "descr_array_cost v = alist_cost 8 (opt_cost 56 descr_cost) (oda_desc v)"

lemma descr_array_eta [simp]: "\<lparr>oda_num_options = oda_num_options v, oda_desc = oda_desc v\<rparr> = v"
  by (cases v) simp

interpretation descr_array_codec: wire_codec ver sanei_w_option_descriptor_array "\<lambda>_. True" descr_array_valid
    descr_array_ser descr_array_cost for ver
proof unfold_locales
  fix v assume v: "descr_array_valid v"
  then have l: "alist_valid (opt_valid descr_valid) (oda_desc v)" "oda_num_options v = alist_len (oda_desc v)"
    by (auto simp: descr_array_valid_def)
  show "enc_ok ver sanei_w_option_descriptor_array v (descr_array_ser v)"
    unfolding enc_ok_def
  proof (intro allI impI)
    fix w al out assume w: "enc_at w ver al out"
    from descr_ptr_codec.alist_enc [OF l(1) w l(2), of None 8]
    show "\<exists>w'. sanei_w_option_descriptor_array w v = (w', v) \<and> enc_at w' ver al (out @ descr_array_ser v)"
      by (auto simp: sanei_w_option_descriptor_array_def descr_array_ser_def)
  qed
  show "free_ok ver sanei_w_option_descriptor_array v (descr_array_cost v)"
    using descr_ptr_codec.alist_free [OF l(1), folded l(2)]
    by (simp add: free_ok_def sanei_w_option_descriptor_array_def descr_array_cost_def)
next
  fix v0 v assume v: "descr_array_valid v"
  then have l: "alist_valid (opt_valid descr_valid) (oda_desc v)" "oda_num_options v = alist_len (oda_desc v)"
    by (auto simp: descr_array_valid_def)
  show "dec_ok ver sanei_w_option_descriptor_array v0 v (descr_array_ser v) (descr_array_cost v)"
    unfolding dec_ok_def
  proof (intro allI impI)
    fix w al rest assume w: "dec_at w ver al (descr_array_ser v @ rest)" and mem: "unat al + descr_array_cost v \<le> MAX_MEM"
    from descr_ptr_codec.alist_dec [OF TrueI l(1) w [unfolded descr_array_ser_def], of 8 None "oda_num_options v0" "oda_desc v0", folded l(2)] mem
    show "\<exists>w'. sanei_w_option_descriptor_array w v0 = (w', v) \<and> dec_at w' ver (al + word_of_nat (descr_array_cost v)) rest"
      by (auto simp: sanei_w_option_descriptor_array_def descr_array_cost_def)
  qed
qed

definition carries_value :: "int \<Rightarrow> control_option_req \<Rightarrow> bool" where
  \<comment> \<open>since version 3 a request for automatic setting carries no value\<close>
  "carries_value ver q \<longleftrightarrow> ver < 3 \<or> coq_action q \<noteq> SANE_ACTION_SET_AUTO"

definition no_value :: "control_option_req \<Rightarrow> bool" where
  "no_value q \<longleftrightarrow> coq_value_type q = 0 \<and> coq_value_size q = 0 \<and> coq_value q = Ctl_Null"

definition ctl_req_valid :: "int \<Rightarrow> control_option_req \<Rightarrow> bool" where
  "ctl_req_valid ver q \<longleftrightarrow>
     (if carries_value ver q then ctl_valid (coq_value_type q) (coq_value_size q) (coq_value q) else no_value q)"

definition ctl_req_ser :: "int \<Rightarrow> control_option_req \<Rightarrow> byte list" where
  "ctl_req_ser ver q = be32 (coq_handle q) @ be32 (coq_option q) @ be32 (coq_action q) @
     (if carries_value ver q then be32 (coq_value_type q) @ be32 (coq_value_size q) @ ctl_ser (coq_value q) else [])"

definition ctl_req_cost :: "control_option_req \<Rightarrow> nat" where
  "ctl_req_cost q = ctl_cost (coq_value q)"

lemma ctl_req_update [simp]:
  "q\<lparr>coq_handle := coq_handle q, coq_option := coq_option q, coq_action := coq_action q,
     coq_value_type := coq_value_type q, coq_value_size := coq_value_size q, coq_value := coq_value q\<rparr> = q"
  "q\<lparr>coq_handle := coq_handle q, coq_option := coq_option q, coq_action := coq_action q\<rparr> = q"
  by (cases q; simp)+

lemma ctl_req_replaced:
  "q0\<lparr>coq_handle := coq_handle q, coq_option := coq_option q, coq_action := coq_action q,
     coq_value_type := coq_value_type q, coq_value_size := coq_value_size q, coq_value := coq_value q\<rparr> =
   (q :: control_option_req)"
  by (cases q; cases q0; simp)

lemma ctl_req_kept:
  "no_value q0 \<Longrightarrow> no_value q \<Longrightarrow>
    q0\<lparr>coq_handle := coq_handle q, coq_option := coq_option q, coq_action := coq_action q\<rparr> =
    (q :: control_option_req)"
  by (cases q; cases q0; simp add: no_value_def)

lemma enc_at_version: "enc_at w ver al out \<Longrightarrow> w_version w = ver"
  by (simp add: enc_at_def)

lemma word_enc_step:
  "enc_at w ver al out \<Longrightarrow> \<exists>w'. sanei_w_word w v = (w', v) \<and> enc_at w' ver al (out @ be32 v)"
  using word_enc unfolding enc_ok_def by blast

lemma word_dec_step:
  "dec_at w ver al (be32 v @ rest) \<Longrightarrow> unat al \<le> MAX_MEM \<Longrightarrow>
    \<exists>w'. sanei_w_word w v0 = (w', v) \<and> dec_at w' ver al rest"
  using word_dec [of ver v0 v] unfolding dec_ok_def by fastforce

interpretation ctl_req_codec: wire_codec ver sanei_w_control_option_req no_value "ctl_req_valid ver"
    "ctl_req_ser ver" ctl_req_cost for ver
proof unfold_locales
  fix v assume v: "ctl_req_valid ver v"
  show "enc_ok ver sanei_w_control_option_req v (ctl_req_ser ver v)"
    unfolding enc_ok_def
  proof (intro allI impI)
    fix w al out assume "enc_at w ver al out"
    then obtain w1 w2 w3 where w: "sanei_w_word w (coq_handle v) = (w1, coq_handle v)"
      "sanei_w_word w1 (coq_option v) = (w2, coq_option v)" "sanei_w_word w2 (coq_action v) = (w3, coq_action v)"
      "enc_at w3 ver al (((out @ be32 (coq_handle v)) @ be32 (coq_option v)) @ be32 (coq_action v))"
      using word_enc_step by meson
    show "\<exists>w'. sanei_w_control_option_req w v = (w', v) \<and> enc_at w' ver al (out @ ctl_req_ser ver v)"
    proof (cases "carries_value ver v")
      case False
      with w enc_at_version [OF w(4)] show ?thesis
        by (simp add: sanei_w_control_option_req_def ctl_req_ser_def carries_value_def)
    next
      case True
      obtain w4 w5 where w': "sanei_w_word w3 (coq_value_type v) = (w4, coq_value_type v)"
        "sanei_w_word w4 (coq_value_size v) = (w5, coq_value_size v)"
        "enc_at w5 ver al ((out @ be32 (coq_handle v) @ be32 (coq_option v) @ be32 (coq_action v)) @
           be32 (coq_value_type v) @ be32 (coq_value_size v))"
        using word_enc_step [OF w(4)] word_enc_step by (metis append_assoc)
      obtain w6 where "w_option_value w5 (coq_value_type v) (coq_value_size v) (coq_value v) = (w6, coq_value v)"
        "enc_at w6 ver al (out @ ctl_req_ser ver v)"
        using value_codec.encode w'(3) True v
        unfolding enc_ok_def ctl_req_valid_def ctl_req_ser_def by fastforce
      with w w' True enc_at_version [OF w(4)] show ?thesis
        by (simp add: sanei_w_control_option_req_def carries_value_def)
    qed
  qed
  from v show "free_ok ver sanei_w_control_option_req v (ctl_req_cost v)"
    by (auto simp: free_ok_def sanei_w_control_option_req_def copy_defs free_steps
        free_at [OF value_codec.release] ctl_req_valid_def ctl_req_cost_def carries_value_def no_value_def)
next
  fix v0 v assume v: "no_value v0" "ctl_req_valid ver v"
  show "dec_ok ver sanei_w_control_option_req v0 v (ctl_req_ser ver v) (ctl_req_cost v)"
    unfolding dec_ok_def
  proof (intro allI impI)
    fix w al rest assume w0: "dec_at w ver al (ctl_req_ser ver v @ rest)" and mem: "unat al + ctl_req_cost v \<le> MAX_MEM"
    then obtain w1 w2 w3 where w: "sanei_w_word w (coq_handle v0) = (w1, coq_handle v)"
      "sanei_w_word w1 (coq_option v0) = (w2, coq_option v)" "sanei_w_word w2 (coq_action v0) = (w3, coq_action v)"
      "dec_at w3 ver al ((if carries_value ver v then be32 (coq_value_type v) @ be32 (coq_value_size v) @ ctl_ser (coq_value v) else []) @ rest)"
      unfolding ctl_req_ser_def append_assoc using word_dec_step by (metis add_leD1)
    show "\<exists>w'. sanei_w_control_option_req w v0 = (w', v) \<and> dec_at w' ver (al + word_of_nat (ctl_req_cost v)) rest"
    proof (cases "carries_value ver v")
      case False
      with w v dec_at_status [OF w(4)] show ?thesis
        by (auto simp: sanei_w_control_option_req_def carries_value_def ctl_req_cost_def ctl_req_kept ctl_req_valid_def
            no_value_def)
    next
      case True
      with w(4) have "dec_at w3 ver al (be32 (coq_value_type v) @ be32 (coq_value_size v) @ ctl_ser (coq_value v) @ rest)"
        by simp
      then obtain w4 w5 where w': "sanei_w_word w3 (coq_value_type v0) = (w4, coq_value_type v)"
        "sanei_w_word w4 (coq_value_size v0) = (w5, coq_value_size v)"
        "dec_at w5 ver al (ctl_ser (coq_value v) @ rest)"
        using word_dec_step mem by (metis add_leD1)
      obtain w6 where "w_option_value w5 (coq_value_type v) (coq_value_size v) (coq_value v0) = (w6, coq_value v)"
        "dec_at w6 ver (al + word_of_nat (ctl_req_cost v)) rest"
        using value_codec.decode w'(3) True v mem
        unfolding dec_ok_def ctl_req_valid_def ctl_req_cost_def by fastforce
      with w w' True dec_at_status [OF w(4)] show ?thesis
        by (auto simp: sanei_w_control_option_req_def carries_value_def ctl_req_replaced)
    qed
  qed
qed

definition ctl_reply_valid :: "control_option_reply \<Rightarrow> bool" where
  "ctl_reply_valid r \<longleftrightarrow> ctl_valid (cor_value_type r) (cor_value_size r) (cor_value r) \<and> str_valid (cor_resource r)"

definition ctl_reply_ser :: "control_option_reply \<Rightarrow> byte list" where
  "ctl_reply_ser r = be32 (cor_status r) @ be32 (cor_info r) @ be32 (cor_value_type r) @ be32 (cor_value_size r) @
     ctl_ser (cor_value r) @ str_ser (cor_resource r)"

definition ctl_reply_cost :: "control_option_reply \<Rightarrow> nat" where
  "ctl_reply_cost r = ctl_cost (cor_value r) + str_cost (cor_resource r)"

lemma ctl_reply_eta [simp]:
  "\<lparr>cor_status = cor_status r, cor_info = cor_info r, cor_value_type = cor_value_type r,
    cor_value_size = cor_value_size r, cor_value = cor_value r, cor_resource = cor_resource r\<rparr> = r"
  by (cases r) simp

interpretation ctl_reply_codec: wire_codec ver sanei_w_control_option_reply "\<lambda>_. True" ctl_reply_valid ctl_reply_ser
    ctl_reply_cost for ver
proof unfold_locales
  fix v assume v: "ctl_reply_valid v"
  then show "enc_ok ver sanei_w_control_option_reply v (ctl_reply_ser v)"
    unfolding enc_ok_def sanei_w_control_option_reply_def ctl_reply_ser_def ctl_reply_valid_def copy_defs
    by (intro allI impI)
      ((rule enc_seq, assumption)+, rule enc_bind [OF value_codec.encode], simp, assumption,
       rule enc_end, simp, assumption, simp)
  from v show "free_ok ver sanei_w_control_option_reply v (ctl_reply_cost v)"
    by (simp add: free_ok_def sanei_w_control_option_reply_def copy_defs free_steps
        free_at [OF value_codec.release] ctl_reply_valid_def ctl_reply_cost_def algebra_simps)
next
  fix v0 v :: control_option_reply assume "ctl_reply_valid v"
  then show "dec_ok ver sanei_w_control_option_reply v0 v (ctl_reply_ser v) (ctl_reply_cost v)"
    unfolding dec_ok_def sanei_w_control_option_reply_def ctl_reply_ser_def ctl_reply_valid_def ctl_reply_cost_def
      copy_defs append_assoc
    by (intro allI impI)
      ((rule dec_seq, assumption, assumption)+,
       rule dec_bind [OF value_codec.decode], simp, simp, assumption, assumption,
       rule dec_end, simp, assumption, assumption, simp)
qed

section \<open>Replies and calls\<close>

definition wire_ready :: "wire \<Rightarrow> int \<Rightarrow> bool" where
  \<comment> \<open>a binary wire between two messages, whose coming writes succeed\<close>
  "wire_ready w ver \<longleftrightarrow> buf_ok w \<and> w_direction w \<noteq> WIRE_FREE \<and> writes_ok (w_wr w) \<and> w_version w = ver"

definition flushed :: "wire \<Rightarrow> byte list" where
  \<comment> \<open>what the wire has sent once its encode buffer is flushed\<close>
  "flushed w = (if w_direction w = WIRE_ENCODE \<and> w_status w = 0 then out_stream w else w_sent w)"

lemma space_encode_flush:
  assumes "buf_ok w" "writes_ok (w_wr w)"
  obtains evs where "space_encode w = w\<lparr>w_curr := 0, w_end := w_size w, w_wr := evs, w_sent := out_stream w\<rparr>"
    "writes_ok evs"
proof -
  obtain evs where "io_send (w_wr w) (take (w_curr w) (w_mem w)) 0 = (None, w_curr w, evs)" "writes_ok evs"
    using io_send_all [of "w_wr w" "take (w_curr w) (w_mem w)" 0] assms by (auto simp: buf_ok_def min_def)
  with assms show ?thesis
    by (intro that [of evs]) (simp_all add: space_encode_def Let_def buf_ok_def out_stream_def)
qed

lemma set_dir_encode:
  assumes "wire_ready w ver"
  shows "enc_at (sanei_w_set_dir (w\<lparr>w_status := 0\<rparr>) WIRE_ENCODE) ver (enc_frame_of w) (flushed (w\<lparr>w_status := 0\<rparr>))"
proof -
  have step: "enc_at (sanei_w_space w' (w_size w' + 1)) ver (enc_frame_of w') (out_stream w')"
    if w': "buf_ok w'" "writes_ok (w_wr w')" "w_direction w' = WIRE_ENCODE" "w_status w' = 0" "w_version w' = ver" for w'
  proof -
    obtain evs where "space_encode w' = w'\<lparr>w_curr := 0, w_end := w_size w', w_wr := evs, w_sent := out_stream w'\<rparr>"
      "writes_ok evs"
      using space_encode_flush [OF w'(1,2)] .
    with w' show ?thesis
      by (simp add: sanei_w_space_def enc_at_def buf_ok_def out_stream_def enc_frame_of_def)
  qed
  show ?thesis
  proof (cases "w_direction w")
    case WIRE_ENCODE
    let ?w = "w\<lparr>w_status := 0\<rparr>"
    have e: "enc_at (flush ?w) ver (enc_frame_of w) (out_stream ?w)"
      using step [of ?w] assms WIRE_ENCODE by (simp add: flush_def wire_ready_def buf_ok_def enc_frame_of_def)
    then have eq: "(flush ?w)\<lparr>w_direction := WIRE_ENCODE\<rparr> = flush ?w"
      by (cases "flush ?w") (simp add: enc_at_def)
    have "enc_at (flush (flush ?w)) ver (enc_frame_of (flush ?w)) (out_stream (flush ?w))"
      using e step [of "flush ?w"] by (simp add: flush_def [of "flush ?w"] enc_at_def)
    moreover have "enc_frame_of (flush ?w) = enc_frame_of w" "out_stream (flush ?w) = flushed ?w"
      using e WIRE_ENCODE by (simp_all add: enc_at_def flushed_def)
    ultimately show ?thesis
      unfolding sanei_w_set_dir_def eq by simp
  next
    case WIRE_DECODE
    let ?w = "w\<lparr>w_status := 0, w_curr := 0, w_end := 0, w_direction := WIRE_ENCODE\<rparr>"
    have "enc_at (sanei_w_space ?w (w_size ?w + 1)) ver (enc_frame_of ?w) (out_stream ?w)"
      using assms WIRE_DECODE by (intro step) (auto simp: wire_ready_def buf_ok_def)
    with WIRE_DECODE show ?thesis
      by (simp add: sanei_w_set_dir_def flush_def flushed_def out_stream_def enc_frame_of_def)
  next
    case WIRE_FREE
    with assms show ?thesis by (simp add: wire_ready_def)
  qed
qed

lemma flush_sent:
  assumes "enc_at w ver al out"
  shows "w_sent (flush w) = out \<and> w_status (flush w) = 0 \<and> wire_ready (flush w) ver \<and> enc_frame_of (flush w) = al \<and>
    w_direction (flush w) = WIRE_ENCODE \<and> w_curr (flush w) = 0"
proof -
  obtain evs where "space_encode w = w\<lparr>w_curr := 0, w_end := w_size w, w_wr := evs, w_sent := out_stream w\<rparr>"
    "writes_ok evs"
    using assms space_encode_flush [of w] unfolding enc_at_def by blast
  with assms show ?thesis
    by (simp add: flush_def sanei_w_space_def enc_at_def wire_ready_def buf_ok_def enc_frame_of_def)
qed

definition reader_ready :: "wire \<Rightarrow> int \<Rightarrow> bool" where
  \<comment> \<open>a binary wire set to decode with an empty buffer, whose coming allocations succeed\<close>
  "reader_ready w ver \<longleftrightarrow> buf_ok w \<and> w_direction w = WIRE_DECODE \<and> w_status w = 0 \<and> w_curr w = w_end w \<and>
     list_all (\<lambda>b. b) (w_malloc w) \<and> w_version w = ver"

lemma reader_dec_at: "reader_ready w ver \<Longrightarrow> dec_at w ver (w_allocated w) (avail (w_rd w))"
  by (simp add: reader_ready_def dec_at_def in_stream_def buf_ok_def slice_def)

context wire_codec
begin

lemma reply_sent:
  assumes "wire_ready s ver" "valid v"
  obtains s' where "sanei_w_reply s codec v = (s', v)" "w_status s' = 0" "wire_ready s' ver"
    "w_sent s' = flushed (s\<lparr>w_status := 0\<rparr>) @ ser v" "enc_frame_of s' = enc_frame_of s"
proof -
  obtain s1 where "codec (sanei_w_set_dir (s\<lparr>w_status := 0\<rparr>) WIRE_ENCODE) v = (s1, v)"
    "enc_at s1 ver (enc_frame_of s) (flushed (s\<lparr>w_status := 0\<rparr>) @ ser v)"
    using encode [OF assms(2)] set_dir_encode [OF assms(1)] unfolding enc_ok_def by blast
  with flush_sent show ?thesis
    by (intro that [of "flush s1"]) (auto simp: sanei_w_reply_def)
qed

lemma received:
  assumes r: "reader_ready r ver" and v: "valid v" "init v0" and bs: "avail (w_rd r) = ser v @ rest"
    and mem: "unat (w_allocated r) + cost v \<le> MAX_MEM"
  obtains r' where "codec r v0 = (r', v)" "w_status r' = 0" "\<not> w_fault r'"
    "w_allocated r' = w_allocated r + word_of_nat (cost v)" "in_stream r' = rest"
    "w_allocated (fst (sanei_w_free r' codec v)) = w_allocated r"
proof -
  obtain r' where d: "codec r v0 = (r', v)" "dec_at r' ver (w_allocated r + word_of_nat (cost v)) rest"
    using decode [OF v(2,1), unfolded dec_ok_def, rule_format, OF reader_dec_at [OF r, unfolded bs] mem] by blast
  moreover have "codec (r'\<lparr>w_direction := WIRE_FREE\<rparr>) v =
      (r'\<lparr>w_direction := WIRE_FREE, w_allocated := w_allocated r' - word_of_nat (cost v)\<rparr>, v)"
    using free_at [OF release [OF v(1)], of "r'\<lparr>w_direction := WIRE_FREE\<rparr>"] d(2)
    by (simp add: dec_at_def buf_ok_def)
  ultimately show ?thesis
    by (intro that [of r']) (auto simp: sanei_w_free_def dec_at_def buf_ok_def)
qed

text \<open>A reply arrives as it was sent, in whatever pieces the bytes come.\<close>

lemma reply_delivered:
  assumes "wire_ready s ver" "reader_ready r ver" "valid v" "init v0" "unat (w_allocated r) + cost v \<le> MAX_MEM"
    and bs: "sanei_w_reply s codec v = (s', v')"
      "avail (w_rd r) = drop (length (flushed (s\<lparr>w_status := 0\<rparr>))) (w_sent s') @ rest"
  shows "v' = v \<and> w_status s' = 0 \<and> (case codec r v0 of (r', u) \<Rightarrow>
    u = v \<and> w_status r' = 0 \<and> \<not> w_fault r' \<and> in_stream r' = rest \<and>
    w_allocated (fst (sanei_w_free r' codec u)) = w_allocated r)"
proof -
  obtain s1 where s1: "sanei_w_reply s codec v = (s1, v)" "w_status s1 = 0"
    "w_sent s1 = flushed (s\<lparr>w_status := 0\<rparr>) @ ser v"
    using reply_sent [OF assms(1,3)] by blast
  with bs(1) have s': "v' = v" "w_status s' = 0" "w_sent s' = flushed (s\<lparr>w_status := 0\<rparr>) @ ser v"
    by simp_all
  with bs(2) have "avail (w_rd r) = ser v @ rest" by simp
  then obtain r' where "codec r v0 = (r', v)" "w_status r' = 0" "\<not> w_fault r'" "in_stream r' = rest"
    "w_allocated (fst (sanei_w_free r' codec v)) = w_allocated r"
    using received [OF assms(2,3,4) _ assms(5)] by blast
  with s' show ?thesis by simp
qed

end

locale wire_rpc =
  arg: wire_codec ver w_arg initA validA serA costA + rep: wire_codec ver w_reply initR validR serR costR +
  wire_decoder w_reply
  for ver w_arg initA validA serA costA w_reply initR validR serR costR
begin

text \<open>A remote call sends the procedure number and the argument, and returns the reply.\<close>

lemma call_ok:
  assumes w: "wire_ready w ver" and m: "list_all (\<lambda>b. b) (w_malloc w)" and errs: "RError 0 \<notin> set (w_rd w)"
    and v: "validA a" "validR r" "initR r0" and bs: "avail (w_rd w) = serR r @ rest"
    and mem: "unat (w_allocated w) + costR r \<le> MAX_MEM"
  shows "\<exists>w'. sanei_w_call w procnum w_arg a w_reply r0 = (w', a, r) \<and> w_status w' = 0 \<and> \<not> w_fault w' \<and>
    in_stream w' = rest \<and> w_sent w' = flushed (w\<lparr>w_status := 0\<rparr>) @ be32 procnum @ serA a \<and>
    w_allocated (fst (sanei_w_free w' w_reply r)) = w_allocated w"
proof -
  let ?w1 = "sanei_w_set_dir (w\<lparr>w_status := 0\<rparr>) WIRE_ENCODE"
  obtain w2 w3 where w2: "sanei_w_word ?w1 procnum = (w2, procnum)" and w3: "w_arg w2 a = (w3, a)"
    "enc_at w3 ver (enc_frame_of w) ((flushed (w\<lparr>w_status := 0\<rparr>) @ be32 procnum) @ serA a)"
    using word_enc_step [OF set_dir_encode [OF w]] arg.encode [OF v(1)] unfolding enc_ok_def by meson
  note f = flush_sent [OF w3(2)]
  define w4 where "w4 = sanei_w_set_dir w3 WIRE_DECODE"
  have eq: "w4 = (flush w3)\<lparr>w_direction := WIRE_DECODE, w_curr := 0, w_end := 0\<rparr>"
    by (simp add: w4_def sanei_w_set_dir_def flush_def [of "(flush w3)\<lparr>w_direction := WIRE_DECODE\<rparr>"])
  have w4: "reader_ready w4 ver" "avail (w_rd w4) = serR r @ rest" "w_allocated w4 = w_allocated w"
    "w_sent w4 = flushed (w\<lparr>w_status := 0\<rparr>) @ be32 procnum @ serA a"
    using f m bs by (auto simp: eq reader_ready_def wire_ready_def buf_ok_def enc_frame_of_def)
  from mem w4(3) have mem4: "unat (w_allocated w4) + costR r \<le> MAX_MEM" by simp
  obtain w5 where w5: "w_reply w4 r0 = (w5, r)" "w_status w5 = 0" "\<not> w_fault w5" "in_stream w5 = rest"
    "w_allocated (fst (sanei_w_free w5 w_reply r)) = w_allocated w4"
    using rep.received [OF w4(1) v(2,3) w4(2) mem4] by blast
  have "reading w4"
    using w4(1) errs f by (auto simp: eq reader_ready_def reading_def enc_frame_of_def)
  with w5(1) safe_step [OF safe, of w4 w4 r0] have "w_sent w5 = w_sent w4"
    by (simp add: kept_def)
  moreover have "sanei_w_call w procnum w_arg a w_reply r0 = (w5, a, r)"
    using w2 w3 w5(1) enc_at_status [OF w3(2)]
    by (simp add: sanei_w_call_def Let_def flip: w4_def)
  ultimately show ?thesis
    using w5 w4 by simp
qed

end

section \<open>Remote calls\<close>

definition io_good :: "wire \<Rightarrow> bool" where
  \<comment> \<open>allocations succeed, and a failed \<open>read\<close> sets a non-zero \<open>errno\<close>\<close>
  "io_good w \<longleftrightarrow> list_all (\<lambda>b. b) (w_malloc w) \<and> RError 0 \<notin> set (w_rd w)"

definition new_bytes :: "wire \<Rightarrow> wire \<Rightarrow> byte list" where
  \<comment> \<open>what \<open>w'\<close> has sent beyond the bytes \<open>w\<close> had sent or still held in its buffer\<close>
  "new_bytes w w' = drop (length (flushed (w\<lparr>w_status := 0\<rparr>))) (w_sent w')"

context wire_rpc
begin

text \<open>A whole exchange: what the server reads is the call, what the client returns is the reply.\<close>

lemma exchange:
  assumes c: "wire_ready c ver" "io_good c" and s: "wire_ready s ver" and q: "reader_ready q ver"
    and v: "validA a" "initA a0" "validR r" "initR r0"
    and mem: "unat (w_allocated c) + costR r \<le> MAX_MEM" "unat (w_allocated q) + costA a \<le> MAX_MEM"
    and to_client: "avail (w_rd c) = new_bytes s (fst (sanei_w_reply s w_reply r)) @ rest"
    and to_server: "avail (w_rd q) = new_bytes c (fst (sanei_w_call c procnum w_arg a w_reply r0)) @ rest'"
  shows "(\<exists>c'. sanei_w_call c procnum w_arg a w_reply r0 = (c', a, r) \<and> w_status c' = 0 \<and> \<not> w_fault c' \<and>
      in_stream c' = rest) \<and>
    (\<exists>q1 q2. sanei_w_word q p0 = (q1, procnum) \<and> w_arg q1 a0 = (q2, a) \<and> w_status q2 = 0 \<and> \<not> w_fault q2 \<and>
      in_stream q2 = rest')"
proof -
  obtain s' where s': "sanei_w_reply s w_reply r = (s', r)" "w_sent s' = flushed (s\<lparr>w_status := 0\<rparr>) @ serR r"
    using rep.reply_sent [OF s v(3)] by blast
  with to_client have "avail (w_rd c) = serR r @ rest"
    by (simp add: new_bytes_def)
  then obtain c' where c': "sanei_w_call c procnum w_arg a w_reply r0 = (c', a, r)" "w_status c' = 0" "\<not> w_fault c'"
    "in_stream c' = rest" "w_sent c' = flushed (c\<lparr>w_status := 0\<rparr>) @ be32 procnum @ serA a"
    using call_ok [OF c(1) _ _ v(1,3,4) _ mem(1)] c(2) unfolding io_good_def by blast
  then have "dec_at q ver (w_allocated q) (be32 procnum @ serA a @ rest')"
    using reader_dec_at [OF q] to_server by (simp add: new_bytes_def)
  then obtain q1 where q1: "sanei_w_word q p0 = (q1, procnum)" "dec_at q1 ver (w_allocated q) (serA a @ rest')"
    using word_dec_step mem(2) by (meson add_leD1)
  then obtain q2 where "w_arg q1 a0 = (q2, a)" "dec_at q2 ver (w_allocated q + word_of_nat (costA a)) rest'"
    using arg.decode [OF v(2,1)] mem(2) unfolding dec_ok_def by blast
  with c' q1 show ?thesis
    by (auto simp: dec_at_def buf_ok_def)
qed

end

interpretation init_rpc: wire_rpc ver sanei_w_init_req "\<lambda>_. True" init_req_valid init_req_ser
    "\<lambda>v. str_cost (irq_username v)" sanei_w_init_reply "\<lambda>_. True" "\<lambda>_. True" init_reply_ser "\<lambda>_. 0" for ver
  by unfold_locales (rule simple_messages_safe)

interpretation devices_rpc: wire_rpc ver sanei_w_void "\<lambda>_. True" "\<lambda>_. True" "\<lambda>_. []" "\<lambda>_. 0"
    sanei_w_get_devices_reply "\<lambda>_. True" get_devices_valid get_devices_ser get_devices_cost for ver
  by unfold_locales (rule get_devices_safe)

interpretation open_rpc: wire_rpc ver sanei_w_string "\<lambda>_. True" str_valid str_ser str_cost
    sanei_w_open_reply "\<lambda>_. True" open_reply_valid open_reply_ser "\<lambda>v. str_cost (orp_resource v)" for ver
  by unfold_locales (rule simple_messages_safe)

interpretation descriptors_rpc: wire_rpc ver sanei_w_word "\<lambda>_. True" "\<lambda>_. True" be32 "\<lambda>_. 0"
    sanei_w_option_descriptor_array "\<lambda>_. True" descr_array_valid descr_array_ser descr_array_cost for ver
  by unfold_locales (rule descr_array_safe)

interpretation control_rpc: wire_rpc ver sanei_w_control_option_req no_value "ctl_req_valid ver" "ctl_req_ser ver"
    ctl_req_cost sanei_w_control_option_reply "\<lambda>_. True" ctl_reply_valid ctl_reply_ser ctl_reply_cost for ver
  by unfold_locales (rule ctl_reply_safe)

interpretation parameters_rpc: wire_rpc ver sanei_w_word "\<lambda>_. True" "\<lambda>_. True" be32 "\<lambda>_. 0"
    sanei_w_get_parameters_reply "\<lambda>_. True" "\<lambda>_. True" get_params_ser "\<lambda>_. 0" for ver
  by unfold_locales (rule get_params_safe)

interpretation start_rpc: wire_rpc ver sanei_w_word "\<lambda>_. True" "\<lambda>_. True" be32 "\<lambda>_. 0"
    sanei_w_start_reply "\<lambda>_. True" start_reply_valid start_reply_ser "\<lambda>v. str_cost (srp_resource v)" for ver
  by unfold_locales (rule simple_messages_safe)

interpretation authorize_rpc: wire_rpc ver sanei_w_authorization_req "\<lambda>_. True" auth_req_valid auth_req_ser
    auth_req_cost sanei_w_word "\<lambda>_. True" "\<lambda>_. True" be32 "\<lambda>_. 0" for ver
  by unfold_locales (rule word_safe)

end
