(* ===== verification/Net_Props.thy ===== *)
theory Net_Props
  imports Net_Laws
begin

text \<open>
  Properties of the network protocol library (\<^verbatim>\<open>sanei/sanei_wire.c\<close>,
  \<^verbatim>\<open>sanei/sanei_codec_bin.c\<close>, \<^verbatim>\<open>sanei/sanei_net.c\<close>): remote calls deliver what was sent, under
  every way of cutting the byte stream into pieces, and hostile input never makes a decoder
  leave its buffers.
\<close>

section \<open>A wire for the examples\<close>

definition small_wire :: "wire_direction \<Rightarrow> read_ev list \<Rightarrow> wire" where
  \<comment> \<open>a binary wire with a buffer of eight bytes and a system that writes one byte at a time first\<close>
  "small_wire dir evs = \<lparr>w_version = 3, w_direction = dir, w_status = 0, w_allocated = 0, w_codec = Codec_Bin,
     w_size = 8, w_mem = replicate 8 0, w_curr = 0, w_end = 0, w_rd = evs, w_wr = [WAccept 1, WAccept 2],
     w_sent = [], w_malloc = [], w_junk = 7, w_fault = False\<rparr>"

lemma small_wire_ok:
  "RError 0 \<notin> set evs \<Longrightarrow> wire_ready (small_wire WIRE_DECODE evs) 3 \<and> io_good (small_wire WIRE_DECODE evs) \<and>
    reader_ready (small_wire WIRE_DECODE evs) 3 \<and> w_allocated (small_wire WIRE_DECODE evs) = 0 \<and>
    w_rd (small_wire WIRE_DECODE evs) = evs"
  by (simp add: small_wire_def wire_ready_def io_good_def reader_ready_def buf_ok_def)

lemma avail_piece: "avail [RData bs] = bs @ []"
  by simp

text \<open> Opening a device over the network.  The client's \<open>sanei_w_call\<close> with procedure number
  \<open>SANE_NET_OPEN\<close> and a device name makes the server read that procedure number and that name, and
  returns the reply, field by field, that the server passed to \<open>sanei_w_reply\<close>; both ends finish
  with status 0 and leave in the stream what follows the message.  The sizes of the pieces in
  which \<open>read\<close> and \<open>write\<close> move the bytes, the protocol version and the wires' earlier traffic are
  arbitrary.\<close>

theorem open_exchange:
  assumes "wire_ready c ver" "io_good c" "wire_ready s ver" "reader_ready q ver"
    and "str_valid name" "open_reply_valid r"
    and "unat (w_allocated c) + str_cost (orp_resource r) \<le> MAX_MEM"
    and "unat (w_allocated q) + str_cost name \<le> MAX_MEM"
    and "avail (w_rd c) = new_bytes s (fst (sanei_w_reply s sanei_w_open_reply r)) @ rest"
    and "avail (w_rd q) = new_bytes c (fst (sanei_w_call c SANE_NET_OPEN sanei_w_string name sanei_w_open_reply r0)) @ rest'"
  shows "(\<exists>c'. sanei_w_call c SANE_NET_OPEN sanei_w_string name sanei_w_open_reply r0 = (c', name, r) \<and>
      w_status c' = 0 \<and> \<not> w_fault c' \<and> in_stream c' = rest) \<and>
    (\<exists>q1 q2. sanei_w_word q p0 = (q1, SANE_NET_OPEN) \<and> sanei_w_string q1 name0 = (q2, name) \<and>
      w_status q2 = 0 \<and> \<not> w_fault q2 \<and> in_stream q2 = rest')"
  using open_rpc.exchange assms by blast

definition ex_open_reply :: open_reply where
  "ex_open_reply = \<lparr>orp_status = 0, orp_handle = 2, orp_resource = Some (mk_cstr (ascii ''net''))\<rparr>"

definition ex_server :: wire where
  "ex_server = small_wire WIRE_DECODE []"

definition ex_open_client :: wire where
  "ex_open_client = small_wire WIRE_DECODE
     [RData (new_bytes ex_server (fst (sanei_w_reply ex_server sanei_w_open_reply ex_open_reply)))]"

lemma open_exchange_witness:
  "snd (sanei_w_call ex_open_client SANE_NET_OPEN sanei_w_string (Some (mk_cstr (ascii ''test:0'')))
     sanei_w_open_reply \<lparr>orp_status = 0, orp_handle = 0, orp_resource = None\<rparr>) =
     (Some (mk_cstr (ascii ''test:0'')), ex_open_reply)"
proof -
  let ?call = "sanei_w_call ex_open_client SANE_NET_OPEN sanei_w_string (Some (mk_cstr (ascii ''test:0'')))
     sanei_w_open_reply \<lparr>orp_status = 0, orp_handle = 0, orp_resource = None\<rparr>"
  let ?q = "small_wire WIRE_DECODE [RData (new_bytes ex_open_client (fst ?call))]"
  have ok: "str_valid (Some (mk_cstr (ascii ''test:0'')))" "open_reply_valid ex_open_reply"
    "str_cost (orp_resource ex_open_reply) \<le> MAX_MEM" "str_cost (Some (mk_cstr (ascii ''test:0''))) \<le> MAX_MEM"
    by (simp_all add: str_valid_def str_cost_def open_reply_valid_def ex_open_reply_def mk_cstr_def ascii_def)
  have rdy: "wire_ready ex_open_client 3" "io_good ex_open_client" "wire_ready ex_server 3" "reader_ready ?q 3"
    "w_allocated ex_open_client = 0" "w_allocated ?q = 0"
    using small_wire_ok by (simp_all add: ex_open_client_def ex_server_def)
  have mem: "unat (w_allocated ex_open_client) + str_cost (orp_resource ex_open_reply) \<le> MAX_MEM"
    "unat (w_allocated ?q) + str_cost (Some (mk_cstr (ascii ''test:0''))) \<le> MAX_MEM"
    unfolding rdy using ok(3,4) by simp_all
  have arrive: "avail (w_rd ex_open_client) = new_bytes ex_server (fst (sanei_w_reply ex_server sanei_w_open_reply ex_open_reply)) @ []"
    by (simp add: ex_open_client_def small_wire_def)
  have request: "avail (w_rd ?q) = new_bytes ex_open_client (fst ?call) @ []"
    by (simp add: small_wire_def)
  obtain c' where "?call = (c', Some (mk_cstr (ascii ''test:0'')), ex_open_reply)"
    using open_exchange [OF rdy(1-4) ok(1,2) mem arrive request] by blast
  then show ?thesis by simp
qed

text \<open> C13: setting or reading an option over the network.  The server reads back exactly the request
  the client passed to \<open>sanei_w_call\<close>, with the typed value in its union (or without a value, for
  an automatic setting under protocol version 3), and the client gets exactly the reply of the
  server, for all well-formed requests and replies, whatever the protocol version and however
  the byte stream is cut.\<close>

theorem control_option_exchange:
  assumes "wire_ready c ver" "io_good c" "wire_ready s ver" "reader_ready q ver"
    and "ctl_req_valid ver req" "no_value req0" "ctl_reply_valid r"
    and "unat (w_allocated c) + ctl_reply_cost r \<le> MAX_MEM"
    and "unat (w_allocated q) + ctl_req_cost req \<le> MAX_MEM"
    and "avail (w_rd c) = new_bytes s (fst (sanei_w_reply s sanei_w_control_option_reply r)) @ rest"
    and "avail (w_rd q) = new_bytes c (fst (sanei_w_call c SANE_NET_CONTROL_OPTION
           sanei_w_control_option_req req sanei_w_control_option_reply r0)) @ rest'"
  shows "(\<exists>c'. sanei_w_call c SANE_NET_CONTROL_OPTION sanei_w_control_option_req req
        sanei_w_control_option_reply r0 = (c', req, r) \<and>
      w_status c' = 0 \<and> \<not> w_fault c' \<and> in_stream c' = rest) \<and>
    (\<exists>q1 q2. sanei_w_word q p0 = (q1, SANE_NET_CONTROL_OPTION) \<and>
      sanei_w_control_option_req q1 req0 = (q2, req) \<and> w_status q2 = 0 \<and> \<not> w_fault q2 \<and> in_stream q2 = rest')"
  using control_rpc.exchange [OF assms(1-5) assms(6) assms(7) TrueI assms(8-11)] .

definition ex_ctl_req :: control_option_req where
  "ex_ctl_req = \<lparr>coq_handle = 0, coq_option = 3, coq_action = SANE_ACTION_SET_VALUE, coq_value_type = SANE_TYPE_INT,
     coq_value_size = 8, coq_value = Ctl_Words [300, 600]\<rparr>"

definition ex_ctl_reply :: control_option_reply where
  "ex_ctl_reply = \<lparr>cor_status = 0, cor_info = 2, cor_value_type = SANE_TYPE_INT, cor_value_size = 8,
     cor_value = Ctl_Words [300, 500], cor_resource = None\<rparr>"

definition ex_ctl_client :: wire where
  "ex_ctl_client = small_wire WIRE_DECODE
     [RData (new_bytes ex_server (fst (sanei_w_reply ex_server sanei_w_control_option_reply ex_ctl_reply)))]"

lemma control_option_exchange_witness:
  "snd (sanei_w_call ex_ctl_client SANE_NET_CONTROL_OPTION sanei_w_control_option_req ex_ctl_req
     sanei_w_control_option_reply (ex_ctl_reply\<lparr>cor_value := Ctl_Null\<rparr>)) = (ex_ctl_req, ex_ctl_reply)"
proof -
  let ?call = "sanei_w_call ex_ctl_client SANE_NET_CONTROL_OPTION sanei_w_control_option_req ex_ctl_req
     sanei_w_control_option_reply (ex_ctl_reply\<lparr>cor_value := Ctl_Null\<rparr>)"
  let ?q = "small_wire WIRE_DECODE [RData (new_bytes ex_ctl_client (fst ?call))]"
  let ?req0 = "ex_ctl_req\<lparr>coq_value_type := 0, coq_value_size := 0, coq_value := Ctl_Null\<rparr>"
  have ok: "ctl_req_valid 3 ex_ctl_req" "no_value ?req0" "ctl_reply_valid ex_ctl_reply"
    "ctl_reply_cost ex_ctl_reply \<le> MAX_MEM" "ctl_req_cost ex_ctl_req \<le> MAX_MEM"
    by (simp_all add: ctl_req_valid_def carries_value_def no_value_def ctl_reply_valid_def is_word_type_def
        ctl_reply_cost_def ctl_req_cost_def str_valid_def str_cost_def alist_cost_def arr_cost_def
        ex_ctl_req_def ex_ctl_reply_def)
  have rdy: "wire_ready ex_ctl_client 3" "io_good ex_ctl_client" "wire_ready ex_server 3" "reader_ready ?q 3"
    "w_allocated ex_ctl_client = 0" "w_allocated ?q = 0"
    using small_wire_ok by (simp_all add: ex_ctl_client_def ex_server_def)
  have mem: "unat (w_allocated ex_ctl_client) + ctl_reply_cost ex_ctl_reply \<le> MAX_MEM"
    "unat (w_allocated ?q) + ctl_req_cost ex_ctl_req \<le> MAX_MEM"
    unfolding rdy using ok(4,5) by simp_all
  have arrive: "avail (w_rd ex_ctl_client) =
      new_bytes ex_server (fst (sanei_w_reply ex_server sanei_w_control_option_reply ex_ctl_reply)) @ []"
    by (simp add: ex_ctl_client_def small_wire_def)
  have request: "avail (w_rd ?q) = new_bytes ex_ctl_client (fst ?call) @ []"
    by (simp add: small_wire_def)
  obtain c' where "?call = (c', ex_ctl_req, ex_ctl_reply)"
    using control_option_exchange [OF rdy(1-4) ok(1-3) mem arrive request] by blast
  then show ?thesis by simp
qed

text \<open> C14: the option table crosses the network intact.  The client of
  \<open>SANE_NET_GET_OPTION_DESCRIPTORS\<close> gets back every descriptor the server sent, with names,
  types, units, capabilities and the constraint in the arm its type selects (range, word list,
  null-terminated string list), null entries included.\<close>

theorem descriptors_exchange:
  assumes "wire_ready c ver" "io_good c" "wire_ready s ver" "reader_ready q ver" "descr_array_valid r"
    and "unat (w_allocated c) + descr_array_cost r \<le> MAX_MEM" "unat (w_allocated q) \<le> MAX_MEM"
    and "avail (w_rd c) = new_bytes s (fst (sanei_w_reply s sanei_w_option_descriptor_array r)) @ rest"
    and "avail (w_rd q) = new_bytes c (fst (sanei_w_call c SANE_NET_GET_OPTION_DESCRIPTORS
           sanei_w_word h sanei_w_option_descriptor_array r0)) @ rest'"
  shows "(\<exists>c'. sanei_w_call c SANE_NET_GET_OPTION_DESCRIPTORS sanei_w_word h sanei_w_option_descriptor_array r0 =
      (c', h, r) \<and> w_status c' = 0 \<and> \<not> w_fault c' \<and> in_stream c' = rest) \<and>
    (\<exists>q1 q2. sanei_w_word q p0 = (q1, SANE_NET_GET_OPTION_DESCRIPTORS) \<and> sanei_w_word q1 h0 = (q2, h) \<and>
      w_status q2 = 0 \<and> \<not> w_fault q2 \<and> in_stream q2 = rest')"
  using descriptors_rpc.exchange [OF assms(1-4) TrueI TrueI assms(5) TrueI assms(6) _ assms(8,9)] assms(7) by simp

definition ex_descriptors :: option_descriptor_array where
  "ex_descriptors = \<lparr>oda_num_options = 3, oda_desc = Some
     [Some \<lparr>opt_name = Some (mk_cstr (ascii ''resolution'')), opt_title = None, opt_desc = None,
            opt_type = SANE_TYPE_INT, opt_unit = 4, opt_size = 4, opt_cap = 5,
            opt_constraint_type = SANE_CONSTRAINT_WORD_LIST, opt_constraint = Constr_Words (Some [2, 75, 300])\<rparr>,
      None,
      Some \<lparr>opt_name = Some (mk_cstr (ascii ''mode'')), opt_title = None, opt_desc = None,
            opt_type = SANE_TYPE_STRING, opt_unit = 0, opt_size = 6, opt_cap = 5,
            opt_constraint_type = SANE_CONSTRAINT_STRING_LIST,
            opt_constraint = Constr_Strings (Some [Some (mk_cstr (ascii ''Color'')), None])\<rparr>]\<rparr>"

definition ex_descr_client :: wire where
  "ex_descr_client = small_wire WIRE_DECODE
     [RData (new_bytes ex_server (fst (sanei_w_reply ex_server sanei_w_option_descriptor_array ex_descriptors)))]"

lemma descriptors_exchange_witness:
  "snd (sanei_w_call ex_descr_client SANE_NET_GET_OPTION_DESCRIPTORS sanei_w_word 0 sanei_w_option_descriptor_array
     \<lparr>oda_num_options = 0, oda_desc = None\<rparr>) = (0, ex_descriptors)"
proof -
  let ?call = "sanei_w_call ex_descr_client SANE_NET_GET_OPTION_DESCRIPTORS sanei_w_word 0
     sanei_w_option_descriptor_array \<lparr>oda_num_options = 0, oda_desc = None\<rparr>"
  let ?q = "small_wire WIRE_DECODE [RData (new_bytes ex_descr_client (fst ?call))]"
  have ok: "descr_array_valid ex_descriptors" "descr_array_cost ex_descriptors \<le> MAX_MEM"
    by (simp_all add: ex_descriptors_def descr_array_valid_def alist_valid_def alist_len_def opt_valid_def descr_valid_def
        str_valid_def mk_cstr_def ascii_def word_list_valid_def null_terminated_def descr_array_cost_def
        alist_cost_def arr_cost_def opt_cost_def descr_cost_def str_cost_def)
  have rdy: "wire_ready ex_descr_client 3" "io_good ex_descr_client" "wire_ready ex_server 3" "reader_ready ?q 3"
    "w_allocated ex_descr_client = 0" "w_allocated ?q = 0"
    using small_wire_ok by (simp_all add: ex_descr_client_def ex_server_def)
  have mem: "unat (w_allocated ex_descr_client) + descr_array_cost ex_descriptors \<le> MAX_MEM"
    "unat (w_allocated ?q) \<le> MAX_MEM"
    unfolding rdy using ok(2) by simp_all
  have arrive: "avail (w_rd ex_descr_client) =
      new_bytes ex_server (fst (sanei_w_reply ex_server sanei_w_option_descriptor_array ex_descriptors)) @ []"
    by (simp add: ex_descr_client_def small_wire_def)
  have request: "avail (w_rd ?q) = new_bytes ex_descr_client (fst ?call) @ []"
    by (simp add: small_wire_def)
  obtain c' where "?call = (c', 0, ex_descriptors)"
    using descriptors_exchange [OF rdy(1-4) ok(1) mem arrive request] by blast
  then show ?thesis by simp
qed

text \<open> The list of devices crosses the network intact: the client of \<open>SANE_NET_GET_DEVICES\<close> gets
  the status and every device of the null-terminated list the server sent.\<close>

theorem devices_exchange:
  assumes "wire_ready c ver" "io_good c" "wire_ready s ver" "reader_ready q ver" "get_devices_valid r"
    and "unat (w_allocated c) + get_devices_cost r \<le> MAX_MEM" "unat (w_allocated q) \<le> MAX_MEM"
    and "avail (w_rd c) = new_bytes s (fst (sanei_w_reply s sanei_w_get_devices_reply r)) @ rest"
    and "avail (w_rd q) = new_bytes c (fst (sanei_w_call c SANE_NET_GET_DEVICES
           sanei_w_void () sanei_w_get_devices_reply r0)) @ rest'"
  shows "(\<exists>c'. sanei_w_call c SANE_NET_GET_DEVICES sanei_w_void () sanei_w_get_devices_reply r0 =
      (c', (), r) \<and> w_status c' = 0 \<and> \<not> w_fault c' \<and> in_stream c' = rest) \<and>
    (\<exists>q1. sanei_w_word q p0 = (q1, SANE_NET_GET_DEVICES) \<and>
      w_status q1 = 0 \<and> \<not> w_fault q1 \<and> in_stream q1 = rest')"
proof -
  have mem: "unat (w_allocated q) + 0 \<le> MAX_MEM" using assms(7) by simp
  show ?thesis
    using devices_rpc.exchange [OF assms(1-4) TrueI TrueI assms(5) TrueI assms(6) mem assms(8,9), of p0 "()"]
    by (auto simp: sanei_w_void_def)
qed

definition ex_devices :: get_devices_reply where
  "ex_devices = \<lparr>gdr_status = 0, gdr_device_list = Some
     [Some \<lparr>dev_name = Some (mk_cstr (ascii ''test:0'')), dev_vendor = Some (mk_cstr (ascii ''Noname'')),
            dev_model = None, dev_type = Some (mk_cstr (ascii ''virtual''))\<rparr>, None]\<rparr>"

definition ex_dev_client :: wire where
  "ex_dev_client = small_wire WIRE_DECODE
     [RData (new_bytes ex_server (fst (sanei_w_reply ex_server sanei_w_get_devices_reply ex_devices)))]"

lemma devices_exchange_witness:
  "snd (sanei_w_call ex_dev_client SANE_NET_GET_DEVICES sanei_w_void () sanei_w_get_devices_reply
     \<lparr>gdr_status = 0, gdr_device_list = None\<rparr>) = ((), ex_devices)"
proof -
  let ?call = "sanei_w_call ex_dev_client SANE_NET_GET_DEVICES sanei_w_void () sanei_w_get_devices_reply
     \<lparr>gdr_status = 0, gdr_device_list = None\<rparr>"
  let ?q = "small_wire WIRE_DECODE [RData (new_bytes ex_dev_client (fst ?call))]"
  have ok: "get_devices_valid ex_devices" "get_devices_cost ex_devices \<le> MAX_MEM"
    by (simp_all add: ex_devices_def get_devices_valid_def alist_valid_def opt_valid_def device_valid_def
        str_valid_def mk_cstr_def ascii_def null_terminated_def get_devices_cost_def
        alist_cost_def arr_cost_def opt_cost_def device_cost_def str_cost_def)
  have rdy: "wire_ready ex_dev_client 3" "io_good ex_dev_client" "wire_ready ex_server 3" "reader_ready ?q 3"
    "w_allocated ex_dev_client = 0" "w_allocated ?q = 0"
    using small_wire_ok by (simp_all add: ex_dev_client_def ex_server_def)
  have mem: "unat (w_allocated ex_dev_client) + get_devices_cost ex_devices \<le> MAX_MEM"
    "unat (w_allocated ?q) \<le> MAX_MEM"
    unfolding rdy using ok(2) by simp_all
  have arrive: "avail (w_rd ex_dev_client) =
      new_bytes ex_server (fst (sanei_w_reply ex_server sanei_w_get_devices_reply ex_devices)) @ []"
    by (simp add: ex_dev_client_def small_wire_def)
  have request: "avail (w_rd ?q) = new_bytes ex_dev_client (fst ?call) @ []"
    by (simp add: small_wire_def)
  obtain c' where "?call = (c', (), ex_devices)"
    using devices_exchange [OF rdy(1-4) ok(1) mem arrive request] by blast
  then show ?thesis by simp
qed

section \<open>Memory\<close>

text \<open> Freeing a decoded message gives back what decoding charged: after an option table has
  been decoded and released with \<open>sanei_w_free\<close>, the wire's count of allocated memory is what it
  was before, so a long session does not drift towards the limit.\<close>

theorem descriptors_freed:
  assumes "reader_ready w ver" "descr_array_valid r" "avail (w_rd w) = descr_array_ser r @ rest"
    and "unat (w_allocated w) + descr_array_cost r \<le> MAX_MEM"
  shows "\<exists>w'. sanei_w_option_descriptor_array w r0 = (w', r) \<and>
    w_allocated w' = w_allocated w + word_of_nat (descr_array_cost r) \<and>
    w_allocated (fst (sanei_w_free w' sanei_w_option_descriptor_array r)) = w_allocated w"
  using descr_array_codec.received [OF assms(1,2) TrueI assms(3,4)] by metis

lemma descriptors_freed_witness:
  "\<exists>w'. sanei_w_option_descriptor_array (small_wire WIRE_DECODE [RData (descr_array_ser ex_descriptors)])
      \<lparr>oda_num_options = 0, oda_desc = None\<rparr> = (w', ex_descriptors) \<and>
    w_allocated (fst (sanei_w_free w' sanei_w_option_descriptor_array ex_descriptors)) = 0"
proof -
  let ?w = "small_wire WIRE_DECODE [RData (descr_array_ser ex_descriptors)]"
  have r: "reader_ready ?w 3" "w_allocated ?w = 0"
    using small_wire_ok by simp_all
  have ok: "descr_array_valid ex_descriptors" "descr_array_cost ex_descriptors \<le> MAX_MEM"
    by (simp_all add: ex_descriptors_def descr_array_valid_def alist_valid_def alist_len_def opt_valid_def descr_valid_def
        str_valid_def mk_cstr_def ascii_def word_list_valid_def null_terminated_def descr_array_cost_def
        alist_cost_def arr_cost_def opt_cost_def descr_cost_def str_cost_def)
  have "avail (w_rd ?w) = descr_array_ser ex_descriptors @ []"
    by (simp add: small_wire_def)
  with descriptors_freed [of ?w 3 ex_descriptors "[]"] r ok show ?thesis by fastforce
qed

section \<open>Hostile input\<close>

text \<open> C15: no byte stream can make the server's decoders misbehave.  Whatever arrives, truncated or
  malicious, in whatever pieces, and whichever allocation fails, decoding a request leaves the
  buffer offsets ordered inside the block, touches no memory outside of a block or through a
  null pointer, and writes nothing.\<close>

theorem hostile_requests_safe:
  assumes "reading w"
  shows "kept w (fst (sanei_w_word w p)) \<and> kept w (fst (sanei_w_string w name)) \<and>
    kept w (fst (sanei_w_init_req w a)) \<and> kept w (fst (sanei_w_control_option_req w b)) \<and>
    kept w (fst (sanei_w_authorization_req w d))"
  using assms word_safe string_safe simple_messages_safe ctl_req_safe unfolding dec_safe_def by blast

lemma hostile_requests_safe_witness:
  "\<not> w_fault (fst (sanei_w_string (small_wire WIRE_DECODE [RData [255], RData [255, 255, 255, 1], RError 5]) None))"
  using hostile_requests_safe [of "small_wire WIRE_DECODE [RData [255], RData [255, 255, 255, 1], RError 5]" _ None]
  by (simp add: reading_def kept_def small_wire_def buf_ok_def)

text \<open> C16: the same for the client: no reply of a hostile server makes a decoder of the client leave
  its buffers.\<close>

theorem hostile_replies_safe:
  assumes "reading w"
  shows "kept w (fst (sanei_w_init_reply w a)) \<and> kept w (fst (sanei_w_get_devices_reply w b)) \<and>
    kept w (fst (sanei_w_open_reply w c)) \<and> kept w (fst (sanei_w_option_descriptor_array w d)) \<and>
    kept w (fst (sanei_w_control_option_reply w e)) \<and> kept w (fst (sanei_w_get_parameters_reply w f)) \<and>
    kept w (fst (sanei_w_start_reply w g))"
  using assms simple_messages_safe get_devices_safe descr_array_safe ctl_reply_safe get_params_safe
  unfolding dec_safe_def by blast

lemma hostile_replies_safe_witness:
  "\<not> w_fault (fst (sanei_w_option_descriptor_array
     (small_wire WIRE_DECODE [RData [0, 0, 0, 9, 0, 0], RData [0, 0, 255, 255, 255, 255]])
     \<lparr>oda_num_options = 0, oda_desc = None\<rparr>))"
  using hostile_replies_safe [of "small_wire WIRE_DECODE [RData [0, 0, 0, 9, 0, 0], RData [0, 0, 255, 255, 255, 255]]"
      _ _ _ "\<lparr>oda_num_options = 0, oda_desc = None\<rparr>"]
  by (simp add: reading_def kept_def small_wire_def buf_ok_def)

end
