(* ===== verification/Saned_Access_Props.thy ===== *)
theory Saned_Access_Props
  imports Saned_Access
begin

text \<open>
  Properties of the daemon's access control: the masks built from a number of bits, what a line
  of a file grants, and the policy \<open>check_host\<close> implements.
\<close>

unbundle bit_operations_syntax

section \<open>Masks\<close>

lemma v4_mask_32: "k \<le> 32 \<Longrightarrow> v4_mask (int k) = NOT (Bit_Operations.mask (32 - k))"
proof -
  assume "k \<le> 32"
  then have "k \<in> set [0..<33]" by simp
  moreover have "list_all (\<lambda>k. v4_mask (int k) = NOT (Bit_Operations.mask (32 - k))) [0..<33]"
    by (simp add: upt_rec v4_mask_def v4_mask_loop.simps cidrtomask_def mask_eq_exp_minus_1)
  ultimately show ?thesis by (auto simp: list_all_iff)
qed

lemma and_not_mask_eq:
  "(a :: 'a :: len word) AND NOT (Bit_Operations.mask n) = b AND NOT (Bit_Operations.mask n) \<longleftrightarrow> drop_bit n a = drop_bit n b"
proof
  assume eq: "a AND NOT (Bit_Operations.mask n) = b AND NOT (Bit_Operations.mask n)"
  show "drop_bit n a = drop_bit n b"
  proof (rule bit_word_eqI)
    fix i
    have "bit (a AND NOT (Bit_Operations.mask n)) (n + i) = bit (b AND NOT (Bit_Operations.mask n)) (n + i)"
      by (simp only: eq)
    then show "bit (drop_bit n a) i = bit (drop_bit n b) i"
      by (cases "n + i < LENGTH('a)") (auto simp: bit_simps dest: bit_imp_le_length)
  qed
next
  assume eq: "drop_bit n a = drop_bit n b"
  show "a AND NOT (Bit_Operations.mask n) = b AND NOT (Bit_Operations.mask n)"
  proof (rule bit_word_eqI)
    fix i
    have "bit (drop_bit n a) (i - n) = bit (drop_bit n b) (i - n)"
      by (simp only: eq)
    then show "bit (a AND NOT (Bit_Operations.mask n)) i = bit (b AND NOT (Bit_Operations.mask n)) i"
      by (cases "i < n") (auto simp: bit_simps)
  qed
qed

lemma v6_mask_loop_bytes:
  "i \<le> 16 \<Longrightarrow> i + q \<le> 16 \<Longrightarrow> r < 8 \<Longrightarrow>
    v6_mask_loop i (int (8 * q + r) - 8) (replicate i 255 @ replicate (16 - i) 0, f) =
      (i + q, int r - 8, replicate (i + q) 255 @ replicate (16 - (i + q)) 0, f)"
proof (induction q arbitrary: i)
  case 0
  then show ?case by (subst v6_mask_loop.simps) simp
next
  case (Suc q)
  have "(replicate i 255 @ replicate (16 - i) (0 :: nat))[i := 255] = replicate (Suc i) 255 @ replicate (16 - Suc i) 0"
    using Suc.prems by (cases "16 - i") (simp_all add: list_update_append replicate_app_Cons_same)
  with Suc.IH [of "Suc i"] Suc.prems show ?case
    by (subst v6_mask_loop.simps) (simp add: mask_store_def blk_set_def algebra_simps)
qed

definition v6_mask_bytes :: "nat \<Rightarrow> nat list" where
  "v6_mask_bytes k = replicate (k div 8) 255 @ cidrtomask (int (k mod 8)) # replicate (15 - k div 8) 0"

lemma v6_mask_bytes:
  "k \<le> 128 \<Longrightarrow> v6_mask (int k) = (if k = 128 then (replicate 16 255, True) else (v6_mask_bytes k, False))"
proof -
  assume k: "k \<le> 128"
  define q r where "q = k div 8" and "r = k mod 8"
  have eq: "int k - 8 = int (8 * q + r) - 8" "r < 8" "q \<le> 16" "q = 16 \<longleftrightarrow> k = 128"
    using k by (auto simp: q_def r_def)
  have l: "v6_mask_loop 0 (int k - 8) (replicate 16 0, False) =
      (q, int r - 8, replicate q 255 @ replicate (16 - q) 0, False)"
    using v6_mask_loop_bytes [of 0 q r False] eq by simp
  show ?thesis
  proof (cases "k = 128")
    case True
    with l eq show ?thesis by (simp add: v6_mask_def mask_store_def blk_set_def)
  next
    case False
    with eq have "(replicate q 255 @ replicate (16 - q) (0 :: nat))[q := c] = replicate q 255 @ c # replicate (15 - q) 0" for c
      by (cases "16 - q") (simp_all add: list_update_append)
    with l eq False show ?thesis
      by (simp add: v6_mask_def mask_store_def blk_set_def v6_mask_bytes_def q_def [symmetric] r_def [symmetric])
  qed
qed

lemma cidrtomask_word:
  "r < 8 \<Longrightarrow> (of_nat (cidrtomask (int r)) :: byte) = NOT (Bit_Operations.mask (8 - r)) \<and> cidrtomask (int r) < 256"
proof -
  assume "r < 8"
  then have "r \<in> set [0..<8]" by simp
  moreover have "list_all (\<lambda>r. (of_nat (cidrtomask (int r)) :: byte) = NOT (Bit_Operations.mask (8 - r)) \<and>
      cidrtomask (int r) < 256) [0..<8]"
    by (simp add: upt_rec cidrtomask_def mask_eq_exp_minus_1)
  ultimately show ?thesis by (auto simp: list_all_iff)
qed

lemma byte_and_nat:
  "m < 256 \<Longrightarrow> (unat (a :: byte) AND m) = (unat b AND m) \<longleftrightarrow> a AND of_nat m = b AND of_nat m"
proof -
  assume "m < 256"
  then have "unat (of_nat m :: byte) = m"
    by (simp add: unat_of_nat take_bit_nat_eq_self)
  then have "unat (x AND of_nat m) = (unat x AND m)" for x :: byte
    by (simp add: unsigned_and_eq)
  then show ?thesis
    by (metis word_unat_eq_iff)
qed

lemma byte_and_cidr:
  "r < 8 \<Longrightarrow> (unat (a :: byte) AND cidrtomask (int r)) = (unat b AND cidrtomask (int r)) \<longleftrightarrow>
     drop_bit (8 - r) a = drop_bit (8 - r) b"
  using cidrtomask_word [of r] by (simp add: byte_and_nat and_not_mask_eq)

lemma byte_and_255: "(unat (a :: byte) AND 255) = (unat b AND 255) \<longleftrightarrow> a = b"
proof -
  have e: "(255 :: byte) = - 1" by simp
  have "x AND 255 = x" for x :: byte
    by (simp only: e and.right_neutral)
  then show ?thesis by (simp add: byte_and_nat)
qed

definition v6_same_prefix :: "nat \<Rightarrow> byte list \<Rightarrow> byte list \<Rightarrow> bool" where
  \<comment> \<open>the specification: the first \<open>k \<le> 128\<close> bits agree, whole bytes first\<close>
  "v6_same_prefix k a b \<longleftrightarrow> take (k div 8) a = take (k div 8) b \<and>
     (k mod 8 = 0 \<or> drop_bit (8 - k mod 8) (a ! (k div 8)) = drop_bit (8 - k mod 8) (b ! (k div 8)))"

lemma v6_mask_compare:
  assumes k: "k < 128" and len: "length a = 16" "length b = 16"
  shows "list_all (\<lambda>i. (unat (a ! i) AND v6_mask_bytes k ! i) = (unat (b ! i) AND v6_mask_bytes k ! i)) [0..<16] \<longleftrightarrow>
    v6_same_prefix k a b"
proof -
  define q where "q = k div 8"
  have q: "q < 16" using k by (simp add: q_def)
  have split: "[0..<16] = [0..<q] @ q # [Suc q..<16]"
    using q upt_add_eq_append [of 0 q "16 - q"] by (simp add: upt_conv_Cons)
  have m: "i < q \<Longrightarrow> v6_mask_bytes k ! i = 255" "v6_mask_bytes k ! q = cidrtomask (int (k mod 8))"
    "q < i \<Longrightarrow> i < 16 \<Longrightarrow> v6_mask_bytes k ! i = 0" for i
    by (auto simp: v6_mask_bytes_def q_def [symmetric] nth_append nth_Cons')
  have "take q a = take q b \<longleftrightarrow> (\<forall>i < q. a ! i = b ! i)"
    using q len by (auto simp: list_eq_iff_nth_eq)
  moreover have "list_all (\<lambda>i. (unat (a ! i) AND v6_mask_bytes k ! i) = (unat (b ! i) AND v6_mask_bytes k ! i)) [0..<q]
      \<longleftrightarrow> (\<forall>i < q. a ! i = b ! i)"
    using m(1) by (fastforce simp: list_all_iff byte_and_255)
  moreover have "list_all (\<lambda>i. (unat (a ! i) AND v6_mask_bytes k ! i) = (unat (b ! i) AND v6_mask_bytes k ! i)) [Suc q..<16]"
    by (simp add: list_all_iff m(3))
  ultimately show ?thesis
    unfolding split v6_same_prefix_def q_def [symmetric]
    using byte_and_cidr [of "k mod 8"] m(2) by (auto simp: cidrtomask_def)
qed

lemma v6_full_compare:
  "length a = 16 \<Longrightarrow> length b = 16 \<Longrightarrow>
    list_all (\<lambda>i. (unat (a ! i) AND replicate 16 255 ! i) = (unat (b ! i) AND replicate 16 255 ! i)) [0..<16] \<longleftrightarrow>
    v6_same_prefix 128 a b"
  by (auto simp: v6_same_prefix_def list_all_iff byte_and_255 list_eq_iff_nth_eq)

section \<open>Lines of a file\<close>

definition subnet_permits :: "net_env \<Rightarrow> peer_info \<Rightarrow> byte list \<Rightarrow> byte list \<Rightarrow> bool" where
  "subnet_permits env p base m \<longleftrightarrow>
     (if 58 \<in> set base
      then (case pi_addr p of Inet6 b \<Rightarrow> fst (check_v6_in_range env b base m) | _ \<Rightarrow> False)
      else (case (if pi_map p then ne_numeric4 env (pi_ip4 p)
                  else (case pi_addr p of Inet4 a \<Rightarrow> Some a | _ \<Rightarrow> None)) of
              Some a \<Rightarrow> check_v4_in_range env a base m
            | None \<Rightarrow> False))"

definition line_permits :: "net_env \<Rightarrow> peer_info \<Rightarrow> byte list \<Rightarrow> bool" where
  \<comment> \<open>the specification: what a line of a file grants\<close>
  "line_permits env p line \<longleftrightarrow>
     line \<noteq> [] \<and> hd line \<noteq> 35 \<and> 61 \<notin> set line \<and>
     (case split_netmask line of (base0, netmask) \<Rightarrow>
        (case unbracket base0 of
           None \<Rightarrow> False
         | Some base \<Rightarrow>
             base = [43] \<or> strcasecmp_eq base (pi_ip p) \<or> (pi_map p \<and> base = pi_ip4 p) \<or>
             (case netmask of
                None \<Rightarrow> (case ne_resolve env base of Inl _ \<Rightarrow> False | Inr addrs \<Rightarrow> list_ex (same_addr env p) addrs)
              | Some m \<Rightarrow> subnet_permits env p base m)))"

lemma check_subnet_ok:
  "\<not> as_ok st \<Longrightarrow> as_ok (check_subnet env p base m st) \<longleftrightarrow> subnet_permits env p base m"
proof (cases "58 \<in> set base")
  case True
  then show "\<not> as_ok st \<Longrightarrow> ?thesis"
    by (simp add: check_subnet_def subnet_permits_def split: sock_addr.split option.split prod.split)
next
  case False
  then show "\<not> as_ok st \<Longrightarrow> ?thesis"
    by (cases "pi_map p"; cases "ne_numeric4 env (pi_ip4 p)"; cases "pi_addr p"; cases "as_res st")
      (simp_all add: check_subnet_def subnet_permits_def Let_def)
qed

lemma check_line_ok:
  "\<not> as_ok st \<Longrightarrow> as_ok (check_line env p line st) \<longleftrightarrow> line_permits env p line"
  by (cases "split_netmask line"; cases "unbracket (fst (split_netmask line))")
    (auto simp: check_line_def line_permits_def check_subnet_ok split: option.split sum.split)

lemma check_line_fault: "as_fault st \<Longrightarrow> as_fault (check_line env p line st)"
proof -
  assume f: "as_fault st"
  then have "as_fault (check_subnet env p base m st)" for base m
    by (cases "pi_map p"; cases "ne_numeric4 env (pi_ip4 p)"; cases "pi_addr p"; cases "as_res st")
      (simp_all add: check_subnet_def Let_def split: prod.split)
  with f show ?thesis
    by (cases "split_netmask line"; cases "unbracket (fst (split_netmask line))")
      (simp_all add: check_line_def split: option.split sum.split)
qed

lemma file_loop_ok:
  "as_ok (file_loop n env p buf stream st) \<longleftrightarrow>
    as_ok st \<or> list_ex (line_permits env p) (config_lines n buf stream)"
proof (induction n arbitrary: buf stream st)
  case (Suc n)
  then show ?case
    by (cases "as_ok st")
      (auto simp: check_line_ok split: config_line.splits option.splits)
qed simp

lemma check_file_ok:
  "as_ok (check_file env p file st) \<longleftrightarrow> as_ok st \<or> list_ex (line_permits env p) (file_lines file)"
  by (simp add: check_file_def file_lines_def file_loop_ok del: file_loop.simps config_lines.simps split: option.splits)

definition access_granted :: "net_env \<Rightarrow> bool" where
  \<comment> \<open>the specification of the access policy\<close>
  "access_granted env \<longleftrightarrow>
     (\<exists>addr ip. ne_peer env = Some addr \<and> ne_nameinfo env addr = Some ip \<and>
        (case peer_of env addr ip of (p, mapped) \<Rightarrow>
           is_loopback addr mapped \<or>
           (\<exists>name. ne_hostname env = Some name \<and>
              ((\<exists>addrs. ne_resolve env name = Inr addrs \<and> list_ex (same_addr env p) addrs) \<or>
               (ne_resolve env name \<noteq> Inl False \<and>
                list_ex (line_permits env p) (file_lines (ne_hosts_equiv env) @ file_lines (ne_saned_conf env)))))))"

lemma check_files_status:
  "check_files env p \<lparr>as_ok = False, as_res = r, as_fault = False\<rparr> = Verdict v flt \<Longrightarrow>
    v = (if list_ex (line_permits env p) (file_lines (ne_hosts_equiv env) @ file_lines (ne_saned_conf env))
         then SANE_STATUS_GOOD else SANE_STATUS_ACCESS_DENIED)"
  by (auto simp: check_files_def Let_def check_file_ok)

lemma check_host_status:
  \<comment> \<open>the status of an execution that goes on after such an access, if it does\<close>
  assumes "check_host env = (Verdict status flt, ip)"
  shows "status = SANE_STATUS_GOOD \<longleftrightarrow> access_granted env"
  using assms
  by (auto simp: check_host_def access_granted_def check_local_def dest!: check_files_status
      split: option.splits prod.splits if_splits sum.splits)


definition no_files_env :: "sock_addr \<Rightarrow> byte list \<Rightarrow> net_env" where
  "no_files_env a name = \<lparr>ne_peer = Some a, ne_nameinfo = (\<lambda>_. Some name), ne_hostname = Some (ascii ''host''),
     ne_resolve = (\<lambda>_. Inl True), ne_numeric4 = (\<lambda>_. None), ne_numeric6 = (\<lambda>_. None),
     ne_hosts_equiv = None, ne_saned_conf = None\<rparr>"


text \<open>A subnet line of the IPv4 kind admits the addresses that agree with the base address in
  the leading bits the line's number asks for, for every number of bits from 0 to 32.\<close>

theorem v4_range_is_prefix:
  assumes "c_strtol10 netmask = (int k, True)" "k \<le> 32" "ne_numeric4 env base_ip = Some base"
  shows "check_v4_in_range env a base_ip netmask \<longleftrightarrow> drop_bit (32 - k) a = drop_bit (32 - k) base"
proof -
  have "to_c_int (int k) = int k"
    using assms(2) sint_word_of_int_32 [of "int k"] by (simp add: to_c_int_def)
  with assms show ?thesis
    by (auto simp: check_v4_in_range_def v4_mask_32 and_not_mask_eq)
qed

lemma v4_range_is_prefix_witness:
  "check_v4_in_range ((no_files_env Other_Family [])\<lparr>ne_numeric4 := (\<lambda>_. Some 0xC0A80100)\<rparr>) 0xC0A801FE
     (ascii ''192.168.1.0'') (ascii ''24'')"
  by (subst v4_range_is_prefix [where k = 24 and base = "0xC0A80100"])
    (simp_all add: c_strtol10_def ascii_def is_space_def is_digit_def digit_val_def clamp_long_def no_files_env_def)

text \<open> C24: a subnet line of the IPv6 kind admits the addresses that agree with the base address in the
  leading bits, whole bytes first, for every number of bits from 0 to 128; the mask is written one
  element past its end exactly when the line asks for 128.\<close>

theorem v6_range_is_prefix:
  assumes "c_strtol10 netmask = (int k, True)" "k \<le> 128"
    and "ne_numeric6 env base_ip = Some base" "length base = 16" "length a = 16"
  shows "check_v6_in_range env a base_ip netmask = (v6_same_prefix k base a, k = 128)"
proof -
  have "to_c_int (int k) = int k"
    using assms(2) sint_word_of_int_32 [of "int k"] by (simp add: to_c_int_def)
  with assms show ?thesis
    using v6_full_compare [of base a]
    by (simp add: check_v6_in_range_def v6_mask_bytes v6_mask_compare del: nth_replicate)
qed

lemma v6_range_is_prefix_witness:
  "check_v6_in_range ((no_files_env Other_Family [])\<lparr>ne_numeric6 := (\<lambda>_. Some (0xfe # replicate 15 0))\<rparr>)
     (0xff # replicate 15 7) (ascii ''fe00::'') (ascii ''7'') = (True, False) \<and>
   check_v6_in_range ((no_files_env Other_Family [])\<lparr>ne_numeric6 := (\<lambda>_. Some (0xfe # replicate 15 0))\<rparr>)
     (0xfe # replicate 15 0) (ascii ''fe00::'') (ascii ''128'') = (True, True)"
  by (subst v6_range_is_prefix [where k = 7 and base = "0xfe # replicate 15 0"],
      simp_all add: c_strtol10_def ascii_def is_space_def is_digit_def digit_val_def clamp_long_def no_files_env_def
        v6_same_prefix_def)
    (subst v6_range_is_prefix [where k = 128 and base = "0xfe # replicate 15 0"],
      simp_all add: c_strtol10_def ascii_def is_space_def is_digit_def digit_val_def clamp_long_def no_files_env_def
        v6_same_prefix_def)

lemma file_loop_fault: "as_fault st \<Longrightarrow> as_fault (file_loop n env p buf stream st)"
  by (induction n arbitrary: buf stream st) (auto simp: check_line_fault split: config_line.splits option.splits)

lemma split_netmask_append: "47 \<notin> set base \<Longrightarrow> split_netmask (base @ 47 # netmask) = (base, Some netmask)"
proof -
  assume n: "47 \<notin> set base"
  then have "takeWhile (\<lambda>x. x \<noteq> 47) (base @ 47 # netmask) = base"
    by (subst takeWhile_append2) (metis, simp)
  then show ?thesis by (simp add: split_netmask_def strchr_idx_def)
qed

text \<open>The access check frees a pointer that was never set.  When the name of the local host does
  not resolve and the first line of \<^verbatim>\<open>saned.conf\<close> is an IPv4 subnet in which the base is not the
  peer's own name, an IPv4 client makes \<open>check_host\<close> pass the uninitialised \<open>res\<close> to
  \<open>freeaddrinfo\<close>.\<close>

theorem unresolved_host_frees_junk:
  assumes "ne_peer env = Some (Inet4 a)" "ne_nameinfo env (Inet4 a) = Some ip" "\<not> IN_LOOPBACK a"
    and "ne_hostname env = Some name" "ne_resolve env name = Inl True" "ne_hosts_equiv env = None"
    and "ne_saned_conf env = Some stream"
    and line: "sanei_config_read (replicate 1024 0) 1024 stream = Cfg_Line b rest" "c_str b = Some (base @ 47 # netmask)"
    and base: "base \<noteq> []" "set base \<inter> {47, 58, 61} = {}" "hd base \<notin> {35, 91}" "base \<noteq> [43]"
      "\<not> strcasecmp_eq base ip" "61 \<notin> set netmask"
  shows "\<exists>status. check_host env = (Verdict status True, ip)"
proof -
  let ?p = "\<lparr>pi_addr = Inet4 a, pi_ip = ip, pi_map = False, pi_ip4 = []\<rparr>"
  let ?st = "\<lparr>as_ok = False, as_res = Res_Junk, as_fault = False\<rparr>"
  have "hd (base @ 47 # netmask) = hd base"
    using base(1) by simp
  then have "as_fault (check_line env ?p (base @ 47 # netmask) ?st)"
    using base by (simp add: check_line_def split_netmask_append unbracket_def check_subnet_def Let_def)
  then have "as_fault (file_loop (length stream) env ?p b rest (check_line env ?p (base @ 47 # netmask) ?st))"
    by (rule file_loop_fault)
  then have "as_fault (check_file env ?p (Some stream) ?st)"
    using line by (simp add: check_file_def)
  then show ?thesis
    using assms(1-7)
    by (auto simp: check_host_def peer_of_def v4_mapped_def is_loopback_def check_local_def check_files_def Let_def
        check_file_def)
qed

lemma unresolved_host_frees_junk_witness:
  "\<exists>status. check_host ((no_files_env (Inet4 0x0A000001) (ascii ''10.0.0.1''))
     \<lparr>ne_saned_conf := Some (ascii ''10.0.0.0/8'' @ [10])\<rparr>) = (Verdict status True, ascii ''10.0.0.1'')"
proof -
  let ?l = "ascii ''10.0.0.0/8'' @ [10]"
  have l: "read_line (1024 - 1) (?l @ []) = (?l, [])"
    by (simp add: ascii_def) code_simp
  have "trim ?l = ascii ''10.0.0.0'' @ 47 # ascii ''8''"
    by (simp add: trim_def ascii_def is_space_def)
  moreover have "\<exists>b. sanei_config_read (replicate 1024 0) 1024 (?l @ []) = Cfg_Line b [] \<and> c_str b = Some (trim ?l) \<and>
      length b = length (replicate 1024 (0 :: byte)) \<and> ?l @ [] = ?l @ []"
    by (rule config_read_trims [OF _ l]) (simp_all add: ascii_def is_space_def)
  ultimately obtain b where b: "sanei_config_read (replicate 1024 0) 1024 ?l = Cfg_Line b []"
    "c_str b = Some (ascii ''10.0.0.0'' @ 47 # ascii ''8'')"
    by auto
  show ?thesis
    by (rule unresolved_host_frees_junk [OF _ _ _ _ _ _ _ b, where name = "ascii ''host''" and a = "0x0A000001"])
      (simp_all add: no_files_env_def IN_LOOPBACK_def ascii_def strcasecmp_eq_def to_lower_def)
qed

end
