(* ===== verification/Saned_Rpc_Props.thy ===== *)
theory Saned_Rpc_Props
  imports Saned_Handles Saned_Access_Props Net_Laws
begin

text \<open>
  What the request handlers of the daemon guarantee: the handshake lets only a permitted host in,
  the search for a data port ends, a request for a handle that is not open reaches no backend
  operation, and what the authorization callback copies.  The last rests on the interface
  \<open>wire_rpc\<close>, at its interpretation for the authorization message.
\<close>

section \<open>The handshake\<close>

text \<open> C21: a client is served only after the handshake.  When \<open>init\<close> returns 0, the host passed the
  access policy, the first procedure number on the wire was \<open>SANE_NET_INIT\<close>, the backend
  initialised with the expected major version, and the wire is still healthy.\<close>

theorem init_accepts:
  assumes "init be env v_major v_minor s = (s', 0)"
  shows "access_granted env \<and> w_status (sd_wire s') = 0 \<and>
    (\<exists>w0 w1. w0 = sanei_w_set_dir (sd_wire s) WIRE_DECODE \<and> sanei_w_word w0 (w_junk w0) = (w1, SANE_NET_INIT)) \<and>
    (\<exists>b0 b version. b_init be b0 = (b, SANE_STATUS_GOOD, version) \<and> sane_version_major version = v_major)"
proof -
  obtain status flt ip where v: "check_host env = (Verdict status flt, ip)"
    by (metis host_verdict.exhaust surj_pair)
  have good: "status = SANE_STATUS_GOOD"
    using assms v by (auto simp: init_def Let_def split: if_splits)
  with check_host_status [OF v] have "access_granted env" by simp
  moreover have "w_status (sd_wire s') = 0 \<and>
      (\<exists>w0 w1. w0 = sanei_w_set_dir (sd_wire s) WIRE_DECODE \<and> sanei_w_word w0 (w_junk w0) = (w1, SANE_NET_INIT)) \<and>
      (\<exists>b0 b version. b_init be b0 = (b, SANE_STATUS_GOOD, version) \<and> sane_version_major version = v_major)"
    using assms v good
    by (auto simp: init_def init_backend_def on_wire_def Let_def split: prod.splits if_splits)
  ultimately show ?thesis by blast
qed

definition ex_backend :: "unit backend" where
  "ex_backend = \<lparr>b_init = (\<lambda>b. (b, 0, sane_version_code 1 0 3)), b_get_devices = (\<lambda>b l. (b, 0, Some [None])),
     b_open = (\<lambda>b n. Ret (b, 0, 1)), b_close = (\<lambda>b h. b), b_descriptor = (\<lambda>b h i. None),
     b_control = (\<lambda>b h i a v. Ret (b, 0, v, 0)), b_params = (\<lambda>b h. (b, 0, zero_parameters)),
     b_start = (\<lambda>b h. Ret (b, 0)), b_read = (\<lambda>b h n. (b, 5, [])), b_cancel = (\<lambda>b h. b),
     b_set_io_mode = (\<lambda>b h m. (b, 0)), b_select_fd = (\<lambda>b h. (b, 1, 0)), b_exit = (\<lambda>b. b),
     b_authorize = (\<lambda>r. Ret 0)\<rparr>"

lemma init_accepts_witness:
  "access_granted (no_files_env (Inet4 0x7F000001) (ascii ''127.0.0.1''))"
proof -
  let ?w = "ex_wire\<lparr>w_rd := [RData (be32 SANE_NET_INIT @ be32 (sane_version_code 1 0 3) @ be32 0)]\<rparr>"
  have "snd (init ex_backend (no_files_env (Inet4 0x7F000001) (ascii ''127.0.0.1'')) 1 0 (ex_saned 0 [] ?w)) = 0"
    by code_simp
  then obtain s' where "init ex_backend (no_files_env (Inet4 0x7F000001) (ascii ''127.0.0.1'')) 1 0 (ex_saned 0 [] ?w) = (s', 0)"
    by (metis surjective_pairing)
  from init_accepts [OF this] show ?thesis by blast
qed

section \<open>Ports\<close>

definition bind_good :: "(16 word \<Rightarrow> bool) \<Rightarrow> 16 word \<Rightarrow> 16 word \<Rightarrow> bool \<Rightarrow> bool" where
  "bind_good ok port hi r \<longleftrightarrow> (if r then \<exists>p \<le> hi. ok p else hi \<noteq> - 1)"

lemma bind_result: "bind_loop ok port hi = Some r \<Longrightarrow> bind_good ok port hi r"
proof (rule bind_loop.raw_induct [where P = bind_good])
  fix rec ok port hi r
  assume "\<And>ok port hi r. rec ok port hi = Some r \<Longrightarrow> bind_good ok port hi r"
    and "(if port \<le> hi then if ok port then Some True else rec ok (port + 1) hi else Some False) = Some r"
  then show "bind_good ok port hi r"
    by (auto simp: bind_good_def split: if_splits)
qed

lemma bind_returns_bounded: "hi \<noteq> - 1 \<Longrightarrow> bind_loop ok port hi \<noteq> None"
proof (induction "2 ^ 16 - unat port" arbitrary: port rule: less_induct)
  case less
  show ?case
  proof (cases "port \<le> hi \<and> \<not> ok port")
    case True
    with less.prems have "port \<noteq> - 1"
      by (metis word_order.extremum_uniqueI)
    then have "port + 1 \<noteq> 0"
      by (metis add_eq_0_iff2)
    then have s: "unat (port + 1) = Suc (unat port)"
      using unatSuc [of port] by (simp add: add.commute)
    have "unat port < 2 ^ 16" using unsigned_less [of port] by simp
    with s less.prems have "bind_loop ok (port + 1) hi \<noteq> None"
      by (intro less.hyps) auto
    with True show ?thesis by (subst bind_loop.simps) simp
  next
    case False
    then show ?thesis by (subst bind_loop.simps) auto
  qed
qed

lemma bind_returns_found: "ok p \<Longrightarrow> bind_loop ok port (- 1) \<noteq> None"
proof (induction "unat (p - port)" arbitrary: port rule: less_induct)
  case less
  show ?case
  proof (cases "ok port")
    case False
    then have "p - port \<noteq> 0" using less.prems by auto
    then have "unat (p - (port + 1)) < unat (p - port)"
      using unat_minus_one [of "p - port"] by (simp add: algebra_simps unat_gt_0)
    then have "bind_loop ok (port + 1) (- 1) \<noteq> None"
      using less by blast
    with False show ?thesis by (subst bind_loop.simps) simp
  qed (subst bind_loop.simps, simp)
qed

text \<open> The search for a data port ends, unless the configured range reaches up to port 65535 and
  no port of it can be bound: then the 16-bit counter wraps around and the daemon tries for
  ever.\<close>

theorem bind_loop_ends:
  "bind_loop ok lo hi = None \<longleftrightarrow> hi = - 1 \<and> (\<forall>p. \<not> ok p)"
proof
  assume "bind_loop ok lo hi = None"
  then show "hi = - 1 \<and> (\<forall>p. \<not> ok p)"
    using bind_returns_bounded [of hi ok lo] bind_returns_found [of ok _ lo] by metis
next
  assume h: "hi = - 1 \<and> (\<forall>p. \<not> ok p)"
  show "bind_loop ok lo hi = None"
  proof (cases "bind_loop ok lo hi")
    case (Some r)
    then have "bind_good ok lo hi r" by (rule bind_result)
    with h show ?thesis by (auto simp: bind_good_def split: if_splits)
  qed
qed

section \<open>Handles in requests\<close>

lemma table_same [simp]:
  "get_slot (s\<lparr>sd_wire := w, sd_fault := f\<rparr>) h = get_slot s h"
  "get_slot (s\<lparr>sd_be := b\<rparr>) h = get_slot s h"
  by (simp_all add: get_slot_def)

lemma decode_handle_result:
  assumes "decode_handle s = (s1, h)"
  shows "(0 \<le> sint h \<longrightarrow> in_use s (sint h)) \<and> sd_handle s1 = sd_handle s \<and> sd_be s1 = sd_be s \<and> sd_num s1 = sd_num s"
proof -
  have u: "0 \<le> sint h \<Longrightarrow> uint h = sint h" "0 \<le> sint h \<Longrightarrow> unat h = nat (sint h)"
    using uint_sint_nonneg [of h] by (simp_all add: unat_eq_nat_uint)
  show ?thesis
    using assms u
    by (auto simp: decode_handle_def on_wire_def in_use_def get_slot_def sd_fail_def
        split: prod.splits if_splits option.splits)
qed

text \<open> A request for a handle that is not open is refused.  If the handle decoded from a
  \<open>GET_PARAMETERS\<close>, \<open>GET_OPTION_DESCRIPTORS\<close> or \<open>START\<close> request is not that of a slot in use, the
  result is 1, no operation of the backend runs, and the table stays as it is; \<open>CLOSE\<close> and
  \<open>CANCEL\<close> reach the backend only for a slot in use.\<close>

theorem closed_handle_refused:
  assumes "decode_handle s = (s1, h)"
  shows "(0 \<le> sint h \<longrightarrow> in_use s (sint h)) \<and>
    (sint h < 0 \<longrightarrow> rpc_params be s = (s1, 1) \<and> rpc_descriptors be s = (s1, 1) \<and> rpc_start scan be s = Some (s1, 1) \<and>
      sd_be s1 = sd_be s \<and> sd_handle s1 = sd_handle s \<and>
      sd_be (fst (rpc_close be s)) = sd_be s \<and> sd_be (fst (rpc_cancel be s)) = sd_be s)"
  using assms decode_handle_result [OF assms]
  by (auto simp: rpc_params_def rpc_descriptors_def rpc_start_def rpc_close_def rpc_cancel_def close_handle_def
      send_reply_def on_wire_def split: prod.splits)

section \<open>Authorization\<close>

definition fits :: "c_string \<Rightarrow> bool" where
  \<comment> \<open>the string and its terminator fit the caller's buffer of 128 bytes\<close>
  "fits s \<longleftrightarrow> (case s of None \<Rightarrow> True | Some b \<Rightarrow> length b \<le> 128)"

definition copied :: "c_string \<Rightarrow> byte list" where
  "copied s = (case s of None \<Rightarrow> replicate 128 0 | Some b \<Rightarrow> blit (replicate 128 0) 0 b)"

lemma strcpy_valid:
  "str_valid s \<Longrightarrow> strcpy_from (replicate 128 0) s = (if fits s then Some (copied s) else None)"
proof (cases s)
  case (Some b)
  assume v: "str_valid s"
  then have b: "b = mk_cstr (butlast b)" "nul_free (butlast b)"
    using Some by (auto simp: str_valid_def mk_cstr_def nul_free_def) (metis append_butlast_last_id)
  then have "c_str b = Some (butlast b)"
    using c_str_mk_cstr by metis
  moreover have "length (butlast b) < 128 \<longleftrightarrow> length b \<le> 128" "mk_cstr (butlast b) = b"
    using b(1) v Some by (auto simp: str_valid_def)
  ultimately show ?thesis
    using Some by (simp add: strcpy_from_def c_strcpy_def fits_def copied_def)
qed (simp add: strcpy_from_def fits_def copied_def)

lemma strcmp_terminated: "nul_free a \<Longrightarrow> nul_free b \<Longrightarrow> strcmp_in (a @ [0]) (b @ [0])"
proof (induction a arbitrary: b)
  case Nil
  then show ?case by (cases b) (simp_all add: nul_free_def)
next
  case (Cons x a)
  then show ?case by (cases b) (simp_all add: nul_free_def)
qed

lemma resource_compared_valid: "str_valid req \<Longrightarrow> str_valid (Some r) \<Longrightarrow> resource_compared req (Some r)"
proof (cases req)
  case (Some a)
  assume "str_valid req" "str_valid (Some r)"
  then have "a = butlast a @ [0]" "nul_free (butlast a)" "r = butlast r @ [0]" "nul_free (butlast r)"
    using Some by (auto simp: str_valid_def nul_free_def) (metis append_butlast_last_id)+
  then have "strcmp_in a r" using strcmp_terminated by metis
  with Some show ?thesis by (simp add: resource_compared_def)
qed (simp add: resource_compared_def)

text \<open> C23: what the authorization callback does with the answer of the client.  For every well-formed
  answer, however the bytes arrive, name and password land in the 128-byte buffers of the
  caller and the acknowledgement is sent, if both fit with their terminators, whatever resource
  the answer names; and if one does
  not fit, \<open>strcpy\<close> writes past the end of its buffer: nothing bounds what the client sends.\<close>

theorem auth_answer_copies:
  assumes r: "reader_ready (sd_wire s) 3" "RError 0 \<notin> set (w_rd (sd_wire s))" "writes_ok (w_wr (sd_wire s))"
    and v: "auth_req_valid req" "avail (w_rd (sd_wire s)) = auth_req_ser req @ rest"
    and mem: "unat (w_allocated (sd_wire s)) + auth_req_cost req \<le> MAX_MEM" and ok: "\<not> sd_fault s"
    and res: "str_valid (Some r)"
  shows "case auth_answer (Some r) (replicate 128 0) (replicate 128 0) s of (s', user, pass) \<Rightarrow>
    if fits (arq_username req) \<and> fits (arq_password req)
    then user = copied (arq_username req) \<and> pass = copied (arq_password req) \<and> \<not> sd_fault s' \<and>
      w_sent (sd_wire s') = w_sent (sd_wire s) @ be32 0 \<and> w_allocated (sd_wire s') = w_allocated (sd_wire s)
    else sd_fault s'"
proof -
  let ?v0 = "\<lparr>arq_resource = None, arq_username = None, arq_password = None\<rparr>"
  obtain w1 where w1: "sanei_w_authorization_req (sd_wire s) ?v0 = (w1, req)" "w_status w1 = 0" "\<not> w_fault w1"
    "w_allocated (fst (sanei_w_free w1 sanei_w_authorization_req req)) = w_allocated (sd_wire s)"
    using auth_req_codec.received [OF r(1) v(1) TrueI v(2) mem] by blast
  have "reading (sd_wire s)"
    using r by (simp add: reading_def reader_ready_def)
  then have k: "kept (sd_wire s) w1"
    using simple_messages_safe(5) w1(1) unfolding dec_safe_def by (metis fst_conv)
  have val: "str_valid (arq_username req)" "str_valid (arq_password req)" "resource_compared (arq_resource req) (Some r)"
    using v(1) res resource_compared_valid by (auto simp: auth_req_valid_def)
  have f: "sanei_w_free w1 sanei_w_authorization_req req = (w1\<lparr>w_allocated := w_allocated w1 - word_of_nat (auth_req_cost req)\<rparr>, req)"
    using free_at [OF auth_req_codec.release [OF v(1)], of "w1\<lparr>w_direction := WIRE_FREE\<rparr>" 3] k r(1)
    by (simp add: sanei_w_free_def kept_def reading_def buf_ok_def reader_ready_def)
  define w2 where "w2 = w1\<lparr>w_allocated := w_allocated w1 - word_of_nat (auth_req_cost req)\<rparr>"
  have w2: "wire_ready w2 3" "w_sent w2 = w_sent (sd_wire s)" "w_allocated w2 = w_allocated (sd_wire s)"
    "flushed (w2\<lparr>w_status := 0\<rparr>) = w_sent (sd_wire s)" "\<not> w_fault w2"
    using k r w1(3,4) f
    by (auto simp: w2_def wire_ready_def kept_def reading_def buf_ok_def flushed_def reader_ready_def)
  obtain w3 where w3: "sanei_w_reply w2 sanei_w_word 0 = (w3, 0)" "wire_ready w3 3"
    "w_sent w3 = flushed (w2\<lparr>w_status := 0\<rparr>) @ be32 0" "enc_frame_of w3 = enc_frame_of w2"
    using word_codec.reply_sent [OF w2(1) TrueI] by blast
  then have w3': "\<not> w_fault w3" "w_allocated w3 = w_allocated (sd_wire s)"
    using w2(3) by (auto simp: wire_ready_def buf_ok_def enc_frame_of_def)
  show ?thesis
    using w1 w3 w3' w2 f ok val(3) strcpy_valid [OF val(1)] strcpy_valid [OF val(2)]
    by (auto simp: auth_answer_def Let_def on_wire_def sd_fail_def w2_def [symmetric])
qed

lemma auth_answer_copies_witness:
  "sd_fault (fst (auth_answer (Some (mk_cstr (ascii ''test''))) (replicate 128 0) (replicate 128 0)
     (ex_saned 0 [] (ex_wire\<lparr>w_rd := [RData (auth_req_ser
        \<lparr>arq_resource = None, arq_username = Some (mk_cstr (replicate 200 65)), arq_password = None\<rparr>)]\<rparr>))))"
proof -
  let ?req = "\<lparr>arq_resource = None, arq_username = Some (mk_cstr (replicate 200 65)), arq_password = None\<rparr>"
  let ?s = "ex_saned 0 [] (ex_wire\<lparr>w_rd := [RData (auth_req_ser ?req)]\<rparr>)"
  have v: "auth_req_valid ?req" "auth_req_cost ?req = 201" "\<not> fits (arq_username ?req)"
    by (auto simp: auth_req_valid_def str_valid_def mk_cstr_def auth_req_cost_def str_cost_def fits_def)
  have r: "reader_ready (sd_wire ?s) 3" "RError 0 \<notin> set (w_rd (sd_wire ?s))" "writes_ok (w_wr (sd_wire ?s))"
    "avail (w_rd (sd_wire ?s)) = auth_req_ser ?req @ []" "\<not> sd_fault ?s"
    by (simp_all add: ex_saned_def ex_wire_def reader_ready_def buf_ok_def)
  have m: "unat (w_allocated (sd_wire ?s)) + auth_req_cost ?req \<le> MAX_MEM"
    using v(2) by (simp add: ex_saned_def ex_wire_def)
  have "str_valid (Some (mk_cstr (ascii ''test'')))" by (simp add: str_valid_def mk_cstr_def ascii_def)
  then show ?thesis
    using auth_answer_copies [OF r(1-3) v(1) r(4) m r(5)] v(3) by (fastforce split: prod.splits)
qed

lemma closed_handle_refused_witness:
  "snd (rpc_params ex_backend (ex_saned 0 [zero_slot] (ex_wire\<lparr>w_rd := [RData (be32 0)]\<rparr>))) = 1"
proof -
  let ?s = "ex_saned 0 [zero_slot] (ex_wire\<lparr>w_rd := [RData (be32 0)]\<rparr>)"
  obtain s1 h where d: "decode_handle ?s = (s1, h)" by fastforce
  have "\<not> in_use ?s 0" "0 \<le> sint h \<longrightarrow> sint h = 0"
    using decode_handle_result [OF d]
    by (auto simp: in_use_def ex_saned_def get_slot_def blk_get_def zero_slot_def split: if_splits)
  with closed_handle_refused [OF d, of ex_backend "\<lambda>s h e. None"] show ?thesis by fastforce
qed

end
