(* ===== verification/Saned_Faults.thy ===== *)
theory Saned_Faults
  imports Saned_Rpc_Props Saned_Frames
begin

text \<open>
  Requests that leave the daemon in a bad state: a scan whose client never connects, and an option
  value that is shorter than its size says.  The callback and the operations of the backend leave
  the handle table alone (\<open>run_call_table\<close>).
\<close>

section \<open>A client that never connects\<close>

lemma on_wire_table [simp]:
  "sd_handle (fst (on_wire f s)) = sd_handle s" "sd_num (fst (on_wire f s)) = sd_num s"
  "get_slot (fst (on_wire f s)) i = get_slot s i"
  by (simp_all add: on_wire_def get_slot_def split: prod.split)

lemma send_reply_table [simp]:
  "get_slot (send_reply c v s) i = get_slot s i" "sd_be (send_reply c v s) = sd_be s"
  by (simp_all add: send_reply_def on_wire_def get_slot_def split: prod.split)

lemma on_wire_parts:
  "on_wire f s = (s', x) \<Longrightarrow> sd_handle s' = sd_handle s \<and> sd_num s' = sd_num s \<and> sd_be s' = sd_be s"
  by (auto simp: on_wire_def split: prod.splits)

lemma auth_answer_table: "auth_answer res u p s = (s', r) \<Longrightarrow> sd_handle s' = sd_handle s \<and> sd_be s' = sd_be s"
  by (auto simp: auth_answer_def Let_def sd_fail_def dest!: on_wire_parts split: prod.splits option.splits if_splits)
     (auto simp: on_wire_def split: prod.splits)

lemma auth_callback_table: "auth_callback s res = (s', r) \<Longrightarrow> sd_handle s' = sd_handle s \<and> sd_be s' = sd_be s"
  by (auto simp: auth_callback_def Let_def dest!: on_wire_parts auth_answer_table split: prod.splits if_splits)

lemma run_call_table: "run_call c s = (s', r) \<Longrightarrow> sd_handle s' = sd_handle s \<and> sd_be s' = sd_be s"
proof (induction c arbitrary: s)
  case (Auth res k)
  obtain s1 u p where a: "auth_callback s res = (s1, u, p)" by (metis prod_cases3)
  then have "run_call (k (u, p)) s1 = (s', r)" using Auth.prems by simp
  with Auth.IH [of "k (u, p)" s1] auth_callback_table [OF a] show ?case by auto
qed simp

lemma get_slot_cong: "sd_handle s = sd_handle t \<Longrightarrow> get_slot s i = get_slot t i"
  by (simp add: get_slot_def)

lemma start_scan_marks:
  assumes "start_scan be net h r0 s = Some (s', reply, l)" "srp_status r0 = SANE_STATUS_GOOD" "srp_status reply = SANE_STATUS_GOOD"
    and "get_slot s (sint h) = Some x"
  shows "\<exists>y. get_slot s' (sint h) = Some y \<and> hs_scanning y \<and> hs_inuse y = hs_inuse x"
proof -
  obtain s1 b' where s1: "run_call (b_start be (sd_be s) (hs_handle x)) s = (s1, b', SANE_STATUS_GOOD)"
    and s': "s' = set_slot (s1\<lparr>sd_be := b'\<rparr>) (sint h) (\<lambda>y. y\<lparr>hs_scanning := True, hs_docancel := False\<rparr>)"
    using assms by (auto simp: start_scan_def start_failed_def Let_def bind_eq_Some_conv split: if_splits option.splits prod.splits)
  have "get_slot (s1\<lparr>sd_be := b'\<rparr>) (sint h) = Some x"
    using run_call_table [OF s1] assms(4) by (simp add: get_slot_def)
  then show ?thesis
    unfolding s' by (auto simp: set_slot_def get_slot_def blk_get_def split: option.splits if_splits)
qed

text \<open>A client that starts a scan and does not connect to the data port leaves the device busy.
  When the backend has started and no data connection is accepted, \<open>START\<close> ends with the slot
  marked as scanning: \<open>getpeername\<close> fails on the missing descriptor before the clean-up that
  would cancel the scan is reached.  Every later \<open>START\<close> for a slot so marked only replies
  \<open>SANE_STATUS_DEVICE_BUSY\<close>.\<close>

theorem missed_connection_stays_busy:
  assumes d: "decode_handle s = (s1, h)" "0 \<le> sint h" "get_slot s1 (sint h) = Some x" "\<not> hs_scanning x"
    and n: "next_net s1 = (s2, net)" "\<not> (sn_poll net \<and> sn_accept net)"
    and st: "start_scan be net h \<lparr>srp_status = 0, srp_port = 0, srp_byte_order = (if sd_little s1 then 0x1234 else 0x4321),
        srp_resource = None\<rparr> s2 = Some (s3, reply, l)" "srp_status reply = SANE_STATUS_GOOD"
  shows "(\<exists>s' y. rpc_start scan be s = Some (s', 1) \<and> get_slot s' (sint h) = Some y \<and> hs_scanning y) \<and>
    (\<forall>t t1 y. decode_handle t = (t1, h) \<longrightarrow> get_slot t1 (sint h) = Some y \<longrightarrow> hs_scanning y \<longrightarrow>
       (\<exists>t' busy. rpc_start scan be t = Some (t', 0) \<and> t' = send_reply sanei_w_start_reply busy t1 \<and>
          srp_status busy = SANE_STATUS_DEVICE_BUSY))"
proof
  have "sd_handle s2 = sd_handle s1"
    using n(1) by (auto simp: next_net_def split: list.splits)
  then have "get_slot s2 (sint h) = Some x"
    using d(3) by (simp add: get_slot_def)
  from start_scan_marks [OF st(1) _ st(2) this] obtain y where "get_slot s3 (sint h) = Some y" "hs_scanning y"
    by auto
  moreover have "rpc_start scan be s = Some (send_reply sanei_w_start_reply reply s3, 1)"
    using d n st by (auto simp: rpc_start_def data_connection_def Let_def)
  ultimately show "\<exists>s' y. rpc_start scan be s = Some (s', 1) \<and> get_slot s' (sint h) = Some y \<and> hs_scanning y"
    by auto
  show "\<forall>t t1 y. decode_handle t = (t1, h) \<longrightarrow> get_slot t1 (sint h) = Some y \<longrightarrow> hs_scanning y \<longrightarrow>
       (\<exists>t' busy. rpc_start scan be t = Some (t', 0) \<and> t' = send_reply sanei_w_start_reply busy t1 \<and>
          srp_status busy = SANE_STATUS_DEVICE_BUSY)"
    using d(2) by (auto simp: rpc_start_def Let_def)
qed

definition no_client :: scan_net where
  \<comment> \<open>everything succeeds, but no data connection arrives\<close>
  "no_client = \<lparr>sn_sockname = True, sn_socket = True, sn_bind = (\<lambda>_. True), sn_listen = True, sn_port = Some 6567,
     sn_poll = True, sn_accept = False, sn_peer = None, sn_events = []\<rparr>"

lemma missed_connection_stays_busy_witness:
  "\<exists>s' y. rpc_start (\<lambda>s h e. None) ex_backend (ex_saned 0 [zero_slot\<lparr>hs_inuse := True\<rparr>]
      (ex_wire\<lparr>w_rd := [RData (be32 0)]\<rparr>)\<lparr>sd_scans := [no_client]\<rparr>) = Some (s', 1) \<and>
    get_slot s' 0 = Some y \<and> hs_scanning y"
proof -
  let ?s = "ex_saned 0 [zero_slot\<lparr>hs_inuse := True\<rparr>] (ex_wire\<lparr>w_rd := [RData (be32 0)]\<rparr>)\<lparr>sd_scans := [no_client]\<rparr>"
  obtain s1 h where d: "decode_handle ?s = (s1, h)" by fastforce
  have "snd (decode_handle ?s) = 0 \<and> sd_little (fst (decode_handle ?s)) \<and>
      get_slot (fst (decode_handle ?s)) 0 = Some (zero_slot\<lparr>hs_inuse := True\<rparr>) \<and> sd_scans (fst (decode_handle ?s)) \<noteq> []"
    by code_simp
  with d have h: "h = 0" "sd_little s1" "get_slot s1 0 = Some (zero_slot\<lparr>hs_inuse := True\<rparr>)" "sd_scans s1 \<noteq> []" by auto
  have "sd_scans s1 = [no_client] \<and> sd_port_lo s1 = 0 \<and> sd_port_hi s1 = 0"
    using d by (auto simp: decode_handle_def on_wire_def sd_fail_def ex_saned_def split: prod.splits if_splits option.splits)
  then have n: "next_net s1 = (s1\<lparr>sd_scans := []\<rparr>, no_client)" and p: "sd_port_lo s1 = 0" "sd_port_hi s1 = 0"
    by (simp_all add: next_net_def)
  let ?r0 = "\<lparr>srp_status = 0, srp_port = 0, srp_byte_order = (if sd_little s1 then 0x1234 else 0x4321), srp_resource = None\<rparr>"
  have b: "bind_loop (\<lambda>_. True) 0 0 = Some True" by (subst bind_loop.simps) simp
  have g: "get_slot (s1\<lparr>sd_scans := []\<rparr>) 0 = Some (zero_slot\<lparr>hs_inuse := True\<rparr>)"
    using h(3) by (simp add: get_slot_def)
  obtain s3 reply where st: "start_scan ex_backend no_client h ?r0 (s1\<lparr>sd_scans := []\<rparr>) = Some (s3, reply, True)"
    "srp_status reply = SANE_STATUS_GOOD"
    using g p b h(1) by (simp add: start_scan_def no_client_def ex_backend_def Let_def)
  have 1: "0 \<le> sint h" "get_slot s1 (sint h) = Some (zero_slot\<lparr>hs_inuse := True\<rparr>)"
    "\<not> hs_scanning (zero_slot\<lparr>hs_inuse := True\<rparr>)" "\<not> (sn_poll no_client \<and> sn_accept no_client)"
    using h by (simp_all add: zero_slot_def no_client_def)
  show ?thesis
    using missed_connection_stays_busy [OF d 1(1-3) n 1(4) st, of "\<lambda>s h e. None"] h(1) by auto
qed

section \<open>A value shorter than its size\<close>

definition short_value :: "unit saned" where
  \<comment> \<open>a request to read an integer option: the size says 8 bytes, the array has one word\<close>
  "short_value = ex_saned 0 [zero_slot\<lparr>hs_inuse := True\<rparr>] (ex_wire\<lparr>w_size := 64, w_mem := replicate 64 0,
     w_rd := [RData (be32 0 @ be32 1 @ be32 0 @ be32 SANE_TYPE_INT @ be32 8 @ be32 1 @ be32 5)]\<rparr>)"

text \<open>The size of an option value is not checked against the value.  A request whose size is larger than
  the array that follows it is decoded without an error, but its reply encodes as many words as the
  size says and reads past the end of the decoded array.\<close>

theorem short_value_overread:
  "\<not> sd_fault (fst (on_wire (\<lambda>w. sanei_w_control_option_req w (junk_request w)) short_value)) \<and>
   w_status (sd_wire (fst (on_wire (\<lambda>w. sanei_w_control_option_req w (junk_request w)) short_value))) = 0 \<and>
   sd_fault (fst (rpc_control ex_backend short_value))"
  by code_simp

end
