(* ===== verification/Md5.thy ===== *)
theory Md5
  imports Sane_Types "HOL-Library.Monad_Syntax"
begin

text \<open>
  The message digest of \<^verbatim>\<open>lib/md5.c\<close>: the context, \<open>md5_process_block\<close>, \<open>md5_process_bytes\<close>,
  \<open>md5_finish_ctx\<close>, \<open>md5_buffer\<close> and \<open>md5_stream\<close>, on a little-endian machine, where \<open>SWAP\<close> is the
  identity.  A function has an option result, \<open>None\<close> when it reads or writes outside of a block of
  memory.  The input of a call is the list of its bytes with its address, of which only the
  alignment matters.
\<close>

unbundle bit_operations_syntax

type_synonym md5_uint32 = "32 word"
type_synonym md5_state = "md5_uint32 \<times> md5_uint32 \<times> md5_uint32 \<times> md5_uint32"

section \<open>The context\<close>

record md5_ctx =
  md_state :: md5_state
  md_total0 :: md5_uint32
  md_total1 :: md5_uint32
  md_buflen :: md5_uint32
  md_buffer :: "byte list"

definition md5_init_ctx :: "md5_ctx \<Rightarrow> md5_ctx" where
  "md5_init_ctx ctx = ctx\<lparr>md_state := (0x67452301, 0xefcdab89, 0x98badcfe, 0x10325476),
     md_total0 := 0, md_total1 := 0, md_buflen := 0\<rparr>"

definition le32 :: "md5_uint32 \<Rightarrow> byte list" where
  "le32 w = [ucast w, ucast (drop_bit 8 w), ucast (drop_bit 16 w), ucast (drop_bit 24 w)]"

fun le32_words :: "nat \<Rightarrow> byte list \<Rightarrow> md5_uint32 list" where
  \<comment> \<open>the first \<open>n\<close> words of a block of memory\<close>
  "le32_words (Suc n) (a # b # c # d # bs) =
     (ucast a OR push_bit 8 (ucast b) OR push_bit 16 (ucast c) OR push_bit 24 (ucast d)) # le32_words n bs"
| "le32_words _ _ = []"

definition md5_read_ctx :: "md5_ctx \<Rightarrow> byte list" where
  "md5_read_ctx ctx = (case md_state ctx of (a, b, c, d) \<Rightarrow> le32 a @ le32 b @ le32 c @ le32 d)"

section \<open>A block\<close>

definition FF :: "md5_uint32 \<Rightarrow> md5_uint32 \<Rightarrow> md5_uint32 \<Rightarrow> md5_uint32" where
  "FF b c d = d XOR (b AND (c XOR d))"

definition FG :: "md5_uint32 \<Rightarrow> md5_uint32 \<Rightarrow> md5_uint32 \<Rightarrow> md5_uint32" where
  "FG b c d = FF d b c"

definition FH :: "md5_uint32 \<Rightarrow> md5_uint32 \<Rightarrow> md5_uint32 \<Rightarrow> md5_uint32" where
  "FH b c d = b XOR c XOR d"

definition FI :: "md5_uint32 \<Rightarrow> md5_uint32 \<Rightarrow> md5_uint32 \<Rightarrow> md5_uint32" where
  "FI b c d = c XOR (b OR NOT d)"

definition CYCLIC :: "md5_uint32 \<Rightarrow> nat \<Rightarrow> md5_uint32" where
  "CYCLIC w s = push_bit s w OR drop_bit (32 - s) w"

definition md5_op ::
  "(md5_uint32 \<Rightarrow> md5_uint32 \<Rightarrow> md5_uint32 \<Rightarrow> md5_uint32) \<Rightarrow> md5_uint32 list \<Rightarrow> nat \<times> nat \<times> md5_uint32
     \<Rightarrow> md5_state \<Rightarrow> md5_state"
where
  \<comment> \<open>\<open>OP (f, a, b, c, d, k, s, T)\<close>; the four variables then change their roles, the next
      operation being \<open>OP (f, d, a, b, c, ...)\<close>\<close>
  "md5_op f correct_words op st =
     (case op of (k, s, T) \<Rightarrow> case st of (a, b, c, d) \<Rightarrow>
        (d, CYCLIC (a + (f b c d + correct_words ! k + T)) s + b, b, c))"

definition round1 :: "(nat \<times> nat \<times> md5_uint32) list" where
  "round1 = [(0, 7, 0xd76aa478), (1, 12, 0xe8c7b756), (2, 17, 0x242070db), (3, 22, 0xc1bdceee),
      (4, 7, 0xf57c0faf), (5, 12, 0x4787c62a), (6, 17, 0xa8304613), (7, 22, 0xfd469501),
      (8, 7, 0x698098d8), (9, 12, 0x8b44f7af), (10, 17, 0xffff5bb1), (11, 22, 0x895cd7be),
      (12, 7, 0x6b901122), (13, 12, 0xfd987193), (14, 17, 0xa679438e), (15, 22, 0x49b40821)]"

definition round2 :: "(nat \<times> nat \<times> md5_uint32) list" where
  "round2 = [(1, 5, 0xf61e2562), (6, 9, 0xc040b340), (11, 14, 0x265e5a51), (0, 20, 0xe9b6c7aa),
      (5, 5, 0xd62f105d), (10, 9, 0x02441453), (15, 14, 0xd8a1e681), (4, 20, 0xe7d3fbc8),
      (9, 5, 0x21e1cde6), (14, 9, 0xc33707d6), (3, 14, 0xf4d50d87), (8, 20, 0x455a14ed),
      (13, 5, 0xa9e3e905), (2, 9, 0xfcefa3f8), (7, 14, 0x676f02d9), (12, 20, 0x8d2a4c8a)]"

definition round3 :: "(nat \<times> nat \<times> md5_uint32) list" where
  "round3 = [(5, 4, 0xfffa3942), (8, 11, 0x8771f681), (11, 16, 0x6d9d6122), (14, 23, 0xfde5380c),
      (1, 4, 0xa4beea44), (4, 11, 0x4bdecfa9), (7, 16, 0xf6bb4b60), (10, 23, 0xbebfbc70),
      (13, 4, 0x289b7ec6), (0, 11, 0xeaa127fa), (3, 16, 0xd4ef3085), (6, 23, 0x04881d05),
      (9, 4, 0xd9d4d039), (12, 11, 0xe6db99e5), (15, 16, 0x1fa27cf8), (2, 23, 0xc4ac5665)]"

definition round4 :: "(nat \<times> nat \<times> md5_uint32) list" where
  "round4 = [(0, 6, 0xf4292244), (7, 10, 0x432aff97), (14, 15, 0xab9423a7), (5, 21, 0xfc93a039),
      (12, 6, 0x655b59c3), (3, 10, 0x8f0ccc92), (10, 15, 0xffeff47d), (1, 21, 0x85845dd1),
      (8, 6, 0x6fa87e4f), (15, 10, 0xfe2ce6e0), (6, 15, 0xa3014314), (13, 21, 0x4e0811a1),
      (4, 6, 0xf7537e82), (11, 10, 0xbd3af235), (2, 15, 0x2ad7d2bb), (9, 21, 0xeb86d391)]"

definition md5_block :: "md5_uint32 list \<Rightarrow> md5_state \<Rightarrow> md5_state" where
  \<comment> \<open>one turn of the loop of \<open>md5_process_block\<close>\<close>
  "md5_block words st =
     (case fold (md5_op FI words) round4 (fold (md5_op FH words) round3
             (fold (md5_op FG words) round2 (fold (md5_op FF words) round1 st))) of
        (a, b, c, d) \<Rightarrow> case st of (a0, b0, c0, d0) \<Rightarrow> (a + a0, b + b0, c + c0, d + d0))"

fun md5_turns :: "nat \<Rightarrow> md5_uint32 list \<Rightarrow> md5_state \<Rightarrow> md5_state" where
  "md5_turns 0 words st = st"
| "md5_turns (Suc n) words st = md5_turns n (drop 16 words) (md5_block (take 16 words) st)"

definition md5_process_block :: "byte list \<Rightarrow> nat \<Rightarrow> md5_ctx \<Rightarrow> md5_ctx option" where
  \<comment> \<open>\<open>len\<close> is a \<open>size_t\<close>, the counters are 32 bits wide; the loop runs while \<open>words < endp\<close>\<close>
  "md5_process_block buffer len ctx =
     (let nwords = len div 4; turns = (nwords + 15) div 16;
          total0 = md_total0 ctx + word_of_nat len;
          total1 = (if unat total0 < len then md_total1 ctx + 1 else md_total1 ctx)
      in if length buffer < 64 * turns then None
         else Some (ctx\<lparr>md_total0 := total0, md_total1 := total1,
                md_state := md5_turns turns (le32_words (16 * turns) buffer) (md_state ctx)\<rparr>))"

section \<open>Arbitrary input\<close>

definition md5_memcpy :: "byte list \<Rightarrow> nat \<Rightarrow> byte list \<Rightarrow> byte list option" where
  \<comment> \<open>copy bytes to an offset of a block\<close>
  "md5_memcpy dst i src = (if i + length src \<le> length dst then Some (blit dst i src) else None)"

definition md5_fill :: "byte list \<Rightarrow> md5_ctx \<Rightarrow> (md5_ctx \<times> nat) option" where
  \<comment> \<open>with bytes in the internal buffer, concatenate both inputs first; the result also says how
      many bytes of the input are used\<close>
  "md5_fill input ctx =
     (if md_buflen ctx = 0 then Some (ctx, 0)
      else
        (let left_over = unat (md_buflen ctx);
             room = (128 + 2 ^ 64 - left_over) mod 2 ^ 64;
             add = (if room > length input then length input else room)
         in do {
              b \<leftarrow> md5_memcpy (md_buffer ctx) left_over (take add input);
              let ctx1 = ctx\<lparr>md_buffer := b, md_buflen := md_buflen ctx + word_of_nat add\<rparr>;
              if unat (md_buflen ctx1) > 64 then do {
                ctx2 \<leftarrow> md5_process_block b (unat (md_buflen ctx1 AND NOT 63)) ctx1;
                let n = unat (md_buflen ctx2 AND 63);
                let from = 64 * ((left_over + add) div 64);
                if from + n \<le> length b then do {
                  b2 \<leftarrow> md5_memcpy b 0 (slice from (from + n) b);
                  Some (ctx2\<lparr>md_buffer := b2, md_buflen := md_buflen ctx2 AND 63\<rparr>, add)
                } else None
              } else Some (ctx1, add)
            }))"

function md5_unaligned :: "byte list \<Rightarrow> md5_ctx \<Rightarrow> (md5_ctx \<times> byte list) option" where
  \<comment> \<open>\<open>while (len > 64)\<close>, a block at a time through the internal buffer\<close>
  "md5_unaligned input ctx =
     (if 64 < length input then
        (case md5_memcpy (md_buffer ctx) 0 (take 64 input) of
           None \<Rightarrow> None
         | Some b \<Rightarrow>
             (case md5_process_block b 64 (ctx\<lparr>md_buffer := b\<rparr>) of
                None \<Rightarrow> None
              | Some ctx1 \<Rightarrow> md5_unaligned (drop 64 input) ctx1))
      else Some (ctx, input))"
  by pat_completeness auto
termination by (relation "measure (\<lambda>(input, ctx). length input)") auto

declare md5_unaligned.simps [simp del]

definition md5_blocks_of :: "nat \<Rightarrow> byte list \<Rightarrow> md5_ctx \<Rightarrow> (md5_ctx \<times> byte list) option" where
  \<comment> \<open>process the complete blocks of the input at address \<open>addr\<close>\<close>
  "md5_blocks_of addr input ctx =
     (if length input < 64 then Some (ctx, input)
      else if addr mod 4 \<noteq> 0 then md5_unaligned input ctx
      else do {
        let n = 64 * (length input div 64);
        ctx1 \<leftarrow> md5_process_block input n ctx;
        Some (ctx1, drop n input)
      })"

definition md5_keep :: "byte list \<Rightarrow> md5_ctx \<Rightarrow> md5_ctx option" where
  \<comment> \<open>move the remaining bytes to the internal buffer\<close>
  "md5_keep input ctx =
     (if input = [] then Some ctx
      else do {
        let left_over = unat (md_buflen ctx);
        b \<leftarrow> md5_memcpy (md_buffer ctx) left_over input;
        let n = left_over + length input;
        let ctx1 = ctx\<lparr>md_buffer := b\<rparr>;
        if 64 \<le> n then do {
          ctx2 \<leftarrow> md5_process_block b 64 ctx1;
          (if n \<le> length b then do {
             b2 \<leftarrow> md5_memcpy b 0 (slice 64 n b);
             Some (ctx2\<lparr>md_buffer := b2, md_buflen := word_of_nat (n - 64)\<rparr>)
           } else None)
        } else Some (ctx1\<lparr>md_buflen := word_of_nat n\<rparr>)
      })"

definition md5_process_bytes :: "nat \<Rightarrow> byte list \<Rightarrow> md5_ctx \<Rightarrow> md5_ctx option" where
  "md5_process_bytes addr input ctx =
     do {
       (ctx1, add) \<leftarrow> md5_fill input ctx;
       (ctx2, rest) \<leftarrow> md5_blocks_of (addr + add) (drop add input) ctx1;
       md5_keep rest ctx2
     }"

section \<open>The digest\<close>

definition fillbuf :: "byte list" where
  "fillbuf = 0x80 # replicate 63 0"

definition md5_finish_ctx :: "md5_ctx \<Rightarrow> (md5_ctx \<times> byte list) option" where
  "md5_finish_ctx ctx =
     (let bytes = unat (md_buflen ctx);
          total0 = md_total0 ctx + md_buflen ctx;
          total1 = (if total0 < md_buflen ctx then md_total1 ctx + 1 else md_total1 ctx);
          pad = (if 56 \<le> bytes then 64 + 56 - bytes else 56 - bytes);
          offset = 4 * ((bytes + pad) div 4);
          offset2 = 4 * ((bytes + pad + 4) div 4)
      in do {
        b1 \<leftarrow> (if pad \<le> length fillbuf then md5_memcpy (md_buffer ctx) bytes (take pad fillbuf) else None);
        b2 \<leftarrow> md5_memcpy b1 offset (le32 (push_bit 3 total0));
        b3 \<leftarrow> md5_memcpy b2 offset2 (le32 (push_bit 3 total1 OR drop_bit 29 total0));
        ctx1 \<leftarrow> md5_process_block b3 (bytes + pad + 8)
                  (ctx\<lparr>md_total0 := total0, md_total1 := total1, md_buffer := b3\<rparr>);
        Some (ctx1, md5_read_ctx ctx1)
      })"

definition md5_buffer :: "md5_ctx \<Rightarrow> nat \<Rightarrow> byte list \<Rightarrow> byte list option" where
  \<comment> \<open>arguments: the uninitialised context, the address and the bytes of the message\<close>
  "md5_buffer junk addr input =
     do {
       ctx \<leftarrow> md5_process_bytes addr input (md5_init_ctx junk);
       (ctx1, digest) \<leftarrow> md5_finish_ctx ctx;
       Some digest
     }"

section \<open>Files\<close>

text \<open>A stream is the list of the pieces the calls of \<open>fread\<close> deliver, and whether it ends in an error.\<close>

type_synonym md5_file = "byte list list \<times> bool"

fun c_fread :: "nat \<Rightarrow> md5_file \<Rightarrow> byte list \<times> md5_file" where
  "c_fread n ([], err) = ([], [], err)"
| "c_fread n (p # ps, err) = (if length p \<le> n then (p, ps, err) else (take n p, drop n p # ps, err))"

abbreviation (input) BLOCKSIZE :: nat where "BLOCKSIZE \<equiv> 4096"

function md5_fill_block :: "byte list \<Rightarrow> md5_file \<Rightarrow> byte list \<times> bool \<times> md5_file" where
  \<comment> \<open>\<open>do ... while (sum < BLOCKSIZE && n != 0)\<close>: what has been read, and whether the last \<open>n\<close> was 0\<close>
  "md5_fill_block acc file =
     (case c_fread (BLOCKSIZE - length acc) file of
        (p, file1) \<Rightarrow>
          if length (acc @ p) < BLOCKSIZE \<and> p \<noteq> [] then md5_fill_block (acc @ p) file1
          else (acc @ p, p = [], file1))"
  by pat_completeness auto
termination
  by (relation "measure (\<lambda>(acc, file). BLOCKSIZE - length acc)") (auto simp flip: length_greater_0_conv)

declare md5_fill_block.simps [simp del]

lemma c_fread_total: "length (fst (c_fread n f)) + length (concat (fst (snd (c_fread n f)))) = length (concat (fst f))"
  by (cases "(n, f)" rule: c_fread.cases) auto

lemma md5_fill_block_total:
  "md5_fill_block acc f = (buf, n0, f') \<Longrightarrow>
    length buf + length (concat (fst f')) = length acc + length (concat (fst f)) \<and> (\<not> n0 \<longrightarrow> BLOCKSIZE \<le> length buf)"
proof (induction acc f rule: md5_fill_block.induct)
  case (1 acc f)
  obtain p f1 where p: "c_fread (BLOCKSIZE - length acc) f = (p, f1)" by (metis surj_pair)
  show ?case
  proof (cases "length (acc @ p) < BLOCKSIZE \<and> p \<noteq> []")
    case True
    then have "md5_fill_block (acc @ p) f1 = (buf, n0, f')"
      using "1.prems" by (subst (asm) md5_fill_block.simps) (simp add: p)
    with True show ?thesis
      using "1.IH" [OF p [symmetric]] c_fread_total [of "BLOCKSIZE - length acc" f] p by simp
  next
    case False
    then have "(buf, n0, f') = (acc @ p, p = [], f1)"
      using "1.prems" by (subst (asm) md5_fill_block.simps) (auto simp: p)
    with False show ?thesis
      using c_fread_total [of "BLOCKSIZE - length acc" f] p by auto
  qed
qed

function md5_stream_loop :: "md5_file \<Rightarrow> md5_ctx \<Rightarrow> (md5_ctx \<times> byte list) option option" where
  \<comment> \<open>the context after the last complete block and the bytes that remain; \<open>Some None\<close> for a read
      error\<close>
  "md5_stream_loop file ctx =
     (case md5_fill_block [] file of
        (buf, n0, file1) \<Rightarrow>
          if n0 then Some (if snd file1 then None else Some (ctx, buf))
          else case md5_process_block buf BLOCKSIZE ctx of
                 None \<Rightarrow> None
               | Some ctx1 \<Rightarrow> md5_stream_loop file1 ctx1)"
  by pat_completeness auto
termination
  by (relation "measure (\<lambda>(file, ctx). length (concat (fst file)))") (auto dest!: sym [of _ "md5_fill_block _ _"] md5_fill_block_total)

declare md5_stream_loop.simps [simp del]

definition md5_stream :: "md5_ctx \<Rightarrow> nat \<Rightarrow> md5_file \<Rightarrow> byte list option option" where
  \<comment> \<open>\<open>Some None\<close> when the function returns 1\<close>
  "md5_stream junk addr file =
     do {
       r \<leftarrow> md5_stream_loop file (md5_init_ctx junk);
       (case r of
          None \<Rightarrow> Some None
        | Some (ctx, buf) \<Rightarrow> do {
            ctx1 \<leftarrow> (if 0 < length buf then md5_process_bytes addr buf ctx else Some ctx);
            (ctx2, digest) \<leftarrow> md5_finish_ctx ctx1;
            Some (Some digest)
          })
     }"

end
