(* ===== verification/Sanei_Auth.thy ===== *)
theory Sanei_Auth
  imports Saned_State Md5
begin

text \<open>
  Authorization by password, \<^verbatim>\<open>sanei/sanei_auth.c\<close>: \<open>check_passwd\<close> and \<open>sanei_authorize\<close>, on a system
  with \<^verbatim>\<open>/dev/urandom\<close>.  Lines of the file \<^verbatim>\<open><backend>.users\<close> have the form
  \<open>user:password:resource\<close>.  A result is a status and whether memory was accessed out of bounds on
  the way; the one call of the authorization callback makes \<open>sanei_authorize\<close> a tree of type
  \<open>call\<close>.
\<close>

section \<open>The environment\<close>

record auth_env =
  au_files :: file_system
  au_paths :: "byte list"
  au_pid :: "32 word"
  au_time :: "64 word"
  au_urandom :: "byte list option"
  au_rand :: "64 word"
  au_ctx :: md5_ctx
  au_addr :: nat

text \<open>
  The files and the search path of \<open>sanei_config_open\<close>, the results of \<open>getpid\<close>, of \<open>time\<close>, of reading
  four bytes of \<^verbatim>\<open>/dev/urandom\<close> (\<open>None\<close> when it cannot be opened) and of \<open>rand\<close>, the uninitialised
  digest context and the address of the buffer it digests.
\<close>

definition randombits :: "auth_env \<Rightarrow> 64 word" where
  \<comment> \<open>the bytes are of the signed type \<open>char\<close>\<close>
  "randombits env =
     (case au_urandom env of
        None \<Rightarrow> au_rand env
      | Some bs \<Rightarrow> fold (\<lambda>b r. push_bit 8 r + scast b) (take 4 bs) 0)"

section \<open>Text\<close>

definition hex_char :: "nat \<Rightarrow> byte" where
  "hex_char d = (if d < 10 then 48 + word_of_nat d else 87 + word_of_nat d)"

fun hex_chars :: "nat \<Rightarrow> nat \<Rightarrow> byte list" where
  \<comment> \<open>\<open>%x\<close> of a number below \<open>16 ^ n\<close>\<close>
  "hex_chars 0 v = []"
| "hex_chars (Suc n) v = (if v < 16 then [hex_char v] else hex_chars n (v div 16) @ [hex_char (v mod 16)])"

definition pad_zeros :: "nat \<Rightarrow> byte list \<Rightarrow> byte list" where
  \<comment> \<open>the flag \<open>0\<close> and a width in a format\<close>
  "pad_zeros n s = replicate (n - length s) 48 @ s"

definition md5_tag :: "byte list" where
  "md5_tag = ascii ''$MD5$''"

definition challenge :: "auth_env \<Rightarrow> byte list \<Rightarrow> byte list" where
  \<comment> \<open>\<open>sprintf (md5resource, "%.128s$MD5$%x%lx%08lx", ...)\<close>\<close>
  "challenge env resource = take 128 resource @ md5_tag @ hex_chars 8 (unat (au_pid env)) @
     hex_chars 16 (unat (au_time env)) @ pad_zeros 8 (hex_chars 16 (unat (randombits env)))"

definition hex_digest :: "byte list \<Rightarrow> byte list" where
  "hex_digest d = md5_tag @ concat (map (\<lambda>b. pad_zeros 2 (hex_chars 2 (unat b))) d)"

section \<open>Checking a password\<close>

definition check_passwd :: "auth_env \<Rightarrow> byte list \<Rightarrow> byte list \<Rightarrow> byte list \<Rightarrow> bool option" where
  \<comment> \<open>\<open>None\<close> for an access out of bounds; \<open>tmpstr\<close> holds 512 bytes\<close>
  "check_passwd env upassword password randomstring =
     (if take 5 upassword = md5_tag then
        (case strstr_after randomstring md5_tag of
           None \<Rightarrow> None
         | Some salt \<Rightarrow>
             (let tmpstr = salt @ take 128 password
              in if 512 \<le> length tmpstr then None
                 else case md5_buffer (au_ctx env) (au_addr env) tmpstr of
                        None \<Rightarrow> None
                      | Some digest \<Rightarrow> Some (upassword = hex_digest digest)))
      else Some (upassword = password))"

section \<open>sanei_authorize\<close>

definition after_colon :: "byte list \<Rightarrow> byte list option" where
  "after_colon s = (case strchr_idx s 58 of None \<Rightarrow> None | Some i \<Rightarrow> Some (drop (Suc i) s))"

definition names_resource :: "byte list \<Rightarrow> byte list \<Rightarrow> bool" where
  \<comment> \<open>what follows the second colon of a line\<close>
  "names_resource resource line \<longleftrightarrow> Option.bind (after_colon line) after_colon = Some resource"

fun find_resource :: "nat \<Rightarrow> byte list \<Rightarrow> byte list \<Rightarrow> byte list \<Rightarrow> bool option" where
  \<comment> \<open>the first loop; \<open>None\<close> for an access out of bounds\<close>
  "find_resource 0 resource buf stream = None"
| "find_resource (Suc n) resource buf stream =
     (case sanei_config_read buf 1024 stream of
        Cfg_Eof \<Rightarrow> Some False
      | Cfg_Fault \<Rightarrow> None
      | Cfg_Line b rest \<Rightarrow>
          (case c_str b of
             None \<Rightarrow> None
           | Some line \<Rightarrow> if names_resource resource line then Some True else find_resource n resource b rest))"

definition check_entry :: "auth_env \<Rightarrow> byte list \<Rightarrow> byte list \<Rightarrow> byte list \<Rightarrow> byte list \<Rightarrow> byte list \<Rightarrow> bool option" where
  \<comment> \<open>the body of the second loop\<close>
  "check_entry env username password resource md5resource line =
     (if take (length username) line = username \<and> strchr_idx line 58 = Some (length username) then
        (let linep = drop (Suc (length username)) line
         in case strchr_idx linep 58 of
              None \<Rightarrow> Some False
            | Some j \<Rightarrow>
                if drop (Suc j) linep = resource then check_passwd env password (take j linep) md5resource
                else Some False)
      else Some False)"

fun find_user :: "nat \<Rightarrow> auth_env \<Rightarrow> byte list \<Rightarrow> byte list \<Rightarrow> byte list \<Rightarrow> byte list \<Rightarrow> byte list \<Rightarrow> byte list
    \<Rightarrow> bool option" where
  "find_user 0 env username password resource md5resource buf stream = None"
| "find_user (Suc n) env username password resource md5resource buf stream =
     (case sanei_config_read buf 1024 stream of
        Cfg_Eof \<Rightarrow> Some False
      | Cfg_Fault \<Rightarrow> None
      | Cfg_Line b rest \<Rightarrow>
          (case c_str b of
             None \<Rightarrow> None
           | Some line \<Rightarrow>
               (case check_entry env username password resource md5resource line of
                  None \<Rightarrow> None
                | Some True \<Rightarrow> Some True
                | Some False \<Rightarrow> find_user n env username password resource md5resource b rest)))"

definition auth_status :: "bool option \<Rightarrow> sane_word \<times> bool" where
  "auth_status r = (case r of
     None \<Rightarrow> (SANE_STATUS_ACCESS_DENIED, True)
   | Some ok \<Rightarrow> (if ok then SANE_STATUS_GOOD else SANE_STATUS_ACCESS_DENIED, False))"

definition sanei_authorize :: "auth_env \<Rightarrow> byte list \<Rightarrow> byte list \<Rightarrow> bool \<Rightarrow> (sane_word \<times> bool) call" where
  \<comment> \<open>the last argument: whether the frontend supplied a callback.  The name of the file is printed
      into \<open>passwd_filename[256]\<close>\<close>
  "sanei_authorize env resource backend authorize =
     (if 256 \<le> length (backend @ ascii ''.users'') then Ret (SANE_STATUS_ACCESS_DENIED, True)
      else case sanei_config_open (au_files env) (au_paths env) (backend @ ascii ''.users'') of
        None \<Rightarrow> Ret (SANE_STATUS_GOOD, False)
      | Some stream \<Rightarrow>
          (case find_resource (Suc (length stream)) resource (replicate 1024 0) stream of
             None \<Rightarrow> Ret (SANE_STATUS_ACCESS_DENIED, True)
           | Some False \<Rightarrow> Ret (SANE_STATUS_GOOD, False)
           | Some True \<Rightarrow>
               if \<not> authorize then Ret (SANE_STATUS_ACCESS_DENIED, False)
               else
                 let md5resource = challenge env resource
                 in Auth (Some (mk_cstr md5resource))
                      (\<lambda>(u, p). Ret (case (c_str u, c_str p) of
                         (Some username, Some password) \<Rightarrow>
                           auth_status (find_user (Suc (length stream)) env username password resource md5resource
                             (replicate 1024 0) stream)
                       | _ \<Rightarrow> (SANE_STATUS_ACCESS_DENIED, True)))))"

definition with_users :: "auth_env \<Rightarrow> 'b backend \<Rightarrow> 'b backend" where
  \<comment> \<open>a daemon whose authorization is \<open>sanei_authorize (resource, "saned", auth_callback)\<close>\<close>
  "with_users env be = be\<lparr>b_authorize := (\<lambda>resource. map_call fst (sanei_authorize env resource (ascii ''saned'') True))\<rparr>"

end
