(* ===== verification/Md5_Rfc.thy ===== *)
theory Md5_Rfc
  imports Md5
begin

text \<open>
  The algorithm of RFC 1321, stated by itself: the functions and index formulas of its four rounds
  in the order of the RFC, the padding, and the digest \<open>rfc_md5\<close> of a message.  The block function
  of \<^verbatim>\<open>lib/md5.c\<close>, with its optimised functions and written-out operations, is the same
  (\<open>md5_block_rfc\<close>), and so is its loop over the words of several blocks (\<open>md5_turns_rfc\<close>).
\<close>

section \<open>The algorithm of RFC 1321\<close>

definition rfc_f :: "nat \<Rightarrow> md5_uint32 \<Rightarrow> md5_uint32 \<Rightarrow> md5_uint32 \<Rightarrow> md5_uint32" where
  "rfc_f i b c d =
     (if i < 16 then (b AND c) OR (NOT b AND d)
      else if i < 32 then (b AND d) OR (c AND NOT d)
      else if i < 48 then b XOR c XOR d
      else c XOR (b OR NOT d))"

definition rfc_k :: "nat \<Rightarrow> nat" where
  "rfc_k i = (if i < 16 then i else if i < 32 then (5 * i + 1) mod 16 else if i < 48 then (3 * i + 5) mod 16
     else (7 * i) mod 16)"

definition rfc_s :: "nat \<Rightarrow> nat" where
  "rfc_s i = [[7, 12, 17, 22], [5, 9, 14, 20], [4, 11, 16, 23], [6, 10, 15, 21]] ! (i div 16) ! (i mod 4)"

definition rfc_T :: "md5_uint32 list" where
  "rfc_T = [0xd76aa478, 0xe8c7b756, 0x242070db, 0xc1bdceee, 0xf57c0faf, 0x4787c62a, 0xa8304613, 0xfd469501,
      0x698098d8, 0x8b44f7af, 0xffff5bb1, 0x895cd7be, 0x6b901122, 0xfd987193, 0xa679438e, 0x49b40821,
      0xf61e2562, 0xc040b340, 0x265e5a51, 0xe9b6c7aa, 0xd62f105d, 0x02441453, 0xd8a1e681, 0xe7d3fbc8,
      0x21e1cde6, 0xc33707d6, 0xf4d50d87, 0x455a14ed, 0xa9e3e905, 0xfcefa3f8, 0x676f02d9, 0x8d2a4c8a,
      0xfffa3942, 0x8771f681, 0x6d9d6122, 0xfde5380c, 0xa4beea44, 0x4bdecfa9, 0xf6bb4b60, 0xbebfbc70,
      0x289b7ec6, 0xeaa127fa, 0xd4ef3085, 0x04881d05, 0xd9d4d039, 0xe6db99e5, 0x1fa27cf8, 0xc4ac5665,
      0xf4292244, 0x432aff97, 0xab9423a7, 0xfc93a039, 0x655b59c3, 0x8f0ccc92, 0xffeff47d, 0x85845dd1,
      0x6fa87e4f, 0xfe2ce6e0, 0xa3014314, 0x4e0811a1, 0xf7537e82, 0xbd3af235, 0x2ad7d2bb, 0xeb86d391]"

definition rfc_step :: "md5_uint32 list \<Rightarrow> nat \<Rightarrow> md5_state \<Rightarrow> md5_state" where
  "rfc_step X i st = (case st of (a, b, c, d) \<Rightarrow>
     (d, b + word_rotl (rfc_s i) (a + rfc_f i b c d + X ! rfc_k i + rfc_T ! i), b, c))"

definition rfc_block :: "md5_uint32 list \<Rightarrow> md5_state \<Rightarrow> md5_state" where
  "rfc_block X st = (case fold (rfc_step X) [0..<64] st of
     (a, b, c, d) \<Rightarrow> case st of (a0, b0, c0, d0) \<Rightarrow> (a0 + a, b0 + b, c0 + c, d0 + d))"

function rfc_blocks :: "byte list \<Rightarrow> md5_state \<Rightarrow> md5_state" where
  "rfc_blocks msg st =
     (if length msg < 64 then st else rfc_blocks (drop 64 msg) (rfc_block (le32_words 16 msg) st))"
  by pat_completeness auto
termination by (relation "measure (\<lambda>(msg, st). length msg)") auto

declare rfc_blocks.simps [simp del]

definition rfc_pad :: "byte list \<Rightarrow> byte list" where
  "rfc_pad msg = msg @ [0x80] @ replicate ((119 - length msg mod 64) mod 64) 0 @
     le32 (word_of_nat (8 * length msg)) @ le32 (word_of_nat (8 * length msg div 2 ^ 32))"

definition rfc_md5 :: "byte list \<Rightarrow> byte list" where
  "rfc_md5 msg = (case rfc_blocks (rfc_pad msg) (0x67452301, 0xefcdab89, 0x98badcfe, 0x10325476) of
     (a, b, c, d) \<Rightarrow> le32 a @ le32 b @ le32 c @ le32 d)"

section \<open>A block\<close>

lemma CYCLIC_rotl:
  assumes "0 < s" "s < 32" shows "CYCLIC w s = word_rotl s w"
proof (rule bit_word_eqI)
  fix n assume "n < LENGTH(32)"
  then have n: "n < 32" by simp
  have l: "bit (CYCLIC w s) n \<longleftrightarrow> s \<le> n \<and> bit w (n - s) \<or> bit w (n + (32 - s))"
    using n by (simp add: CYCLIC_def bit_simps ac_simps)
  have r: "bit (word_rotl s w) n \<longleftrightarrow> bit w ((n + (32 - s)) mod 32)"
    using n assms by (simp add: bit_word_rotl_iff)
  show "bit (CYCLIC w s) n \<longleftrightarrow> bit (word_rotl s w) n"
  proof (cases "n < s")
    case True
    then have "(n + (32 - s)) mod 32 = n + (32 - s)" using assms by simp
    with l r True show ?thesis by simp
  next
    case False
    then have "n + (32 - s) = n - s + 32" using assms by simp
    moreover have "(n - s + 32) mod 32 = n - s" using n by simp
    moreover have "\<not> bit w (n - s + 32)" using bit_imp_le_length [of w "n - s + 32"] by auto
    ultimately show ?thesis using l r False by simp
  qed
qed

lemma FF_mux: "FF b c d = (b AND c) OR (NOT b AND d)"
  by (rule bit_word_eqI) (auto simp: FF_def bit_simps)

lemma FG_mux: "FG b c d = (b AND d) OR (c AND NOT d)"
  by (rule bit_word_eqI) (auto simp: FG_def FF_def bit_simps)

definition rfc_op :: "nat \<Rightarrow> nat \<times> nat \<times> md5_uint32" where
  "rfc_op i = (rfc_k i, rfc_s i, rfc_T ! i)"

lemma round_tables:
  "round1 = map rfc_op [0..<16]" "round2 = map rfc_op [16..<32]"
  "round3 = map rfc_op [32..<48]" "round4 = map rfc_op [48..<64]"
  by code_simp+

lemma rfc_s_bounds: "i < 64 \<Longrightarrow> 0 < rfc_s i \<and> rfc_s i < 32"
proof -
  have "\<forall>i \<in> set [0..<64]. 0 < rfc_s i \<and> rfc_s i < 32" by code_simp
  then show "i < 64 \<Longrightarrow> ?thesis" by simp
qed

lemma op_step:
  assumes "i < 64" "\<And>b c d. f b c d = rfc_f i b c d"
  shows "md5_op f X (rfc_op i) st = rfc_step X i st"
  using CYCLIC_rotl rfc_s_bounds [OF assms(1)] assms(2)
  by (cases st) (simp add: md5_op_def rfc_op_def rfc_step_def ac_simps)

lemma round_fold:
  assumes "hi \<le> 64" "\<And>i b c d. lo \<le> i \<Longrightarrow> i < hi \<Longrightarrow> f b c d = rfc_f i b c d"
  shows "fold (md5_op f X) (map rfc_op [lo..<hi]) st = fold (rfc_step X) [lo..<hi] st"
proof -
  have "fold (\<lambda>i. md5_op f X (rfc_op i)) [lo..<hi] st = fold (rfc_step X) [lo..<hi] st"
    using assms by (intro fold_cong ext op_step) auto
  then show ?thesis by (simp add: fold_map o_def)
qed

lemma md5_block_rfc: "md5_block X st = rfc_block X st"
proof -
  have "fold (rfc_step X) [0..<64] st = fold (rfc_step X) [48..<64] (fold (rfc_step X) [32..<48]
      (fold (rfc_step X) [16..<32] (fold (rfc_step X) [0..<16] st)))"
  proof -
    have "[0..<64] = [0..<16] @ [16..<32] @ [32..<48] @ [48..<64]" by code_simp
    then show ?thesis by simp
  qed
  moreover have "fold (md5_op FF X) round1 st = fold (rfc_step X) [0..<16] st" for st
    unfolding round_tables by (rule round_fold) (auto simp: rfc_f_def FF_mux)
  moreover have "fold (md5_op FG X) round2 st = fold (rfc_step X) [16..<32] st" for st
    unfolding round_tables by (rule round_fold) (auto simp: rfc_f_def FG_mux)
  moreover have "fold (md5_op FH X) round3 st = fold (rfc_step X) [32..<48] st" for st
    unfolding round_tables by (rule round_fold) (auto simp: rfc_f_def FH_def)
  moreover have "fold (md5_op FI X) round4 st = fold (rfc_step X) [48..<64] st" for st
    unfolding round_tables by (rule round_fold) (auto simp: rfc_f_def FI_def)
  ultimately show ?thesis
    by (simp add: md5_block_def rfc_block_def ac_simps split: prod.split)
qed

section \<open>Blocks\<close>

lemma le32_words_short: "length bs < 4 \<Longrightarrow> le32_words n bs = []"
  by (cases "(n, bs)" rule: le32_words.cases) auto

lemma four_bytes:
  assumes "4 \<le> length bs" obtains a b c d bs' where "bs = a # b # c # d # bs'"
proof -
  have "Suc (Suc (Suc (Suc 0))) \<le> length bs" using assms by simp
  then obtain a b c d bs' where "bs = a # b # c # d # bs'" unfolding Suc_le_length_iff by blast
  then show thesis by (rule that)
qed

lemma le32_words_take: "take n (le32_words (n + m) bs) = le32_words n bs"
proof (induction n arbitrary: bs)
  case (Suc n)
  show ?case
  proof (cases "4 \<le> length bs")
    case True
    then obtain a b c d bs' where "bs = a # b # c # d # bs'" by (rule four_bytes)
    with Suc show ?thesis by simp
  qed (simp add: le32_words_short)
qed simp

lemma le32_words_drop: "4 * n \<le> length bs \<Longrightarrow> drop n (le32_words (n + m) bs) = le32_words m (drop (4 * n) bs)"
proof (induction n arbitrary: bs)
  case (Suc n)
  then have "4 \<le> length bs" by simp
  then obtain a b c d bs' where bs: "bs = a # b # c # d # bs'" by (rule four_bytes)
  have "drop (4 * Suc n) bs = drop (4 * n) bs'"
    using bs by (simp add: drop_Cons')
  with Suc bs show ?case by simp
qed simp

lemma le32_words_prefix: "4 * n \<le> k \<Longrightarrow> le32_words n (take k bs) = le32_words n bs"
proof (induction n arbitrary: bs k)
  case (Suc n)
  show ?case
  proof (cases "4 \<le> length bs")
    case True
    then obtain a b c d bs' where bs: "bs = a # b # c # d # bs'" by (rule four_bytes)
    have "take k bs = a # b # c # d # take (k - 4) bs'"
      using Suc.prems bs by (simp add: take_Cons' numeral_eq_Suc)
    with Suc.IH [of "k - 4" bs'] Suc.prems bs show ?thesis by simp
  qed (simp add: le32_words_short)
qed simp

lemma md5_turns_rfc:
  "64 * n \<le> length bs \<Longrightarrow> md5_turns n (le32_words (16 * n) bs) st = rfc_blocks (take (64 * n) bs) st"
proof (induction n arbitrary: bs st)
  case 0
  then show ?case by (simp add: rfc_blocks.simps)
next
  case (Suc n)
  have "md5_turns (Suc n) (le32_words (16 * Suc n) bs) st =
      md5_turns n (le32_words (16 * n) (drop 64 bs)) (rfc_block (le32_words 16 bs) st)"
    using Suc.prems le32_words_take [of 16 "16 * n" bs] le32_words_drop [of 16 bs "16 * n"] by (simp add: md5_block_rfc)
  also have "\<dots> = rfc_blocks (take (64 * n) (drop 64 bs)) (rfc_block (le32_words 16 bs) st)"
    using Suc by simp
  also have "\<dots> = rfc_blocks (take (64 * Suc n) bs) st"
    using Suc.prems by (subst (2) rfc_blocks.simps) (simp add: le32_words_prefix drop_take)
  finally show ?case .
qed

lemma rfc_blocks_append: "length xs mod 64 = 0 \<Longrightarrow> rfc_blocks (xs @ ys) st = rfc_blocks ys (rfc_blocks xs st)"
proof (induction xs st arbitrary: ys rule: rfc_blocks.induct)
  case (1 xs st)
  show ?case
  proof (cases "length xs < 64")
    case True
    with 1 show ?thesis by (simp add: rfc_blocks.simps [of "[]"])
  next
    case False
    have "length (drop 64 xs) mod 64 = 0"
      using False "1.prems" by (simp add: mod_if)
    from "1.IH" [OF False this, of ys] False show ?thesis
      using le32_words_prefix [of 16 "length xs" "xs @ ys"]
      by (subst (1 3) rfc_blocks.simps) simp
  qed
qed

end
