(* ===== verification/Md5_Props.thy ===== *)
theory Md5_Props
  imports Md5_Rfc
begin

text \<open>
  \<^verbatim>\<open>lib/md5.c\<close> computes the digest of RFC 1321: the context always holds the message absorbed so far
  (\<open>absorbed\<close>), every call keeps this, and finishing pads the message as the RFC says.
\<close>

section \<open>The length counter\<close>

definition md_total :: "md5_ctx \<Rightarrow> nat" where
  "md_total ctx = unat (md_total0 ctx) + 2 ^ 32 * unat (md_total1 ctx)"

lemma carry_add:
  fixes t0 t1 :: md5_uint32
  assumes "len < 2 ^ 32" "t0' = t0 + word_of_nat len" "t1' = (if unat t0' < len then t1 + 1 else t1)"
  shows "unat t0' + 2 ^ 32 * unat t1' = (unat t0 + 2 ^ 32 * unat t1 + len) mod 2 ^ 64"
proof -
  have b: "unat t0 < 2 ^ 32" "unat t1 < 2 ^ 32" using unsigned_less [of t0] unsigned_less [of t1] by auto
  have u0: "unat t0' = (unat t0 + len) mod 2 ^ 32"
    using assms(1) unfolding assms(2) by (simp add: unat_word_ariths unat_of_nat mod_simps)
  have u1: "unat (t1 + 1) = (unat t1 + 1) mod 2 ^ 32"
    by (simp add: unat_word_ariths)
  show ?thesis
  proof (cases "unat t0 + len < 2 ^ 32")
    case True
    then have "unat t0' = unat t0 + len" "t1' = t1" using u0 assms(3) by auto
    with b True show ?thesis by simp
  next
    case False
    then have t0': "unat t0' = unat t0 + len - 2 ^ 32"
      using u0 b assms(1) by (simp add: mod_if)
    then have "t1' = t1 + 1" using b False assms(3) by auto
    moreover have "(unat t0 + 2 ^ 32 * unat t1 + len) mod 2 ^ 64 = unat t0 + len - 2 ^ 32 + 2 ^ 32 * ((unat t1 + 1) mod 2 ^ 32)"
    proof (cases "unat t1 + 1 < 2 ^ 32")
      case True
      with False b assms(1) show ?thesis by simp
    next
      case F: False
      then have "unat t1 = 2 ^ 32 - 1" using b by simp
      with False b assms(1) show ?thesis by (simp add: mod_if)
    qed
    ultimately show ?thesis using t0' u1 by simp
  qed
qed

lemma process_block_eq:
  assumes "len mod 64 = 0" "len \<le> length buffer" "len < 2 ^ 32"
  obtains ctx' where "md5_process_block buffer len ctx = Some ctx'"
    "md_state ctx' = rfc_blocks (take len buffer) (md_state ctx)" "md_buflen ctx' = md_buflen ctx"
    "md_buffer ctx' = md_buffer ctx" "md_total ctx' = (md_total ctx + len) mod 2 ^ 64"
proof -
  from assms(1) have "64 dvd len" by presburger
  then obtain t where len: "len = 64 * t" by (rule dvdE)
  have t: "(len div 4 + 15) div 16 = t" unfolding len by simp
  let ?t0 = "md_total0 ctx + word_of_nat len"
  let ?t1 = "if unat ?t0 < len then md_total1 ctx + 1 else md_total1 ctx"
  let ?ctx = "ctx\<lparr>md_total0 := ?t0, md_total1 := ?t1, md_state := rfc_blocks (take len buffer) (md_state ctx)\<rparr>"
  have "md5_process_block buffer len ctx = Some ?ctx"
    using assms(2) md5_turns_rfc [of t buffer "md_state ctx"]
    unfolding md5_process_block_def t Let_def by (simp add: len)
  moreover have "md_total ?ctx = (md_total ctx + len) mod 2 ^ 64"
    using carry_add [OF assms(3) refl refl, of "md_total0 ctx" "md_total1 ctx"] by (simp add: md_total_def)
  ultimately show thesis by (intro that [of ?ctx]) simp_all
qed

section \<open>Absorbing input\<close>

abbreviation (input) md5_iv :: md5_state where
  "md5_iv \<equiv> (0x67452301, 0xefcdab89, 0x98badcfe, 0x10325476)"

definition absorbed :: "md5_ctx \<Rightarrow> byte list \<Rightarrow> bool" where
  \<comment> \<open>the context holds the message: its complete blocks in the state, the rest in the buffer\<close>
  "absorbed ctx msg \<longleftrightarrow> length (md_buffer ctx) = 128 \<and> unat (md_buflen ctx) \<le> 64 \<and>
     (\<exists>blocks. msg = blocks @ take (unat (md_buflen ctx)) (md_buffer ctx) \<and> length blocks mod 64 = 0 \<and>
        md_state ctx = rfc_blocks blocks md5_iv \<and> md_total ctx = length blocks mod 2 ^ 64)"

lemma absorbedE:
  assumes "absorbed ctx msg"
  obtains blocks where "length (md_buffer ctx) = 128" "unat (md_buflen ctx) \<le> 64"
    "msg = blocks @ take (unat (md_buflen ctx)) (md_buffer ctx)" "length blocks mod 64 = 0"
    "md_state ctx = rfc_blocks blocks md5_iv" "md_total ctx = length blocks mod 2 ^ 64"
  using assms unfolding absorbed_def by (elim conjE exE) (rule that)

lemma rfc_blocks_short [simp]: "length msg < 64 \<Longrightarrow> rfc_blocks msg st = st"
  by (subst rfc_blocks.simps) simp

lemma absorbed_init: "length (md_buffer junk) = 128 \<Longrightarrow> absorbed (md5_init_ctx junk) []"
  by (simp add: absorbed_def md5_init_ctx_def md_total_def)

lemma absorb_blocks:
  \<comment> \<open>complete blocks are processed, behind those already in the state\<close>
  assumes "length blocks mod 64 = 0" "md_state ctx = rfc_blocks blocks md5_iv" "md_total ctx = length blocks mod 2 ^ 64"
    and "len mod 64 = 0" "len \<le> length bs" "len < 2 ^ 32"
  obtains ctx' where "md5_process_block bs len ctx = Some ctx'" "md_buflen ctx' = md_buflen ctx"
    "md_buffer ctx' = md_buffer ctx" "length (blocks @ take len bs) mod 64 = 0"
    "md_state ctx' = rfc_blocks (blocks @ take len bs) md5_iv" "md_total ctx' = length (blocks @ take len bs) mod 2 ^ 64"
proof -
  obtain ctx' where c: "md5_process_block bs len ctx = Some ctx'"
    "md_state ctx' = rfc_blocks (take len bs) (md_state ctx)" "md_buflen ctx' = md_buflen ctx"
    "md_buffer ctx' = md_buffer ctx" "md_total ctx' = (md_total ctx + len) mod 2 ^ 64"
    using process_block_eq [OF assms(4-6)] by blast
  have "length (blocks @ take len bs) mod 64 = 0"
    using assms(1,4,5) by (simp add: mod_add_eq [symmetric] min_def)
  with c show thesis
    using assms by (intro that [of ctx']) (simp_all add: rfc_blocks_append mod_simps min_def)
qed

lemma and_not_63: "unat (w AND NOT 63 :: md5_uint32) = 64 * (unat w div 64)" "unat (w AND 63 :: md5_uint32) = unat w mod 64"
proof -
  have "w AND 63 = take_bit 6 w" by (simp add: take_bit_eq_mask mask_eq_decr_exp)
  then show 2: "unat (w AND 63) = unat w mod 64"
    by (simp add: take_bit_eq_mod unat_mod)
  have "w AND NOT 63 = w - (w AND 63)"
  proof -
    have "(w AND NOT 63) + (w AND 63) = (w AND NOT 63) OR (w AND 63)"
      by (rule disjunctive_add) (auto simp: bit_simps)
    also have "\<dots> = w" by (rule bit_word_eqI) (auto simp: bit_simps)
    finally show ?thesis by (simp add: eq_diff_eq)
  qed
  moreover have "(w AND 63) \<le> w" by (simp add: word_and_le2)
  ultimately show "unat (w AND NOT 63) = 64 * (unat w div 64)"
    using 2 by (simp add: unat_sub minus_mod_eq_mult_div)
qed

lemma absorbed_intro:
  assumes "length (md_buffer ctx) = 128" "unat (md_buflen ctx) \<le> 64"
    and "msg = blocks @ take (unat (md_buflen ctx)) (md_buffer ctx)" "length blocks mod 64 = 0"
    and "md_state ctx = rfc_blocks blocks md5_iv" "md_total ctx = length blocks mod 2 ^ 64"
  shows "absorbed ctx msg"
  using assms unfolding absorbed_def by (intro conjI exI [of _ blocks])

lemma md_total_cong: "md_total (ctx\<lparr>md_buffer := b\<rparr>) = md_total ctx" "md_total (ctx\<lparr>md_buflen := n\<rparr>) = md_total ctx"
  by (simp_all add: md_total_def)

lemma blit_take: "i + length src \<le> length dst \<Longrightarrow> i \<le> n \<Longrightarrow> n \<le> i + length src \<Longrightarrow>
    take n (blit dst i src) = take i dst @ take (n - i) src"
  by (simp add: blit_def min_def)

lemma fill_ok:
  assumes a: "absorbed ctx msg" and len: "length input < 2 ^ 32"
  shows "\<exists>ctx1 add. md5_fill input ctx = Some (ctx1, add) \<and> add \<le> length input \<and>
    absorbed ctx1 (msg @ take add input) \<and> (add < length input \<longrightarrow> md_buflen ctx1 = 0)"
proof (cases "md_buflen ctx = 0")
  case True
  then show ?thesis using a by (simp add: md5_fill_def)
next
  case False
  obtain blocks where i: "length (md_buffer ctx) = 128" "unat (md_buflen ctx) \<le> 64"
    "msg = blocks @ take (unat (md_buflen ctx)) (md_buffer ctx)" "length blocks mod 64 = 0"
    "md_state ctx = rfc_blocks blocks md5_iv" "md_total ctx = length blocks mod 2 ^ 64"
    using a by (rule absorbedE)
  define l where "l = unat (md_buflen ctx)"
  define add where "add = (if 128 - l > length input then length input else 128 - l)"
  have l: "0 < l" "l \<le> 64" using False i(2) by (auto simp: l_def unat_gt_0)
  have room: "(128 + 2 ^ 64 - l) mod 2 ^ 64 = 128 - l" using l by (simp add: mod_if)
  have add: "add \<le> length input" "l + add \<le> 128" "add < length input \<Longrightarrow> l + add = 128"
    using l by (auto simp: add_def split: if_splits)
  define b where "b = blit (md_buffer ctx) l (take add input)"
  have b: "md5_memcpy (md_buffer ctx) l (take add input) = Some b" "length b = 128"
    "take (l + add) b = take l (md_buffer ctx) @ take add input"
    using add i(1) blit_take [of l "take add input" "md_buffer ctx" "l + add"]
    by (simp_all add: md5_memcpy_def b_def min_def)
  define n where "n = md_buflen ctx + word_of_nat add"
  have "unat n = l + add"
    using l add(2) by (simp add: n_def unat_word_ariths unat_of_nat l_def [symmetric] mod_simps)
  note n = this
  define ctx1 where "ctx1 = ctx\<lparr>md_buffer := b, md_buflen := n\<rparr>"
  have eq: "md5_fill input ctx =
      (if l + add > 64 then do {
         ctx2 \<leftarrow> md5_process_block b (64 * ((l + add) div 64)) ctx1;
         let k = unat (md_buflen ctx2 AND 63);
         let from = 64 * ((l + add) div 64);
         if from + k \<le> length b then do {
           b2 \<leftarrow> md5_memcpy b 0 (slice from (from + k) b);
           Some (ctx2\<lparr>md_buffer := b2, md_buflen := md_buflen ctx2 AND 63\<rparr>, add)
         } else None
       } else Some (ctx1, add))"
    unfolding md5_fill_def l_def [symmetric] Let_def room add_def [symmetric] n_def [symmetric]
    using False b(1) n and_not_63(1) [of n] by (simp add: n_def [symmetric] ctx1_def and_not_63(2))
  show ?thesis
  proof (cases "l + add > 64")
    case False
    have "absorbed ctx1 (msg @ take add input)"
      using i b n False by (intro absorbed_intro [of _ _ blocks]) (simp_all add: ctx1_def md_total_def l_def)
    with False eq add show ?thesis by auto
  next
    case True
    define m where "m = 64 * ((l + add) div 64)"
    have m: "m mod 64 = 0" "m \<le> length b" "m < 2 ^ 32" "m \<le> l + add" "l + add - m < 64"
      using add(2) b(2) by (auto simp: m_def)
    obtain ctx2 where c: "md5_process_block b m ctx1 = Some ctx2" "md_buflen ctx2 = md_buflen ctx1"
      "md_buffer ctx2 = md_buffer ctx1" "length (blocks @ take m b) mod 64 = 0"
      "md_state ctx2 = rfc_blocks (blocks @ take m b) md5_iv" "md_total ctx2 = length (blocks @ take m b) mod 2 ^ 64"
      using absorb_blocks [of blocks ctx1 m b] i m by (auto simp: ctx1_def md_total_def)
    have k: "unat (md_buflen ctx2 AND 63) = l + add - m"
      using n by (simp add: c(2) ctx1_def and_not_63 m_def minus_mult_div_eq_mod [symmetric])
    define b2 where "b2 = blit b 0 (slice m (l + add) b)"
    have sl: "length (slice m (l + add) b) = l + add - m" using add b by simp
    have b2: "md5_memcpy b 0 (slice m (l + add) b) = Some b2" "length b2 = 128"
      "take (l + add - m) b2 = slice m (l + add) b"
      using sl b(2) add(2) by (simp_all add: md5_memcpy_def b2_def blit_def)
    let ?ctx = "ctx2\<lparr>md_buffer := b2, md_buflen := md_buflen ctx2 AND 63\<rparr>"
    have "md5_fill input ctx = Some (?ctx, add)"
      using True eq c(1) k b2(1) m(4) add(2) b(2) by (simp add: m_def [symmetric] Let_def)
    moreover have "absorbed ?ctx (msg @ take add input)"
    proof (rule absorbed_intro)
      have "take m b @ slice m (l + add) b = take (l + add) b"
        using m(4) by (simp add: slice_def take_add [symmetric] flip: take_drop)
      then show "msg @ take add input = (blocks @ take m b) @ take (unat (md_buflen ?ctx)) (md_buffer ?ctx)"
        using i(3) b(3) b2(3) k by (simp add: l_def)
      show "unat (md_buflen ?ctx) \<le> 64" using k m(5) by simp
      show "md_total ?ctx = length (blocks @ take m b) mod 2 ^ 64" using c(6) by (simp add: md_total_def)
    qed (simp_all add: b2(2) c(4,5) del: length_append)
    moreover have "add < length input \<longrightarrow> md_buflen ctx2 AND 63 = 0"
      using add(3) k by (auto simp: m_def unat_eq_0)
    ultimately show ?thesis using add(1) by auto
  qed
qed

lemma unaligned_ok:
  "absorbed ctx msg \<Longrightarrow> md_buflen ctx = 0 \<Longrightarrow>
    \<exists>ctx' rest used. md5_unaligned input ctx = Some (ctx', rest) \<and> input = used @ rest \<and> length rest \<le> 64 \<and>
      absorbed ctx' (msg @ used) \<and> md_buflen ctx' = 0"
proof (induction input ctx arbitrary: msg rule: md5_unaligned.induct)
  case (1 input ctx)
  show ?case
  proof (cases "64 < length input")
    case False
    with 1 show ?thesis by (subst md5_unaligned.simps) auto
  next
    case True
    obtain blocks where i: "length (md_buffer ctx) = 128" "unat (md_buflen ctx) \<le> 64"
      "msg = blocks @ take (unat (md_buflen ctx)) (md_buffer ctx)" "length blocks mod 64 = 0"
      "md_state ctx = rfc_blocks blocks md5_iv" "md_total ctx = length blocks mod 2 ^ 64"
      using "1.prems"(1) by (rule absorbedE)
    define b where "b = blit (md_buffer ctx) 0 (take 64 input)"
    have b: "md5_memcpy (md_buffer ctx) 0 (take 64 input) = Some b" "length b = 128" "take 64 b = take 64 input"
      using i(1) True by (simp_all add: md5_memcpy_def b_def blit_def)
    obtain ctx2 where c: "md5_process_block b 64 (ctx\<lparr>md_buffer := b\<rparr>) = Some ctx2" "md_buflen ctx2 = 0"
      "md_buffer ctx2 = b" "length (blocks @ take 64 b) mod 64 = 0"
      "md_state ctx2 = rfc_blocks (blocks @ take 64 b) md5_iv" "md_total ctx2 = length (blocks @ take 64 b) mod 2 ^ 64"
      using absorb_blocks [of blocks "ctx\<lparr>md_buffer := b\<rparr>" 64 b] i b "1.prems"(2) by (auto simp: md_total_def)
    have "absorbed ctx2 (msg @ take 64 input)"
      using c b i "1.prems"(2) by (intro absorbed_intro [of _ _ "blocks @ take 64 b"]) simp_all
    from "1.IH" [OF True b(1) c(1) this c(2)] obtain ctx' rest used where r:
      "md5_unaligned (drop 64 input) ctx2 = Some (ctx', rest)" "drop 64 input = used @ rest" "length rest \<le> 64"
      "absorbed ctx' ((msg @ take 64 input) @ used)" "md_buflen ctx' = 0" by auto
    have "input = (take 64 input @ used) @ rest" using r(2) by (metis append.assoc append_take_drop_id)
    moreover have "md5_unaligned input ctx = Some (ctx', rest)"
      using True b(1) c(1) r(1) by (subst md5_unaligned.simps) simp
    ultimately show ?thesis using r(3-5) by (metis append.assoc)
  qed
qed

lemma blocks_of_ok:
  assumes "absorbed ctx msg" "input = [] \<or> md_buflen ctx = 0" "length input < 2 ^ 32"
  shows "\<exists>ctx' rest used. md5_blocks_of addr input ctx = Some (ctx', rest) \<and> input = used @ rest \<and> length rest \<le> 64 \<and>
      absorbed ctx' (msg @ used) \<and> (rest = [] \<or> md_buflen ctx' = 0)"
proof (cases "length input < 64")
  case True
  then show ?thesis using assms by (auto simp: md5_blocks_of_def)
next
  case False
  then have z: "md_buflen ctx = 0" using assms(2) by auto
  show ?thesis
  proof (cases "addr mod 4 \<noteq> 0")
    case True
    with False unaligned_ok [OF assms(1) z, of input] show ?thesis by (auto simp: md5_blocks_of_def)
  next
    case al: False
    obtain blocks where i: "length (md_buffer ctx) = 128" "unat (md_buflen ctx) \<le> 64"
      "msg = blocks @ take (unat (md_buflen ctx)) (md_buffer ctx)" "length blocks mod 64 = 0"
      "md_state ctx = rfc_blocks blocks md5_iv" "md_total ctx = length blocks mod 2 ^ 64"
      using assms(1) by (rule absorbedE)
    define n where "n = 64 * (length input div 64)"
    have n: "n mod 64 = 0" "n \<le> length input" "length (drop n input) < 64"
      by (auto simp: n_def minus_mult_div_eq_mod)
    obtain ctx2 where c: "md5_process_block input n ctx = Some ctx2" "md_buflen ctx2 = md_buflen ctx"
      "md_buffer ctx2 = md_buffer ctx" "length (blocks @ take n input) mod 64 = 0"
      "md_state ctx2 = rfc_blocks (blocks @ take n input) md5_iv" "md_total ctx2 = length (blocks @ take n input) mod 2 ^ 64"
      using absorb_blocks [of blocks ctx n input] i n assms(3) by auto
    have "absorbed ctx2 (msg @ take n input)"
      using c i z by (intro absorbed_intro [of _ _ "blocks @ take n input"]) simp_all
    moreover have "md5_blocks_of addr input ctx = Some (ctx2, drop n input)"
      using False al c(1) by (simp add: md5_blocks_of_def n_def [symmetric])
    ultimately show ?thesis
      using n z c(2) by (intro exI [of _ ctx2] exI [of _ "drop n input"] exI [of _ "take n input"]) auto
  qed
qed

lemma keep_ok:
  assumes "absorbed ctx msg" "rest = [] \<or> md_buflen ctx = 0" "length rest \<le> 64"
  shows "\<exists>ctx'. md5_keep rest ctx = Some ctx' \<and> absorbed ctx' (msg @ rest)"
proof (cases "rest = []")
  case True
  then show ?thesis using assms by (simp add: md5_keep_def)
next
  case False
  then have z: "md_buflen ctx = 0" using assms(2) by auto
  obtain blocks where i: "length (md_buffer ctx) = 128" "unat (md_buflen ctx) \<le> 64"
    "msg = blocks @ take (unat (md_buflen ctx)) (md_buffer ctx)" "length blocks mod 64 = 0"
    "md_state ctx = rfc_blocks blocks md5_iv" "md_total ctx = length blocks mod 2 ^ 64"
    using assms(1) by (rule absorbedE)
  define b where "b = blit (md_buffer ctx) 0 rest"
  have b: "md5_memcpy (md_buffer ctx) 0 rest = Some b" "length b = 128" "take (length rest) b = rest"
    using i(1) assms(3) by (simp_all add: md5_memcpy_def b_def blit_def)
  show ?thesis
  proof (cases "64 \<le> length rest")
    case f: False
    let ?ctx = "ctx\<lparr>md_buffer := b, md_buflen := word_of_nat (length rest)\<rparr>"
    have "unat (word_of_nat (length rest) :: md5_uint32) = length rest"
      using f by (simp add: unat_of_nat)
    then have "absorbed ?ctx (msg @ rest)"
      using i b z f by (intro absorbed_intro [of _ _ blocks]) (simp_all add: md_total_def)
    with False f z b(1) show ?thesis by (simp add: md5_keep_def Let_def)
  next
    case True
    then have l: "length rest = 64" using assms(3) by simp
    obtain ctx2 where c: "md5_process_block b 64 (ctx\<lparr>md_buffer := b\<rparr>) = Some ctx2" "md_buflen ctx2 = 0"
      "md_buffer ctx2 = b" "length (blocks @ take 64 b) mod 64 = 0"
      "md_state ctx2 = rfc_blocks (blocks @ take 64 b) md5_iv" "md_total ctx2 = length (blocks @ take 64 b) mod 2 ^ 64"
      using absorb_blocks [of blocks "ctx\<lparr>md_buffer := b\<rparr>" 64 b] i b z by (auto simp: md_total_def)
    let ?ctx = "ctx2\<lparr>md_buffer := b, md_buflen := 0\<rparr>"
    have "absorbed ?ctx (msg @ rest)"
      using c i b z l by (intro absorbed_intro [of _ _ "blocks @ take 64 b"]) (simp_all add: md_total_def)
    moreover have "md5_keep rest ctx = Some ?ctx"
      using False z b l c(1) by (simp add: md5_keep_def Let_def md5_memcpy_def blit_def)
    ultimately show ?thesis by blast
  qed
qed

lemma process_bytes_ok:
  assumes "absorbed ctx msg" "length input < 2 ^ 32"
  shows "\<exists>ctx'. md5_process_bytes addr input ctx = Some ctx' \<and> absorbed ctx' (msg @ input)"
proof -
  obtain ctx1 add where 1: "md5_fill input ctx = Some (ctx1, add)" "add \<le> length input"
    "absorbed ctx1 (msg @ take add input)" "add < length input \<longrightarrow> md_buflen ctx1 = 0"
    using fill_ok [OF assms] by blast
  have "drop add input = [] \<or> md_buflen ctx1 = 0" "length (drop add input) < 2 ^ 32"
    using 1(2,4) assms(2) by auto
  from blocks_of_ok [OF 1(3) this] obtain ctx2 rest used where 2:
    "md5_blocks_of (addr + add) (drop add input) ctx1 = Some (ctx2, rest)" "drop add input = used @ rest"
    "length rest \<le> 64" "absorbed ctx2 ((msg @ take add input) @ used)" "rest = [] \<or> md_buflen ctx2 = 0" by blast
  from keep_ok [OF 2(4,5,3)] obtain ctx3 where 3: "md5_keep rest ctx2 = Some ctx3"
    "absorbed ctx3 (((msg @ take add input) @ used) @ rest)" by blast
  have "((msg @ take add input) @ used) @ rest = msg @ input"
    using 2(2) by (metis append.assoc append_take_drop_id)
  with 1 2 3 show ?thesis by (simp add: md5_process_bytes_def)
qed

section \<open>The last block\<close>

lemma length_words:
  fixes t0 t1 :: md5_uint32
  assumes "unat t0 + 2 ^ 32 * unat t1 = len mod 2 ^ 64"
  shows "push_bit 3 t0 = word_of_nat (8 * len)"
    and "push_bit 3 t1 OR drop_bit 29 t0 = word_of_nat (8 * len div 2 ^ 32)"
proof -
  have b: "unat t0 < 2 ^ 32" using unsigned_less [of t0] by simp
  define q where "q = len div 2 ^ 64"
  have len: "len = unat t0 + 2 ^ 32 * unat t1 + 2 ^ 64 * q"
    using assms by (simp add: q_def)
  have w: "(word_of_nat (2 ^ 32 * n) :: md5_uint32) = 0" for n
    by (subst word_of_nat_eq_0_iff) simp
  have "len = unat t0 + 2 ^ 32 * (unat t1 + 2 ^ 32 * q)" using len by simp
  then have "word_of_nat len = (t0 :: md5_uint32)"
    using w [of "unat t1 + 2 ^ 32 * q"] by (simp only: of_nat_add) simp
  then show "push_bit 3 t0 = word_of_nat (8 * len)"
    by (simp add: push_bit_eq_mult)
  have "8 * len = 8 * unat t0 + 2 ^ 32 * (8 * unat t1 + 2 ^ 32 * (8 * q))" using len by simp
  then have "8 * len div 2 ^ 32 = 8 * unat t0 div 2 ^ 32 + (8 * unat t1 + 2 ^ 32 * (8 * q))" by simp
  moreover have "8 * unat t0 div 2 ^ 32 = unat t0 div 2 ^ 29" by simp
  ultimately have "8 * len div 2 ^ 32 = unat t0 div 2 ^ 29 + 8 * unat t1 + 2 ^ 32 * (8 * q)" by simp
  then have "word_of_nat (8 * len div 2 ^ 32) = (word_of_nat (unat t0 div 2 ^ 29) + 8 * t1 :: md5_uint32)"
    using w [of "8 * q"] by (simp only: of_nat_add) simp
  moreover have "drop_bit 29 t0 = word_of_nat (unat t0 div 2 ^ 29)"
  proof -
    have "unat (drop_bit 29 t0) = unat t0 div 2 ^ 29" by (simp add: unat_drop_bit_eq drop_bit_eq_div unat_div)
    then have "word_of_nat (unat (drop_bit 29 t0)) = (word_of_nat (unat t0 div 2 ^ 29) :: md5_uint32)" by simp
    then show ?thesis by simp
  qed
  moreover have "push_bit 3 t1 OR drop_bit 29 t0 = push_bit 3 t1 + drop_bit 29 t0"
    by (rule disjunctive_add [symmetric]) (auto simp: bit_simps dest!: bit_imp_le_length)
  ultimately show "push_bit 3 t1 OR drop_bit 29 t0 = word_of_nat (8 * len div 2 ^ 32)"
    by (simp add: push_bit_eq_mult)
qed

lemma le32_length [simp]: "length (le32 w) = 4"
  by (simp add: le32_def)

lemma md5_memcpy_end:
  "length pre = i \<Longrightarrow> length old = length src \<Longrightarrow> md5_memcpy (pre @ old @ post) i src = Some (pre @ src @ post)"
  by (simp add: md5_memcpy_def blit_def)

lemma drop_split: "drop a xs = take b (drop a xs) @ drop (a + b) xs"
  by (metis add.commute append_take_drop_id drop_drop)

lemma finish_ok:
  assumes a: "absorbed ctx msg"
  shows "\<exists>ctx'. md5_finish_ctx ctx = Some (ctx', rfc_md5 msg)"
proof -
  obtain blocks where i: "length (md_buffer ctx) = 128" "unat (md_buflen ctx) \<le> 64"
    "msg = blocks @ take (unat (md_buflen ctx)) (md_buffer ctx)" "length blocks mod 64 = 0"
    "md_state ctx = rfc_blocks blocks md5_iv" "md_total ctx = length blocks mod 2 ^ 64"
    using a by (rule absorbedE)
  define l where "l = unat (md_buflen ctx)"
  define pad where "pad = (if 56 \<le> l then 64 + 56 - l else 56 - l)"
  define total0 where "total0 = md_total0 ctx + md_buflen ctx"
  define total1 where "total1 = (if total0 < md_buflen ctx then md_total1 ctx + 1 else md_total1 ctx)"
  define h1 where "h1 = le32 (push_bit 3 total0)"
  define h2 where "h2 = le32 (push_bit 3 total1 OR drop_bit 29 total0)"
  have l: "l \<le> 64" "l < 2 ^ 32" using i(2) by (simp_all add: l_def)
  have msg: "length msg = length blocks + l" using i l by (simp add: l_def)
  have "unat total0 + 2 ^ 32 * unat total1 = (md_total ctx + l) mod 2 ^ 64"
    unfolding md_total_def
    by (rule carry_add [OF l(2)]) (simp_all add: total0_def total1_def l_def word_less_nat_alt)
  also have "\<dots> = length msg mod 2 ^ 64" using i(6) msg by (simp add: mod_simps)
  finally have hs: "h1 = le32 (word_of_nat (8 * length msg))" "h2 = le32 (word_of_nat (8 * length msg div 2 ^ 32))"
    using length_words [of total0 total1 "length msg"] by (simp_all add: h1_def h2_def)
  have pad: "0 < pad" "pad \<le> 64" "l + pad + 8 \<le> 128" "(l + pad + 8) mod 64 = 0" "(l + pad) mod 4 = 0"
    using l by (auto simp: pad_def split: if_splits)
  define pend where "pend = take l (md_buffer ctx)"
  define tail where "tail = drop (l + pad + 8) (md_buffer ctx)"
  define o1 where "o1 = take pad (drop l (md_buffer ctx))"
  define o2 where "o2 = take 4 (drop (l + pad) (md_buffer ctx))"
  define o3 where "o3 = take 4 (drop (l + pad + 4) (md_buffer ctx))"
  have "md_buffer ctx = pend @ o1 @ o2 @ o3 @ tail"
    using drop_split [of l "md_buffer ctx" pad] drop_split [of "l + pad" "md_buffer ctx" 4]
      drop_split [of "l + pad + 4" "md_buffer ctx" 4] append_take_drop_id [of l "md_buffer ctx"]
    by (simp add: pend_def o1_def o2_def o3_def tail_def add.assoc)
  moreover have "length pend = l" "length o1 = pad" "length o2 = 4" "length o3 = 4"
    using i(1) l pad by (auto simp: pend_def o1_def o2_def o3_def)
  moreover define fb where "fb = take pad fillbuf"
  moreover have "length fb = pad" using pad by (simp add: fb_def fillbuf_def)
  moreover define b3 where "b3 = pend @ fb @ h1 @ h2 @ tail"
  ultimately have c: "md5_memcpy (md_buffer ctx) l fb = Some (pend @ fb @ o2 @ o3 @ tail)"
    "md5_memcpy (pend @ fb @ o2 @ o3 @ tail) (l + pad) h1 = Some (pend @ fb @ h1 @ o3 @ tail)"
    "md5_memcpy (pend @ fb @ h1 @ o3 @ tail) (l + pad + 4) h2 = Some b3"
    "length b3 = 128" "length pend = l" "length fb = pad"
    using i(1) md5_memcpy_end [of pend l o1 fb "o2 @ o3 @ tail"] md5_memcpy_end [of "pend @ fb" "l + pad" o2 h1 "o3 @ tail"]
      md5_memcpy_end [of "pend @ fb @ h1" "l + pad + 4" o3 h2 tail]
    by (simp_all add: h1_def h2_def)
  let ?ctx = "ctx\<lparr>md_total0 := total0, md_total1 := total1, md_buffer := b3\<rparr>"
  obtain ctx1 where p: "md5_process_block b3 (l + pad + 8) ?ctx = Some ctx1"
    "md_state ctx1 = rfc_blocks (take (l + pad + 8) b3) (md_state ?ctx)"
    using process_block_eq [of "l + pad + 8" b3 ?ctx] pad c(4) by auto
  have "take (l + pad + 8) b3 = pend @ fb @ h1 @ h2"
    using c(5,6) by (simp add: b3_def h1_def h2_def)
  moreover have "fb = [0x80] @ replicate ((119 - length msg mod 64) mod 64) 0"
  proof -
    have "length msg mod 64 = l mod 64" using msg i(4) by (simp add: mod_add_eq [symmetric])
    then have "(119 - length msg mod 64) mod 64 = pad - 1"
      using l by (auto simp: pad_def mod_if)
    then show ?thesis using pad(1,2) by (simp add: fb_def fillbuf_def take_Cons')
  qed
  ultimately have "blocks @ take (l + pad + 8) b3 = rfc_pad msg"
    using i(3) by (simp add: rfc_pad_def hs pend_def l_def)
  then have st: "md_state ctx1 = rfc_blocks (rfc_pad msg) md5_iv"
    using p(2) i(4,5) rfc_blocks_append [of blocks "take (l + pad + 8) b3" md5_iv] by simp
  have o: "4 * ((l + pad) div 4) = l + pad" "4 * ((l + pad + 4) div 4) = l + pad + 4" "pad \<le> length fillbuf"
    using pad by (auto simp: fillbuf_def)
  have "md5_finish_ctx ctx = Some (ctx1, md5_read_ctx ctx1)"
    unfolding md5_finish_ctx_def l_def [symmetric] Let_def pad_def [symmetric] total0_def [symmetric] total1_def [symmetric]
      o fb_def [symmetric] h1_def [symmetric] h2_def [symmetric]
    using o(3) by (simp add: c(1-3) p(1))
  moreover have "md5_read_ctx ctx1 = rfc_md5 msg"
    by (simp add: md5_read_ctx_def rfc_md5_def st)
  ultimately show ?thesis by simp
qed

section \<open>Files\<close>

lemma c_fread_piece:
  assumes "0 < n" "[] \<notin> set ps" "c_fread n (ps, err) = (p, file1)"
  obtains ps1 where "file1 = (ps1, err)" "concat ps = p @ concat ps1" "[] \<notin> set ps1" "length p \<le> n" "p = [] \<longleftrightarrow> ps = []"
    "ps = [] \<longrightarrow> ps1 = []"
  using assms by (cases ps) (auto split: if_splits)

lemma fill_block_pieces:
  "md5_fill_block acc fl = (buf, n0, file1) \<Longrightarrow> length acc < BLOCKSIZE \<Longrightarrow> [] \<notin> set (fst fl) \<Longrightarrow>
    acc @ concat (fst fl) = buf @ concat (fst file1) \<and> [] \<notin> set (fst file1) \<and> snd file1 = snd fl \<and>
      (if n0 then fst file1 = [] \<and> length buf < BLOCKSIZE else length buf = BLOCKSIZE)"
proof (induction acc fl rule: md5_fill_block.induct)
  case (1 acc fl)
  obtain ps err where f: "fl = (ps, err)" by (metis surj_pair)
  obtain p f1 where p: "c_fread (BLOCKSIZE - length acc) (ps, err) = (p, f1)" by (metis surj_pair)
  obtain ps1 where q: "f1 = (ps1, err)" "concat ps = p @ concat ps1" "[] \<notin> set ps1" "length p \<le> BLOCKSIZE - length acc"
    "p = [] \<longleftrightarrow> ps = []" "ps = [] \<longrightarrow> ps1 = []"
    using c_fread_piece [OF _ _ p] "1.prems" f by auto
  show ?case
  proof (cases "length (acc @ p) < BLOCKSIZE \<and> p \<noteq> []")
    case True
    then have "md5_fill_block (acc @ p) f1 = (buf, n0, file1)"
      using "1.prems"(1) f p by (subst (asm) md5_fill_block.simps) simp
    with "1.IH" [OF _ True this] True p q f show ?thesis by auto
  next
    case False
    then have "(buf, n0, file1) = (acc @ p, p = [], f1)"
      using "1.prems"(1) f p by (subst (asm) md5_fill_block.simps) (auto split: if_splits)
    with False q f "1.prems"(2) show ?thesis by auto
  qed
qed

lemma stream_loop_ok:
  "absorbed ctx msg \<Longrightarrow> md_buflen ctx = 0 \<Longrightarrow> [] \<notin> set (fst fl) \<Longrightarrow>
    if snd fl then md5_stream_loop fl ctx = Some None
    else \<exists>ctx' used buf. md5_stream_loop fl ctx = Some (Some (ctx', buf)) \<and> concat (fst fl) = used @ buf \<and>
      absorbed ctx' (msg @ used) \<and> length buf < BLOCKSIZE"
proof (induction fl ctx arbitrary: msg rule: md5_stream_loop.induct)
  case (1 fl ctx)
  obtain buf n0 file1 where b: "md5_fill_block [] fl = (buf, n0, file1)" by (metis prod_cases3)
  note f = fill_block_pieces [OF b _ "1.prems"(3)]
  show ?case
  proof (cases n0)
    case True
    with f b "1.prems"(1) show ?thesis by (subst (1 2) md5_stream_loop.simps) auto
  next
    case False
    then have len: "length buf = BLOCKSIZE" using f by simp
    obtain blocks where i: "length (md_buffer ctx) = 128" "unat (md_buflen ctx) \<le> 64"
      "msg = blocks @ take (unat (md_buflen ctx)) (md_buffer ctx)" "length blocks mod 64 = 0"
      "md_state ctx = rfc_blocks blocks md5_iv" "md_total ctx = length blocks mod 2 ^ 64"
      using "1.prems"(1) by (rule absorbedE)
    obtain ctx2 where c: "md5_process_block buf BLOCKSIZE ctx = Some ctx2" "md_buflen ctx2 = md_buflen ctx"
      "md_buffer ctx2 = md_buffer ctx" "length (blocks @ take BLOCKSIZE buf) mod 64 = 0"
      "md_state ctx2 = rfc_blocks (blocks @ take BLOCKSIZE buf) md5_iv" "md_total ctx2 = length (blocks @ take BLOCKSIZE buf) mod 2 ^ 64"
      using absorb_blocks [of blocks ctx BLOCKSIZE buf] i len by auto
    have a: "absorbed ctx2 (msg @ buf)"
      using c i "1.prems"(2) len by (intro absorbed_intro [of _ _ "blocks @ buf"]) simp_all
    have e: "md5_stream_loop fl ctx = md5_stream_loop file1 ctx2"
      using b False c(1) by (subst md5_stream_loop.simps) simp
    have "if snd file1 then md5_stream_loop file1 ctx2 = Some None
      else \<exists>ctx' used buf'. md5_stream_loop file1 ctx2 = Some (Some (ctx', buf')) \<and> concat (fst file1) = used @ buf' \<and>
        absorbed ctx' ((msg @ buf) @ used) \<and> length buf' < BLOCKSIZE"
      using "1.IH" [OF b [symmetric] refl False c(1) a] c(2) "1.prems"(2) f by auto
    then show ?thesis
      using f e by (auto split: if_splits)
  qed
qed

section \<open>Properties\<close>

fun md5_feed :: "(nat \<times> byte list) list \<Rightarrow> md5_ctx \<Rightarrow> md5_ctx option" where
  \<comment> \<open>calls of \<open>md5_process_bytes\<close> for pieces at the given addresses\<close>
  "md5_feed [] ctx = Some ctx"
| "md5_feed ((addr, piece) # ps) ctx = Option.bind (md5_process_bytes addr piece ctx) (md5_feed ps)"

lemma feed_ok:
  "absorbed ctx msg \<Longrightarrow> list_all (\<lambda>p. length (snd p) < 2 ^ 32) ps \<Longrightarrow>
    \<exists>ctx'. md5_feed ps ctx = Some ctx' \<and> absorbed ctx' (msg @ concat (map snd ps))"
proof (induction ps arbitrary: ctx msg)
  case (Cons p ps)
  obtain addr piece where p: "p = (addr, piece)" by (cases p)
  from process_bytes_ok [OF Cons.prems(1), of piece addr] Cons.prems(2) p obtain ctx1 where
    "md5_process_bytes addr piece ctx = Some ctx1" "absorbed ctx1 (msg @ piece)" by auto
  with Cons.IH [of ctx1 "msg @ piece"] Cons.prems(2) p show ?case by auto
qed auto

text \<open> C29: the digest does not depend on how the message arrives.  However a message is cut into
  pieces for \<open>md5_process_bytes\<close>, and wherever the pieces lie in memory, \<open>md5_finish_ctx\<close> returns
  the MD5 digest of RFC 1321 of the whole message, and no access leaves the buffer of the context;
  a piece must be shorter than 4 GB, for which the length counter is right.\<close>

theorem md5_any_pieces:
  assumes "length (md_buffer junk) = 128" "list_all (\<lambda>p. length (snd p) < 2 ^ 32) pieces"
  shows "\<exists>ctx ctx'. md5_feed pieces (md5_init_ctx junk) = Some ctx \<and>
    md5_finish_ctx ctx = Some (ctx', rfc_md5 (concat (map snd pieces)))"
  using feed_ok [OF absorbed_init [OF assms(1)] assms(2)] finish_ok by fastforce

definition md5_junk :: md5_ctx where
  "md5_junk = \<lparr>md_state = (1, 2, 3, 4), md_total0 = 5, md_total1 = 6, md_buflen = 7, md_buffer = replicate 128 8\<rparr>"

lemma md5_any_pieces_witness:
  "\<exists>ctx ctx'. md5_feed [(1, [97]), (2, replicate 100 98), (8, replicate 64 99)] (md5_init_ctx md5_junk) = Some ctx \<and>
    md5_finish_ctx ctx = Some (ctx', rfc_md5 ([97] @ replicate 100 98 @ replicate 64 99))"
  using md5_any_pieces [of md5_junk "[(1, [97]), (2, replicate 100 98), (8, replicate 64 99)]"]
  by (simp add: md5_junk_def)

text \<open> C30: the digest of a file is that of its contents, however \<open>fread\<close> delivers them; a read error is
  reported.\<close>

theorem md5_stream_digest:
  assumes "length (md_buffer junk) = 128" "[] \<notin> set pieces"
  shows "md5_stream junk addr (pieces, err) = Some (if err then None else Some (rfc_md5 (concat pieces)))"
proof -
  have a: "absorbed (md5_init_ctx junk) []" "md_buflen (md5_init_ctx junk) = 0"
    using absorbed_init [OF assms(1)] by (simp_all add: md5_init_ctx_def)
  show ?thesis
  proof (cases err)
    case True
    with stream_loop_ok [OF a, of "(pieces, err)"] assms(2) show ?thesis by (simp add: md5_stream_def)
  next
    case False
    with stream_loop_ok [OF a, of "(pieces, err)"] assms(2) obtain ctx used buf where l:
      "md5_stream_loop (pieces, err) (md5_init_ctx junk) = Some (Some (ctx, buf))" "concat pieces = used @ buf"
      "absorbed ctx used" "length buf < BLOCKSIZE" by auto
    have "\<exists>ctx1. (if 0 < length buf then md5_process_bytes addr buf ctx else Some ctx) = Some ctx1 \<and>
        absorbed ctx1 (used @ buf)"
      using process_bytes_ok [OF l(3), of buf addr] l(3,4) by auto
    then obtain ctx1 where p: "(if 0 < length buf then md5_process_bytes addr buf ctx else Some ctx) = Some ctx1"
      "absorbed ctx1 (used @ buf)" by blast
    from finish_ok [OF p(2)] obtain ctx2 where "md5_finish_ctx ctx1 = Some (ctx2, rfc_md5 (used @ buf))" by blast
    with l(1,2) p(1) False show ?thesis
      unfolding md5_stream_def by simp
  qed
qed

lemma md5_stream_digest_witness:
  "md5_stream md5_junk 0 ([[97], [98, 99]], False) = Some (Some (rfc_md5 [97, 98, 99]))"
  using md5_stream_digest [of md5_junk "[[97], [98, 99]]" 0 False] by (simp add: md5_junk_def)

lemma md5_buffer_rfc:
  assumes "length (md_buffer junk) = 128" "length msg < 2 ^ 32"
  shows "md5_buffer junk addr msg = Some (rfc_md5 msg)"
  using process_bytes_ok [OF absorbed_init [OF assms(1)] assms(2), of addr] finish_ok
  by (fastforce simp: md5_buffer_def)

lemma rfc_md5_abc:
  "rfc_md5 (ascii ''abc'') = [0x90, 0x01, 0x50, 0x98, 0x3c, 0xd2, 0x4f, 0xb0, 0xd6, 0x96, 0x3f, 0x7d, 0x28, 0xe1, 0x7f, 0x72]"
proof -
  have "md5_buffer md5_junk 0 (ascii ''abc'') =
      Some [0x90, 0x01, 0x50, 0x98, 0x3c, 0xd2, 0x4f, 0xb0, 0xd6, 0x96, 0x3f, 0x7d, 0x28, 0xe1, 0x7f, 0x72]"
    by code_simp
  then show ?thesis
    using md5_buffer_rfc [of md5_junk "ascii ''abc''" 0] by (simp add: md5_junk_def ascii_def)
qed

end
