(* ===== verification/Sanei_Auth_Props.thy ===== *)
theory Sanei_Auth_Props
  imports Sanei_Auth Md5_Props Saned_Faults
begin

text \<open>
  Authorization by the users file: \<open>sanei_authorize\<close> decides by the entries \<open>user:password:resource\<close> of
  the file, with the digest of \<^verbatim>\<open>lib/md5.c\<close> as \<open>Md5_Props\<close> characterises it, and a daemon that uses
  it opens no device for a wrong answer.
\<close>

section \<open>The policy\<close>

definition entry :: "byte list \<Rightarrow> byte list \<Rightarrow> byte list \<Rightarrow> byte list \<Rightarrow> bool" where
  \<comment> \<open>the line \<open>user:password:resource\<close>\<close>
  "entry line user secret resource \<longleftrightarrow>
     line = user @ 58 # secret @ 58 # resource \<and> 58 \<notin> set user \<and> 58 \<notin> set secret"

definition accepts :: "byte list \<Rightarrow> byte list \<Rightarrow> byte list \<Rightarrow> bool" where
  \<comment> \<open>an answer to a challenge: the digest of the salt and the password, or the password itself\<close>
  "accepts ch secret answer \<longleftrightarrow>
     (if take 5 answer = md5_tag
      then (\<exists>salt. strstr_after ch md5_tag = Some salt \<and> answer = hex_digest (rfc_md5 (salt @ take 128 secret)))
      else answer = secret)"

lemma md5_tag_length: "length md5_tag = 5"
  by (simp add: md5_tag_def ascii_def)

lemma hex_chars_length: "length (hex_chars n v) \<le> n"
  by (induction n arbitrary: v) auto

lemma strstr_after_found:
  "\<exists>r. strstr_after (pre @ pat @ post) pat = Some r \<and> length r \<le> length pre + length post"
proof (induction pre)
  case Nil
  then show ?case by (subst strstr_after.simps) simp
next
  case (Cons c pre)
  then obtain r where r: "strstr_after (pre @ pat @ post) pat = Some r" "length r \<le> length pre + length post" by blast
  show ?case
  proof (cases "take (length pat) ((c # pre) @ pat @ post) = pat")
    case True
    then show ?thesis by (subst strstr_after.simps) simp
  next
    case False
    with r show ?thesis by (subst strstr_after.simps) auto
  qed
qed

lemma challenge_salt: "\<exists>salt. strstr_after (challenge env resource) md5_tag = Some salt \<and> length salt \<le> 168"
proof -
  define post where "post = hex_chars 8 (unat (au_pid env)) @ hex_chars 16 (unat (au_time env)) @
    pad_zeros 8 (hex_chars 16 (unat (randombits env)))"
  have "length post \<le> 40"
    using hex_chars_length [of 8 "unat (au_pid env)"] hex_chars_length [of 16 "unat (au_time env)"]
      hex_chars_length [of 16 "unat (randombits env)"]
    by (simp add: post_def pad_zeros_def)
  moreover have "challenge env resource = take 128 resource @ md5_tag @ post"
    by (simp add: challenge_def post_def)
  ultimately show ?thesis
    using strstr_after_found [of "take 128 resource" md5_tag post] by fastforce
qed

lemma check_passwd_accepts:
  assumes "length (md_buffer (au_ctx env)) = 128"
  shows "check_passwd env answer secret (challenge env resource) = Some (accepts (challenge env resource) secret answer)"
proof -
  obtain salt where s: "strstr_after (challenge env resource) md5_tag = Some salt" "length salt \<le> 168"
    using challenge_salt by blast
  then have "length (salt @ take 128 secret) < 512" "length (salt @ take 128 secret) < 2 ^ 32" by simp_all
  then show ?thesis
    using s md5_buffer_rfc [OF assms, of "salt @ take 128 secret"]
    by (simp add: check_passwd_def accepts_def Let_def not_le)
qed

section \<open>Entries\<close>

lemma strchr_colon: "strchr_idx s 58 = Some i \<longleftrightarrow> (\<exists>post. s = take i s @ 58 # post \<and> length (take i s) = i \<and> 58 \<notin> set (take i s))"
proof
  assume i: "strchr_idx s 58 = Some i"
  from strchr_idx_Some [OF i] have "i < length s" "s ! i = 58" "58 \<notin> set (take i s)" by auto
  then show "\<exists>post. s = take i s @ 58 # post \<and> length (take i s) = i \<and> 58 \<notin> set (take i s)"
    using id_take_nth_drop [of i s] by (intro exI [of _ "drop (Suc i) s"]) simp
next
  assume "\<exists>post. s = take i s @ 58 # post \<and> length (take i s) = i \<and> 58 \<notin> set (take i s)"
  then obtain pre post where s: "s = pre @ 58 # post" "length pre = i" "58 \<notin> set pre" by metis
  then have "takeWhile (\<lambda>x. x \<noteq> 58) s = pre"
    by (simp add: takeWhile_append)
  with s show "strchr_idx s 58 = Some i" by (simp add: strchr_idx_def)
qed

lemma strchr_split: "58 \<notin> set pre \<Longrightarrow> strchr_idx (pre @ 58 # post) 58 = Some (length pre)"
  by (subst strchr_colon) auto

lemma strchr_obtain:
  assumes "strchr_idx s 58 = Some i" obtains pre post where "s = pre @ 58 # post" "length pre = i" "58 \<notin> set pre"
  using assms unfolding strchr_colon by metis

lemma names_resource_entry: "names_resource resource line \<longleftrightarrow> (\<exists>user secret. entry line user secret resource)"
proof
  assume n: "names_resource resource line"
  then obtain i where i: "strchr_idx line 58 = Some i" by (auto simp: names_resource_def after_colon_def split: option.splits)
  then obtain user post where u: "line = user @ 58 # post" "length user = i" "58 \<notin> set user" by (rule strchr_obtain)
  with n i obtain j where j: "strchr_idx post 58 = Some j" "drop (Suc j) post = resource"
    by (auto simp: names_resource_def after_colon_def split: option.splits)
  from j(1) obtain secret post2 where "post = secret @ 58 # post2" "length secret = j" "58 \<notin> set secret" by (rule strchr_obtain)
  with u j(2) show "\<exists>user secret. entry line user secret resource" by (auto simp: entry_def)
qed (auto simp: entry_def names_resource_def after_colon_def strchr_split)

lemma check_entry_spec:
  assumes "length (md_buffer (au_ctx env)) = 128"
  shows "check_entry env user answer resource (challenge env r) line =
    Some (\<exists>secret. entry line user secret resource \<and> accepts (challenge env r) secret answer)"
proof (cases "take (length user) line = user \<and> strchr_idx line 58 = Some (length user)")
  case False
  then have "\<not> entry line user secret resource" for secret
    using strchr_split [of user "secret @ 58 # resource"] by (auto simp: entry_def)
  with False show ?thesis by (auto simp: check_entry_def)
next
  case True
  from conjunct2 [OF True] obtain pre post where l: "line = pre @ 58 # post" "length pre = length user" "58 \<notin> set pre"
    by (rule strchr_obtain)
  with True have pre: "pre = user" by simp
  show ?thesis
  proof (cases "strchr_idx post 58")
    case None
    have "\<not> entry line user secret resource" for secret
    proof
      assume "entry line user secret resource"
      then have "post = secret @ 58 # resource" "58 \<notin> set secret" using l pre by (auto simp: entry_def)
      with None strchr_split [of secret resource] show False by simp
    qed
    with None True l pre show ?thesis by (auto simp: check_entry_def)
  next
    case (Some j)
    then obtain secret post2 where p: "post = secret @ 58 # post2" "length secret = j" "58 \<notin> set secret" by (rule strchr_obtain)
    have e: "entry line user s resource \<longleftrightarrow> s = secret \<and> post2 = resource" for s
    proof
      assume "entry line user s resource"
      then have e: "post = s @ 58 # resource" "58 \<notin> set s" using l pre by (auto simp: entry_def)
      then have "strchr_idx post 58 = Some (length s)" using strchr_split by metis
      with Some p(2) have len: "length secret = length s" by simp
      have "secret @ 58 # post2 = s @ 58 # resource" using e(1) p(1) by simp
      with len show "s = secret \<and> post2 = resource" by simp
    next
      assume "s = secret \<and> post2 = resource"
      with l p pre show "entry line user s resource" by (simp add: entry_def)
    qed
    have "drop (Suc (length user)) line = post" using l(1) pre by simp
    then have "check_entry env user answer resource (challenge env r) line =
        (if post2 = resource then check_passwd env answer secret (challenge env r) else Some False)"
      using True Some p by (simp add: check_entry_def)
    then show ?thesis
      using check_passwd_accepts [OF assms] by (simp add: e)
  qed
qed

lemma find_resource_lines:
  "plain_lines ls \<Longrightarrow> length buf = 1024 \<Longrightarrow> length ls < n \<Longrightarrow>
    find_resource n resource buf (file_text ls) = Some (\<exists>l \<in> set ls. names_resource resource (trim l))"
proof (induction ls arbitrary: n buf)
  case Nil
  then show ?case by (cases n) (simp_all add: read_text_end)
next
  case (Cons l ls)
  obtain m where m: "n = Suc m" "length ls < m" using Cons.prems(3) by (cases n) auto
  obtain b where b: "sanei_config_read buf 1024 (file_text (l # ls)) = Cfg_Line b (file_text ls)" "c_str b = Some (trim l)"
    "length b = 1024" "plain_lines ls"
    using Cons.prems(1,2) by (rule read_text_line)
  show ?case
    unfolding m(1) find_resource.simps b(1) config_line.case b(2) option.case using Cons.IH [OF b(4,3) m(2)] by auto
qed

lemma find_user_lines:
  "length (md_buffer (au_ctx env)) = 128 \<Longrightarrow> plain_lines ls \<Longrightarrow> length buf = 1024 \<Longrightarrow> length ls < n \<Longrightarrow>
    find_user n env user answer resource (challenge env r) buf (file_text ls) =
      Some (\<exists>l \<in> set ls. \<exists>secret. entry (trim l) user secret resource \<and> accepts (challenge env r) secret answer)"
proof (induction ls arbitrary: n buf)
  case Nil
  then show ?case by (cases n) (simp_all add: read_text_end)
next
  case (Cons l ls)
  obtain m where m: "n = Suc m" "length ls < m" using Cons.prems(4) by (cases n) auto
  obtain b where b: "sanei_config_read buf 1024 (file_text (l # ls)) = Cfg_Line b (file_text ls)" "c_str b = Some (trim l)"
    "length b = 1024" "plain_lines ls"
    using Cons.prems(2,3) by (rule read_text_line)
  show ?case
    unfolding m(1) find_user.simps b(1) config_line.case b(2) option.case check_entry_spec [OF Cons.prems(1)]
    using Cons.IH [OF Cons.prems(1) b(4,3) m(2)] by (auto split: bool.split)
qed

section \<open>Properties\<close>

lemma authorize_cases:
  assumes f: "sanei_config_open (au_files env) (au_paths env) (backend @ ascii ''.users'') = Some (file_text ls)"
    and ls: "plain_lines ls" and ctx: "length (md_buffer (au_ctx env)) = 128"
  shows "if 249 < length backend then sanei_authorize env resource backend cb = Ret (SANE_STATUS_ACCESS_DENIED, True)
    else if \<not> (\<exists>l \<in> set ls. \<exists>user secret. entry (trim l) user secret resource)
    then sanei_authorize env resource backend cb = Ret (SANE_STATUS_GOOD, False)
    else if \<not> cb then sanei_authorize env resource backend cb = Ret (SANE_STATUS_ACCESS_DENIED, False)
    else \<exists>k. sanei_authorize env resource backend cb = Auth (Some (mk_cstr (challenge env resource))) k \<and>
      (\<forall>u p user answer. c_str u = Some user \<longrightarrow> c_str p = Some answer \<longrightarrow>
         k (u, p) = Ret (if \<exists>l \<in> set ls. \<exists>secret. entry (trim l) user secret resource \<and>
             accepts (challenge env resource) secret answer
           then SANE_STATUS_GOOD else SANE_STATUS_ACCESS_DENIED, False))"
proof -
  have n: "length ls < Suc (length (file_text ls))"
    using file_text_length [of ls] by simp
  have b: "length (replicate 1024 (0 :: byte)) = 1024" by simp
  have r: "find_resource (Suc (length (file_text ls))) resource (replicate 1024 0) (file_text ls) =
      Some (\<exists>l \<in> set ls. \<exists>user secret. entry (trim l) user secret resource)"
    using find_resource_lines [OF ls b n] by (simp only: names_resource_entry)
  note u = find_user_lines [OF ctx ls b n]
  have len: "256 \<le> length (backend @ ascii ''.users'') \<longleftrightarrow> 249 < length backend" by (auto simp: ascii_def)
  show ?thesis
    unfolding sanei_authorize_def f option.case r len
    by (auto simp: Let_def u auth_status_def simp del: find_resource.simps find_user.simps split: bool.splits)
qed

text \<open> C31: who is authorized.  A backend name of 250 or more bytes overflows the name of its users file, which
  is printed into 256 bytes.  For any other backend and a users file of plain lines, a resource that no line names is free; one
  that a line names is refused to a frontend without a callback; and otherwise the callback is
  called once, with a challenge, and its answer decides: the status is good exactly when the file
  has an entry of the user for the resource with a password that the answer proves, by the MD5
  digest of the salt of the challenge and the password, or in plain text.  No other buffer overflows.\<close>

theorem authorize_policy:
  assumes f: "sanei_config_open (au_files env) (au_paths env) (backend @ ascii ''.users'') = Some (file_text ls)"
    and ls: "plain_lines ls" and ctx: "length (md_buffer (au_ctx env)) = 128"
  shows "if 249 < length backend then sanei_authorize env resource backend cb = Ret (SANE_STATUS_ACCESS_DENIED, True)
    else if \<not> (\<exists>l \<in> set ls. \<exists>user secret. entry (trim l) user secret resource)
    then sanei_authorize env resource backend cb = Ret (SANE_STATUS_GOOD, False)
    else if \<not> cb then sanei_authorize env resource backend cb = Ret (SANE_STATUS_ACCESS_DENIED, False)
    else \<exists>k. sanei_authorize env resource backend cb = Auth (Some (mk_cstr (challenge env resource))) k \<and>
      (\<forall>u p user answer. c_str u = Some user \<longrightarrow> c_str p = Some answer \<longrightarrow>
         k (u, p) = Ret (if \<exists>l \<in> set ls. \<exists>secret. entry (trim l) user secret resource \<and>
             accepts (challenge env resource) secret answer
           then SANE_STATUS_GOOD else SANE_STATUS_ACCESS_DENIED, False))"
  using assms by (rule authorize_cases)

definition ex_users :: auth_env where
  \<comment> \<open>one user, \<open>al\<close> with the password \<open>pw\<close>, for the device \<open>test\<close>\<close>
  "ex_users = \<lparr>au_files = (\<lambda>f. Some (file_text [ascii ''al:pw:test''])), au_paths = ascii ''/etc'', au_pid = 1, au_time = 2,
     au_urandom = None, au_rand = 3, au_ctx = md5_junk, au_addr = 0\<rparr>"

lemma ex_users_file:
  "sanei_config_open (au_files ex_users) (au_paths ex_users) (b @ ascii ''.users'') = Some (file_text [ascii ''al:pw:test''])"
  "plain_lines [ascii ''al:pw:test'']" "length (md_buffer (au_ctx ex_users)) = 128"
  by (simp_all add: sanei_config_open_def ex_users_def ascii_def plain_lines_def md5_junk_def)

lemma ex_users_entry: "entry (trim (ascii ''al:pw:test'')) user secret (ascii ''test'') \<longleftrightarrow> user = ascii ''al'' \<and> secret = ascii ''pw''"
proof -
  have t: "trim (ascii ''al:pw:test'') = ascii ''al'' @ 58 # ascii ''pw'' @ 58 # ascii ''test''" by code_simp
  have c: "58 \<notin> set (ascii ''al'')" "58 \<notin> set (ascii ''pw'')" by code_simp+
  show ?thesis
  proof
    assume "entry (trim (ascii ''al:pw:test'')) user secret (ascii ''test'')"
    then have e: "ascii ''al'' @ 58 # ascii ''pw'' @ 58 # ascii ''test'' = user @ 58 # secret @ 58 # ascii ''test''"
      "58 \<notin> set user" by (simp_all add: entry_def t)
    have "strchr_idx (ascii ''al'' @ 58 # ascii ''pw'' @ 58 # ascii ''test'') 58 = Some (length user)"
      unfolding e(1) by (rule strchr_split [OF e(2)])
    then have "length user = length (ascii ''al'')" using strchr_split [OF c(1)] by simp
    with e(1) show "user = ascii ''al'' \<and> secret = ascii ''pw''" by simp
  qed (use c in \<open>simp add: entry_def t\<close>)
qed

lemma authorize_policy_witness:
  "\<exists>k. sanei_authorize ex_users (ascii ''test'') (ascii ''saned'') True =
      Auth (Some (mk_cstr (challenge ex_users (ascii ''test'')))) k \<and>
    k (mk_cstr (ascii ''al''), mk_cstr (ascii ''pw'')) = Ret (SANE_STATUS_GOOD, False) \<and>
    k (mk_cstr (ascii ''al''), mk_cstr (ascii ''no'')) = Ret (SANE_STATUS_ACCESS_DENIED, False)"
proof -
  have s: "c_str (mk_cstr (ascii ''al'')) = Some (ascii ''al'')" "c_str (mk_cstr (ascii ''pw'')) = Some (ascii ''pw'')"
    "c_str (mk_cstr (ascii ''no'')) = Some (ascii ''no'')" by code_simp+
  have a: "accepts ch (ascii ''pw'') (ascii ''pw'')" "\<not> accepts ch (ascii ''pw'') (ascii ''no'')" for ch
    by (simp_all add: accepts_def ascii_def md5_tag_def)
  have "\<not> 249 < length (ascii ''saned'')" by (simp add: ascii_def)
  then show ?thesis
    using authorize_policy [OF ex_users_file, where resource = "ascii ''test''" and backend = "ascii ''saned''" and cb = True] s a ex_users_entry by auto
qed

lemma on_wire_be: "sd_be (fst (on_wire f s)) = sd_be s"
  by (simp add: on_wire_def split: prod.split)

lemma send_reply_handles: "sd_handle (send_reply c v s) = sd_handle s"
  by (simp add: send_reply_def)

text \<open> C32: a wrong password opens no device.  When the users file of the daemon protects the device named
  by an open request, and the answer the callback gets from the client proves no password of an
  entry for it, the request is answered with \<open>SANE_STATUS_ACCESS_DENIED\<close>: the backend is not called
  and no handle is taken.\<close>

theorem open_needs_password:
  assumes f: "sanei_config_open (au_files env) (au_paths env) (ascii ''saned'' @ ascii ''.users'') = Some (file_text ls)"
    and ls: "plain_lines ls" and ctx: "length (md_buffer (au_ctx env)) = 128"
    and dev: "takeWhile (\<lambda>c. c \<noteq> 58) resource = dev" "l \<in> set ls" "entry (trim l) u0 s0 dev"
    and answer: "auth_callback s (Some (mk_cstr (challenge env dev))) = (s1, u, p)" "c_str u = Some user" "c_str p = Some answer"
    and wrong: "\<not> (\<exists>l \<in> set ls. \<exists>secret. entry (trim l) user secret dev \<and> accepts (challenge env dev) secret answer)"
  shows "\<exists>s2. open_device (with_users env be) name resource s = Some (s2, 0) \<and> sd_be s2 = sd_be s \<and> sd_handle s2 = sd_handle s \<and>
    s2 = fst (on_wire (\<lambda>w. sanei_w_free w sanei_w_string (Some name))
      (send_reply sanei_w_open_reply (open_reply_of SANE_STATUS_ACCESS_DENIED 0) (s1\<lparr>sd_can_auth := False\<rparr>)))"
proof -
  obtain k where k: "sanei_authorize env dev (ascii ''saned'') True = Auth (Some (mk_cstr (challenge env dev))) k"
    "k (u, p) = Ret (SANE_STATUS_ACCESS_DENIED, False)"
  proof -
    have "\<exists>l \<in> set ls. \<exists>user secret. entry (trim l) user secret dev" using dev(2,3) by blast
    moreover have "\<not> 249 < length (ascii ''saned'')" by (simp add: ascii_def)
    ultimately obtain k where
      k: "sanei_authorize env dev (ascii ''saned'') True = Auth (Some (mk_cstr (challenge env dev))) k"
      "\<forall>u p user answer. c_str u = Some user \<longrightarrow> c_str p = Some answer \<longrightarrow>
         k (u, p) = Ret (if \<exists>l \<in> set ls. \<exists>secret. entry (trim l) user secret dev \<and> accepts (challenge env dev) secret answer
           then SANE_STATUS_GOOD else SANE_STATUS_ACCESS_DENIED, False)"
      using authorize_cases [OF f ls ctx, where resource = dev and cb = True] by simp blast
    from k(2) answer(2,3) wrong have "k (u, p) = Ret (SANE_STATUS_ACCESS_DENIED, False)" by simp
    with k(1) that show thesis by blast
  qed
  then have "run_call (b_authorize (with_users env be) (takeWhile (\<lambda>c. c \<noteq> 58) resource)) s = (s1, SANE_STATUS_ACCESS_DENIED)"
    using answer(1) by (simp add: with_users_def dev(1))
  then have "open_device (with_users env be) name resource s =
      Some (fst (on_wire (\<lambda>w. sanei_w_free w sanei_w_string (Some name))
        (send_reply sanei_w_open_reply (open_reply_of SANE_STATUS_ACCESS_DENIED 0) (s1\<lparr>sd_can_auth := False\<rparr>))), 0)"
    by (simp add: open_device_def)
  then show ?thesis
    using auth_callback_table [OF answer(1)] by (simp add: on_wire_be send_reply_handles)
qed

definition wrong_answer :: "unit saned" where
  \<comment> \<open>an open request under way, and an answer with the user \<open>al\<close> and the password \<open>no\<close>\<close>
  "wrong_answer = (ex_saned 0 [] (ex_wire\<lparr>w_size := 512, w_mem := replicate 512 0,
     w_rd := [RData (be32 SANE_NET_AUTHORIZE @ be32 0 @ be32 3 @ mk_cstr (ascii ''al'') @ be32 3 @ mk_cstr (ascii ''no''))]\<rparr>))
     \<lparr>sd_can_auth := True, sd_request := SANE_NET_OPEN\<rparr>"

lemma wrong_answer_run:
  "case auth_callback wrong_answer (Some (mk_cstr (challenge ex_users (ascii ''test'')))) of
     (s1, u, p) \<Rightarrow> c_str u = Some (ascii ''al'') \<and> c_str p = Some (ascii ''no'')"
  by code_simp

lemma open_needs_password_witness:
  "\<exists>s2. open_device (with_users ex_users ex_backend) (mk_cstr (ascii ''test:0'')) (ascii ''test:0'') wrong_answer = Some (s2, 0) \<and>
     sd_handle s2 = sd_handle wrong_answer"
proof -
  obtain s1 u p where a: "auth_callback wrong_answer (Some (mk_cstr (challenge ex_users (ascii ''test'')))) = (s1, u, p)"
    by (metis prod_cases3)
  have c: "c_str u = Some (ascii ''al'')" "c_str p = Some (ascii ''no'')"
    using wrong_answer_run unfolding a by simp_all
  have dev: "takeWhile (\<lambda>c. c \<noteq> 58) (ascii ''test:0'') = ascii ''test''" by code_simp
  have e: "ascii ''al:pw:test'' \<in> set [ascii ''al:pw:test'']"
    "entry (trim (ascii ''al:pw:test'')) (ascii ''al'') (ascii ''pw'') (ascii ''test'')"
    using ex_users_entry by simp_all
  have w: "\<not> (\<exists>l \<in> set [ascii ''al:pw:test'']. \<exists>secret. entry (trim l) (ascii ''al'') secret (ascii ''test'') \<and>
      accepts (challenge ex_users (ascii ''test'')) secret (ascii ''no''))"
    using ex_users_entry by (auto simp: accepts_def ascii_def md5_tag_def)
  show ?thesis
    using open_needs_password [OF ex_users_file dev e a c w, of ex_backend "mk_cstr (ascii ''test:0'')"] by auto
qed

end
