(* ===== verification/Net_Inv.thy ===== *)
theory Net_Inv
  imports Net_Examples
begin

text \<open>
  The state of the network client over its lifetime: the hosts stay distinct, every scanner in the list
  of handles belongs to a registered host, and the buffer for the length of a record is never left.
\<close>

section \<open>The invariant\<close>

definition rec_ok :: "net_scanner \<Rightarrow> bool" where
  "rec_ok s \<longleftrightarrow> length (ns_reclen s) = 4 \<and> 0 \<le> ns_offset s \<and> ns_offset s < 4"

definition client_ok :: "net_client \<Rightarrow> bool" where
  "client_ok c \<longleftrightarrow> distinct (map nd_name (nc_devs c)) \<and> distinct (map fst (nc_handles c)) \<and>
     list_all (\<lambda>(h, s). h < nc_next c \<and> ns_hw s < length (nc_devs c) \<and> rec_ok s) (nc_handles c)"

definition same_frame :: "net_client \<Rightarrow> net_client \<Rightarrow> bool" where
  \<comment> \<open>the same hosts, and the same handles on them\<close>
  "same_frame c c' \<longleftrightarrow> map nd_name (nc_devs c') = map nd_name (nc_devs c) \<and> nc_next c' = nc_next c \<and>
     map (\<lambda>(h, s). (h, ns_hw s)) (nc_handles c') = map (\<lambda>(h, s). (h, ns_hw s)) (nc_handles c)"

definition keeps :: "net_client \<Rightarrow> net_client \<Rightarrow> bool" where
  "keeps c c' \<longleftrightarrow> (client_ok c \<longrightarrow> client_ok c' \<and> same_frame c c')"

definition same_scanner :: "net_scanner \<Rightarrow> net_scanner \<Rightarrow> bool" where
  "same_scanner s s' \<longleftrightarrow> ns_hw s' = ns_hw s \<and> (rec_ok s \<longrightarrow> rec_ok s')"

named_theorems keeps_intro \<open>steps that keep the hosts and the handles\<close>

lemma keeps_refl [keeps_intro]: "keeps c c"
  by (simp add: keeps_def same_frame_def)

lemma keeps_trans: "keeps a b \<Longrightarrow> keeps b c \<Longrightarrow> keeps a c"
  by (simp add: keeps_def same_frame_def)

lemma same_scanner_refl [simp]: "same_scanner s s"
  by (simp add: same_scanner_def)

lemma same_scanner_trans: "same_scanner a b \<Longrightarrow> same_scanner b c \<Longrightarrow> same_scanner a c"
  by (simp add: same_scanner_def)

lemma keeps_fields:
  assumes "nc_devs c' = nc_devs c" "nc_handles c' = nc_handles c" "nc_next c' = nc_next c"
  shows "keeps c c'"
  using assms by (simp add: keeps_def client_ok_def same_frame_def)

lemma keeps_devs:
  assumes "map nd_name (nc_devs c') = map nd_name (nc_devs c)" "nc_handles c' = nc_handles c" "nc_next c' = nc_next c"
  shows "keeps c c'"
proof -
  have "length (nc_devs c') = length (nc_devs c)" using arg_cong [OF assms(1), of length] by simp
  then show ?thesis using assms by (simp add: keeps_def client_ok_def same_frame_def)
qed

lemma keeps_fail [keeps_intro]: "keeps c (nc_fail c)"
  by (rule keeps_fields) (simp_all add: nc_fail_def)

lemma keeps_check [keeps_intro]: "keeps c (nc_check ok c)"
  by (simp add: nc_check_def keeps_intro)

lemma keeps_alloc [keeps_intro]: "keeps c (fst (nc_alloc c))"
  by (rule keeps_fields) (simp_all add: nc_alloc_def split: list.split)

lemma keeps_set_dev [keeps_intro]:
  assumes "\<And>d. nd_name (f d) = nd_name d"
  shows "keeps c (set_dev i f c)"
proof (cases "i < length (nc_devs c)")
  case True
  then have "map nd_name ((nc_devs c)[i := f (nc_devs c ! i)]) = map nd_name (nc_devs c)"
    using assms by (simp add: map_update list_update_same_conv)
  with True show ?thesis by (intro keeps_devs) (simp_all add: set_dev_def)
qed (simp add: set_dev_def keeps_intro)

lemma keeps_on_dev [keeps_intro]: "keeps c (fst (on_dev i f c))"
proof -
  obtain w x where f: "f (nd_wire (get_dev c i)) = (w, x)" by fastforce
  have "keeps c (set_dev i (\<lambda>d. d\<lparr>nd_wire := w\<rparr>) c)" by (rule keeps_set_dev) simp
  from keeps_trans [OF this keeps_check] show ?thesis by (simp add: on_dev_def f)
qed

lemma keeps_on_devD: "on_dev i f c = (c', x) \<Longrightarrow> keeps c c'"
  using keeps_on_dev [of c i f] by simp

lemma keeps_allocD: "nc_alloc c = (c', x) \<Longrightarrow> keeps c c'"
  using keeps_alloc [of c] by simp

lemma keeps_put [keeps_intro]:
  assumes "get_scanner c h = Some s0" "same_scanner s0 s"
  shows "keeps c (put_scanner h s c)"
  unfolding keeps_def
proof
  assume ok: "client_ok c"
  have uniq: "t = s0" if "(h, t) \<in> set (nc_handles c)" for t
    using that assms(1) ok map_of_eq_Some_iff [of "nc_handles c"] by (simp add: get_scanner_def client_ok_def)
  have hw: "map (\<lambda>(k, t). (k, ns_hw t)) (nc_handles (put_scanner h s c)) = map (\<lambda>(k, t). (k, ns_hw t)) (nc_handles c)"
    using uniq assms(2) by (auto simp: put_scanner_def same_scanner_def)
  have fst: "map fst (nc_handles (put_scanner h s c)) = map fst (nc_handles c)"
    by (auto simp: put_scanner_def)
  have "list_all (\<lambda>(k, t). k < nc_next c \<and> ns_hw t < length (nc_devs c) \<and> rec_ok t) (nc_handles (put_scanner h s c))"
    unfolding list_all_iff
  proof (clarify)
    fix k t assume "(k, t) \<in> set (nc_handles (put_scanner h s c))"
    then obtain t0 where t0: "(k, t0) \<in> set (nc_handles c)" "t = (if k = h then s else t0)"
      by (auto simp: put_scanner_def)
    with ok have "k < nc_next c \<and> ns_hw t0 < length (nc_devs c) \<and> rec_ok t0"
      by (auto simp: client_ok_def list_all_iff)
    with t0 uniq assms(2) show "k < nc_next c \<and> ns_hw t < length (nc_devs c) \<and> rec_ok t"
      by (cases "k = h") (auto simp: same_scanner_def)
  qed
  with ok hw fst show "client_ok (put_scanner h s c) \<and> same_frame c (put_scanner h s c)"
    by (simp add: client_ok_def same_frame_def) (simp add: put_scanner_def)
qed

section \<open>The operations keep it\<close>

lemma keeps_get_scanner:
  assumes "keeps c c'" "client_ok c" "get_scanner c h = Some s"
  obtains s' where "get_scanner c' h = Some s'" "ns_hw s' = ns_hw s"
proof -
  have hw: "map_of (map (\<lambda>(h, s). (h, ns_hw s)) hs) = map_option ns_hw \<circ> map_of hs" for hs
    by (induction hs) auto
  from assms have "map (\<lambda>(h, s). (h, ns_hw s)) (nc_handles c') = map (\<lambda>(h, s). (h, ns_hw s)) (nc_handles c)"
    by (simp add: keeps_def same_frame_def)
  from arg_cong [OF this, of map_of] have "map_option ns_hw (get_scanner c' h) = map_option ns_hw (get_scanner c h)"
    by (simp add: hw get_scanner_def fun_eq_iff)
  with assms(3) that show thesis by (cases "get_scanner c' h") auto
qed

lemma keeps_do_cancel [keeps_intro]: "keeps c (do_cancel h c)"
proof (cases "get_scanner c h")
  case (Some s)
  let ?c1 = "set_dev (ns_hw s) (\<lambda>d. d\<lparr>nd_auth_active := False\<rparr>) c"
  have k: "keeps c ?c1" by (rule keeps_set_dev) simp
  have "get_scanner ?c1 h = Some s" using Some by (simp add: set_dev_def nc_fail_def get_scanner_def)
  then have "keeps ?c1 (put_scanner h (s\<lparr>ns_data := - 1\<rparr>) ?c1)"
    by (rule keeps_put) (simp add: same_scanner_def rec_ok_def)
  with k show ?thesis using Some by (auto simp: do_cancel_def Let_def intro: keeps_trans)
qed (simp add: do_cancel_def keeps_intro)

lemma keeps_sane_cancel [keeps_intro]: "keeps c (sane_cancel h c)"
  by (auto simp: sane_cancel_def intro: keeps_intro keeps_trans [OF keeps_on_dev keeps_do_cancel] split: option.split)

lemma keeps_fold: "(\<And>x c. keeps c (f x c)) \<Longrightarrow> keeps c (fold f xs c)"
  by (induction xs arbitrary: c) (auto intro: keeps_intro keeps_trans)

lemma keeps_ask [keeps_intro]: "keeps c (fst (ask_frontend env r c))"
  by (auto simp: ask_frontend_def intro: keeps_intro keeps_fold split: option.split)

lemma keeps_do_authorization [keeps_intro]: "keeps c (do_authorization env i r c)"
proof -
  let ?c1 = "set_dev i (\<lambda>d. d\<lparr>nd_auth_active := True\<rparr>) c"
  have 1: "keeps c ?c1" by (rule keeps_set_dev) simp
  show ?thesis
  proof (cases "Option.bind r c_str")
    case None
    with 1 show ?thesis by (auto simp: do_authorization_def Let_def intro: keeps_trans keeps_fail)
  next
    case (Some res)
    obtain c2 ok where a: "nc_alloc ?c1 = (c2, ok)" by fastforce
    obtain c3 user pass where b: "ask_frontend env (if ok then net_resource_name (nd_name (get_dev ?c1 i)) res else res) c2 = (c3, user, pass)"
      by (metis prod_cases3)
    have "keeps c2 c3" using keeps_ask [of c2 env] b by (metis fst_conv)
    then have "keeps c c3" using 1 keeps_allocD [OF a] keeps_trans by blast
    then show ?thesis using Some a b by (auto simp: do_authorization_def Let_def intro: keeps_trans keeps_on_dev)
  qed
qed

lemma keeps_username [keeps_intro]: "keeps c (fst (get_current_username env c))"
  using keeps_alloc [of c]
  by (auto simp: get_current_username_def intro: keeps_trans keeps_fail split: prod.split option.split)

lemma keeps_connect [keeps_intro]: "keeps c (fst (connect_dev env i c))"
proof -
  obtain r evs where ca: "connect_addrs (nd_addr (get_dev c i)) (nc_conns c) = (r, evs)" by fastforce
  show ?thesis
  proof (cases r)
    case None
    with ca show ?thesis by (simp add: connect_dev_def keeps_fields)
  next
    case (Some al)
    obtain a l where al: "al = (a, l)" by fastforce
    let ?c0 = "c\<lparr>nc_conns := evs, nc_dialed := nc_dialed c @ [a]\<rparr>"
    let ?c1 = "set_dev i (\<lambda>d. d\<lparr>nd_addr_used := Some a, nd_ctl := int (ln_fd l), nd_wire := link_wire l (nd_wire d)\<rparr>) ?c0"
    obtain c2 user where u: "get_current_username env ?c1 = (c2, user)" by fastforce
    obtain c3 x reply where r1: "on_dev i (\<lambda>w. sanei_w_call w SANE_NET_INIT sanei_w_init_req
        \<lparr>irq_version_code = sane_version_code (fst (ce_version env)) (snd (ce_version env)) 3, irq_username = user\<rparr>
        sanei_w_init_reply (ce_init_junk env)) c2 = (c3, x, reply)" by (metis prod_cases3)
    obtain c4 reply4 where r2: "on_dev i (\<lambda>w. sanei_w_free w sanei_w_init_reply reply) c3 = (c4, reply4)" by fastforce
    have "keeps c ?c0" by (rule keeps_fields) simp_all
    moreover have "keeps ?c0 ?c1" by (rule keeps_set_dev) simp
    moreover have "keeps ?c1 c2" using keeps_username [of ?c1 env] u by simp
    ultimately have 3: "keeps c c3" using keeps_on_devD [OF r1] keeps_trans by blast
    then have 4: "keeps c c4" using keeps_on_devD [OF r2] keeps_trans by blast
    have sd: "keeps d (set_dev i (\<lambda>d. d\<lparr>nd_ctl := - 1\<rparr>) d)" "keeps d (set_dev i (\<lambda>d. d\<lparr>nd_wire := f (nd_wire d)\<rparr>) d)" for d f
      by (rule keeps_set_dev; simp)+
    show ?thesis unfolding connect_dev_def ca Some al prod.case option.case Let_def u r1 r2
      using 3 4 sd keeps_trans by (auto split: if_splits)
  qed
qed

lemma handles_on_dev [simp]: "nc_handles (fst (on_dev i f c)) = nc_handles c"
  by (simp add: on_dev_def set_dev_def nc_check_def nc_fail_def split: prod.split)

lemma handles_on_devD: "on_dev i f c = (c', x) \<Longrightarrow> nc_handles c' = nc_handles c"
  using handles_on_dev [of i f c] by simp

lemma handles_alloc: "nc_handles (fst (nc_alloc c)) = nc_handles c"
  by (simp add: nc_alloc_def split: list.split)

lemma allocs_frame: "nc_allocs n c = (c', ok) \<Longrightarrow> keeps c c' \<and> nc_handles c' = nc_handles c"
proof (induction n arbitrary: c)
  case (Suc n)
  obtain c1 ok1 where a: "nc_alloc c = (c1, ok1)" by fastforce
  with Suc show ?case using keeps_allocD [OF a] handles_alloc [of c] by (auto split: if_splits intro: keeps_trans)
qed (simp add: keeps_intro)

definition quiet :: "net_client \<Rightarrow> net_client \<Rightarrow> bool" where
  \<comment> \<open>a step that does not touch the handles at all\<close>
  "quiet c c' \<longleftrightarrow> keeps c c' \<and> nc_handles c' = nc_handles c"

lemma quiet_refl [simp]: "quiet c c"
  by (simp add: quiet_def keeps_intro)

lemma quiet_trans: "quiet a b \<Longrightarrow> quiet b c \<Longrightarrow> quiet a c"
  by (auto simp: quiet_def intro: keeps_trans)

lemma quiet_on_devD: "on_dev i f c = (c', x) \<Longrightarrow> quiet c c'"
  by (simp add: quiet_def keeps_on_devD handles_on_devD)

lemma alloc_local_frame:
  assumes "alloc_local s c = (c', s', st)"
  shows "quiet c c' \<and> same_scanner s s'"
proof (cases "oda_num_options (ns_local s) = 0")
  case True
  obtain c1 ok where a: "nc_alloc c = (c1, ok)" by fastforce
  obtain c2 ok2 where b: "(if ok then nc_allocs (loop_count (oda_num_options (ns_opt s))) c1 else (c1, False)) = (c2, ok2)"
    by fastforce
  have "quiet c c1" using keeps_allocD [OF a] handles_alloc [of c] a by (simp add: quiet_def)
  moreover have "quiet c1 c2" using b allocs_frame by (cases ok) (auto simp: quiet_def)
  ultimately have "quiet c c2" by (rule quiet_trans)
  with True a b assms show ?thesis
    by (auto simp: alloc_local_def Let_def same_scanner_def rec_ok_def split: if_splits)
next
  case False
  with assms show ?thesis by (auto simp: alloc_local_def split: if_splits)
qed

lemma free_options_frame:
  assumes "free_options s c = (c', s')"
  shows "quiet c c' \<and> same_scanner s s'"
  using assms by (auto simp: free_options_def same_scanner_def rec_ok_def dest: quiet_on_devD split: if_splits prod.splits)

lemma fetch_options_frame:
  assumes "fetch_options s0 c0 = (c', s', st)"
  shows "quiet c0 c' \<and> same_scanner s0 s'"
proof -
  obtain c s where a: "free_options s0 c0 = (c, s)" by fastforce
  note fa = free_options_frame [OF a]
  obtain c1 x opt where b: "on_dev (ns_hw s) (\<lambda>w. sanei_w_call w SANE_NET_GET_OPTION_DESCRIPTORS sanei_w_word
      (ns_handle s) sanei_w_option_descriptor_array (ns_opt s)) c = (c1, x, opt)" by (metis prod_cases3)
  let ?s1 = "s\<lparr>ns_opt := opt\<rparr>"
  have fb: "quiet c0 c1" using fa quiet_on_devD [OF b] quiet_trans by blast
  have s1: "same_scanner s0 ?s1" using fa by (auto simp: same_scanner_def rec_ok_def)
  obtain c2 s2 st2 where d: "alloc_local ?s1 c1 = (c2, s2, st2)" by (metis prod_cases3)
  have fd: "quiet c0 c2" "same_scanner s0 s2"
    using alloc_local_frame [OF d] fb s1 quiet_trans same_scanner_trans by blast+
  have fail: "quiet c0 (nc_fail c2)" using fd(1) by (auto simp: quiet_def intro: keeps_trans keeps_fail) (simp add: nc_fail_def)
  have upd: "same_scanner s0 (s2\<lparr>ns_local := x, ns_options_valid := v\<rparr>)" for x v
    using fd(2) by (simp add: same_scanner_def rec_ok_def)
  show ?thesis using assms fa fb s1 fd fail upd
    unfolding fetch_options_def a prod.case Let_def b d by (auto split: if_splits option.splits)
qed

lemma keeps_put_quiet:
  assumes "get_scanner c h = Some s0" "quiet c c'" "same_scanner s0 s"
  shows "keeps c (put_scanner h s c')"
proof -
  have "get_scanner c' h = Some s0" using assms(1,2) by (simp add: get_scanner_def quiet_def)
  with assms show ?thesis using keeps_put keeps_trans by (meson quiet_def)
qed

lemma keeps_descriptor [keeps_intro]: "keeps c (fst (sane_get_option_descriptor h opt c))"
proof (cases "get_scanner c h")
  case (Some s0)
  obtain c1 s st where f: "(if ns_options_valid s0 then (c, s0, SANE_STATUS_GOOD) else fetch_options s0 c) = (c1, s, st)"
    by (metis prod_cases3)
  then have "quiet c c1" "same_scanner s0 s" using fetch_options_frame [of s0 c] by (auto split: if_splits)
  from keeps_put_quiet [OF Some this] have "keeps c (put_scanner h s c1)" .
  with Some f show ?thesis
    by (auto simp: sane_get_option_descriptor_def Let_def intro: keeps_trans keeps_fail split: option.split)
qed (simp add: sane_get_option_descriptor_def keeps_intro)

subsection \<open>The loops that wait for a reply\<close>

lemma keeps_open_auth: "open_auth env i reply c = (c', r) \<Longrightarrow> keeps c c'"
  by (auto simp: open_auth_def split: prod.splits dest!: keeps_on_devD intro: keeps_trans keeps_do_authorization)

lemma keeps_control_auth: "control_auth env i reply c = (c', r) \<Longrightarrow> keeps c c'"
  by (auto simp: control_auth_def split: prod.splits dest!: keeps_on_devD)
    (meson keeps_check keeps_do_authorization keeps_trans)

lemma keeps_start_auth: "start_auth env i reply c = (c', r) \<Longrightarrow> keeps c c'"
  by (auto simp: start_auth_def split: prod.splits dest!: keeps_on_devD intro: keeps_trans keeps_do_authorization)

lemma keeps_open_loop:
  assumes "open_loop env i reply c = Some y"
  shows "keeps c (fst y)"
proof (rule open_loop.raw_induct [where P = "\<lambda>env i reply c y. keeps c (fst y)", OF _ assms], goal_cases)
  case (1 f env i reply c y)
  obtain c1 r1 where a: "open_auth env i reply c = (c1, r1)" by fastforce
  obtain c2 r2 where b: "on_dev i (\<lambda>w. sanei_w_free w sanei_w_open_reply reply) c = (c2, r2)" by fastforce
  show ?case using 1(2) 1(1) [of env i r1 c1 y] keeps_open_auth [OF a] keeps_on_devD [OF b] keeps_trans
    by (auto simp: a b keeps_intro split: if_splits)
qed

lemma keeps_control_loop:
  assumes "control_loop env h i sz want_info v reply c = Some y"
  shows "keeps c (fst y)"
proof (rule control_loop.raw_induct [where P = "\<lambda>env h i sz want_info v reply c y. keeps c (fst y)", OF _ assms], goal_cases)
  case (1 f env h i sz want_info v reply c y)
  show ?case
  proof (cases "cor_resource reply")
    case (Some r)
    show ?thesis
    proof (cases "r = []")
      case True
      with Some 1(2) show ?thesis using keeps_fail by auto
    next
      case False
      obtain c1 r1 where a: "control_auth env i reply c = (c1, r1)" by fastforce
      from Some False a 1(2) have "f env h i sz want_info v r1 c1 = Some y" by simp
      from 1(1) [OF this] keeps_control_auth [OF a] show ?thesis by (rule keeps_trans [rotated])
    qed
  next
    case None
    define c1 where "c1 = (if cor_status reply = SANE_STATUS_GOOD \<and> cor_info reply AND SANE_INFO_RELOAD_OPTIONS \<noteq> 0 then
      (case get_scanner c h of None \<Rightarrow> nc_fail c | Some s \<Rightarrow> put_scanner h (s\<lparr>ns_options_valid := False\<rparr>) c) else c)"
    define copied where "copied = (if cor_status reply = SANE_STATUS_GOOD then take_reply sz v reply else Some v)"
    have "keeps c c1"
      by (auto simp: c1_def same_scanner_def rec_ok_def intro: keeps_intro keeps_put split: option.split)
    moreover have "keeps c1 (nc_check (copied \<noteq> None \<and> \<not> freed_again reply) c1)" by (rule keeps_check)
    moreover have "keeps (nc_check (copied \<noteq> None \<and> \<not> freed_again reply) c1) (fst y)"
      using None 1(2) by (simp add: Let_def flip: c1_def copied_def split: prod.splits) (metis fst_conv keeps_on_devD)
    ultimately show ?thesis using keeps_trans by blast
  qed
qed

lemma keeps_start_loop:
  assumes "start_loop env i reply c = Some y"
  shows "keeps c (fst y)"
proof (rule start_loop.raw_induct [where P = "\<lambda>env i reply c y. keeps c (fst y)", OF _ assms], goal_cases)
  case (1 f env i reply c0 y)
  define c where "c = c0\<lparr>nc_server_big := (srp_byte_order reply \<noteq> 0x1234)\<rparr>"
  have k: "keeps c0 c" by (rule keeps_fields) (simp_all add: c_def)
  obtain c1 r1 where a: "start_auth env i reply c = (c1, r1)" by fastforce
  obtain c2 r2 where b: "on_dev i (\<lambda>w. sanei_w_free w sanei_w_start_reply reply) c = (c2, r2)" by fastforce
  have "keeps c (fst y)" using 1(2) 1(1) [of env i r1 c1 y] keeps_start_auth [OF a] keeps_on_devD [OF b] keeps_trans keeps_fail
    by (auto simp: a b Let_def simp flip: c_def split: if_splits)
  with k show ?case by (rule keeps_trans)
qed

subsection \<open>The calls of the API\<close>

lemma keeps_reload: "reload_options h want_info (c, x) = (c', y) \<Longrightarrow> keeps c c'"
  by (auto simp: reload_options_def intro: keeps_intro split: if_splits option.splits prod.splits
      dest!: fetch_options_frame dest: keeps_put_quiet)

lemma keeps_control_option:
  assumes "sane_control_option env h option action value0 want_info c = Some y"
  shows "keeps c (fst y)"
proof (cases "fst y = c \<or> fst y = nc_fail c")
  case True
  then show ?thesis using keeps_refl keeps_fail by auto
next
  case False
  from assms False obtain s d sz sz0 v c1 q reply r where
    "(case on_dev (ns_hw s) (\<lambda>w. sanei_w_call w SANE_NET_CONTROL_OPTION sanei_w_control_option_req
        (control_request s d option action sz v) sanei_w_control_option_reply (ce_control_junk env)) c of
      (c1, req, reply) \<Rightarrow> Option.bind (control_loop env h (ns_hw s) sz want_info v reply c1)
        (\<lambda>r. Some (reload_options h want_info r))) = Some y"
    by (auto simp: sane_control_option_def Let_def split: option.splits if_splits)
  then obtain c1 q reply r where r: "on_dev (ns_hw s) (\<lambda>w. sanei_w_call w SANE_NET_CONTROL_OPTION sanei_w_control_option_req
        (control_request s d option action sz v) sanei_w_control_option_reply (ce_control_junk env)) c = (c1, q, reply)"
      "control_loop env h (ns_hw s) sz want_info v reply c1 = Some r" "reload_options h want_info r = y"
    by (auto split: prod.splits bind_splits)
  have "keeps c c1" by (rule keeps_on_devD [OF r(1)])
  moreover have "keeps c1 (fst r)" by (rule keeps_control_loop [OF r(2)])
  moreover have "keeps (fst r) (fst y)" using keeps_reload r(3) by (metis prod.collapse)
  ultimately show ?thesis using keeps_trans by blast
qed

lemma keeps_get_parameters [keeps_intro]: "keeps c (fst (sane_get_parameters env h room c))"
proof -
  have "keeps d (d\<lparr>nc_depth := x\<rparr>)" for d x by (rule keeps_fields) simp_all
  then show ?thesis
    by (auto simp: sane_get_parameters_def intro: keeps_intro dest!: keeps_on_devD split: option.split prod.split)
      (meson keeps_on_dev keeps_trans)
qed

lemma keeps_open_data [keeps_intro]: "keeps c (fst (open_data h ev addr port c))"
proof (cases "get_scanner c h")
  case (Some s)
  have "keeps c (put_scanner h (s\<lparr>ns_data := int (ln_fd l), ns_offset := 0, ns_remaining := 0, ns_stream := ln_rd l\<rparr>)
    (c\<lparr>nc_dialed := nc_dialed c @ [set_port port addr]\<rparr>))" for l :: net_link
    by (rule keeps_put_quiet [OF Some]) (simp_all add: quiet_def keeps_fields same_scanner_def rec_ok_def)
  with Some show ?thesis by (simp add: open_data_def keeps_intro split: conn_ev.split)
qed (auto simp: open_data_def intro: keeps_intro split: conn_ev.split)

lemma keeps_start:
  assumes "sane_start env h c0 = Some y"
  shows "keeps c0 (fst y)"
proof -
  define c where "c = c0\<lparr>nc_hang := - 1, nc_left := - 1\<rparr>"
  obtain ev evs where ev: "(case nc_conns c of [] \<Rightarrow> (Sock_Fail, []) | e # es \<Rightarrow> (e, es)) = (ev, evs)" by fastforce
  define c1 where "c1 = c\<lparr>nc_conns := evs\<rparr>"
  have k: "keeps c0 c" "keeps c0 c1" "keeps c0 (nc_fail c)"
    by (rule keeps_fields; simp add: c_def c1_def nc_fail_def)+
  show ?thesis
  proof (cases "fst y = c \<or> fst y = nc_fail c \<or> fst y = c1")
    case True
    with k show ?thesis by auto
  next
    case False
    obtain s where s: "get_scanner c h = Some s" using assms False
      by (cases "get_scanner c h") (auto simp: sane_start_def Let_def simp flip: c_def)
    obtain addr where addr: "nd_addr_used (get_dev c (ns_hw s)) = Some addr" using assms False s
      by (cases "nd_addr_used (get_dev c (ns_hw s))") (auto simp: sane_start_def Let_def simp flip: c_def split: if_splits)
    from assms False s addr have *: "(case on_dev (ns_hw s) (\<lambda>w. sanei_w_call w SANE_NET_START sanei_w_word (ns_handle s)
          sanei_w_start_reply (ce_start_junk env)) c1 of
        (c2, a, reply) \<Rightarrow> Option.bind (start_loop env (ns_hw s) reply c2) (\<lambda>(c3, r).
          Some (case r of Inl status \<Rightarrow> (c3, status) | Inr port \<Rightarrow> open_data h ev addr port c3))) = Some y"
      by (auto simp: sane_start_def Let_def ev simp flip: c_def c1_def split: if_splits)
    obtain c2 a reply where 1: "on_dev (ns_hw s) (\<lambda>w. sanei_w_call w SANE_NET_START sanei_w_word (ns_handle s)
          sanei_w_start_reply (ce_start_junk env)) c1 = (c2, a, reply)" by (metis prod_cases3)
    with * obtain c3 r where 2: "start_loop env (ns_hw s) reply c2 = Some (c3, r)"
      and y: "y = (case r of Inl status \<Rightarrow> (c3, status) | Inr port \<Rightarrow> open_data h ev addr port c3)"
      by (auto split: bind_splits)
    have "keeps c0 c3" using k(2) keeps_on_devD [OF 1] keeps_start_loop [OF 2] keeps_trans by (metis fst_conv)
    with y show ?thesis using keeps_open_data keeps_trans by (auto split: sum.split)
  qed
qed

lemma io_read_at_most: "io_read n evs = (Inr bs, evs') \<Longrightarrow> length bs \<le> n"
  by (cases "(n, evs)" rule: io_read.cases) (auto split: if_splits)

lemma read_reclen_frame:
  assumes "read_reclen s = (s', r, ok)"
  shows "same_scanner s s'" and "rec_ok s \<Longrightarrow> ok"
proof -
  have "ns_hw s' = ns_hw s \<and> (rec_ok s \<longrightarrow> rec_ok s' \<and> ok)"
  proof (cases "io_read (nat ((4 - ns_offset s) mod 2 ^ 64)) (ns_stream s)")
    case (Pair x evs)
    show ?thesis
    proof (cases x)
      case (Inl e)
      with Pair assms show ?thesis by (auto simp: read_reclen_def rec_ok_def)
    next
      case (Inr bs)
      define off where "off = ns_offset s + int (length bs)"
      have b: "ok \<and> 0 \<le> off \<and> length (blit (ns_reclen s) (nat (ns_offset s)) bs) = 4"
        if "rec_ok s" "ok = (0 \<le> ns_offset s \<and> nat (ns_offset s) + length bs \<le> length (ns_reclen s))"
      proof -
        have "length bs \<le> nat (4 - ns_offset s)"
          using io_read_at_most [OF Pair [unfolded Inr]] that by (simp add: rec_ok_def)
        then show ?thesis using that by (auto simp: rec_ok_def off_def blit_def)
      qed
      show ?thesis
      proof (cases "off < 4")
        case True
        with assms Pair Inr b show ?thesis by (auto simp: read_reclen_def Let_def rec_ok_def off_def)
      next
        case False
        with assms Pair Inr b show ?thesis
          by (auto simp: read_reclen_def Let_def rec_ok_def simp flip: off_def split: if_splits sum.splits prod.splits list.splits)
      qed
    qed
  qed
  then show "same_scanner s s'" "rec_ok s \<Longrightarrow> ok" by (auto simp: same_scanner_def)
qed

lemma keeps_read_data:
  assumes "get_scanner c h = Some s0" "same_scanner s0 s"
  shows "keeps c (fst (read_data env h m room s c))"
proof -
  have put: "keeps c (put_scanner h (s\<lparr>ns_stream := evs, ns_remaining := r\<rparr>) c)"
    "keeps c (put_scanner h (s\<lparr>ns_stream := evs\<rparr>) c)" "keeps c (put_scanner h s c)" for evs r
    by (rule keeps_put [OF assms(1)], use assms(2) in \<open>simp add: same_scanner_def rec_ok_def\<close>)+
  have fields: "keeps d (d\<lparr>nc_hang := x, nc_left := y\<rparr>)" for d x y by (rule keeps_fields) simp_all
  show ?thesis
    unfolding read_data_def Let_def using put fields keeps_trans [OF _ keeps_do_cancel] keeps_trans [OF _ keeps_check]
      keeps_trans [OF _ fields] by (auto split: prod.split sum.split)
qed

lemma keeps_read [keeps_intro]: "keeps c (fst (sane_read env h m room c))"
proof (cases "swapping env c \<and> - 1 < nc_left c")
  case True
  have "keeps c (c\<lparr>nc_left := - 1\<rparr>)" by (rule keeps_fields) simp_all
  with True show ?thesis using keeps_trans [OF _ keeps_check] by (simp add: sane_read_def)
next
  case False
  show ?thesis
  proof (cases "get_scanner c h")
    case (Some s)
    obtain s1 r ok where rl: "read_reclen s = (s1, r, ok)" by (metis prod_cases3)
    let ?c1 = "nc_check ok (put_scanner h s1 c)"
    have k: "keeps c ?c1" using keeps_put [OF Some read_reclen_frame(1) [OF rl]] keeps_check keeps_trans by blast
    have "get_scanner ?c1 h = Some s1" using Some get_put_scanner(1) [of c h s1] by (simp add: nc_check_def nc_fail_def get_scanner_def)
    then have "keeps c (fst (read_data env h m room s1 ?c1))" using keeps_read_data keeps_trans k same_scanner_refl by blast
    moreover have "keeps c (do_cancel h ?c1)" using keeps_do_cancel keeps_trans k by blast
    moreover have "keeps c (fst (read_data env h m room s c))" using keeps_read_data [OF Some] by simp
    ultimately show ?thesis using False Some rl k
      by (auto simp: sane_read_def Let_def keeps_intro split: reclen_result.split)
  qed (use False in \<open>auto simp: sane_read_def keeps_intro\<close>)
qed

end
