(* ===== verification/Net_Reach.thy ===== *)
theory Net_Reach
  imports Net_Inv
begin

text \<open>
  The calls of the API in any order: the states a client reaches after \<open>sane_init\<close>, and what holds in
  all of them.
\<close>

section \<open>Devices and handles\<close>

lemma keeps_ok: "keeps c c' \<Longrightarrow> client_ok c \<Longrightarrow> client_ok c'"
  by (simp add: keeps_def)

lemma keeps_length: "keeps c c' \<Longrightarrow> client_ok c \<Longrightarrow> length (nc_devs c') = length (nc_devs c)"
  by (metis keeps_def same_frame_def length_map)

lemma find_dev_None: "find_dev c name = None \<Longrightarrow> name \<notin> set (map nd_name (nc_devs c))"
  by (auto simp: find_dev_def find_None_iff in_set_conv_nth)

lemma find_dev_Some: "find_dev c name = Some i \<Longrightarrow> i < length (nc_devs c) \<and> nd_name (nc_devs c ! i) = name"
  by (auto simp: find_dev_def find_Some_iff) (metis length_rev length_upt minus_nat.diff_0 nth_mem set_rev atLeastLessThan_upt atLeastLessThan_iff)+

lemma add_device_ok:
  assumes "client_ok c" "add_device env name c = (c', st, r)"
  shows "client_ok c'" and "r = Some i \<Longrightarrow> i < length (nc_devs c')"
proof -
  have "client_ok c' \<and> (\<forall>i. r = Some i \<longrightarrow> i < length (nc_devs c'))"
  proof (cases "find_dev c name")
    case (Some i)
    with assms find_dev_Some [OF Some] show ?thesis by (auto simp: add_device_def)
  next
    case None
    obtain c1 ok where a1: "nc_alloc c = (c1, ok)" by fastforce
    obtain c2 ok2 where a2: "nc_alloc c1 = (c2, ok2)" by fastforce
    have k1: "keeps c c1" by (rule keeps_allocD [OF a1])
    have k2: "keeps c c2" using k1 keeps_allocD [OF a2] by (rule keeps_trans)
    have n: "name \<notin> set (map nd_name (nc_devs c2))"
      using k2 find_dev_None [OF None] assms(1) by (simp only: keeps_def same_frame_def) simp
    have "client_ok (c2\<lparr>nc_devs := nc_devs c2 @ [new_net_device name addrs]\<rparr>)" for addrs
      using keeps_ok [OF k2 assms(1)] n
      by (auto simp: client_ok_def new_net_device_def list_all_iff less_Suc_eq)
    with None assms(2) a1 a2 keeps_ok [OF k1 assms(1)] keeps_ok [OF k2 assms(1)] assms(1) show ?thesis
      by (auto simp: add_device_def split: option.splits if_splits)
  qed
  then show "client_ok c'" "r = Some i \<Longrightarrow> i < length (nc_devs c')" by auto
qed

lemma init_loop_ok: "client_ok c \<Longrightarrow> client_ok (init_loop n env buf stream c)"
proof (induction n arbitrary: buf stream c)
  case (Suc n)
  have line: "client_ok (init_line env line c)" for line
  proof -
    have "keeps c (c\<lparr>nc_timeout := t\<rparr>)" for t by (rule keeps_fields) simp_all
    from keeps_ok [OF this Suc.prems] have t: "client_ok (c\<lparr>nc_timeout := t\<rparr>)" for t .
    obtain c' st r where a: "add_device env line c = (c', st, r)" by (metis prod_cases3)
    from add_device_ok(1) [OF Suc.prems a] a t Suc.prems show ?thesis
      by (auto simp: init_line_def Let_def split: option.split)
  qed
  then show ?case using Suc keeps_ok [OF keeps_fail Suc.prems] by (auto split: config_line.split option.split)
next
  case 0
  then show ?case using keeps_ok [OF keeps_fail] by simp
qed

lemma hosts_loop_ok: "client_ok c \<Longrightarrow> client_ok (hosts_loop env next c)"
proof (induction env "next" c rule: hosts_loop.induct)
  case (2 env "next" c)
  show ?case
  proof (cases "next_host next")
    case None
    then show ?thesis using 2 keeps_ok [OF keeps_fail] by simp
  next
    case (Some p)
    obtain host rest where p: "p = (host, rest)" by fastforce
    obtain c' st r where a: "add_device env host c = (c', st, r)" by (metis prod_cases3)
    from 2(1) [OF Some p [symmetric]] a add_device_ok(1) [OF 2(2) a] 2(2) show ?thesis by (simp add: Some p)
  qed
qed simp

lemma sane_init_ok: "client_ok (sane_init env c0)"
proof -
  define c where "c = c0\<lparr>nc_devlist := None, nc_devs := [], nc_handles := []\<rparr>"
  define c1 where "c1 = (case sanei_config_open (ce_files env) (ce_paths env) (ascii ''net.conf'') of
    None \<Rightarrow> c | Some stream \<Rightarrow> init_loop (Suc (length stream)) env (replicate PATH_MAX 0) stream c)"
  define c2 where "c2 = (case ce_hosts env of None \<Rightarrow> c1
    | Some hosts \<Rightarrow> (case nc_alloc c1 of (c', ok) \<Rightarrow> if ok then hosts_loop env (Some hosts) c' else c'))"
  have "client_ok c" by (simp add: client_ok_def c_def)
  then have "client_ok c1" unfolding c1_def using init_loop_ok by (simp del: init_loop.simps split: option.split)
  then have "client_ok c2" unfolding c2_def using hosts_loop_ok keeps_ok [OF keeps_allocD]
    by (simp del: hosts_loop.simps split: option.split prod.split)
  then have "client_ok (c2\<lparr>nc_timeout := t\<rparr>)" for t by (rule keeps_ok [OF keeps_fields, rotated 3]) simp_all
  with \<open>client_ok c2\<close> have "client_ok (case ce_timeout env of None \<Rightarrow> c2 | Some t \<Rightarrow> c2\<lparr>nc_timeout := c_atoi t\<rparr>)"
    by (simp split: option.split)
  then show ?thesis by (simp only: sane_init_def Let_def c2_def c1_def c_def)
qed

section \<open>The device list\<close>

lemma keeps_assert_space: "assert_space n t c = (c', t', ok) \<Longrightarrow> keeps c c'"
  by (auto simp: assert_space_def Let_def keeps_intro dest: keeps_allocD split: if_splits prod.splits)

lemma keeps_add_entries: "add_entries host ds t c = (c', t', ok) \<Longrightarrow> keeps c c'"
proof (induction host ds t c rule: add_entries.induct)
  case (3 host d ds t c)
  obtain c1 ok0 where 1: "nc_alloc c = (c1, ok0)" by fastforce
  obtain c2 ok1 where 2: "nc_alloc c1 = (c2, ok1)" by fastforce
  obtain c3 ok2 where 3: "nc_alloc c2 = (c3, ok2)" by fastforce
  obtain c4 ok3 where 4: "nc_alloc c3 = (c4, ok3)" by fastforce
  note k1 = keeps_allocD [OF 1]
  have k4: "keeps c c4" using keeps_allocD [OF 1] keeps_allocD [OF 2] keeps_allocD [OF 3] keeps_allocD [OF 4] keeps_trans by blast
  then have kf: "keeps c (nc_fail c4)" using keeps_fail keeps_trans by blast
  show ?case
  proof (cases "c' = c1 \<or> c' = c4 \<or> c' = nc_fail c4")
    case True
    with k1 k4 kf show ?thesis by auto
  next
    case False
    with "3.prems" 1 2 3 4 obtain rdev t1 where r: "ok0" "rename_device host d = Some rdev" "ok1 \<and> ok2 \<and> ok3"
      "push_entry (Some rdev) t = Some t1" "add_entries host ds t1 c4 = (c', t', ok)"
      by (auto split: if_splits option.splits)
    have "keeps c4 c'" using "3.IH" [OF 1 [symmetric] _ 2 [symmetric] 3 [symmetric] 4 [symmetric] r(2)] r by auto
    with k4 show ?thesis by (rule keeps_trans)
  qed
qed (auto intro: keeps_intro)

lemma keeps_host_devices: "host_devices env i t c0 = (c', t', ok) \<Longrightarrow> keeps c0 c'"
proof -
  assume a: "host_devices env i t c0 = (c', t', ok)"
  obtain c status where 1: "(if nd_ctl (get_dev c0 i) < 0 then connect_dev env i c0 else (c0, SANE_STATUS_GOOD)) = (c, status)"
    by fastforce
  have k: "keeps c0 c" using 1 keeps_connect [of c0 env i] by (cases "nd_ctl (get_dev c0 i) < 0") (auto simp: keeps_intro)
  obtain c1 x reply where 2: "on_dev i (\<lambda>w. sanei_w_call w SANE_NET_GET_DEVICES sanei_w_void ()
      sanei_w_get_devices_reply (ce_devices_junk env)) c = (c1, x, reply)" by (metis prod_cases3)
  have k1: "keeps c0 c1" using k keeps_on_devD [OF 2] by (rule keeps_trans)
  have free: "keeps d (free_devices i reply d)" for d by (simp add: free_devices_def keeps_intro)
  show ?thesis
  proof (cases "status \<noteq> SANE_STATUS_GOOD \<or> gdr_status reply \<noteq> SANE_STATUS_GOOD \<or> gdr_device_list reply = None")
    case True
    with a k k1 show ?thesis unfolding host_devices_def 1 2 Let_def prod.case
      using keeps_trans [OF k1 free] keeps_trans [OF k1 keeps_fail] by (auto split: if_splits)
  next
    case False
    then obtain ds where ds: "gdr_device_list reply = Some ds" by auto
    obtain c2 t2 ok2 where 3: "assert_space (length (takeWhile (\<lambda>d. d \<noteq> None) ds)) t c1 = (c2, t2, ok2)" by (metis prod_cases3)
    obtain c3 t3 ok3 where 4: "add_entries (nd_name (get_dev c2 i)) ds t2 c2 = (c3, t3, ok3)" by (metis prod_cases3)
    have "keeps c0 c2" using k1 keeps_assert_space [OF 3] by (rule keeps_trans)
    moreover from this keeps_add_entries [OF 4] have "keeps c0 c3" by (rule keeps_trans)
    moreover from this free have "keeps c0 (free_devices i reply c3)" by (rule keeps_trans)
    ultimately show ?thesis using a False unfolding host_devices_def 1 2 Let_def prod.case ds option.case 3 4 by (auto split: if_splits)
  qed
qed

lemma keeps_hosts_devices: "hosts_devices env is t c = (c', t', ok) \<Longrightarrow> keeps c c'"
proof (induction "is" arbitrary: t c)
  case (Cons i "is")
  obtain c1 t1 ok1 where h: "host_devices env i t c = (c1, t1, ok1)" by (metis prod_cases3)
  from Cons h keeps_host_devices [OF h] show ?case by (auto split: if_splits intro: keeps_trans)
qed (simp add: keeps_intro)

lemma keeps_get_devices [keeps_intro]: "keeps c (fst (sane_get_devices env l c))"
proof (cases l)
  case False
  let ?c = "free_devlist c"
  obtain c1 t1 ok where 1: "hosts_devices env (rev [0..<length (nc_devs ?c)]) \<lparr>dt_list = None, dt_size = 0\<rparr> ?c = (c1, t1, ok)"
    by (metis prod_cases3)
  obtain c2 t2 ok2 where 2: "assert_space (Suc 0) t1 c1 = (c2, t2, ok2)" by (metis prod_cases3)
  have "keeps c ?c" by (rule keeps_fields) (simp_all add: free_devlist_def nc_check_def nc_fail_def split: option.split)
  from keeps_trans [OF this keeps_hosts_devices [OF 1]] have k1: "keeps c c1" .
  from keeps_trans [OF this keeps_assert_space [OF 2]] have k2: "keeps c c2" .
  have upd: "keeps d (d\<lparr>nc_devlist := x\<rparr>)" for d x by (rule keeps_fields) simp_all
  show ?thesis using False keeps_trans [OF k1 upd] keeps_trans [OF k2 upd] keeps_trans [OF keeps_trans [OF k2 upd] keeps_fail]
    by (simp add: sane_get_devices_def Let_def 1 2 split: option.split)
qed (simp add: sane_get_devices_def keeps_intro)

section \<open>Opening and closing\<close>

lemma open_scanner_ok:
  assumes "client_ok c" "i < length (nc_devs c)" "open_scanner i handle c = (c', st, r)"
  shows "client_ok c'"
proof -
  obtain c1 ok where 1: "nc_alloc c = (c1, ok)" by fastforce
  obtain c2 s status where 2: "fetch_options (new_scanner i handle) c1 = (c2, s, status)" by (metis prod_cases3)
  note f = fetch_options_frame [OF 2]
  have k1: "keeps c c1" by (rule keeps_allocD [OF 1])
  have k2: "keeps c c2" using k1 f keeps_trans by (auto simp: quiet_def)
  have s: "rec_ok s" "ns_hw s = i" using f by (auto simp: same_scanner_def rec_ok_def new_scanner_def)
  have ok2: "client_ok c2" "length (nc_devs c2) = length (nc_devs c)" using k2 assms(1) keeps_ok keeps_length by auto
  then have new: "client_ok (c2\<lparr>nc_handles := (nc_next c2, s) # nc_handles c2, nc_next := Suc (nc_next c2)\<rparr>)"
    using assms(2) s by (auto simp: client_ok_def list_all_iff less_Suc_eq)
  have cl: "client_ok (fst (on_dev i g c2))" for g :: "wire \<Rightarrow> wire \<times> 'x"
    using keeps_ok [OF keeps_on_dev ok2(1)] .
  show ?thesis using assms(3) keeps_ok [OF k1 assms(1)] new cl
    unfolding open_scanner_def 1 prod.case 2 by (auto split: if_splits)
qed

lemma open_connected_ok:
  assumes "client_ok c" "i < length (nc_devs c)" "open_connected env i device c = Some (c', st, r)"
  shows "client_ok c'"
proof -
  obtain c1 x reply where 1: "on_dev i (\<lambda>w. sanei_w_call w SANE_NET_OPEN sanei_w_string (Some (mk_cstr device))
      sanei_w_open_reply (ce_open_junk env)) c = (c1, x, reply)" by (metis prod_cases3)
  with assms(3) obtain c2 res where 2: "open_loop env i reply c1 = Some (c2, res)"
    and y: "(case res of Inl status \<Rightarrow> (c2, status, None) | Inr handle \<Rightarrow> open_scanner i handle c2) = (c', st, r)"
    by (auto simp: open_connected_def split: bind_splits)
  have k: "keeps c c2" using keeps_trans [OF keeps_on_devD [OF 1] keeps_open_loop [OF 2]] by simp
  have "client_ok c2" "i < length (nc_devs c2)" using k assms(1,2) keeps_ok keeps_length by auto
  with y open_scanner_ok show ?thesis by (cases res) auto
qed

lemma sane_open_ok:
  assumes "client_ok c" "sane_open env name c = Some (c', st, r)"
  shows "client_ok c'"
proof (cases "split_name name")
  case (Some p)
  obtain host device where p: "p = (host, device)" by fastforce
  obtain c1 status ri where f: "find_host env host c = (c1, status, ri)" by (metis prod_cases3)
  have f1: "client_ok c1" "ri = Some i \<Longrightarrow> i < length (nc_devs c1)" for i
  proof -
    have "client_ok c1 \<and> (ri = Some i \<longrightarrow> i < length (nc_devs c1))"
    proof (cases "find_dev c host")
      case None
      with f add_device_ok [OF assms(1)] show ?thesis by (simp add: find_host_def) blast
    next
      case (Some j)
      with f assms(1) find_dev_Some [OF Some] show ?thesis by (auto simp: find_host_def)
    qed
    then show "client_ok c1" "ri = Some i \<Longrightarrow> i < length (nc_devs c1)" by auto
  qed
  show ?thesis
  proof (cases "host = [] \<or> ri = None")
    case True
    with assms f f1(1) Some p show ?thesis by (auto simp: sane_open_def split: if_splits)
  next
    case False
    then obtain i where i: "ri = Some i" by auto
    obtain c2 st2 where 2: "(if nd_ctl (get_dev c1 i) < 0 then connect_dev env i c1 else (c1, SANE_STATUS_GOOD)) = (c2, st2)"
      by fastforce
    have k: "keeps c1 c2" using 2 keeps_connect [of c1 env i] by (cases "nd_ctl (get_dev c1 i) < 0") (auto simp: keeps_intro)
    have c2: "client_ok c2" "i < length (nc_devs c2)" using k f1(1) f1(2) [OF i] keeps_ok keeps_length by auto
    have "(if st2 \<noteq> SANE_STATUS_GOOD then Some (c2, st2, None) else open_connected env i device c2) = Some (c', st, r)"
      using assms(2) False unfolding sane_open_def Some p option.case prod.case f i Let_def 2 by simp
    with c2 open_connected_ok show ?thesis by (auto split: if_splits)
  qed
qed (use assms in \<open>simp add: sane_open_def\<close>)

lemma client_ok_drop:
  assumes "client_ok c"
  shows "client_ok (c\<lparr>nc_handles := filter P (nc_handles c)\<rparr>)"
proof -
  have "distinct (map fst (filter P (nc_handles c)))" using assms by (simp add: client_ok_def distinct_map_filter)
  with assms show ?thesis by (auto simp: client_ok_def list_all_iff)
qed

lemma sane_close_ok:
  assumes "client_ok c"
  shows "client_ok (sane_close h c)"
proof (cases "get_scanner c h")
  case (Some s)
  let ?c1 = "c\<lparr>nc_handles := filter (\<lambda>(k, t). k \<noteq> h) (nc_handles c)\<rparr>"
  obtain c2 s2 where 1: "free_options s ?c1 = (c2, s2)" by fastforce
  have "client_ok c2" using client_ok_drop [OF assms] free_options_frame [OF 1] keeps_ok by (auto simp: quiet_def)
  then have "client_ok (nc_check b c2)" for b by (rule keeps_ok [OF keeps_check])
  then have "client_ok (fst (on_dev i g (nc_check b c2)))" for i b and g :: "wire \<Rightarrow> wire \<times> 'x"
    by (rule keeps_ok [OF keeps_on_dev])
  with Some 1 show ?thesis by (simp add: sane_close_def)
qed (simp add: sane_close_def assms)

lemma sane_exit_ok:
  assumes "client_ok c"
  shows "client_ok (sane_exit c)"
proof -
  have c1: "client_ok (fold sane_close hs c)" for hs using assms by (induction hs arbitrary: c) (auto intro: sane_close_ok)
  have k: "keeps d (exit_device i d)" for i d by (simp add: exit_device_def keeps_intro)
  have f: "keeps d (free_devlist d)" for d
    by (rule keeps_fields) (simp_all add: free_devlist_def nc_check_def nc_fail_def split: option.split)
  let ?c2 = "(fold sane_close (map fst (nc_handles c)) c)\<lparr>nc_handles := []\<rparr>"
  have "client_ok ?c2" using c1 by (simp add: client_ok_def)
  from keeps_ok [OF keeps_trans [OF keeps_fold [of exit_device, OF k] f] this] show ?thesis
    by (simp only: sane_exit_def Let_def)
qed

section \<open>Reachable states\<close>

inductive client_step :: "client_env \<Rightarrow> net_client \<Rightarrow> net_client \<Rightarrow> bool" for env where
  devices: "client_step env c (fst (sane_get_devices env l c))"
| open_device: "sane_open env name c = Some (c', st, r) \<Longrightarrow> client_step env c c'"
| close: "client_step env c (sane_close h c)"
| descriptor: "client_step env c (fst (sane_get_option_descriptor h opt c))"
| control: "sane_control_option env h opt action v want_info c = Some y \<Longrightarrow> client_step env c (fst y)"
| parameters: "client_step env c (fst (sane_get_parameters env h room c))"
| start: "sane_start env h c = Some y \<Longrightarrow> client_step env c (fst y)"
| read: "client_step env c (fst (sane_read env h m n c))"
| cancel: "client_step env c (sane_cancel h c)"
| io_mode: "client_step env c (fst (sane_set_io_mode h ok c))"
| select_fd: "client_step env c (fst (sane_get_select_fd h c))"

inductive client_reach :: "client_env \<Rightarrow> net_client \<Rightarrow> bool" for env where
  init: "client_reach env (sane_init env c)"
| step: "client_reach env c \<Longrightarrow> client_step env c c' \<Longrightarrow> client_reach env c'"

lemma client_step_ok:
  assumes "client_step env c c'" "client_ok c"
  shows "client_ok c'"
proof -
  note k = keeps_ok [OF _ assms(2)]
  from assms(1) show ?thesis
  proof cases
    case (open_device name st r)
    then show ?thesis using sane_open_ok [OF assms(2)] by blast
  next
    case close
    then show ?thesis using sane_close_ok [OF assms(2)] by simp
  next
    case (io_mode h ok)
    then show ?thesis using assms(2) k [OF keeps_fail] by (auto simp: sane_set_io_mode_def split: option.split)
  next
    case (select_fd h)
    then show ?thesis using assms(2) k [OF keeps_fail] by (auto simp: sane_get_select_fd_def split: option.split)
  qed (auto intro: k keeps_get_devices keeps_descriptor keeps_control_option keeps_get_parameters keeps_start keeps_read
      keeps_sane_cancel)
qed

lemma client_reach_ok: "client_reach env c \<Longrightarrow> client_ok c"
  by (induction rule: client_reach.induct) (auto intro: sane_init_ok client_step_ok)

text \<open> C5: whatever the frontend calls, in any order, and whatever the servers answer: the registered
  hosts are distinct, no two handles have the same address, every handle belongs to a registered
  host, and the offset into its length buffer stays within it.\<close>

theorem client_invariant:
  assumes "client_reach env c"
  shows "distinct (map nd_name (nc_devs c)) \<and> distinct (map fst (nc_handles c)) \<and>
    list_all (\<lambda>(h, s). h < nc_next c \<and> ns_hw s < length (nc_devs c) \<and> length (ns_reclen s) = 4 \<and>
      0 \<le> ns_offset s \<and> ns_offset s < 4) (nc_handles c)"
  using client_reach_ok [OF assms] by (auto simp: client_ok_def list_all_iff rec_ok_def)

definition ex_hosts_env :: client_env where
  "ex_hosts_env = ex_client_env\<lparr>ce_hosts := Some [97, 58, 91, 58, 58, 49, 93, 58, 97], ce_resolve := (\<lambda>_ _. Some [Net4 1 6566])\<rparr>"

lemma client_invariant_witness:
  "distinct (map nd_name (nc_devs (sane_init ex_hosts_env (ex_reader [])))) \<and>
   map nd_name (nc_devs (sane_init ex_hosts_env (ex_reader []))) = [[97], [58, 58, 49]]"
proof
  show "distinct (map nd_name (nc_devs (sane_init ex_hosts_env (ex_reader []))))"
    using client_invariant [OF client_reach.init [of ex_hosts_env "ex_reader []"]] by simp
qed code_simp

section \<open>The buffer of the frontend\<close>

lemma swap_read_length: "sr_length (swap_read hang left bs) \<le> length bs"
  by (simp add: swap_read_def Let_def)

lemma fault_do_cancel:
  assumes "client_ok c" "get_scanner c h \<noteq> None"
  shows "nc_fault (do_cancel h c) = nc_fault c"
proof -
  obtain s where s: "get_scanner c h = Some s" using assms(2) by auto
  then have "(h, s) \<in> set (nc_handles c)" by (simp add: get_scanner_def map_of_SomeD)
  then have "ns_hw s < length (nc_devs c)" using assms(1) by (auto simp: client_ok_def list_all_iff)
  with s show ?thesis by (simp add: do_cancel_def set_dev_def put_scanner_def Let_def)
qed

lemma read_data_bounds:
  assumes "client_ok c" "get_scanner c h = Some s0" "same_scanner s0 s" "0 \<le> m" "nat m \<le> room" "uint (ns_remaining s) < 2 ^ 31"
    and "read_data env h m room s c = (c', x)"
  shows "nc_fault c' = nc_fault c \<and> length (rr_data x) \<le> nat m"
proof -
  have rem: "sint (ucast (ns_remaining s) :: sane_word) = uint (ns_remaining s)"
  proof -
    have "unat (ns_remaining s) < 2 ^ 31" using assms(6) by (simp flip: nat_uint_eq)
    then show ?thesis using small_length [of "unat (ns_remaining s)"] by simp
  qed
  define len where "len = (if uint (ns_remaining s) < m then uint (ns_remaining s) else m)"
  have l: "0 \<le> len" "len \<le> m" "len < 2 ^ 31" using assms(4,6) by (auto simp: len_def)
  then have n: "nat len \<le> nat m" "\<not> len < 0" by simp_all
  have put: "client_ok (put_scanner h (s\<lparr>ns_stream := evs\<rparr>) c)" for evs
    using keeps_ok [OF keeps_put [OF assms(2)] assms(1)] assms(3) by (simp add: same_scanner_def rec_ok_def)
  have "nc_fault (do_cancel h (put_scanner h (s\<lparr>ns_stream := evs\<rparr>) c)) = nc_fault c" for evs
    using fault_do_cancel [OF put] assms(2) by simp
  moreover have "length bs \<le> nat m" if "io_read (nat len) (ns_stream s) = (Inr bs, evs)" for bs evs
    using io_read_at_most [OF that] n(1) by simp
  moreover have "length (take (sr_length (swap_read a b bs)) y) \<le> nat m" if "length bs \<le> nat m" for a b bs and y :: "byte list"
    using swap_read_length [of a b bs] that by simp
  ultimately show ?thesis using assms(5,7)
    unfolding read_data_def rem Let_def len_def [symmetric] if_not_P [OF n(2)]
    by (auto simp: nc_check_def split: prod.splits sum.splits if_splits)
qed

text \<open> C35: \<open>sane_read\<close> keeps to the frontend's buffer.  In every state that satisfies
  the invariant, such as the reachable ones, a call for at most
  \<open>m\<close> bytes accesses nothing outside of the buffer and of the client's own data, and returns at most \<open>m\<close>
  bytes, as long as the record it reads from is shorter than \<open>2 ^ 31\<close> bytes.\<close>

theorem read_in_bounds:
  assumes "client_ok c" "get_scanner c h = Some s" "0 < m" "nat m \<le> room"
    and "uint (ns_remaining s) < 2 ^ 31"
    and "read_reclen s = (s', r, ok)" "r = Rec_Data \<Longrightarrow> uint (ns_remaining s') < 2 ^ 31"
  shows "nc_fault (fst (sane_read env h m room c)) = nc_fault c \<and> length (rr_data (snd (sane_read env h m room c))) \<le> nat m"
proof -
  note inv = assms(1)
  have "(h, s) \<in> set (nc_handles c)" using assms(2) by (simp add: get_scanner_def map_of_SomeD)
  then have "rec_ok s" using inv by (auto simp: client_ok_def list_all_iff)
  from read_reclen_frame(2) [OF assms(6) this] have ok: "ok" .
  note rf = read_reclen_frame(1) [OF assms(6)]
  let ?c1 = "put_scanner h s' c"
  have c1: "client_ok ?c1" by (rule keeps_ok [OF keeps_put [OF assms(2) rf] inv])
  have g1: "get_scanner ?c1 h = Some s'" using assms(2) by simp
  have cancel: "nc_fault (do_cancel h ?c1) = nc_fault c" using fault_do_cancel [OF c1] g1 by simp
  note rd = read_data_bounds [OF inv assms(2) same_scanner_refl _ assms(4,5)]
  note rd1 = read_data_bounds [OF c1 g1 same_scanner_refl _ assms(4)]
  have b0: "nc_fault (fst (read_data env h m room s c)) = nc_fault c \<and> length (rr_data (snd (read_data env h m room s c))) \<le> nat m"
    using rd [of env] assms(3) by (cases "read_data env h m room s c") auto
  have b1: "nc_fault (fst (read_data env h m room s' ?c1)) = nc_fault c \<and>
      length (rr_data (snd (read_data env h m room s' ?c1))) \<le> nat m" if "r = Rec_Data"
    using rd1 [of env] assms(3) assms(7) [OF that] by (cases "read_data env h m room s' ?c1") auto
  have "0 < room" using assms(3,4) by simp
  then show ?thesis using assms(2,3,6) ok b0 b1 cancel
    by (auto simp: sane_read_def nc_check_def Let_def split: reclen_result.split)
qed

lemma read_in_bounds_witness:
  "let c = ex_reader [RData [0, 0, 0, 3], RData [1, 2, 3]]
   in nc_fault (fst (sane_read ex_client_env 0 2 2 c)) = nc_fault c \<and>
      length (rr_data (snd (sane_read ex_client_env 0 2 2 c))) \<le> nat 2"
  unfolding Let_def
  by (rule read_in_bounds [where s = "(new_scanner 0 0)\<lparr>ns_data := 5, ns_stream := [RData [0, 0, 0, 3], RData [1, 2, 3]]\<rparr>" and
        s' = "(new_scanner 0 0)\<lparr>ns_data := 5, ns_stream := [RData [1, 2, 3]], ns_reclen := [0, 0, 0, 3], ns_offset := 0, ns_remaining := 3\<rparr>"
        and r = Rec_Data and ok = True]; code_simp)

end
