(* ===== verification/Net_Swap.thy ===== *)
theory Net_Swap
  imports Net_Reach Net_Examples
begin

text \<open>
  Two hard spots of \<open>sane_read\<close> in \<^verbatim>\<open>backend/net.c\<close>: the swapping of 16-bit samples across calls, which is
  right as long as no longer read meets a byte held back, and the length of a record, which is
  compared as a signed number.
\<close>

section \<open>Swapping across calls\<close>

fun swap_run :: "int \<Rightarrow> byte list list \<Rightarrow> byte list" where
  \<comment> \<open>what the frontend gets for the pieces \<open>read\<close> delivers; a byte left over is returned by the next
      call\<close>
  "swap_run hang [] = []"
| "swap_run hang (p # ps) =
     (let r = swap_read hang (- 1) p
      in take (sr_length r) (sr_data r) @ (if - 1 < sr_left r then [word_of_int (sr_left r)] else []) @
         swap_run (sr_hang r) ps)"

fun no_straddle :: "bool \<Rightarrow> byte list list \<Rightarrow> bool" where
  \<comment> \<open>while a byte is held back, the next piece is a single byte\<close>
  "no_straddle held [] = True"
| "no_straddle held (p # ps) =
     (if held then length p = 1 \<and> no_straddle False ps else no_straddle (odd (length p)) ps)"

lemma swap_pairs_length [simp]: "length (swap_pairs xs) = length xs"
  by (induction xs rule: swap_pairs.induct) auto

lemma swap_pairs_append: "even (length xs) \<Longrightarrow> swap_pairs (xs @ ys) = swap_pairs xs @ swap_pairs ys"
  by (induction xs rule: swap_pairs.induct) auto

definition whole_pairs :: "'a list \<Rightarrow> 'a list" where
  \<comment> \<open>without the last byte of an odd number\<close>
  "whole_pairs xs = take (2 * (length xs div 2)) xs"

lemma whole_pairs_even: "even (length xs) \<Longrightarrow> whole_pairs (xs @ ys) = xs @ whole_pairs ys"
proof -
  assume e: "even (length xs)"
  then have "2 * ((length xs + length ys) div 2) = length xs + 2 * (length ys div 2)" by presburger
  with e show ?thesis by (simp add: whole_pairs_def)
qed

lemma held_byte [simp]: "- 1 < uint (b :: byte)" "uint (b :: byte) \<noteq> - 1"
  using uint_ge_0 [of b] by linarith+

lemma swap_run_aligned:
  "no_straddle (- 1 < hang) ps \<Longrightarrow> (\<forall>p \<in> set ps. p \<noteq> []) \<Longrightarrow> hang = - 1 \<or> (\<exists>b :: byte. hang = uint b) \<Longrightarrow>
    swap_run hang ps = swap_pairs (whole_pairs ((if hang = - 1 then [] else [word_of_int hang]) @ concat ps))"
proof (induction ps arbitrary: hang)
  case Nil
  then show ?case by (auto simp: whole_pairs_def)
next
  case (Cons p ps)
  show ?case
  proof (cases "hang = - 1")
    case False
    then obtain b :: byte where b: "hang = uint b" using Cons.prems(3) by blast
    then obtain a where p: "p = [a]" using Cons.prems(1) by (cases p) (auto split: if_splits)
    then have "no_straddle False ps" using Cons.prems(1) b by simp
    then have "swap_run (- 1) ps = swap_pairs (whole_pairs (concat ps))"
      using Cons.IH [of "- 1"] Cons.prems(2) by simp
    with b p show ?thesis
      using whole_pairs_even [of "[b, a]" "concat ps"] by (simp add: swap_read_def Let_def)
  next
    case True
    show ?thesis
    proof (cases "odd (length p)")
      case False
      then have "p \<noteq> []" "length p \<noteq> 1" using Cons.prems(2) by auto
      then have "swap_run hang (p # ps) = swap_pairs p @ swap_run (- 1) ps"
        using False True by (simp add: swap_read_def Let_def flip: even_iff_mod_2_eq_zero)
      also have "swap_run (- 1) ps = swap_pairs (whole_pairs (concat ps))"
        using Cons.IH [of "- 1"] Cons.prems False True by simp
      finally show ?thesis
        using False True whole_pairs_even [of p "concat ps"] swap_pairs_append [of p] by simp
    next
      case odd: True
      obtain q b where p: "p = q @ [b]" using Cons.prems(2) by (metis list.set_intros(1) rev_exhaust)
      then have q: "even (length q)" using odd by simp
      have "swap_run hang (p # ps) = swap_pairs q @ swap_run (uint b) ps"
        using p q True by (cases "q = []") (auto simp: swap_read_def Let_def nth_append mod2_eq_if)
      also have "swap_run (uint b) ps = swap_pairs (whole_pairs (b # concat ps))"
        using Cons.IH [of "uint b"] Cons.prems odd True by auto
      finally show ?thesis
        using p q True whole_pairs_even [of q "b # concat ps"] swap_pairs_append [of q] by simp
    qed
  qed
qed

lemma swap_pairs_snoc: "even (length r) \<Longrightarrow> swap_pairs (r @ [z]) = swap_pairs r @ [z]"
  by (simp add: swap_pairs_append)

lemma swap_run_straddles_even:
  assumes "even (length q)" "(b :: byte) # q = r @ [z]"
  shows "swap_run (uint b) ((q @ [x, y]) # ps) = swap_pairs r @ [z, y, x] @ swap_run (- 1) ps"
proof -
  have n: "length r = length q"
    using arg_cong [OF assms(2), of length] by simp
  have t: "take (length q) (b # q @ [x]) = r" and d: "drop (length q) (b # q @ [y]) = [z, y]"
    using n assms(2) by (simp_all flip: append_Cons)
  have "swap_read (uint b) (- 1) (q @ [x, y]) =
      \<lparr>sr_data = swap_pairs r @ [z, y], sr_length = length q + 2, sr_hang = - 1, sr_left = uint x\<rparr>"
    using assms(1) t d by (simp add: swap_read_def Let_def nth_append list_update_append)
  then show ?thesis using n by (simp add: Let_def)
qed

lemma swap_run_straddles_odd:
  assumes "odd (length q)"
  shows "swap_run (uint (b :: byte)) ((q @ [x, y]) # ps) = swap_pairs (b # q) @ [x] @ swap_run (uint y) ps"
proof -
  let ?n = "length (q @ [x, y])"
  have "b # take (?n - 1) (q @ [x, y]) = (b # q) @ [x]" by simp
  moreover have "(q @ [x, y]) ! (?n - 1) = y" by (simp add: nth_append)
  ultimately have "swap_read (uint b) (- 1) (q @ [x, y]) =
      \<lparr>sr_data = swap_pairs (b # q) @ [x], sr_length = ?n, sr_hang = uint y, sr_left = - 1\<rparr>"
    using assms by (simp add: swap_read_def Let_def mod2_eq_if)
  then show ?thesis by (simp add: Let_def)
qed

text \<open> C36: 16-bit samples from a server of the other byte order.  As long as no read of two or more
  bytes meets a byte held back by an odd read before it, the frontend gets the bytes of every sample
  exchanged, whatever the pieces, and the byte of an incomplete sample is held back.  When a read of
  two or more bytes does meet one, the order is wrong from there, as follows.  A read of an even number:
  the samples but the last are exchanged, and of the last three bytes \<open>z x y\<close> the frontend gets
  \<open>z y x\<close>, where \<open>z x\<close> is a sample and \<open>y\<close> the first byte of the next.  A read of an odd number:
  the first byte \<open>x\<close> of the last sample is delivered at once and its second byte \<open>y\<close> is held back as if it
  began a sample.\<close>

theorem samples_swapped:
  "(no_straddle False ps \<and> [] \<notin> set ps \<longrightarrow> swap_run (- 1) ps = swap_pairs (whole_pairs (concat ps))) \<and>
   (even (length q) \<and> b # q = r @ [z] \<longrightarrow>
     swap_run (uint b) ((q @ [x, y]) # ps) = swap_pairs r @ [z, y, x] @ swap_run (- 1) ps) \<and>
   (odd (length q) \<longrightarrow> swap_run (uint b) ((q @ [x, y]) # ps) = swap_pairs (b # q) @ [x] @ swap_run (uint y) ps)"
proof (intro conjI impI)
  assume "no_straddle False ps \<and> [] \<notin> set ps"
  then show "swap_run (- 1) ps = swap_pairs (whole_pairs (concat ps))"
    using swap_run_aligned [of "- 1" ps] by auto
qed (blast intro: swap_run_straddles_even swap_run_straddles_odd)+

lemma samples_swapped_witness:
  "swap_run (- 1) [[1, 2, 3], [4], [5, 6]] = [2, 1, 4, 3, 6, 5] \<and> swap_run (uint (1 :: byte)) [[2, 3], [4, 5]] = [1, 3, 2, 5, 4] \<and>
   swap_run (uint (1 :: byte)) [[2, 3, 4]] = [2, 1, 3]"
proof (intro conjI)
  show "swap_run (- 1) [[1, 2, 3], [4], [5, 6]] = [2, 1, 4, 3, 6, 5]"
    using samples_swapped [of "[[1, 2, 3], [4], [5, 6]]"] by (simp add: whole_pairs_def)
  show "swap_run (uint (1 :: byte)) [[2, 3], [4, 5]] = [1, 3, 2, 5, 4]"
    using samples_swapped [of "[[4, 5]]" "[]" 1 "[]" 1 2 3] by (simp add: whole_pairs_def swap_read_def Let_def)
  show "swap_run (uint (1 :: byte)) [[2, 3, 4]] = [2, 1, 3]"
    using samples_swapped [of "[]" "[2]" 1 "[]" 1 3 4] by simp
qed

section \<open>The length of a record\<close>

text \<open> C37: a record of \<open>2 ^ 31\<close> bytes or more ends the scan.  The code compares \<open>max_length\<close> with the rest of the
  record as \<open>int\<close>s, so such a length, unless it is the mark of the final record, is the smaller one
  whatever the frontend asks for, and as a count it is above \<open>SSIZE_MAX\<close>: \<open>read\<close> refuses it (as on Linux;
  POSIX leaves it to the system), the data connection is closed and the frontend gets
  \<open>SANE_STATUS_IO_ERROR\<close> and no bytes.  Every later call of the scan gets \<open>SANE_STATUS_CANCELLED\<close>.\<close>

theorem huge_record_fails:
  assumes "2 ^ 31 \<le> uint len" "len \<noteq> 0xffffffff" and "client_ok c" "get_scanner c h = Some s" "0 \<le> ns_data s" "ns_remaining s = 0"
    and "ns_offset s = 0" "ns_stream s = RData (be32 len) # evs" "\<not> swapping env c" "0 \<le> m"
  shows "\<exists>c'. sane_read env h m room c = (c', \<lparr>rr_status = SANE_STATUS_IO_ERROR, rr_data = []\<rparr>) \<and>
    nc_fault c' = nc_fault c \<and> sane_read env h m room c' = (c', \<lparr>rr_status = SANE_STATUS_CANCELLED, rr_data = []\<rparr>)"
proof -
  let ?s = "s\<lparr>ns_stream := evs, ns_reclen := be32 len, ns_offset := 0, ns_remaining := ucast len\<rparr>"
  have hs: "(h, s) \<in> set (nc_handles c)" using assms(4) by (simp add: get_scanner_def map_of_SomeD)
  then have w: "ns_hw s < length (nc_devs c)" and "length (ns_reclen s) = 4"
    using assms(3) by (auto simp: client_ok_def list_all_iff rec_ok_def)
  then have rl: "read_reclen s = (?s, Rec_Data, True)"
    using assms(2,7,8) by (simp add: read_reclen_def Let_def be32_length reclen_word_be32 blit_def)
  have "sint len < 0" using assms(1) sint_range_32(2) [of len] uint_sint_nonneg [of len] by linarith
  moreover have trip: "ucast (ucast len :: size_t) = len" by (rule bit_word_eqI) (simp add: bit_simps)
  ultimately have neg: "(if sint (ucast (ns_remaining ?s) :: sane_word) < m then sint (ucast (ns_remaining ?s) :: sane_word) else m) < 0"
    using assms(10) by simp
  let ?c1 = "put_scanner h ?s c"
  have "sane_read env h m room c = read_data env h m room ?s ?c1"
    using assms(4-6,9) rl by (simp add: sane_read_def nc_check_def)
  also have "\<dots> = (do_cancel h (put_scanner h ?s ?c1), \<lparr>rr_status = SANE_STATUS_IO_ERROR, rr_data = []\<rparr>)"
    unfolding read_data_def Let_def if_P [OF neg] by (cases s) simp
  also have "do_cancel h (put_scanner h ?s ?c1) =
      put_scanner h (?s\<lparr>ns_data := - 1\<rparr>) (set_dev (ns_hw s) (\<lambda>d. d\<lparr>nd_auth_active := False\<rparr>) (put_scanner h ?s ?c1))"
    using assms(4,5) by (simp add: do_cancel_def Let_def)
  finally have r: "sane_read env h m room c = (put_scanner h (?s\<lparr>ns_data := - 1\<rparr>) (set_dev (ns_hw s) (\<lambda>d. d\<lparr>nd_auth_active := False\<rparr>)
      (put_scanner h ?s ?c1)), \<lparr>rr_status = SANE_STATUS_IO_ERROR, rr_data = []\<rparr>)" .
  let ?c2 = "set_dev (ns_hw s) (\<lambda>d. d\<lparr>nd_auth_active := False\<rparr>) (put_scanner h ?s ?c1)"
  have "get_scanner ?c2 h = get_scanner (put_scanner h ?s ?c1) h" by (simp add: get_scanner_def set_dev_def nc_fail_def)
  then have g: "get_scanner ?c2 h = Some ?s" using assms(4) by simp
  moreover have "nc_fault ?c2 = nc_fault c" "\<not> swapping env ?c2"
    using w assms(9) by (simp_all add: set_dev_def swapping_def put_scanner_def)
  ultimately show ?thesis unfolding r by (simp add: sane_read_def)
qed

lemma huge_record_fails_witness:
  "\<exists>c'. sane_read ex_client_env 0 2 2 (ex_reader [RData (be32 0x80000000), RData [1, 2, 3]]) =
      (c', \<lparr>rr_status = SANE_STATUS_IO_ERROR, rr_data = []\<rparr>) \<and> \<not> nc_fault c'"
proof -
  let ?s = "(new_scanner 0 0)\<lparr>ns_data := 5, ns_stream := [RData (be32 0x80000000), RData [1, 2, 3]]\<rparr>"
  let ?c = "ex_reader [RData (be32 0x80000000), RData [1, 2, 3]]"
  have "client_ok ?c" "get_scanner ?c 0 = Some ?s" "\<not> swapping ex_client_env ?c" "\<not> nc_fault ?c"
    by (simp_all add: ex_reader_def get_scanner_def new_scanner_def swapping_def client_ok_def rec_ok_def new_net_device_def)
  with huge_record_fails [of "0x80000000" ?c 0 ?s "[RData [1, 2, 3]]" ex_client_env 2 2]
  show ?thesis by (auto simp: new_scanner_def)
qed

end
