(* ===== verification/Net_Names.thy ===== *)
theory Net_Names
  imports Net_Examples
begin

text \<open>
  The names of \<^verbatim>\<open>backend/net.c\<close>: the name \<open>sane_get_devices\<close> gives to a remote device is the one
  \<open>sane_open\<close> splits into the host and the device, and the list in \<open>SANE_NET_HOSTS\<close> is read
  into the hosts it was made of.
\<close>

section \<open>Device names\<close>

definition plain_host :: "byte list \<Rightarrow> bool" where
  \<comment> \<open>a numerical IPv6 address without a bracket, or a name without a colon\<close>
  "plain_host host \<longleftrightarrow> (if 58 \<in> set host then 93 \<notin> set host else host = [] \<or> hd host \<noteq> 91)"

text \<open> C33: what \<open>sane_get_devices\<close> offers can be opened: the full name of a device, made of its host
  (in brackets when it is an IPv6 address) and its remote name, is split by \<open>sane_open\<close> into that host
  and that remote name, colons in the remote name included.\<close>

theorem device_name_roundtrip:
  assumes "plain_host host"
  shows "split_name (full_name host name) = Some (host, name)"
proof (cases "58 \<in> set host")
  case True
  then have c: "93 \<notin> set (91 # host)" using assms by (simp add: plain_host_def)
  have j: "strchr_idx (91 # host @ 93 # 58 # name) 93 = Some (length (91 # host))"
    using strchr_idx_append [OF c, of "58 # name"] by simp
  have k: "strchr_idx (93 # 58 # name) 58 = Some 1" using strchr_idx_append [of 58 "[93]" name] by simp
  show ?thesis using True j k by (simp add: full_name_def split_name_def)
next
  case False
  then have "host = [] \<or> hd host \<noteq> 91" using assms by (simp add: plain_host_def)
  then have "hd (host @ 58 # name) \<noteq> 91" by (cases host) auto
  then show ?thesis using False strchr_idx_append [OF False, of name] by (simp add: full_name_def split_name_def)
qed

lemma device_name_roundtrip_witness:
  "split_name (full_name (ascii ''2001:42::12'') (ascii ''test:0'')) = Some (ascii ''2001:42::12'', ascii ''test:0'') \<and>
   split_name (ascii ''[::1'') = None"
  using device_name_roundtrip [of "ascii ''2001:42::12''" "ascii ''test:0''"]
  by (simp add: plain_host_def ascii_def) (simp add: split_name_def strchr_idx_def)

section \<open>SANE_NET_HOSTS\<close>

definition show_host :: "byte list \<Rightarrow> byte list" where
  "show_host host = (if 58 \<in> set host then 91 # host @ [93] else host)"

fun show_hosts :: "byte list list \<Rightarrow> byte list" where
  \<comment> \<open>the hosts, separated by colons\<close>
  "show_hosts [] = []"
| "show_hosts [h] = show_host h"
| "show_hosts (h # hs) = show_host h @ 58 # show_hosts hs"

lemma c_strsep_hit: "d \<notin> set s \<Longrightarrow> c_strsep (s @ d # r) d = (s, Some r)"
  by (simp add: c_strsep_def dropWhile_append)

lemma c_strsep_miss: "d \<notin> set s \<Longrightarrow> c_strsep s d = (s, None)"
  by (auto simp: c_strsep_def takeWhile_eq_all_conv)

lemma next_host_name:
  assumes "58 \<notin> set h" "h = [] \<or> hd h \<noteq> 91"
  shows "next_host h = Some (h, None)" "next_host (h @ 58 # r) = Some (h, Some r)"
  using assms by (auto simp: next_host_def c_strsep_hit c_strsep_miss)

lemma next_host_address:
  assumes "58 \<in> set h" "93 \<notin> set h"
  shows "next_host (91 # h @ 93 # r) = Some (h, Some (if r \<noteq> [] \<and> hd r = 58 then tl r else r))"
proof -
  obtain a b where h: "h = a @ 58 # b" "58 \<notin> set a" using split_list_first [OF assms(1)] by blast
  have "c_strsep (91 # h @ 93 # r) 58 = (91 # a, Some (b @ 93 # r))"
    using c_strsep_hit [of 58 "91 # a" "b @ 93 # r"] h by simp
  moreover have "c_strsep (b @ 93 # r) 93 = (b, Some r)" using assms(2) h by (intro c_strsep_hit) simp
  ultimately show ?thesis using h by (simp add: next_host_def)
qed

lemma next_host_end: "next_host [] = Some ([], None)"
  by (simp add: next_host_def c_strsep_def)

lemma hosts_loop_end: "hosts_loop env (Some []) c = c"
  by (simp add: next_host_end)

abbreviation (input) register :: "client_env \<Rightarrow> byte list \<Rightarrow> net_client \<Rightarrow> net_client" where
  "register env h c \<equiv> fst (add_device env h c)"

lemma hosts_loop_show:
  "list_all (\<lambda>h. h \<noteq> [] \<and> plain_host h) hs \<Longrightarrow> hosts_loop env (Some (show_hosts hs)) c = fold (register env) hs c"
proof (induction hs arbitrary: c rule: show_hosts.induct)
  case 1
  then show ?case by (simp add: hosts_loop_end del: hosts_loop.simps)
next
  case (2 h)
  show ?case
  proof (cases "58 \<in> set h")
    case True
    then show ?thesis using 2 next_host_address [OF True, of "[]"]
      by (simp add: show_host_def plain_host_def next_host_end)
  next
    case False
    then show ?thesis using 2 by (auto simp: show_host_def plain_host_def next_host_name(1))
  qed
next
  case (3 h h' hs)
  let ?r = "show_hosts (h' # hs)"
  have IH: "hosts_loop env (Some ?r) c' = fold (register env) (h' # hs) c'" for c'
    using 3 by simp
  have "next_host (show_host h @ 58 # ?r) = Some (h, Some ?r)"
  proof (cases "58 \<in> set h")
    case True
    then show ?thesis using 3(2) next_host_address [OF True, of "58 # ?r"] by (simp add: show_host_def plain_host_def)
  next
    case False
    then show ?thesis using 3(2) next_host_name(2) [OF False] by (auto simp: show_host_def plain_host_def)
  qed
  then have "hosts_loop env (Some (show_hosts (h # h' # hs))) c = hosts_loop env (Some ?r) (register env h c)"
    using 3(2) by simp
  then show ?case using IH by simp
qed

lemma hosts_loop_missing:
  assumes "58 \<notin> set a \<or> 93 \<notin> set (tl (dropWhile (\<lambda>b. b \<noteq> 58) a))"
  shows "hosts_loop env (Some (91 # a)) c = nc_fail c"
  using assms by (auto simp: next_host_def c_strsep_def)

text \<open> C34: the list of hosts of the environment.  A list of names and of IPv6 addresses in brackets,
  separated by colons, registers exactly these hosts in order; an opening bracket without a colon
  behind it, or without a closing bracket behind that, makes the client read through a null pointer.\<close>

theorem hosts_environment:
  "(list_all (\<lambda>h. h \<noteq> [] \<and> plain_host h) hs \<longrightarrow>
      hosts_loop env (Some (show_hosts hs)) c = fold (\<lambda>h d. fst (add_device env h d)) hs c) \<and>
   (58 \<notin> set a \<or> 93 \<notin> set (tl (dropWhile (\<lambda>b. b \<noteq> 58) a)) \<longrightarrow>
      nc_fault (hosts_loop env (Some (91 # a)) c))"
  using hosts_loop_show hosts_loop_missing by (simp add: nc_fail_def del: hosts_loop.simps)

lemma hosts_environment_witness:
  "hosts_loop ex_client_env (Some (show_hosts [[97], [58, 58, 49]])) (ex_reader []) =
     fold (\<lambda>h d. fst (add_device ex_client_env h d)) [[97], [58, 58, 49]] (ex_reader []) \<and>
   nc_fault (hosts_loop ex_client_env (Some [91, 97]) (ex_reader []))"
  using hosts_environment [of "[[97], [58, 58, 49]]" ex_client_env "ex_reader []" "[97]"] by (simp add: plain_host_def del: hosts_loop.simps)

end
