(* ===== verification/Net_Table.thy ===== *)
theory Net_Table
  imports Net_Examples
begin

text \<open>
  The table of devices that \<open>sane_get_devices\<close> of \<^verbatim>\<open>backend/net.c\<close> builds up over its hosts: the room made
  by \<open>ASSERT_SPACE\<close> is enough for the entries of a host, and these are the host's devices under
  their full names.
\<close>

definition entries :: "dev_table \<Rightarrow> sane_device option list" where
  "entries t = (case dt_list t of None \<Rightarrow> [] | Some l \<Rightarrow> l)"

definition table_ok :: "dev_table \<Rightarrow> bool" where
  "table_ok t \<longleftrightarrow> length (entries t) \<le> dt_size t \<and> (dt_list t = None \<longrightarrow> dt_size t = 0)"

lemma assert_space_room:
  assumes "table_ok t" "assert_space n t c = (c', t', True)" "n \<noteq> 0 \<or> dt_list t \<noteq> None"
  shows "entries t' = entries t" and "dt_list t' = Some (entries t)" and "length (entries t) + n \<le> dt_size t'"
    and "nc_malloc c = [] \<Longrightarrow> c' = c"
  using assms by (auto simp: assert_space_def table_ok_def entries_def nc_alloc_def Let_def split: if_splits option.splits list.splits)

lemma push_entry_room:
  assumes "dt_list t = Some l" "length l < dt_size t"
  shows "push_entry d t = Some (t\<lparr>dt_list := Some (l @ [d])\<rparr>)"
  using assms by (simp add: push_entry_def)

lemma add_entries_room:
  assumes "nc_malloc c = []" "list_all2 (\<lambda>d r. rename_device host d = Some r) ds rs"
    and "dt_list t = Some l" "length l + length ds \<le> dt_size t"
  shows "add_entries host (map Some ds @ None # rest) t c = (c, t\<lparr>dt_list := Some (l @ map Some rs)\<rparr>, True)"
  using assms(2-)
proof (induction ds rs arbitrary: t l rule: list_all2_induct)
  case Nil
  then show ?case by (cases t) simp
next
  case (Cons d ds r rs)
  let ?t = "t\<lparr>dt_list := Some (l @ [Some r])\<rparr>"
  have a: "nc_alloc c = (c, True)" using assms(1) by (simp add: nc_alloc_def)
  have "push_entry (Some r) t = Some ?t" using Cons.prems by (intro push_entry_room) auto
  with Cons.hyps Cons.IH [of ?t "l @ [Some r]"] Cons.prems show ?case by (simp add: a)
qed

text \<open> The entries of one host fit into the table.  When memory is there, \<open>ASSERT_SPACE\<close> with the number
  of devices in a host's reply makes the room for exactly the entries that are then written: the
  devices of the reply up to its null pointer, renamed, in order, behind those of the hosts
  before.  Nothing is written past the end of the table, and with the terminator the table is
  still in bounds.\<close>

theorem device_table_fits:
  assumes "table_ok t" "nc_malloc c = []" "list_all2 (\<lambda>d r. rename_device host d = Some r) ds rs" "ds \<noteq> []"
  shows "\<exists>t'. assert_space (length ds) t c = (c, t', True) \<and> table_ok t' \<and>
    (\<exists>t2. add_entries host (map Some ds @ None # rest) t' c = (c, t2, True) \<and> table_ok t2 \<and>
       entries t2 = entries t @ map Some rs \<and>
       (\<exists>t3 t4. assert_space 1 t2 c = (c, t3, True) \<and> push_entry None t3 = Some t4 \<and> entries t4 = entries t2 @ [None]))"
proof -
  have a: "nc_alloc c = (c, True)" using assms(2) by (simp add: nc_alloc_def)
  have sp: "\<exists>t'. assert_space n u c = (c, t', True)" for n u
    by (simp add: assert_space_def Let_def a)
  obtain t' where 1: "assert_space (length ds) t c = (c, t', True)" using sp by blast
  have n: "length ds \<noteq> 0 \<or> dt_list t \<noteq> None" using assms(4) by simp
  note r = assert_space_room [OF assms(1) 1 n]
  note add = add_entries_room [OF assms(2,3) r(2,3), of rest]
  let ?t2 = "t'\<lparr>dt_list := Some (entries t @ map Some rs)\<rparr>"
  have t2: "entries ?t2 = entries t @ map Some rs" "table_ok ?t2"
    using r(3) list_all2_lengthD [OF assms(3)] by (simp_all add: entries_def table_ok_def)
  obtain t3 where 3: "assert_space 1 ?t2 c = (c, t3, True)" using sp by blast
  note r3 = assert_space_room [OF t2(2) 3]
  have "push_entry None t3 = Some (t3\<lparr>dt_list := Some (entries ?t2 @ [None])\<rparr>)"
    by (rule push_entry_room) (use r3 in auto)
  moreover have "table_ok t'" using r(1,2,3) by (simp add: table_ok_def)
  ultimately show ?thesis using 1 add t2 3 by (auto simp: entries_def)
qed

definition ex_remote :: sane_device where
  "ex_remote = \<lparr>dev_name = Some [100, 0], dev_vendor = Some [118, 0], dev_model = Some [109, 0], dev_type = Some [116, 0]\<rparr>"

lemma device_table_fits_witness:
  "\<exists>t'. assert_space 1 \<lparr>dt_list = None, dt_size = 0\<rparr> (ex_reader []) = (ex_reader [], t', True) \<and>
    (\<exists>t2. add_entries [104] [Some ex_remote, None] t' (ex_reader []) = (ex_reader [], t2, True) \<and>
       entries t2 = [Some (ex_remote\<lparr>dev_name := Some [104, 58, 100, 0]\<rparr>)])"
  using device_table_fits [of "\<lparr>dt_list = None, dt_size = 0\<rparr>" "ex_reader []" "[104]" "[ex_remote]"
      "[ex_remote\<lparr>dev_name := Some [104, 58, 100, 0]\<rparr>]" "[]"]
  by (auto simp: table_ok_def entries_def ex_reader_def rename_device_def ex_remote_def full_name_def mk_cstr_def c_str_def)

end
