(* ===== verification/Wire_Live.thy ===== *)
theory Wire_Live
  imports Net_Msg Wire_Safe
begin

text \<open>
  The third contract of the codec functions, \<open>slow\<close>: a connection only runs dry.  Whatever happens, the
  bytes a wire can still deliver never grow, a failed decoding stays failed, and a decoded word uses up
  bytes.  A loop that waits for replies ends with it.
\<close>

section \<open>Bytes left\<close>

definition bytes_of :: "read_ev list \<Rightarrow> nat" where
  "bytes_of evs = sum_list (map (\<lambda>ev. case ev of RData bs \<Rightarrow> length bs | RError _ \<Rightarrow> 0) evs)"

lemma bytes_of_simps [simp]:
  "bytes_of [] = 0" "bytes_of (RData bs # evs) = length bs + bytes_of evs" "bytes_of (RError e # evs) = bytes_of evs"
  by (simp_all add: bytes_of_def)

definition wire_left :: "wire \<Rightarrow> nat" where
  "wire_left w = (if w_direction w = WIRE_DECODE then w_end w - w_curr w else 0) + bytes_of (w_rd w)"

definition live :: "wire \<Rightarrow> bool" where
  \<comment> \<open>the buffer offsets are in order, and a failed \<open>read\<close> sets \<open>errno\<close>\<close>
  "live w \<longleftrightarrow> w_codec w = Codec_Bin \<and> RError 0 \<notin> set (w_rd w) \<and> (w_direction w = WIRE_DECODE \<longrightarrow> w_curr w \<le> w_end w)"

definition slows :: "wire \<Rightarrow> wire \<Rightarrow> bool" where
  "slows w w' \<longleftrightarrow> live w' \<and> w_direction w' = w_direction w \<and> w_junk w' = w_junk w \<and> wire_left w' \<le> wire_left w \<and>
     (w_direction w = WIRE_FREE \<longrightarrow> w_curr w' = w_curr w \<and> w_end w' = w_end w) \<and>
     (w_direction w = WIRE_DECODE \<and> w_status w \<noteq> 0 \<longrightarrow> w_status w' \<noteq> 0)"

definition slow :: "(wire \<Rightarrow> 'a \<Rightarrow> wire \<times> 'b) \<Rightarrow> bool" where
  "slow f \<longleftrightarrow> (\<forall>w v. live w \<longrightarrow> slows w (fst (f w v)))"

lemma slows_refl: "live w \<Longrightarrow> slows w w"
  by (simp add: slows_def)

lemma slows_trans: "slows a b \<Longrightarrow> slows b c \<Longrightarrow> slows a c"
  by (auto simp: slows_def)

lemma slows_live: "slows a b \<Longrightarrow> live b"
  by (simp add: slows_def)

lemma slowI: "(\<And>w v. live w \<Longrightarrow> slows w (fst (f w v))) \<Longrightarrow> slow f"
  by (simp add: slow_def)

lemma slow_bind:
  assumes "slow f" "slows w0 w" "\<And>w1 x. slows w0 w1 \<Longrightarrow> slows w0 (fst (k w1 x))"
  shows "slows w0 (fst (case f w v of (w1, x) \<Rightarrow> k w1 x))"
proof -
  obtain w1 x where f: "f w v = (w1, x)" by fastforce
  have "slows w (fst (f w v))" using assms(1) slows_live [OF assms(2)] by (simp add: slow_def)
  then have "slows w0 w1" using assms(2) f slows_trans by auto
  with assms(3) f show ?thesis by simp
qed

section \<open>Words and strings\<close>

lemma io_read_left:
  "io_read n evs = (r, evs') \<Longrightarrow> bytes_of evs' + (case r of Inr bs \<Rightarrow> length bs | Inl e \<Rightarrow> 0) = bytes_of evs"
  by (cases "(n, evs)" rule: io_read.cases) (auto split: if_splits)

lemma io_recv_left:
  "io_recv sz howmuch evs got = (err, evs', got') \<Longrightarrow> length got' + bytes_of evs' \<le> length got + bytes_of evs"
proof (induction sz howmuch evs got rule: io_recv.induct)
  case (1 sz howmuch evs got)
  obtain r evs1 where r: "io_read (sz - length got) evs = (r, evs1)" by fastforce
  with io_read_left [OF r] 1 show ?case
    by (subst (asm) (2) io_recv.simps) (fastforce split: sum.splits if_splits)
qed

lemma io_recv_full: "io_recv sz howmuch evs got = (None, evs', got') \<Longrightarrow> howmuch \<le> length got'"
proof (induction sz howmuch evs got rule: io_recv.induct)
  case (1 sz howmuch evs got)
  then show ?case by (subst (asm) (2) io_recv.simps) (fastforce split: sum.splits if_splits prod.splits)
qed

lemma space_slow:
  assumes "live w"
  shows "slows w (sanei_w_space w n)"
    and "w_direction w = WIRE_DECODE \<Longrightarrow> w_status (sanei_w_space w n) = 0 \<Longrightarrow>
      w_curr (sanei_w_space w n) + n \<le> w_end (sanei_w_space w n)"
proof -
  have "slows w (sanei_w_space w n) \<and> (w_direction w = WIRE_DECODE \<longrightarrow> w_status (sanei_w_space w n) = 0 \<longrightarrow>
      w_curr (sanei_w_space w n) + n \<le> w_end (sanei_w_space w n))"
  proof (cases "w_status w = 0 \<and> w_end w < w_curr w + n")
    case False
    with assms show ?thesis by (auto simp: sanei_w_space_def slows_refl)
  next
    case True
    show ?thesis
    proof (cases "w_direction w")
      case WIRE_ENCODE
      with True assms show ?thesis
        by (auto simp: sanei_w_space_def space_encode_def Let_def slows_def live_def wire_left_def wfault_def
            split: prod.split option.split)
    next
      case WIRE_FREE
      with True assms show ?thesis by (simp add: sanei_w_space_def slows_refl)
    next
      case WIRE_DECODE
      let ?got = "slice (w_curr w) (w_end w) (w_mem w)"
      obtain err evs got where r: "io_recv (w_size w) n (w_rd w) ?got = (err, evs, got)" by (metis prod_cases3)
      have g: "length ?got \<le> w_end w - w_curr w" by (simp add: slice_def)
      have z: "RError 0 \<notin> set evs" "err \<noteq> Some 0" using io_recv_no_zero [OF r] assms by (auto simp: live_def)
      have le: "length got + bytes_of evs \<le> wire_left w"
        using io_recv_left [OF r] g WIRE_DECODE by (simp add: wire_left_def)
      have en: "err = None \<longrightarrow> n \<le> length got" using io_recv_full r by auto
      show ?thesis using True WIRE_DECODE assms r z le en
        by (auto simp: sanei_w_space_def space_decode_def Let_def slows_def live_def wire_left_def wfault_def split: option.split)
    qed
  qed
  then show "slows w (sanei_w_space w n)" "w_direction w = WIRE_DECODE \<Longrightarrow> w_status (sanei_w_space w n) = 0 \<Longrightarrow>
      w_curr (sanei_w_space w n) + n \<le> w_end (sanei_w_space w n)" by auto
qed

lemma put_slow:
  assumes "slows w0 w" "w_direction w0 = WIRE_ENCODE"
  shows "slows w0 (wput b w)" "slows w0 (wputs bs w)"
proof -
  have put: "slows w0 (wput b w)" if "slows w0 w" for b w
    using that assms(2) by (auto simp: wput_def wfault_def slows_def live_def wire_left_def split: option.split)
  then show "slows w0 (wput b w)" using assms(1) by blast
  show "slows w0 (wputs bs w)" using assms(1) put by (induction bs arbitrary: w) (auto simp: wputs_def)
qed

lemma get_slow:
  assumes "w_curr w < w_end w" "live w" "w_direction w = WIRE_DECODE" "wget w = (w', b)"
  shows "slows w w' \<and> w_curr w' = Suc (w_curr w) \<and> w_end w' = w_end w \<and> w_status w' = w_status w \<and> Suc (wire_left w') = wire_left w"
  using assms
  by (auto simp: wget_def wpeek_def wskip_def wfault_def slows_def live_def wire_left_def split: option.splits)

lemma byte_slow: "slow sanei_w_byte"
proof (rule slowI)
  fix w v assume w: "live w"
  let ?w = "sanei_w_space w 1"
  note s = space_slow [OF w, of 1]
  have c: "w_codec w = Codec_Bin" "w_direction ?w = w_direction w" using w s(1) by (auto simp: live_def slows_def)
  show "slows w (fst (sanei_w_byte w v))"
  proof (cases "w_status ?w = 0 \<and> w_direction w = WIRE_DECODE")
    case True
    obtain w' b where g: "wget ?w = (w', b)" by fastforce
    with True s c get_slow [OF _ slows_live [OF s(1)] _ g] show ?thesis
      by (auto simp: sanei_w_byte_def bin_w_byte_def Let_def intro: slows_trans)
  next
    case False
    with s c put_slow(1) [OF s(1)] show ?thesis
      by (auto simp: sanei_w_byte_def bin_w_byte_def Let_def split: wire_direction.split)
  qed
qed

lemma word_slow_strict:
  assumes "live w"
  shows "slows w (fst (sanei_w_word w v)) \<and>
    (w_direction w = WIRE_DECODE \<and> w_status (fst (sanei_w_word w v)) = 0 \<longrightarrow> wire_left (fst (sanei_w_word w v)) < wire_left w)"
proof -
  let ?w = "sanei_w_space w 4"
  note s = space_slow [OF assms, of 4]
  have c: "w_codec w = Codec_Bin" "w_direction ?w = w_direction w" using assms s(1) by (auto simp: live_def slows_def)
  show ?thesis
  proof (cases "w_status ?w = 0 \<and> w_direction w = WIRE_DECODE")
    case True
    then have e: "w_curr ?w + 4 \<le> w_end ?w" using s(2) by simp
    obtain w1 a where 1: "wget ?w = (w1, a)" by fastforce
    have g1: "slows ?w w1 \<and> w_curr w1 = Suc (w_curr ?w) \<and> w_end w1 = w_end ?w \<and> w_status w1 = w_status ?w \<and> Suc (wire_left w1) = wire_left ?w"
      using e c True by (intro get_slow [OF _ slows_live [OF s(1)] _ 1]) auto
    obtain w2 b where 2: "wget w1 = (w2, b)" by fastforce
    have g2: "slows w1 w2 \<and> w_curr w2 = Suc (w_curr w1) \<and> w_end w2 = w_end w1 \<and> w_status w2 = w_status w1 \<and> Suc (wire_left w2) = wire_left w1"
      using e g1 c True by (intro get_slow [OF _ _ _ 2]) (auto simp: slows_def)
    obtain w3 d where 3: "wget w2 = (w3, d)" by fastforce
    have g3: "slows w2 w3 \<and> w_curr w3 = Suc (w_curr w2) \<and> w_end w3 = w_end w2 \<and> w_status w3 = w_status w2 \<and> Suc (wire_left w3) = wire_left w2"
      using e g1 g2 c True by (intro get_slow [OF _ _ _ 3]) (auto simp: slows_def)
    obtain w4 f where 4: "wget w3 = (w4, f)" by fastforce
    have g4: "slows w3 w4 \<and> w_curr w4 = Suc (w_curr w3) \<and> w_end w4 = w_end w3 \<and> w_status w4 = w_status w3 \<and> Suc (wire_left w4) = wire_left w3"
      using e g1 g2 g3 c True by (intro get_slow [OF _ _ _ 4]) (auto simp: slows_def)
    have "slows w w4" using s(1) g1 g2 g3 g4 slows_trans by blast
    moreover have "wire_left w4 < wire_left w" using s(1) g1 g2 g3 g4 by (simp add: slows_def)
    ultimately show ?thesis using True c 1 2 3 4 by (simp add: sanei_w_word_def bin_w_word_def Let_def)
  next
    case False
    with s c put_slow(2) [OF s(1)] show ?thesis
      by (auto simp: sanei_w_word_def bin_w_word_def Let_def split: wire_direction.split)
  qed
qed

lemma word_slow: "slow sanei_w_word"
  by (rule slowI) (simp add: word_slow_strict)

lemma copy_slow: "slow w_word_copy" "slow sanei_w_status"
proof -
  show "slow w_word_copy"
    by (rule slowI) (use word_slow in \<open>auto simp: w_word_copy_def slow_def split: prod.split dest: spec\<close>, metis fst_conv)
  then show "slow sanei_w_status" by (simp add: sanei_w_status_def)
qed

lemma slows_fields:
  assumes "slows w0 w" "w_codec w' = w_codec w" "w_rd w' = w_rd w" "w_direction w' = w_direction w"
    "w_curr w' = w_curr w" "w_end w' = w_end w" "w_junk w' = w_junk w" "w_status w' = w_status w \<or> w_status w' \<noteq> 0"
  shows "slows w0 w'"
  using assms by (auto simp: slows_def live_def wire_left_def)

lemma loop_slow:
  assumes "slow f" "slows w0 w"
  shows "slows w0 (fst (array_loop f stop n w xs))"
  using assms(2)
proof (induction n arbitrary: w xs)
  case (Suc n)
  show ?case
  proof (cases xs)
    case Nil
    with Suc.prems show ?thesis by (auto simp: wfault_def intro: slows_fields)
  next
    case (Cons x ys)
    obtain w1 x1 where 1: "f w x = (w1, x1)" by fastforce
    with assms(1) slows_live [OF Suc.prems] have "slows w w1" by (metis fst_conv slow_def)
    with Suc.prems have k: "slows w0 w1" by (rule slows_trans)
    with Suc.IH [OF k, of ys] show ?thesis by (simp add: Cons 1 split: prod.split) (metis fst_conv)
  qed
qed simp

lemma loop_ptr_slow:
  assumes "slow f" "slows w0 w"
  shows "slows w0 (fst (array_loop_ptr f stop n w v))"
proof (cases v)
  case None
  with assms(2) show ?thesis by (auto simp: array_loop_ptr_def wfault_def intro: slows_fields)
next
  case (Some xs)
  with loop_slow [OF assms, of stop "loop_count n" xs] show ?thesis
    by (simp add: array_loop_ptr_def split: prod.split) (metis fst_conv)
qed

lemma array_slow:
  assumes "slow f" "slows w0 w"
  shows "slows w0 (fst (sanei_w_array z e f w len v))"
proof -
  note ptr = loop_ptr_slow [OF assms(1)]
  have upd: "slows w0 (w'\<lparr>w_allocated := a\<rparr>)" "st \<noteq> 0 \<Longrightarrow> slows w0 (w'\<lparr>w_status := st\<rparr>)" if "slows w0 w'" for w' a st
    using that by (auto intro: slows_fields)
  show ?thesis
  proof (cases "w_direction w = WIRE_FREE")
    case True
    obtain w1 v1 where 1: "array_loop_ptr f False len w v = (w1, v1)" by fastforce
    with ptr [OF assms(2), of False len v] have "slows w0 w1" by simp
    with True 1 assms(2) upd show ?thesis by (simp add: sanei_w_array_def)
  next
    case False
    obtain w1 n where 1: "sanei_w_word w (if w_direction w = WIRE_ENCODE then len else w_junk w) = (w1, n)" by fastforce
    then have k1: "slows w0 w1" using word_slow assms(2) slows_trans slows_live [OF assms(2)] by (metis fst_conv slow_def)
    obtain w2 ok where 2: "wmalloc w1 = (w2, ok)" by fastforce
    then have k2: "slows w0 w2" using k1 by (auto simp: wmalloc_def intro: slows_fields split: list.splits)
    have e: "(ENOMEM :: int) \<noteq> 0" by simp
    let ?w2 = "w2\<lparr>w_allocated := w_allocated w2 + ucast (scast n * e)\<rparr>"
    obtain w3 v3 where 3: "array_loop_ptr f True n ?w2 (Some (replicate (unat n) z)) = (w3, v3)" by fastforce
    have k3: "slows w0 w3" using ptr [OF upd(1) [OF k2], of True n "w_allocated w2 + ucast (scast n * e)" "Some (replicate (unat n) z)"] 3 by simp
    obtain w4 v4 where 4: "array_loop_ptr f True n w1 v = (w4, v4)" by fastforce
    have k4: "slows w0 w4" using ptr [OF k1, of True n v] 4 by simp
    show ?thesis using False k1 k2 k3 k4 upd(2) [OF k1 e] upd(2) [OF k2 e] by (simp add: sanei_w_array_def 1 2 3 4)
  qed
qed

lemma string_slow: "slow sanei_w_string"
proof (rule slowI)
  fix w and s :: c_string assume w: "live w"
  have f: "slows w0 (wfault x)" if "slows w0 x" for w0 x using that by (auto simp: wfault_def intro: slows_fields)
  obtain w1 len where 1: "(if w_direction w \<noteq> WIRE_DECODE then cstr_len w s else (w, w_junk w)) = (w1, len)" by fastforce
  then have "slows w w1" using w slows_refl f
    by (auto simp: cstr_len_def split: if_splits option.splits)
  then have k: "slows w (fst (sanei_w_array 0 1 sanei_w_byte w1 len s))" by (rule array_slow [OF byte_slow])
  obtain w2 len2 s2 where 2: "sanei_w_array 0 1 sanei_w_byte w1 len s = (w2, len2, s2)" by (metis prod_cases3)
  with k have k2: "slows w w2" by simp
  show "slows w (fst (sanei_w_string w s))"
    using w k2 f [OF k2] by (auto simp: sanei_w_string_def bin_w_string_def 1 2 Let_def live_def split: option.split)
qed

lemma slow_end: "slows w0 w \<Longrightarrow> slows w0 (fst (w, x))"
  by simp

lemmas slow_seq = slow_bind [OF word_slow] slow_bind [OF copy_slow(1)] slow_bind [OF copy_slow(2)] slow_bind [OF string_slow]

section \<open>Messages\<close>

lemma auth_req_slow: "slow sanei_w_authorization_req"
  unfolding sanei_w_authorization_req_def by (rule slowI) ((rule slow_seq, simp add: slows_refl)+, simp)

lemma init_slow: "slow sanei_w_init_req" "slow sanei_w_init_reply"
  unfolding sanei_w_init_req_def sanei_w_init_reply_def
  by ((rule slowI, (rule slow_seq, simp add: slows_refl)+, simp)+)

lemma open_reply_slow:
  assumes "live w"
  shows "slows w (fst (sanei_w_open_reply w r))"
    and "w_direction w = WIRE_DECODE \<Longrightarrow> w_status (fst (sanei_w_open_reply w r)) = 0 \<Longrightarrow>
      wire_left (fst (sanei_w_open_reply w r)) < wire_left w"
proof -
  obtain w1 a where 1: "sanei_w_word w (orp_status r) = (w1, a)" by fastforce
  have k1: "slows w w1" "w_direction w = WIRE_DECODE \<Longrightarrow> w_status w1 = 0 \<Longrightarrow> wire_left w1 < wire_left w"
    using word_slow_strict [OF assms, of "orp_status r"] 1 by auto
  have "slows w1 (fst (sanei_w_open_reply w r))"
    unfolding sanei_w_open_reply_def sanei_w_status_def w_word_copy_def 1 prod.case
    by ((rule slow_seq, simp add: slows_refl slows_live [OF k1(1)])+, simp)
  with k1 show "slows w (fst (sanei_w_open_reply w r))"
    "w_direction w = WIRE_DECODE \<Longrightarrow> w_status (fst (sanei_w_open_reply w r)) = 0 \<Longrightarrow>
      wire_left (fst (sanei_w_open_reply w r)) < wire_left w"
    by (auto simp: slows_def)
qed

section \<open>Calls\<close>

definition calms :: "wire \<Rightarrow> wire \<Rightarrow> bool" where
  \<comment> \<open>the same, across changes of direction\<close>
  "calms w w' \<longleftrightarrow> (live w \<longrightarrow> live w' \<and> w_junk w' = w_junk w \<and> wire_left w' \<le> wire_left w)"

lemma calms_refl: "calms w w"
  by (simp add: calms_def)

lemma calms_trans: "calms a b \<Longrightarrow> calms b c \<Longrightarrow> calms a c"
  by (auto simp: calms_def)

lemma slow_calms: "slow f \<Longrightarrow> calms w (fst (f w v))"
  by (simp add: slow_def slows_def calms_def)

lemma set_dir_calms:
  assumes "dir \<noteq> WIRE_FREE"
  shows "calms w (sanei_w_set_dir w dir)" "w_direction (sanei_w_set_dir w dir) = dir"
proof -
  have fl: "live (flush x) \<and> w_direction (flush x) = w_direction x \<and> w_rd (flush x) = w_rd x" if "live x" "w_direction x = WIRE_ENCODE" for x
    using that by (auto simp: flush_def sanei_w_space_def space_encode_def wfault_def Let_def live_def split: prod.split option.split)
  have fd: "w_direction (flush x) = w_direction x" for x
    by (auto simp: flush_def sanei_w_space_def space_encode_def wfault_def Let_def split: wire_direction.split prod.split option.split)
  show "w_direction (sanei_w_set_dir w dir) = dir" by (simp add: sanei_w_set_dir_def fd)
  have jn: "w_junk (flush x) = w_junk x" for x
    by (auto simp: flush_def sanei_w_space_def space_encode_def wfault_def Let_def split: wire_direction.split prod.split option.split)
  have "w_rd (flush w) = w_rd w \<and> w_codec (flush w) = w_codec w"
    by (auto simp: flush_def sanei_w_space_def space_encode_def wfault_def Let_def split: prod.split option.split wire_direction.split)
  then show "calms w (sanei_w_set_dir w dir)"
    using assms fl [of "(flush w)\<lparr>w_direction := WIRE_ENCODE\<rparr>"]
    by (cases dir) (auto simp: calms_def sanei_w_set_dir_def live_def wire_left_def fd jn, auto simp: flush_def)
qed

lemma status_calms: "calms w (w\<lparr>w_status := st\<rparr>)" "calms w (w\<lparr>w_version := v\<rparr>)"
  by (simp_all add: calms_def live_def wire_left_def)

lemma call_calms:
  assumes "slow f" "slow g"
  shows "calms w (fst (sanei_w_call w procnum f arg g reply))"
proof -
  define w1 where "w1 = sanei_w_set_dir (w\<lparr>w_status := 0\<rparr>) WIRE_ENCODE"
  obtain w2 x where 2: "sanei_w_word w1 procnum = (w2, x)" by fastforce
  obtain w3 a where 3: "f w2 arg = (w3, a)" by fastforce
  have "calms w w1" unfolding w1_def by (rule calms_trans [OF status_calms(1) set_dir_calms(1)]) simp
  moreover have "calms w1 w2" using slow_calms [OF word_slow, of w1 procnum] 2 by simp
  moreover have "calms w2 w3" using slow_calms [OF assms(1), of w2 arg] 3 by simp
  ultimately have k: "calms w w3" using calms_trans by blast
  obtain w4 b where 4: "g (sanei_w_set_dir w3 WIRE_DECODE) reply = (w4, b)" by fastforce
  have "calms w3 w4" using calms_trans [OF set_dir_calms(1) slow_calms [OF assms(2)], of WIRE_DECODE w3 reply] 4 by simp
  with k have "calms w w4" by (rule calms_trans)
  with k show ?thesis by (simp add: sanei_w_call_def Let_def 2 3 4 flip: w1_def)
qed

lemma free_calms:
  assumes "slow f"
  shows "calms w (fst (sanei_w_free w f reply))"
proof -
  obtain w1 r where 1: "f (w\<lparr>w_direction := WIRE_FREE\<rparr>) reply = (w1, r)" by fastforce
  have "slows (w\<lparr>w_direction := WIRE_FREE\<rparr>) w1" if "live w"
  proof -
    have "live (w\<lparr>w_direction := WIRE_FREE\<rparr>)" using that by (simp add: live_def)
    with assms 1 show ?thesis unfolding slow_def by (metis fst_conv)
  qed
  then show ?thesis by (auto simp: calms_def sanei_w_free_def Let_def 1 slows_def live_def wire_left_def)
qed

section \<open>A connection that has run dry\<close>

lemma string_stuck:
  assumes "w_status w \<noteq> 0" "w_direction w = WIRE_DECODE" "w_codec w = Codec_Bin" "w_junk w \<noteq> 0"
  shows "sanei_w_string w s = (w, s)"
  using assms by (simp add: sanei_w_string_def bin_w_string_def sanei_w_array_def sanei_w_word_def bin_w_word_def sanei_w_space_def Let_def)

lemma start_reply_dry:
  assumes "live w" "wire_left w = 0" "w_direction w = WIRE_DECODE" "w_junk w \<noteq> 0"
  shows "srp_resource (snd (sanei_w_start_reply w r)) = srp_resource r"
proof -
  obtain w1 a where 1: "sanei_w_word w (srp_status r) = (w1, a)" by fastforce
  have k1: "slows w w1" "w_status w1 \<noteq> 0"
    using word_slow_strict [OF assms(1), of "srp_status r"] 1 assms(2,3) by auto
  obtain w2 b where 2: "sanei_w_word w1 (srp_port r) = (w2, b)" by fastforce
  have k2: "slows w1 w2" using word_slow slows_live [OF k1(1)] 2 unfolding slow_def by (metis fst_conv)
  obtain w3 d where 3: "sanei_w_word w2 (srp_byte_order r) = (w3, d)" by fastforce
  have k3: "slows w2 w3" using word_slow slows_live [OF k2] 3 unfolding slow_def by (metis fst_conv)
  have "sanei_w_string w3 (srp_resource r) = (w3, srp_resource r)"
    using k1 k2 k3 assms(3,4) by (intro string_stuck) (auto simp: slows_def live_def)
  then show ?thesis by (simp add: sanei_w_start_reply_def sanei_w_status_def w_word_copy_def 1 2 3)
qed

lemma start_reply_slow: "slow sanei_w_start_reply"
  unfolding sanei_w_start_reply_def by (rule slowI) ((rule slow_seq, simp add: slows_refl)+, simp)

end
