(* ===== verification/Net_Live.thy ===== *)
theory Net_Live
  imports Wire_Live Net_Examples
begin

text \<open>
  The authorization loops of the network backend when the connection ends.  Opening a device returns
  then, whatever the server has answered before: each turn of the loop of \<open>sane_open\<close> uses up bytes
  of the connection or ends it.  Starting a scan uses a freed string.
\<close>

section \<open>The connection of one host\<close>

definition calm :: "nat \<Rightarrow> net_client \<Rightarrow> net_client \<Rightarrow> bool" where
  "calm i c c' \<longleftrightarrow> length (nc_devs c') = length (nc_devs c) \<and> calms (nd_wire (get_dev c i)) (nd_wire (get_dev c' i))"

lemma calm_refl: "calm i c c"
  by (simp add: calm_def calms_refl)

lemma calm_trans: "calm i a b \<Longrightarrow> calm i b c \<Longrightarrow> calm i a c"
  by (auto simp: calm_def intro: calms_trans)

lemma calm_same:
  assumes "nc_devs c' = nc_devs c"
  shows "calm i c c'"
  using assms by (simp add: calm_def get_dev_def calms_refl)

lemma calm_set_dev:
  assumes "\<And>d. calms (nd_wire d) (nd_wire (f d))"
  shows "calm i c (set_dev j f c)"
  using assms by (auto simp: calm_def get_dev_def set_dev_def nc_fail_def calms_refl nth_list_update)

lemma calm_check: "calm i c (nc_check ok c)"
  by (rule calm_same) (simp add: nc_check_def nc_fail_def)

lemma calm_alloc: "nc_alloc c = (c', ok) \<Longrightarrow> calm i c c'"
  by (rule calm_same) (auto simp: nc_alloc_def split: list.splits)

lemma devs_on_dev:
  assumes "f (nd_wire (get_dev c j)) = (w, x)" "j < length (nc_devs c)"
  shows "on_dev j f c = (nc_check (\<not> w_fault w) (set_dev j (\<lambda>d. d\<lparr>nd_wire := w\<rparr>) c), x)"
    and "get_dev (fst (on_dev j f c)) i = (if i = j then (get_dev c i)\<lparr>nd_wire := w\<rparr> else get_dev c i)"
    and "length (nc_devs (fst (on_dev j f c))) = length (nc_devs c)"
  using assms by (auto simp: on_dev_def get_dev_def set_dev_def nc_check_def nc_fail_def)

lemma calm_on_dev:
  assumes "\<And>w. calms w (fst (f w))"
  shows "calm i c (fst (on_dev j f c))"
proof (cases "j < length (nc_devs c)")
  case True
  obtain w x where f: "f (nd_wire (get_dev c j)) = (w, x)" by fastforce
  then have "calms (nd_wire (get_dev c j)) w" using assms [of "nd_wire (get_dev c j)"] by simp
  then show ?thesis using devs_on_dev(2,3) [where f = f and c = c, OF f True] by (simp add: calm_def calms_refl)
next
  case False
  then show ?thesis
    by (intro calm_same) (simp add: on_dev_def set_dev_def nc_check_def nc_fail_def split: prod.split)
qed

lemma calm_on_devD: "(\<And>w. calms w (fst (f w))) \<Longrightarrow> on_dev j f c = (c', x) \<Longrightarrow> calm i c c'"
  using calm_on_dev [of f i c j] by simp

lemma calm_do_cancel: "calm i c (do_cancel h c)"
proof -
  have 1: "calm i c (set_dev j (\<lambda>d. d\<lparr>nd_auth_active := False\<rparr>) c)" for j by (rule calm_set_dev) (simp add: calms_refl)
  have 2: "calm i d (put_scanner h s d)" for d s by (rule calm_same) (simp add: put_scanner_def)
  have 3: "calm i c (nc_fail c)" by (rule calm_same) (simp add: nc_fail_def)
  show ?thesis using 1 3 calm_trans [OF 1 2] by (simp add: do_cancel_def Let_def split: option.split)
qed

lemma calm_cancel: "calm i c (sane_cancel h c)"
proof -
  have "calm i c (nc_fail c)" by (rule calm_same) (simp add: nc_fail_def)
  moreover have "calm i c (fst (on_dev j (\<lambda>w. sanei_w_call w SANE_NET_CANCEL sanei_w_word a sanei_w_word (w_junk w)) c))" for j a
    by (rule calm_on_dev) (rule call_calms [OF word_slow word_slow])
  ultimately show ?thesis using calm_trans [OF _ calm_do_cancel] by (simp add: sane_cancel_def split: option.split)
qed

lemma calm_ask: "calm i c (fst (ask_frontend env r c))"
proof -
  have "calm i c (fold sane_cancel hs c)" for hs
    by (induction hs arbitrary: c) (auto intro: calm_refl calm_trans calm_cancel)
  then show ?thesis by (simp add: ask_frontend_def calm_refl split: option.split)
qed

lemma calm_do_authorization: "calm i c (do_authorization env j r c)"
proof -
  let ?c1 = "set_dev j (\<lambda>d. d\<lparr>nd_auth_active := True\<rparr>) c"
  have 1: "calm i c ?c1" by (rule calm_set_dev) (simp add: calms_refl)
  show ?thesis
  proof (cases "Option.bind r c_str")
    case None
    have "calm i ?c1 (nc_fail ?c1)" by (rule calm_same) (simp add: nc_fail_def)
    with 1 None show ?thesis by (auto simp: do_authorization_def Let_def intro: calm_trans)
  next
    case (Some res)
    obtain c2 ok where a: "nc_alloc ?c1 = (c2, ok)" by fastforce
    obtain c3 user pass where b: "ask_frontend env (if ok then net_resource_name (nd_name (get_dev ?c1 j)) res else res) c2 = (c3, user, pass)"
      by (metis prod_cases3)
    have "calm i c2 c3" using calm_ask [of i c2 env] b by (metis fst_conv)
    with 1 calm_alloc [OF a, of i] have k: "calm i c c3" using calm_trans by blast
    moreover have "calm i c3 (fst (on_dev j (\<lambda>w. sanei_w_call w SANE_NET_AUTHORIZE sanei_w_authorization_req req
        sanei_w_word (w_junk w)) c3))" for req
      by (rule calm_on_dev) (rule call_calms [OF auth_req_slow word_slow])
    ultimately show ?thesis using Some a b by (auto simp: do_authorization_def Let_def intro: calm_trans)
  qed
qed

section \<open>The authorization loop\<close>

lemma open_reply_calm: "slow sanei_w_open_reply"
  by (rule slowI) (rule open_reply_slow)

lemma open_auth_uses:
  assumes "i < length (nc_devs c)" "live (nd_wire (get_dev c i))" "open_auth env i reply c = (c', reply')"
  shows "i < length (nc_devs c')" "live (nd_wire (get_dev c' i))"
    and "dev_status i c' = 0 \<Longrightarrow> wire_left (nd_wire (get_dev c' i)) < wire_left (nd_wire (get_dev c i))"
proof -
  define c1 where "c1 = do_authorization env i (orp_resource reply) c"
  obtain c2 reply1 where 2: "on_dev i (\<lambda>w. sanei_w_free w sanei_w_open_reply reply) c1 = (c2, reply1)" by fastforce
  have "calm i c1 c2" by (rule calm_on_devD [OF _ 2]) (rule free_calms [OF open_reply_calm])
  then have k: "calm i c c2" using calm_do_authorization [of i c env i "orp_resource reply"] calm_trans by (metis c1_def)
  then have i: "i < length (nc_devs c2)" "live (nd_wire (get_dev c2 i))"
    "wire_left (nd_wire (get_dev c2 i)) \<le> wire_left (nd_wire (get_dev c i))"
    using assms(1,2) by (auto simp: calm_def calms_def)
  let ?w = "nd_wire (get_dev c2 i)"
  define w where "w = (if w_direction ?w \<noteq> WIRE_DECODE then sanei_w_set_dir ?w WIRE_DECODE else ?w)"
  have w: "live w" "wire_left w \<le> wire_left ?w" "w_direction w = WIRE_DECODE"
    using set_dir_calms [of WIRE_DECODE ?w] i(2) by (auto simp: w_def calms_def)
  obtain w3 r3 where 3: "sanei_w_open_reply w reply1 = (w3, r3)" by fastforce
  have s: "slows w w3" "w_status w3 = 0 \<Longrightarrow> wire_left w3 < wire_left w"
    using open_reply_slow [OF w(1), of reply1] w(3) 3 by auto
  have c': "on_dev i (\<lambda>w. sanei_w_open_reply (if w_direction w \<noteq> WIRE_DECODE then sanei_w_set_dir w WIRE_DECODE else w) reply1) c2 = (c', reply')"
    using assms(3) 2 by (simp add: open_auth_def c1_def)
  note d = devs_on_dev [where f = "\<lambda>w. sanei_w_open_reply (if w_direction w \<noteq> WIRE_DECODE then sanei_w_set_dir w WIRE_DECODE else w) reply1"
      and c = c2, OF 3 [unfolded w_def] i(1)]
  have g: "get_dev c' i = (get_dev c2 i)\<lparr>nd_wire := w3\<rparr>" "length (nc_devs c') = length (nc_devs c2)"
    using d(2) [of i] d(3) c' by auto
  show "i < length (nc_devs c')" "live (nd_wire (get_dev c' i))"
    using g i s(1) by (auto simp: slows_def)
  show "dev_status i c' = 0 \<Longrightarrow> wire_left (nd_wire (get_dev c' i)) < wire_left (nd_wire (get_dev c i))"
    using g s w i(3) by (auto simp: dev_status_def)
qed

lemma open_loop_returns:
  assumes "i < length (nc_devs c)" "live (nd_wire (get_dev c i))"
  shows "\<exists>y. open_loop env i reply c = Some y"
  using assms
proof (induction "wire_left (nd_wire (get_dev c i))" arbitrary: c reply rule: less_induct)
  case less
  show ?case
  proof (cases "dev_status i c = 0 \<and> orp_resource reply \<noteq> None")
    case False
    then show ?thesis by (subst open_loop.simps) (auto split: prod.split)
  next
    case True
    obtain c1 reply1 where a: "open_auth env i reply c = (c1, reply1)" by fastforce
    note u = open_auth_uses [OF less.prems a]
    have "\<exists>y. open_loop env i reply1 c1 = Some y"
    proof (cases "dev_status i c1 = 0")
      case True
      from less.hyps [OF u(3) [OF True] u(1,2)] show ?thesis .
    next
      case False
      then show ?thesis by (subst open_loop.simps) simp
    qed
    with True a show ?thesis by (subst open_loop.simps) simp
  qed
qed

section \<open>Connecting\<close>

definition links_ok :: "net_client \<Rightarrow> bool" where
  \<comment> \<open>the connections that are open, and those to come, set \<open>errno\<close> when \<open>read\<close> fails\<close>
  "links_ok c \<longleftrightarrow> list_all (\<lambda>d. 0 \<le> nd_ctl d \<longrightarrow> live (nd_wire d)) (nc_devs c) \<and>
     list_all (\<lambda>e. case e of Conn l \<Rightarrow> RError 0 \<notin> set (ln_rd l) | _ \<Rightarrow> True) (nc_conns c)"

lemma connect_addrs_from:
  "connect_addrs as evs = (Some (a, l), evs') \<Longrightarrow> Conn l \<in> set evs"
  by (induction "as" evs rule: connect_addrs.induct) auto

lemma link_wire_live: "RError 0 \<notin> set (ln_rd l) \<Longrightarrow> live (link_wire l w)"
  by (simp add: link_wire_def sanei_w_init_def wmalloc_def live_def Let_def split: list.split prod.split)

lemma connect_dev_live:
  assumes "links_ok c" "i < length (nc_devs c)" "connect_dev env i c = (c', SANE_STATUS_GOOD)"
  shows "i < length (nc_devs c') \<and> live (nd_wire (get_dev c' i))"
proof -
  obtain r evs where ca: "connect_addrs (nd_addr (get_dev c i)) (nc_conns c) = (r, evs)" by fastforce
  with assms(3) obtain a l where r: "r = Some (a, l)" by (cases r) (auto simp: connect_dev_def)
  let ?c0 = "c\<lparr>nc_conns := evs, nc_dialed := nc_dialed c @ [a]\<rparr>"
  let ?c1 = "set_dev i (\<lambda>d. d\<lparr>nd_addr_used := Some a, nd_ctl := int (ln_fd l), nd_wire := link_wire l (nd_wire d)\<rparr>) ?c0"
  have "RError 0 \<notin> set (ln_rd l)" using connect_addrs_from ca r assms(1) by (fastforce simp: links_ok_def list_all_iff)
  then have c1: "i < length (nc_devs ?c1) \<and> live (nd_wire (get_dev ?c1 i))"
    using assms(2) link_wire_live by (simp add: set_dev_def get_dev_def)
  obtain c2 user where u: "get_current_username env ?c1 = (c2, user)" by fastforce
  have k2: "calm i ?c1 c2" using u
    by (intro calm_same) (auto simp: get_current_username_def nc_alloc_def nc_fail_def split: list.splits option.splits if_splits)
  obtain c3 x reply where r1: "on_dev i (\<lambda>w. sanei_w_call w SANE_NET_INIT sanei_w_init_req
      \<lparr>irq_version_code = sane_version_code (fst (ce_version env)) (snd (ce_version env)) 3, irq_username = user\<rparr>
      sanei_w_init_reply (ce_init_junk env)) c2 = (c3, x, reply)" by (metis prod_cases3)
  have "calm i c2 c3" by (rule calm_on_devD [OF _ r1]) (rule call_calms [OF init_slow])
  obtain c4 reply4 where r2: "on_dev i (\<lambda>w. sanei_w_free w sanei_w_init_reply reply) c3 = (c4, reply4)" by fastforce
  have "calm i c3 c4" by (rule calm_on_devD [OF _ r2]) (rule free_calms [OF init_slow(2)])
  then have k: "calm i ?c1 c4" using k2 \<open>calm i c2 c3\<close> calm_trans by blast
  have "calm i c4 (set_dev i (\<lambda>d. d\<lparr>nd_wire := (nd_wire d)\<lparr>w_version := v\<rparr>\<rparr>) c4)" for v
    by (rule calm_set_dev) (simp add: status_calms)
  then have "calm i ?c1 (set_dev i (\<lambda>d. d\<lparr>nd_wire := (nd_wire d)\<lparr>w_version := v\<rparr>\<rparr>) c4)" for v
    using k calm_trans by blast
  with c1 have *: "i < length (nc_devs (set_dev i (\<lambda>d. d\<lparr>nd_wire := (nd_wire d)\<lparr>w_version := v\<rparr>\<rparr>) c4)) \<and>
      live (nd_wire (get_dev (set_dev i (\<lambda>d. d\<lparr>nd_wire := (nd_wire d)\<lparr>w_version := v\<rparr>\<rparr>) c4) i))" for v
    by (simp add: calm_def calms_def)
  show ?thesis using assms(3) * unfolding connect_dev_def ca r prod.case option.case Let_def u r1 r2
    by (auto split: if_splits)
qed

lemma find_host_links:
  assumes "links_ok c" "find_host env host c = (c', st, r)"
  shows "links_ok c' \<and> (\<forall>i. r = Some i \<longrightarrow> i < length (nc_devs c'))"
proof -
  have al: "links_ok c'" "nc_devs c' = nc_devs c" if "nc_alloc c = (c', ok)" "links_ok c" for c c' ok
    using that by (auto simp: nc_alloc_def links_ok_def split: list.splits)
  have new: "links_ok (d\<lparr>nc_devs := nc_devs d @ [new_net_device name addrs]\<rparr>)" if "links_ok d" for d name addrs
    using that by (simp add: links_ok_def new_net_device_def)
  have fd: "i < length (nc_devs c)" if "find_dev c host = Some i" for i
    using that by (auto simp: find_dev_def find_Some_iff) (metis atLeast0LessThan lessThan_iff length_rev length_upt nth_mem minus_nat.diff_0 set_rev set_upt)
  show ?thesis
    using assms al(1) al(1) [OF _ al(1)] new fd
    by (auto simp: find_host_def add_device_def split: option.splits prod.splits if_splits)
qed

text \<open> C6: opening a device ends with the connection.  The code sets no bound of its own on the number of
  times a server may ask for authorization, nor on the time it may stay silent.  But every turn of the
  loop that stays in it has read a reply: when the connections of the client deliver finitely many
  bytes and then end or fail, as every script of the model does, \<open>sane_open\<close> returns a status, whatever
  the bytes are, however often they ask for authorization, and whatever the frontend answers,
  cancelling included.  It does not loop on a broken connection.  A failed \<open>read\<close> is assumed to set \<open>errno\<close>.\<close>

theorem sane_open_returns:
  assumes "links_ok c"
  shows "\<exists>c' status h. sane_open env name c = Some (c', status, h)"
proof (cases "split_name name")
  case (Some p)
  obtain host device where p: "p = (host, device)" by fastforce
  obtain c1 status ri where f: "find_host env host c = (c1, status, ri)" by (metis prod_cases3)
  note f1 = find_host_links [OF assms f]
  show ?thesis
  proof (cases "host = [] \<or> ri = None")
    case True
    with Some p f show ?thesis by (auto simp: sane_open_def)
  next
    case False
    then obtain i where i: "ri = Some i" by auto
    obtain c2 st2 where 2: "(if nd_ctl (get_dev c1 i) < 0 then connect_dev env i c1 else (c1, SANE_STATUS_GOOD)) = (c2, st2)"
      by fastforce
    have c2: "i < length (nc_devs c2) \<and> live (nd_wire (get_dev c2 i))" if "st2 = SANE_STATUS_GOOD"
    proof (cases "nd_ctl (get_dev c1 i) < 0")
      case True
      with 2 that connect_dev_live f1 i show ?thesis by auto
    next
      case False
      with 2 f1 i show ?thesis by (auto simp: links_ok_def list_all_iff get_dev_def)
    qed
    obtain c3 x reply where 3: "on_dev i (\<lambda>w. sanei_w_call w SANE_NET_OPEN sanei_w_string (Some (mk_cstr device))
        sanei_w_open_reply (ce_open_junk env)) c2 = (c3, x, reply)" by (metis prod_cases3)
    have "calm i c2 c3" by (rule calm_on_devD [OF _ 3]) (rule call_calms [OF string_slow open_reply_calm])
    then have "\<exists>y. open_loop env i reply c3 = Some y" if "st2 = SANE_STATUS_GOOD"
      using open_loop_returns c2 [OF that] by (simp add: calm_def calms_def)
    then have "\<exists>c' s h. open_connected env i device c2 = Some (c', s, h)" if "st2 = SANE_STATUS_GOOD"
      using that 3 by (auto simp: open_connected_def) (metis prod_cases3)
    with False show ?thesis unfolding sane_open_def Some p option.case prod.case f i Let_def 2 by auto
  qed
qed (simp add: sane_open_def)

definition ex_auth_link :: net_link where
  \<comment> \<open>a server that accepts the session, asks for authorization twice, and breaks the connection\<close>
  "ex_auth_link = \<lparr>ln_fd = 4, ln_rd = [RData [0, 0, 0, 0, 1, 1, 0, 3], RData [0, 0, 0, 0, 0, 0, 0, 5, 0, 0, 0, 2, 114, 0],
     RData [0, 0, 0, 0], RData [0, 0, 0, 0, 0, 0, 0, 5, 0, 0, 0, 2, 114, 0], RError 5], ln_wr = [], ln_malloc = [], ln_junk = 0\<rparr>"

lemma sane_open_returns_witness:
  "\<exists>c' status h. sane_open ex_client_env [104, 58, 100] ((ex_reader [])\<lparr>nc_conns := [Conn ex_auth_link]\<rparr>) = Some (c', status, h)"
proof (rule sane_open_returns)
  show "links_ok ((ex_reader [])\<lparr>nc_conns := [Conn ex_auth_link]\<rparr>)"
    by (simp add: links_ok_def ex_reader_def new_net_device_def ex_auth_link_def)
qed

section \<open>Starting on a broken connection\<close>

definition dry :: "nat \<Rightarrow> net_client \<Rightarrow> bool" where
  \<comment> \<open>the host's connection delivers nothing any more\<close>
  "dry i c \<longleftrightarrow> i < length (nc_devs c) \<and> live (nd_wire (get_dev c i)) \<and> wire_left (nd_wire (get_dev c i)) = 0 \<and>
     w_junk (nd_wire (get_dev c i)) \<noteq> 0"

lemma calm_dry: "calm i c c' \<Longrightarrow> dry i c \<Longrightarrow> dry i c'"
  by (auto simp: calm_def calms_def dry_def)

lemma start_auth_dry:
  assumes "dry i c" "srp_resource reply \<noteq> None" "start_auth env i reply c = (c', reply')"
  shows "srp_resource reply' = Some []"
proof -
  define c1 where "c1 = do_authorization env i (srp_resource reply) c"
  have d1: "dry i c1" unfolding c1_def by (rule calm_dry [OF calm_do_authorization assms(1)])
  obtain c2 r where 2: "on_dev i (\<lambda>w. sanei_w_free w sanei_w_start_reply reply) c1 = (c2, r)" by fastforce
  have "calm i c1 c2" by (rule calm_on_devD [OF _ 2]) (rule free_calms [OF start_reply_slow])
  then have d2: "dry i c2" using d1 by (rule calm_dry)
  let ?w = "sanei_w_set_dir (nd_wire (get_dev c2 i)) WIRE_DECODE"
  let ?r = "r\<lparr>srp_resource := freed_string (srp_resource reply)\<rparr>"
  have "on_dev i (\<lambda>w. sanei_w_start_reply (sanei_w_set_dir w WIRE_DECODE) ?r) c2 = (c', reply')"
    using assms(3) 2 by (simp add: start_auth_def c1_def)
  then have r: "reply' = snd (sanei_w_start_reply ?w ?r)" by (simp add: on_dev_def split: prod.splits)
  have "live ?w" "wire_left ?w = 0" "w_direction ?w = WIRE_DECODE" "w_junk ?w \<noteq> 0"
    using d2 set_dir_calms [of WIRE_DECODE "nd_wire (get_dev c2 i)"] by (auto simp: dry_def calms_def)
  from start_reply_dry [OF this, of ?r] show ?thesis using assms(2) by (auto simp: r freed_string_def)
qed

text \<open> C38: the authorization loop of \<open>sane_start\<close> does not look at the status of the connection, as that of
  \<open>sane_open\<close> does.  When the server has asked for authorization and then ends the connection, the next
  reply is not decoded, and its length of the resource name is the uninitialised \<open>len\<close> of \<open>bin_w_string\<close>: if that
  is not zero, the freed name of the old reply stays in place, and the next turn of the loop asks the
  frontend about it and frees it again.\<close>

theorem start_uses_freed_resource:
  assumes "dry i c" "srp_resource reply \<noteq> None"
  shows "\<exists>c' status. start_loop env i reply c = Some (c', Inl status) \<and> nc_fault c'"
proof (cases "srp_resource reply = Some []")
  case True
  then show ?thesis by (subst start_loop.simps) (simp add: nc_fail_def)
next
  case False
  define d where "d = c\<lparr>nc_server_big := (srp_byte_order reply \<noteq> 0x1234)\<rparr>"
  obtain c1 r1 where a: "start_auth env i reply d = (c1, r1)" by fastforce
  have "dry i d" using assms(1) by (auto simp: dry_def d_def get_dev_def)
  from start_auth_dry [OF this assms(2) a] have "\<exists>c' status. start_loop env i r1 c1 = Some (c', Inl status) \<and> nc_fault c'"
    by (subst start_loop.simps) (simp add: nc_fail_def)
  with False assms(2) a show ?thesis by (subst start_loop.simps) (simp add: Let_def flip: d_def)
qed

lemma start_uses_freed_resource_witness:
  "\<exists>c' status. start_loop ex_client_env 0 \<lparr>srp_status = 0, srp_port = 0, srp_byte_order = 0x1234, srp_resource = Some [114, 0]\<rparr>
     (set_dev 0 (\<lambda>d. d\<lparr>nd_wire := link_wire (ex_auth_link\<lparr>ln_rd := [], ln_junk := 1\<rparr>) (nd_wire d)\<rparr>) (ex_reader [])) =
     Some (c', Inl status) \<and> nc_fault c'"
  by (rule start_uses_freed_resource)
    (simp_all add: dry_def set_dev_def ex_reader_def get_dev_def new_net_device_def link_wire_live wire_left_def,
      simp add: link_wire_def sanei_w_init_def wmalloc_def Let_def ex_auth_link_def)

end
