(* ===== verification/Net_Remote.thy ===== *)
theory Net_Remote
  imports Wire_Live Net_Examples Saned_Rpc_Props
begin

text \<open>
  The client of \<^verbatim>\<open>backend/net.c\<close> and the daemon of \<^verbatim>\<open>frontend/saned.c\<close> put together: a call of the SANE API
  on a remote device is the call of the daemon's backend.
\<close>

section \<open>Both ends\<close>

context wire_rpc
begin

text \<open>What a call sends, whatever comes back.\<close>

lemma call_sends:
  assumes w: "wire_ready w ver" and m: "io_good w" and v: "validA a"
  shows "new_bytes w (fst (sanei_w_call w procnum w_arg a w_reply r0)) = be32 procnum @ serA a"
proof -
  let ?w1 = "sanei_w_set_dir (w\<lparr>w_status := 0\<rparr>) WIRE_ENCODE"
  obtain w2 w3 where w2: "sanei_w_word ?w1 procnum = (w2, procnum)" and w3: "w_arg w2 a = (w3, a)"
    "enc_at w3 ver (enc_frame_of w) ((flushed (w\<lparr>w_status := 0\<rparr>) @ be32 procnum) @ serA a)"
    using word_enc_step [OF set_dir_encode [OF w]] arg.encode [OF v] unfolding enc_ok_def by meson
  note f = flush_sent [OF w3(2)]
  define w4 where "w4 = sanei_w_set_dir w3 WIRE_DECODE"
  have eq: "w4 = (flush w3)\<lparr>w_direction := WIRE_DECODE, w_curr := 0, w_end := 0\<rparr>"
    by (simp add: w4_def sanei_w_set_dir_def flush_def [of "(flush w3)\<lparr>w_direction := WIRE_DECODE\<rparr>"])
  have "reading w4" using f m by (auto simp: eq wire_ready_def buf_ok_def reading_def enc_frame_of_def io_good_def)
  from safe_step [OF safe, of w4 w4 r0] this have "w_sent (fst (w_reply w4 r0)) = w_sent w4" by (simp add: kept_def)
  moreover have "w_sent w4 = flushed (w\<lparr>w_status := 0\<rparr>) @ be32 procnum @ serA a" using f by (simp add: eq)
  ultimately show ?thesis
    using w2 w3 enc_at_status [OF w3(2)]
    by (simp add: sanei_w_call_def Let_def new_bytes_def flip: w4_def split: prod.split)
      (metis fst_conv append_eq_conv_conj)
qed

end

definition at_rest :: "wire \<Rightarrow> bool" where
  \<comment> \<open>a wire of the daemon between two requests\<close>
  "at_rest w \<longleftrightarrow> wire_ready w 3 \<and> io_good w \<and> w_status w = 0 \<and> (w_direction w = WIRE_ENCODE \<longrightarrow> w_curr w = 0)"

lemma at_rest_reads:
  assumes "at_rest w"
  shows "dec_at (sanei_w_set_dir w WIRE_DECODE) 3 (w_allocated w) (avail (w_rd w))"
    and "reading (sanei_w_set_dir w WIRE_DECODE)" and "w_sent (sanei_w_set_dir w WIRE_DECODE) = w_sent w"
    and "w_wr (sanei_w_set_dir w WIRE_DECODE) = w_wr w"
proof -
  have fd: "flush (v\<lparr>w_direction := WIRE_DECODE\<rparr>) = v\<lparr>w_direction := WIRE_DECODE, w_curr := 0, w_end := 0\<rparr>" for v
    by (cases v) (simp add: flush_def)
  have eq: "sanei_w_set_dir w WIRE_DECODE = w\<lparr>w_direction := WIRE_DECODE, w_curr := 0, w_end := 0\<rparr>"
  proof (cases "w_direction w")
    case WIRE_ENCODE
    with assms have "flush w = w\<lparr>w_curr := 0, w_end := w_size w\<rparr>"
      by (cases w) (simp add: at_rest_def flush_def sanei_w_space_def space_encode_def wire_ready_def buf_ok_def Let_def)
    with fd [of "flush w"] show ?thesis by (cases w) (simp add: sanei_w_set_dir_def)
  next
    case WIRE_DECODE
    then show ?thesis by (cases w) (simp add: sanei_w_set_dir_def flush_def)
  next
    case WIRE_FREE
    with assms show ?thesis by (simp add: at_rest_def wire_ready_def)
  qed
  with assms show "dec_at (sanei_w_set_dir w WIRE_DECODE) 3 (w_allocated w) (avail (w_rd w))"
    "reading (sanei_w_set_dir w WIRE_DECODE)" "w_sent (sanei_w_set_dir w WIRE_DECODE) = w_sent w"
    "w_wr (sanei_w_set_dir w WIRE_DECODE) = w_wr w"
    by (auto simp: at_rest_def wire_ready_def io_good_def dec_at_def reading_def buf_ok_def in_stream_def slice_def)
qed

lemma handle_word:
  fixes h :: sane_word
  assumes "uint h < n" "n < 2 ^ 31"
  shows "h < word_of_int n" "0 \<le> sint h" "sint h = uint h"
proof -
  have "uint (word_of_int n :: sane_word) = n" using assms by (simp add: uint_word_of_int order_trans [OF uint_ge_0 [of h]])
  then show "h < word_of_int n" using assms by (simp add: word_less_def)
  have "uint h < 2 ^ 31" using assms by simp
  then show "sint h = uint h" by (simp add: sint_uint signed_take_bit_int_eq_self_iff order_trans [OF _ uint_ge_0 [of h]])
  then show "0 \<le> sint h" by simp
qed

section \<open>sane_get_parameters\<close>

lemma params_slow: "slow sanei_w_parameters"
  unfolding sanei_w_parameters_def copy_defs by (rule slowI) ((rule slow_seq, simp add: slows_refl)+, simp)

lemma get_params_slow: "slow sanei_w_get_parameters_reply"
  unfolding sanei_w_get_parameters_reply_def copy_defs
  by (rule slowI) (rule slow_seq, simp add: slows_refl, rule slow_bind [OF params_slow], simp, simp)

lemma daemon_params:
  assumes "at_rest (sd_wire s)" "unat (w_allocated (sd_wire s)) \<le> MAX_MEM"
    and in_use: "uint h < sd_num s" "sd_num s < 2 ^ 31" "get_slot s (uint h) = Some x" "hs_inuse x"
    and "b_params be (sd_be s) (hs_handle x) = (b', st, p)"
    and "avail (w_rd (sd_wire s)) = be32 SANE_NET_GET_PARAMETERS @ be32 h @ rest"
  shows "\<exists>s'. process_request scan be s = Some (s', 0) \<and> sd_be s' = b' \<and> sd_fault s' = sd_fault s \<and>
    sd_handle s' = sd_handle s \<and> w_sent (sd_wire s') = w_sent (sd_wire s) @ get_params_ser \<lparr>gpr_status = st, gpr_params = p\<rparr>"
proof -
  let ?w = "sanei_w_set_dir (sd_wire s) WIRE_DECODE" and ?r = "\<lparr>gpr_status = st, gpr_params = p\<rparr>"
  note r = at_rest_reads [OF assms(1)]
  note hw = handle_word [OF in_use(1,2)]
  obtain w1 where 1: "sanei_w_word ?w (w_junk ?w) = (w1, SANE_NET_GET_PARAMETERS)" "dec_at w1 3 (w_allocated (sd_wire s)) (be32 h @ rest)"
    using word_dec_step [OF r(1) [unfolded assms(8)] assms(2)] by blast
  have k1: "kept ?w w1" using safe_step [OF word_safe, of ?w ?w "w_junk ?w"] 1(1) r(2) by simp
  obtain w2 where 2: "sanei_w_word w1 (w_junk w1) = (w2, h)" "dec_at w2 3 (w_allocated (sd_wire s)) rest"
    using word_dec_step [OF 1(2) assms(2)] by blast
  have k2: "kept ?w w2" using safe_step [OF word_safe k1, of "w_junk w1"] 2(1) by simp
  have w2: "wire_ready w2 3" "flushed (w2\<lparr>w_status := 0\<rparr>) = w_sent (sd_wire s)" "\<not> w_fault w2" "\<not> w_fault w1" "w_status w2 = 0" "w_status w1 = 0"
    using 1(2) 2(2) k2 r(3,4) assms(1)
    by (auto simp: wire_ready_def dec_at_def buf_ok_def kept_def flushed_def at_rest_def)
  obtain w3 where 3: "sanei_w_reply w2 sanei_w_get_parameters_reply ?r = (w3, ?r)" "wire_ready w3 3"
    "w_sent w3 = w_sent (sd_wire s) @ get_params_ser ?r"
    using get_params_codec.reply_sent [OF w2(1), of ?r] w2(2) by auto
  have "\<not> w_fault w3" using 3(2) by (simp add: wire_ready_def buf_ok_def)
  have nle: "\<not> word_of_int (sd_num s) \<le> h" using leD [OF _ , of "word_of_int (sd_num s)" h] hw(1) by blast
  have dh: "decode_handle (s\<lparr>sd_wire := w1, sd_request := SANE_NET_GET_PARAMETERS\<rparr>) =
      (s\<lparr>sd_wire := w2, sd_request := SANE_NET_GET_PARAMETERS\<rparr>, h)"
    using 2(1) w2(3,5) nle in_use by (simp add: decode_handle_def on_wire_def get_slot_def)
  have "process_request scan be s = Some (rpc_params be (s\<lparr>sd_wire := w1, sd_request := SANE_NET_GET_PARAMETERS\<rparr>))"
    using 1(1) w2(4,6) by (simp add: process_request_def on_wire_def Let_def)
  also have "\<dots> = Some (s\<lparr>sd_wire := w3, sd_request := SANE_NET_GET_PARAMETERS, sd_be := b'\<rparr>, 0)"
    using dh hw in_use(3) assms(7) 3(1) \<open>\<not> w_fault w3\<close>
    by (simp add: rpc_params_def send_reply_def on_wire_def get_slot_def)
  finally show ?thesis using 3(3) by simp
qed

text \<open> C4: asking for the parameters of a remote device.  When the daemon reads what the client sends for
  \<open>sane_get_parameters\<close>, and the client what the daemon answers, the frontend gets exactly the
  status and the parameters of the daemon's backend for the device behind that handle, and the
  client notes the depth of the samples; however the streams are cut.\<close>

theorem parameters_end_to_end:
  assumes client: "get_scanner c k = Some sc" "ns_hw sc < length (nc_devs c)" "w = nd_wire (get_dev c (ns_hw sc))"
      "wire_ready w 3" "io_good w" "unat (w_allocated w) \<le> MAX_MEM"
    and daemon: "at_rest (sd_wire s)" "unat (w_allocated (sd_wire s)) \<le> MAX_MEM" "uint (ns_handle sc) < sd_num s" "sd_num s < 2 ^ 31"
      "get_slot s (uint (ns_handle sc)) = Some x" "hs_inuse x"
    and backend: "b_params be (sd_be s) (hs_handle x) = (b', st, p)"
    and to_server: "avail (w_rd (sd_wire s)) = new_bytes w (fst (sanei_w_call w SANE_NET_GET_PARAMETERS sanei_w_word
      (ns_handle sc) sanei_w_get_parameters_reply (ce_params_junk env))) @ rest'"
    and run: "process_request scan be s = Some (s', r)"
    and to_client: "avail (w_rd w) = drop (length (w_sent (sd_wire s))) (w_sent (sd_wire s')) @ rest"
  shows "r = 0 \<and> sd_be s' = b' \<and> sd_fault s' = sd_fault s \<and>
    (\<exists>c'. sane_get_parameters env k True c = (c', st, Some p) \<and> nc_depth c' = par_depth p \<and> nc_fault c' = nc_fault c)"
proof -
  let ?r = "\<lparr>gpr_status = st, gpr_params = p\<rparr>"
  have sends: "avail (w_rd (sd_wire s)) = be32 SANE_NET_GET_PARAMETERS @ be32 (ns_handle sc) @ rest'"
    using to_server parameters_rpc.call_sends [OF client(4,5)] by simp
  note d = daemon_params [OF daemon backend sends, of scan]
  then have s': "r = 0" "sd_be s' = b'" "sd_fault s' = sd_fault s" "w_sent (sd_wire s') = w_sent (sd_wire s) @ get_params_ser ?r"
    using run by auto
  then have "avail (w_rd w) = get_params_ser ?r @ rest" using to_client by simp
  then obtain w' where w': "sanei_w_call w SANE_NET_GET_PARAMETERS sanei_w_word (ns_handle sc) sanei_w_get_parameters_reply
      (ce_params_junk env) = (w', ns_handle sc, ?r)" "\<not> w_fault w'" "w_status w' = 0"
    using parameters_rpc.call_ok [OF client(4), where a = "ns_handle sc" and r = ?r and rest = rest] client(5,6)
    by (fastforce simp: io_good_def)
  obtain w2 r2 where f: "sanei_w_free w' sanei_w_get_parameters_reply ?r = (w2, r2)" by fastforce
  have f2: "\<not> w_fault w2"
  proof -
    have "live w" using client(4,5) by (auto simp: wire_ready_def buf_ok_def io_good_def live_def)
    moreover have "calms w w'"
      using call_calms [OF word_slow get_params_slow, of w SANE_NET_GET_PARAMETERS "ns_handle sc" "ce_params_junk env"] w'(1) by simp
    ultimately have "w_codec w' = Codec_Bin" by (simp add: calms_def live_def)
    then have "w2 = w'\<lparr>w_allocated := w_allocated w' - word_of_nat 0\<rparr>"
      using free_at [OF get_params_codec.release [of _ ?r], of "w'\<lparr>w_direction := WIRE_FREE\<rparr>" "w_version w'"] f
      by (cases w') (simp add: sanei_w_free_def)
    with w'(2) show ?thesis by simp
  qed
  let ?c1 = "set_dev (ns_hw sc) (\<lambda>d. d\<lparr>nd_wire := w'\<rparr>) c"
  have 1: "on_dev (ns_hw sc) (\<lambda>w. sanei_w_call w SANE_NET_GET_PARAMETERS sanei_w_word (ns_handle sc) sanei_w_get_parameters_reply
      (ce_params_junk env)) c = (?c1, ns_handle sc, ?r)"
    using w' client(3) by (simp add: on_dev_def nc_check_def)
  let ?c2 = "?c1\<lparr>nc_depth := par_depth p\<rparr>"
  have 2: "fst (on_dev (ns_hw sc) (\<lambda>w. sanei_w_free w sanei_w_get_parameters_reply ?r) ?c2) =
      set_dev (ns_hw sc) (\<lambda>d. d\<lparr>nd_wire := w2\<rparr>) ?c2"
    using f f2 client(2) by (simp add: on_dev_def nc_check_def set_dev_def get_dev_def)
  show ?thesis using s' client(1,2) 1 2 by (simp add: sane_get_parameters_def set_dev_def)
qed

definition ex_params :: sane_parameters where
  "ex_params = \<lparr>par_format = 1, par_last_frame = 1, par_bytes_per_line = 300, par_pixels_per_line = 100, par_lines = 7, par_depth = 16\<rparr>"

definition ex_remote_client :: net_client where
  "ex_remote_client = set_dev 0 (\<lambda>d. d\<lparr>nd_wire := ex_wire\<lparr>w_rd := [RData [0, 0, 0, 0, 0], RData (drop 5 (get_params_ser
     \<lparr>gpr_status = 0, gpr_params = ex_params\<rparr>))]\<rparr>\<rparr>) (ex_reader [])"

definition ex_remote_daemon :: "unit saned" where
  "ex_remote_daemon = ex_saned 0 [zero_slot\<lparr>hs_inuse := True\<rparr>] (ex_wire\<lparr>w_rd := [RData [0, 0, 0], RData [6, 0, 0, 0, 0]]\<rparr>)"

lemma parameters_end_to_end_witness:
  "\<exists>c'. sane_get_parameters ex_client_env 0 True ex_remote_client = (c', 0, Some ex_params) \<and> nc_depth c' = 16"
proof -
  let ?be = "ex_backend\<lparr>b_params := \<lambda>b h. (b, 0, ex_params)\<rparr>" and ?w = "nd_wire (get_dev ex_remote_client 0)"
  let ?run = "process_request (\<lambda>_ _ _. None) ?be ex_remote_daemon"
  have run: "?run \<noteq> None" by code_simp
  then obtain s' r where s': "?run = Some (s', r)" by (metis option.exhaust surj_pair)
  have "avail (w_rd ?w) = w_sent (sd_wire (fst (the ?run)))" by code_simp
  with s' have to_client: "avail (w_rd ?w) = drop (length (w_sent (sd_wire ex_remote_daemon))) (w_sent (sd_wire s')) @ []"
    by (simp add: ex_remote_daemon_def ex_saned_def ex_wire_def)
  have to_server: "avail (w_rd (sd_wire ex_remote_daemon)) = new_bytes ?w (fst (sanei_w_call ?w SANE_NET_GET_PARAMETERS sanei_w_word
      (ns_handle (new_scanner 0 0)) sanei_w_get_parameters_reply (ce_params_junk ex_client_env))) @ []"
    by code_simp
  have wires: "wire_ready ?w 3" "io_good ?w" "w_allocated ?w = 0" "at_rest (sd_wire ex_remote_daemon)" "w_allocated (sd_wire ex_remote_daemon) = 0"
    by (simp_all add: ex_remote_client_def ex_remote_daemon_def ex_saned_def ex_reader_def set_dev_def get_dev_def wire_ready_def
        io_good_def at_rest_def buf_ok_def ex_wire_def)
  have sc: "get_scanner ex_remote_client 0 = Some ((new_scanner 0 0)\<lparr>ns_data := 5, ns_stream := []\<rparr>)" "0 < length (nc_devs ex_remote_client)"
    by (simp_all add: ex_remote_client_def ex_reader_def set_dev_def get_scanner_def)
  have slot: "sd_num ex_remote_daemon = 1" "get_slot ex_remote_daemon 0 = Some (zero_slot\<lparr>hs_inuse := True\<rparr>)"
    by (simp_all add: ex_remote_daemon_def ex_saned_def get_slot_def blk_get_def)
  show ?thesis
    using parameters_end_to_end [OF sc(1) _ _ wires(1,2) _ wires(4) _ _ _ _ _ _ _ s' to_client,
        where x = "zero_slot\<lparr>hs_inuse := True\<rparr>" and env = ex_client_env and rest' = "[]" and st = 0 and b' = "()" and p = ex_params]
      sc(2) wires(3,5) slot to_server
    by (auto simp: new_scanner_def) (auto simp: ex_params_def)
qed

end
