(* ===== verification/Spec2Isabelle.thy ===== *)
theory Spec2Isabelle
  imports Net_Pnm Pnm_Inv Pnm_Faults Dll_Examples Config_Attach_Props Constrain_Props Net_Props Config_Props Saned_Access_Props Saned_Handles Saned_Rpc_Props Saned_Faults Sanei_Auth_Props
    Net_End_To_End Net_Swap Net_Names Net_Table Net_Reach Net_Live Net_Remote
begin

text \<open>
  A verification library for SANE, the interface between programs that want an image and the
  drivers of scanners.  Modelled is the part of the package every remote scan goes through: the
  data of the interface, the checking of option values, the network protocol with its buffers and
  codecs, the daemon \<^verbatim>\<open>saned\<close> that serves a scanner to the network, the network backend through
  which a frontend reaches it, the loader that finds and calls the backends, the files that configure
  them, the password check in front of a device, and one whole backend, the virtual scanner \<^verbatim>\<open>pnm\<close>.

  \<^bold>\<open>How the parts interact.\<close>  A client packs a procedure number and an argument into its wire
  (\<open>sanei_w_call\<close>), the wire moves bytes through a buffer of a socket (\<open>sanei_w_space\<close>), and the
  daemon unpacks them with the same codec functions, run in the other direction.  The daemon admits
  a host by its configuration files (\<open>check_host\<close>), keeps a table of open devices
  (\<open>get_free_handle\<close>, \<open>decode_handle\<close>), calls the operations of the backend it is linked with, and
  answers (\<open>sanei_w_reply\<close>).  A backend may call back for a password; the callback
  runs a dialogue of its own on the same wire (\<open>auth_callback\<close>), and \<open>sanei_authorize\<close> decides by the
  file of users and the digest of \<^verbatim>\<open>lib/md5.c\<close>.  An image takes a second connection: \<open>do_scan\<close>
  moves it through a ring buffer in records of a length and data, while it goes on serving requests.
  At the other end the network backend offers the SANE API to a frontend: it finds hosts
  (\<open>sane_init\<close>, \<open>add_device\<close>), connects (\<open>connect_dev\<close>), passes each call on as a remote call, keeps
  copies of the option descriptors (\<open>fetch_options\<close>), answers requests for a password through the
  frontend's callback (\<open>do_authorization\<close>), and takes the records of the image apart (\<open>sane_read\<close>).
  In front of every backend stands the loader \<^verbatim>\<open>dll\<close>, which a frontend and the daemon are linked with: it
  reads the names of the backends and the aliases (\<open>sane_init_dll\<close>), loads a library when it is first
  needed (\<open>load_be\<close>, \<open>init_be\<close>), joins the lists of devices (\<open>sane_get_devices_dll\<close>), and passes a call on a
  handle to the function of the handle's backend (\<open>meta_op\<close>).  The backend \<^verbatim>\<open>pnm\<close> stands for what is called
  in the end: it keeps a table of options, checks what a frontend sets with \<open>sanei_constrain_value\<close>, and
  delivers the contents of a file as an image.

  \<^bold>\<open>Theories and sources.\<close>

  \<^item> \<open>Sane_Prelude\<close>: machine types, memory blocks, the C library's string functions; the shared lemma
    collections.  \<open>Sane_Types\<close>: the structures, enumerators and version codes of
    \<^verbatim>\<open>include/sane/sane.h\<close>.
  \<^item> \<open>Constrain\<close>, \<open>Constrain_Props\<close>: \<^verbatim>\<open>sanei/sanei_constrain_value.c\<close>.
  \<^item> \<open>Wire\<close>: the wire and its buffer, \<^verbatim>\<open>include/sane/sanei_wire.h\<close> and the first part of
    \<^verbatim>\<open>sanei/sanei_wire.c\<close>.  \<open>Codec\<close>: \<^verbatim>\<open>sanei/sanei_codec_bin.c\<close> and
    \<^verbatim>\<open>sanei/sanei_codec_ascii.c\<close>.  \<open>Wire_Array\<close>, \<open>Wire_Struct\<close>: the combinators and
    structures of \<^verbatim>\<open>sanei/sanei_wire.c\<close>, and the three ways a message moves.  \<open>Net_Msg\<close>: the
    messages of \<^verbatim>\<open>sanei/sanei_net.c\<close>.
  \<^item> \<open>Wire_Laws\<close>, \<open>Wire_Codecs\<close>, \<open>Wire_Option\<close>, \<open>Wire_Safe\<close>, \<open>Net_Laws\<close>, \<open>Net_Props\<close>: the laws of these
    codecs.
  \<^item> \<open>Config\<close>, \<open>Config_Props\<close>: the search path, the lines and tokens of \<^verbatim>\<open>sanei/sanei_config.c\<close>;
    \<open>Config_Attach\<close>, \<open>Config_Attach_Props\<close>: the configuration file of a driver.
  \<^item> \<open>Md5\<close>, \<open>Md5_Rfc\<close>, \<open>Md5_Props\<close>: \<^verbatim>\<open>lib/md5.c\<close>, and RFC 1321 stated by itself.
  \<^item> \<open>Saned_Access\<close>: host access, \<open>Saned_State\<close>: the globals and the handle table, \<open>Saned_Scan\<close>: the
    data connection, \<open>Saned_Rpc\<close>: the requests of \<^verbatim>\<open>frontend/saned.c\<close>; \<open>Saned_Access_Props\<close>,
    \<open>Saned_Handles\<close>, \<open>Saned_Ring\<close>, \<open>Saned_Frames\<close>, \<open>Saned_Rpc_Props\<close>, \<open>Saned_Faults\<close>: their lemmas.
  \<^item> \<open>Sanei_Auth\<close>, \<open>Sanei_Auth_Props\<close>: \<^verbatim>\<open>sanei/sanei_auth.c\<close>, and the daemon with it.
  \<^item> \<open>Net_Client\<close>: hosts and connections, \<open>Net_Ops\<close>: devices and handles, \<open>Net_Calls\<close>: options and the start
    of a scan, \<open>Net_Read\<close>: the image, of \<^verbatim>\<open>backend/net.c\<close>, with the structures of \<^verbatim>\<open>backend/net.h\<close>.
    \<open>Net_Names\<close>: device and host names, \<open>Net_Table\<close>: the device list, \<open>Net_Inv\<close>, \<open>Net_Reach\<close>: the
    invariant of its state under all calls, \<open>Wire_Live\<close>, \<open>Net_Live\<close>: what the loops that wait for an
    authorization do when the connection ends,
    \<open>Net_Image\<close>, \<open>Net_Swap\<close>: one and many calls of \<open>sane_read\<close>; \<open>Net_Examples\<close>: states for runs.
  \<^item> \<open>Dll\<close>: the registry of backends, loading and the configuration, \<open>Dll_Ops\<close>: devices and handles, of
    \<^verbatim>\<open>backend/dll.c\<close>; names that another theory has carry the suffix \<open>_dll\<close>.  \<open>Dll_Config\<close>: what the
    configuration files mean, \<open>Dll_Inv\<close>, \<open>Dll_Reach\<close>: the invariant under all calls, \<open>Dll_Devices\<close>: the
    list of devices against its specification, \<open>Dll_Open\<close>: names and aliases, \<open>Dll_Faults\<close>: where the
    loader fails, \<open>Dll_Examples\<close>: an installation for runs.
  \<^item> \<open>Pnm\<close>: options, settings and devices, \<open>Pnm_Scan\<close>: parameters, start and image, of \<^verbatim>\<open>backend/pnm.c\<close>; names
    that another theory has carry the suffix \<open>_pnm\<close>.  \<open>Pnm_Image\<close>: the image a scan delivers, \<open>Pnm_Inv\<close>:
    the invariant under all calls, \<open>Pnm_Faults\<close>: where the backend fails.
  \<^item> \<open>Net_End_To_End\<close>, \<open>Net_Remote\<close>: client and daemon together, for an image and for a call; \<open>Net_Pnm\<close>: with
    the PNM backend behind them.

  \<^bold>\<open>Conventions.\<close>  A definition has the name of the C function or of a part of it that its comment
  names.  A pointer is an option, a block of memory the list of its elements; an access outside of a
  block is a value of its own: \<open>None\<close> for functions on blocks, a fault flag of the state for the
  wire, the daemon, the client and the loader.  What follows a fault is
  modelled as far as the code's next steps do not depend on the foreign memory (\<open>check_v6_in_range\<close> goes
  on after it has written past its mask); a string or block that was freed and not replaced is one without
  bytes, and its use is a fault.  What the operating system does (how many bytes a \<open>read\<close> or \<open>write\<close> moves,
  which \<open>malloc\<close> fails, when \<open>select\<close> returns) is a script in the state that the operations consume;
  the resolver, the files, the backend and its authorization are arguments.  A script is finite: every
  connection ends at last, so nothing is said of a peer that stays connected and silent, or that sends
  for ever; \<open>read\<close> refuses a count above \<open>SSIZE_MAX\<close>, as on Linux.  Uninitialised words hold
  an arbitrary value.  The machine is the little-endian LP64 one; \<open>int\<close>s are 32-bit words where they
  can overflow or cross the wire.

  \<^bold>\<open>The interfaces.\<close>  \<open>wire_codec\<close> is the contract of a codec function for the values of a type:
  encoding appends the bytes \<open>ser v\<close>, decoding them yields \<open>v\<close> however they are cut into pieces and
  charges \<open>cost v\<close> bytes, freeing gives these back; arrays and pointers inherit it.  \<open>wire_decoder\<close> is the
  contract that decoding is safe on every input.  \<open>wire_rpc\<close> joins an argument and a reply codec, and
  gives the laws of a whole remote call.  All three are interpreted on the codecs of the program, once
  per message.  The client has a state relation of its own, \<open>client_step\<close>, one rule per call of the API,
  and \<open>client_reach\<close> for the states that follow \<open>sane_init\<close>; so have the loader, \<open>dll_step\<close> and \<open>dll_reach\<close>,
  and the PNM backend, \<open>pnm_step\<close> and \<open>pnm_reach\<close>.
  \<open>dll_reader\<close> is the contract of what the loader does with a line of a configuration file; it is
  interpreted on the lines of \<^verbatim>\<open>dll.conf\<close> and of \<^verbatim>\<open>dll.aliases\<close>, and gives what whole files and
  directories keep.

  \<^bold>\<open>What is shown.\<close>  Remote calls deliver request and reply unchanged for any fragmentation; decoders
  keep inside their buffers on hostile input and the memory they charge is released.  Values
  adjusted to a constraint fit it, and the cases where the check still refuses them are exactly
  described.  Access to the daemon is decided by its policy, address ranges compare prefixes, a closed
  handle reaches no operation, the handle table hands out free slots, and an image goes over the
  data connection as the records of what the backend delivered.  The digest is that of RFC 1321 for
  every way of feeding it, and a password opens a device exactly by the entries of the file.  The image a
  frontend reads is the one the daemon's backend delivered, a remote call for the parameters is
  the call of that backend, the client's state stays well-formed under every call, the names it
  offers are the names it opens, and opening a device ends once the connection does.  The final status of
  an image is that of the backend, or the end of the image when the data connection broke.  Samples of 16
  bits arrive exchanged when the orders of the bytes differ, as long as no longer read meets a held-back byte;
  what such a read gives is stated too.  The loader tries
  the backends in the documented order, lists the devices of those that work, opens what it lists, and
  under no sequence of calls of a frontend that keeps to the interface (live handles, one \<open>sane_init\<close>, no name that
  leads to the loader itself) uses an invalid pointer while memory lasts.  A driver's configuration file
  leaves only option values that pass the check.  The PNM backend delivers the image of its file for any sizes
  of the reads, to a frontend of its own and, through daemon and network, to one on another machine, and its settings fit their
  descriptors under every sequence of calls, unless one asks for an automatic gamma table, which is written past a variable.  Several
  theorems state where the code fails: they name the condition and give a run.

  \<^bold>\<open>Bounds and fuel.\<close>  \<open>skip_ws\<close>, \<open>ascii_get_chars\<close> and the loops over files (\<open>file_loop\<close>,
  \<open>find_resource\<close>, \<open>find_user\<close>) take the number of bytes that can still arrive plus one as fuel, and
  every turn consumes a byte.  The loops that may not end (\<open>find_handle\<close>, \<open>get_free_handle\<close>,
  \<open>bind_loop\<close>, and the client's \<open>open_loop\<close>, \<open>control_loop\<close> and \<open>start_loop\<close>, which wait for a reply
  without a request for a password, and those of the PNM backend that skip comments, \<open>get_line\<close>,
  \<open>skip_comments\<close> and \<open>skip_header\<close>) are partial functions whose divergence is the value \<open>None\<close>.
  \<open>init_loop\<close>, \<open>config_loop\<close> and \<open>attach_loop\<close> take the length of the file plus one, as each line uses up a byte.  Requests inside a scan inside
  a request nest up to the depth given to \<open>saned_request\<close>.  The ring buffer theorems ask for at
  least nine bytes and less than \<open>2 ^ 31\<close>; the program uses 1 MB.  Pieces given to the digest
  are below 4 GB.

  \<^bold>\<open>Not modelled.\<close>  The drivers of single scanners and of other virtual ones in \<^verbatim>\<open>backend/\<close> (they exchange commands with
  hardware through USB, SCSI or parallel ports, each by its own protocol), the browsing for servers
  with Avahi and the variant of the network backend without \<open>getaddrinfo\<close>, the variants of the loader for
  systems without \<open>dlopen\<close>, the library code
  that reaches the hardware, the service loop of the daemon (sockets, \<open>fork\<close>, Avahi, signals), the command
  line programs, the build and the documentation.
\<close>

end
